(* ===== verification/Prelude.thy ===== *)
theory Prelude
  imports Complex_Main "HOL-Library.AList"
begin

text \<open>
  Shared vocabulary of the development.

  A Python \<open>dict\<close> (and \<open>OrderedDict\<close>) whose size or iteration order matters is an
  association list in insertion order: \<open>d.get(k)\<close> is \<^term>\<open>map_of d k\<close>,
  \<open>d[k] = v\<close> is \<^term>\<open>AList.update k v d\<close> (in place for a present key, at the end for a
  new one, as Python does) and \<open>d.pop(k, None)\<close> is \<^term>\<open>AList.delete k d\<close>.

  An operation that may raise returns \<^typ>\<open>'e + 'a\<close>, with \<open>Inl\<close> for the exception, and
  always returns the state beside it, because a Python exception does not undo what was
  mutated before it was raised.

  Two locales carry the induction over a sequence of operations once for every component:
  \<open>invariant_machine\<close> (what every operation keeps, every run keeps) and
  \<open>monotone_machine\<close> (what no operation undoes, no run undoes).
\<close>

section \<open>Dictionaries\<close>

type_synonym ('k, 'v) dict = "('k \<times> 'v) list"

abbreviation dget :: "('k, 'v) dict \<Rightarrow> 'k \<Rightarrow> 'v option" where
  "dget d k \<equiv> map_of d k"

abbreviation dset :: "'k \<Rightarrow> 'v \<Rightarrow> ('k, 'v) dict \<Rightarrow> ('k, 'v) dict" where
  "dset k v d \<equiv> AList.update k v d"

abbreviation dpop :: "'k \<Rightarrow> ('k, 'v) dict \<Rightarrow> ('k, 'v) dict" where
  "dpop k d \<equiv> AList.delete k d"

abbreviation dkeys :: "('k, 'v) dict \<Rightarrow> 'k list" where
  "dkeys d \<equiv> map fst d"

text \<open>\<open>dict.setdefault(k, v)\<close>: store \<open>v\<close> unless the key is already there.\<close>

definition dsetdefault :: "'k \<Rightarrow> 'v \<Rightarrow> ('k, 'v) dict \<Rightarrow> ('k, 'v) dict" where
  "dsetdefault k v d = (case dget d k of None \<Rightarrow> dset k v d | Some _ \<Rightarrow> d)"

named_theorems dict_simps

lemma dget_dset [dict_simps]: "dget (dset k v d) x = (if x = k then Some v else dget d x)"
  by (simp add: update_conv)

lemma dget_dpop [dict_simps]: "dget (dpop k d) x = (if x = k then None else dget d x)"
  by (simp add: delete_conv)

lemma set_dkeys_dset [dict_simps]: "set (dkeys (dset k v d)) = insert k (set (dkeys d))"
  by (induction d) auto

lemma set_dkeys_dpop [dict_simps]: "set (dkeys (dpop k d)) = set (dkeys d) - {k}"
  by (auto simp: AList.delete_eq)

lemma dget_filter_key [dict_simps]:
  "dget (filter (\<lambda>p. P (fst p)) d) k = (if P k then dget d k else None)"
  by (induction d) auto

lemma distinct_dset: "distinct (dkeys d) \<Longrightarrow> distinct (dkeys (dset k v d))"
  by (rule distinct_update)

lemma distinct_dpop: "distinct (dkeys d) \<Longrightarrow> distinct (dkeys (dpop k d))"
  by (rule distinct_delete)

lemma distinct_dkeys_filter: "distinct (dkeys d) \<Longrightarrow> distinct (dkeys (filter P d))"
  by (rule distinct_map_filter)

lemma length_dset: "length (dset k v d) = (if k \<in> set (dkeys d) then length d else Suc (length d))"
  by (induction d) auto

lemma length_dset_le: "length (dset k v d) \<le> Suc (length d)"
  by (simp add: length_dset)

lemma length_dpop_le: "length (dpop k d) \<le> length d"
  by (rule length_delete_le)

lemma length_dpop_less: "k \<in> set (dkeys d) \<Longrightarrow> length (dpop k d) < length d"
proof (induction d)
  case Nil
  then show ?case by simp
next
  case (Cons p d)
  then show ?case
    using length_dpop_le [of k d] by (cases "fst p = k") (auto simp: less_Suc_eq_le)
qed

lemma dpop_absent: "k \<notin> set (dkeys d) \<Longrightarrow> dpop k d = d"
  by (rule delete_id) simp

lemma dset_absent: "k \<notin> set (dkeys d) \<Longrightarrow> dset k v d = d @ [(k, v)]"
  by (induction d) auto

lemma dset_back: "dget d k = Some v \<Longrightarrow> dset k v (dset k w d) = d"
  by (induction d) (auto split: if_splits)

lemma set_dpop_subset: "set (dpop k d) \<subseteq> set d"
  by (auto simp: AList.delete_eq)

lemma set_dset_subset: "set (dset k v d) \<subseteq> insert (k, v) (set d)"
  by (induction d) auto

lemma values_dpop: "snd ` set (dpop k d) \<subseteq> snd ` set d"
  by (intro image_mono set_dpop_subset)

lemma values_dset: "snd ` set (dset k v d) \<subseteq> insert v (snd ` set d)"
  using image_mono [OF set_dset_subset [of k v d], of snd] by simp

lemma dget_in_set: "dget d k = Some v \<Longrightarrow> (k, v) \<in> set d"
  by (rule map_of_SomeD)

lemma dget_None_iff: "dget d k = None \<longleftrightarrow> k \<notin> set (dkeys d)"
  by (simp add: map_of_eq_None_iff)

lemma distinct_dict_subset_length:
  assumes "distinct (dkeys d)" and "set (dkeys d) \<subseteq> A" and "finite A"
  shows "length d \<le> card A"
proof -
  have "length d = card (set (dkeys d))"
    using distinct_card [OF assms(1)] by simp
  also have "\<dots> \<le> card A"
    by (rule card_mono [OF assms(3,2)])
  finally show ?thesis .
qed

lemmas distinct_dict = distinct_dset distinct_dpop distinct_dkeys_filter

section \<open>Dropping the oldest entries\<close>

text \<open>\<open>while len(d) > cap: d.popitem(last=False)\<close>\<close>

fun trim_front :: "nat \<Rightarrow> 'a list \<Rightarrow> 'a list" where
  "trim_front cap [] = []"
| "trim_front cap (x # xs) = (if length (x # xs) > cap then trim_front cap xs else x # xs)"

lemma trim_front_drop: "trim_front cap xs = drop (length xs - cap) xs"
  by (induction xs) (auto simp: Suc_diff_le)

lemma length_trim_front: "length (trim_front cap xs) \<le> cap"
  by (simp add: trim_front_drop)

lemma set_trim_front: "set (trim_front cap xs) \<subseteq> set xs"
  by (simp add: trim_front_drop set_drop_subset)

lemma distinct_dkeys_trim_front:
  "distinct (dkeys d) \<Longrightarrow> distinct (dkeys (trim_front cap d))"
  by (simp add: trim_front_drop drop_map [symmetric])

section \<open>The first that qualifies\<close>

text \<open>
  \<open>next((x for x in xs if P(x)), next(iter(xs)))\<close> on a non-empty \<open>xs\<close>: the first element
  with \<open>P\<close>, or the first element when none has it.
\<close>

definition first_or_head :: "('a \<Rightarrow> bool) \<Rightarrow> 'a list \<Rightarrow> 'a" where
  "first_or_head P xs = (case filter P xs of x # _ \<Rightarrow> x | [] \<Rightarrow> hd xs)"

lemma first_or_head_find:
  "first_or_head P xs = (case find P xs of Some x \<Rightarrow> x | None \<Rightarrow> hd xs)"
proof -
  have "find P xs = (case filter P xs of [] \<Rightarrow> None | x # _ \<Rightarrow> Some x)"
    by (induction xs) auto
  then show ?thesis
    by (cases "filter P xs") (auto simp: first_or_head_def)
qed

lemma find_in_set: "find P xs = Some x \<Longrightarrow> x \<in> set xs \<and> P x"
  by (auto simp: find_Some_iff)

lemma first_or_head_in: "xs \<noteq> [] \<Longrightarrow> first_or_head P xs \<in> set xs"
  by (auto simp: first_or_head_find find_Some_iff split: option.splits)

lemma first_or_head_sat: "x \<in> set xs \<Longrightarrow> P x \<Longrightarrow> P (first_or_head P xs)"
  by (auto simp: first_or_head_find find_Some_iff find_None_iff split: option.splits)

section \<open>Values\<close>

text \<open>JSON-like values: what the payloads, rosters and ledger bodies hold.\<close>

datatype json =
    JNull
  | JBool bool
  | JInt int
  | JReal rat
  | JStr string
  | JArr "json list"
  | JObj "(string \<times> json) list"

fun json_opt :: "('a \<Rightarrow> json) \<Rightarrow> 'a option \<Rightarrow> json" where
  "json_opt f None = JNull"
| "json_opt f (Some x) = f x"

text \<open>\<open>a.update(b)\<close> on dictionaries: every pair of \<open>b\<close> assigned in order.\<close>

definition dupdate :: "('k, 'v) dict \<Rightarrow> ('k, 'v) dict \<Rightarrow> ('k, 'v) dict" where
  "dupdate d e = foldl (\<lambda>acc (k, v). dset k v acc) d e"

lemma dget_dupdate:
  "dget (dupdate d e) k = (case dget (rev e) k of Some v \<Rightarrow> Some v | None \<Rightarrow> dget d k)"
proof (induction e arbitrary: d)
  case Nil
  then show ?case by (simp add: dupdate_def)
next
  case (Cons p e)
  obtain a b where p: "p = (a, b)" by (cases p)
  have "dupdate d (p # e) = dupdate (dset a b d) e"
    by (simp add: dupdate_def p)
  with Cons.IH [of "dset a b d"] show ?case
    by (auto simp: p map_add_def dict_simps split: option.splits)
qed

lemma dget_dupdate_absent: "k \<notin> set (dkeys e) \<Longrightarrow> dget (dupdate d e) k = dget d k"
  by (simp add: dget_dupdate map_of_eq_None_iff [THEN iffD2])

section \<open>Text\<close>

text \<open>
  Python's \<open>str.strip\<close>, on the ASCII whitespace Python strips: tab, line feed, vertical
  tab, form feed, carriage return, the four separators 28 to 31, and space.
\<close>

definition py_space :: "char \<Rightarrow> bool" where
  "py_space c \<longleftrightarrow> (let n = of_char c :: nat in (9 \<le> n \<and> n \<le> 13) \<or> (28 \<le> n \<and> n \<le> 32))"

definition lstrip :: "string \<Rightarrow> string" where
  "lstrip s = dropWhile py_space s"

definition strip :: "string \<Rightarrow> string" where
  "strip s = rev (lstrip (rev (lstrip s)))"

lemma lstrip_idem: "lstrip (lstrip s) = lstrip s"
  by (simp add: lstrip_def)

lemma lstrip_fixed_iff: "lstrip s = s \<longleftrightarrow> s = [] \<or> \<not> py_space (hd s)"
proof (cases s)
  case (Cons c t)
  have "length (dropWhile py_space t) \<le> length t"
    by (rule length_dropWhile_le)
  then have "dropWhile py_space t \<noteq> c # t"
    by auto
  then show ?thesis by (simp add: lstrip_def Cons)
qed (simp add: lstrip_def)

lemma strip_hd: "strip s = [] \<or> hd (strip s) = hd (lstrip s)"
proof (cases "lstrip s")
  case Nil
  then have "strip s = []" by (simp add: strip_def) (simp add: lstrip_def)
  then show ?thesis ..
next
  case (Cons c t)
  have "strip s = rev (dropWhile py_space (rev t @ [c]))"
    by (simp add: strip_def Cons) (simp add: lstrip_def)
  then show ?thesis
    by (auto simp: Cons dropWhile_append)
qed

lemma lstrip_strip: "lstrip (strip s) = strip s"
proof (cases "strip s = []")
  case True
  then show ?thesis by (simp add: lstrip_def)
next
  case False
  then have ne: "lstrip s \<noteq> []"
    by (auto simp: strip_def lstrip_def [of "[]"])
  have "\<not> py_space (hd (lstrip s))"
    using hd_dropWhile [of py_space s] ne by (simp add: lstrip_def)
  with False strip_hd [of s] show ?thesis
    by (simp add: lstrip_fixed_iff)
qed

lemma strip_idem [simp]: "strip (strip s) = strip s"
proof -
  have "strip (strip s) = rev (lstrip (rev (strip s)))"
    by (simp add: strip_def [of "strip s"] lstrip_strip)
  also have "\<dots> = strip s"
    by (simp add: strip_def lstrip_idem)
  finally show ?thesis .
qed

text \<open>Python's \<open>str.casefold\<close> on ASCII text: the 26 capital letters become small ones.\<close>

definition fold_char :: "char \<Rightarrow> char" where
  "fold_char c = (let n = of_char c :: nat in if 65 \<le> n \<and> n \<le> 90 then char_of (n + 32) else c)"

definition casefold :: "string \<Rightarrow> string" where
  "casefold s = map fold_char s"

lemma fold_char_idem: "fold_char (fold_char c) = fold_char c"
  by (simp add: fold_char_def Let_def)

lemma casefold_idem [simp]: "casefold (casefold s) = casefold s"
  by (simp add: casefold_def fold_char_idem)

lemma py_space_fold: "py_space (fold_char c) = py_space c"
  by (auto simp: fold_char_def py_space_def Let_def)

lemma lstrip_casefold: "lstrip (casefold s) = casefold (lstrip s)"
  by (induction s) (auto simp: lstrip_def casefold_def py_space_fold)

lemma strip_casefold: "strip (casefold s) = casefold (strip s)"
  by (simp add: strip_def lstrip_casefold)
    (simp add: casefold_def rev_map lstrip_casefold [unfolded casefold_def])

text \<open>\<open>str.startswith\<close>\<close>

fun starts_with :: "string \<Rightarrow> string \<Rightarrow> bool" where
  "starts_with s [] = True"
| "starts_with [] (p # ps) = False"
| "starts_with (c # s) (p # ps) = (c = p \<and> starts_with s ps)"

lemma starts_with_append [simp]: "starts_with (p @ s) p"
  by (induction p) auto

lemma starts_with_iff: "starts_with s p \<longleftrightarrow> (\<exists>t. s = p @ t)"
  by (induction s p rule: starts_with.induct) auto

text \<open>\<open>str(n)\<close> of an integer; \<open>str\<close> and the truth of a JSON value. \<open>str\<close> of a number with a fraction, a
  list or a mapping is the library's: the argument \<open>rest\<close>.\<close>

fun nat_digits :: "nat \<Rightarrow> string" where
  "nat_digits n = (if n < 10 then [char_of (48 + n)] else nat_digits (n div 10) @ [char_of (48 + n mod 10)])"

declare nat_digits.simps [simp del]

definition int_string :: "int \<Rightarrow> string" where
  "int_string n = (if n < 0 then CHR ''-'' # nat_digits (nat (- n)) else nat_digits (nat n))"

definition str_of :: "(json \<Rightarrow> string) \<Rightarrow> json \<Rightarrow> string" where
  "str_of rest v =
     (case v of
        JStr s \<Rightarrow> s
      | JNull \<Rightarrow> ''None''
      | JBool b \<Rightarrow> if b then ''True'' else ''False''
      | JInt n \<Rightarrow> int_string n
      | _ \<Rightarrow> rest v)"

fun truthy :: "json \<Rightarrow> bool" where
  "truthy JNull = False"
| "truthy (JBool b) = b"
| "truthy (JInt n) = (n \<noteq> 0)"
| "truthy (JReal r) = (r \<noteq> 0)"
| "truthy (JStr s) = (s \<noteq> [])"
| "truthy (JArr xs) = (xs \<noteq> [])"
| "truthy (JObj d) = (d \<noteq> [])"

section \<open>Results that may be an error\<close>

definition and_then :: "'e + 'a \<Rightarrow> ('a \<Rightarrow> 'e + 'b) \<Rightarrow> 'e + 'b" where
  "and_then r f = (case r of Inl e \<Rightarrow> Inl e | Inr x \<Rightarrow> f x)"

lemma and_then_Inr: "and_then r f = Inr y \<longleftrightarrow> (\<exists>x. r = Inr x \<and> f x = Inr y)"
  by (auto simp: and_then_def split: sum.splits)

lemma and_then_simps [simp]: "and_then (Inl e) f = Inl e" "and_then (Inr x) f = f x"
  by (simp_all add: and_then_def)

text \<open>The results of a list in order, or the first exception; \<open>any(...)\<close>, which stops at the first true.\<close>

fun map_all :: "('a \<Rightarrow> 'e + 'b) \<Rightarrow> 'a list \<Rightarrow> 'e + 'b list" where
  "map_all f [] = Inr []"
| "map_all f (x # xs) = and_then (f x) (\<lambda>y. and_then (map_all f xs) (\<lambda>ys. Inr (y # ys)))"

fun any_of :: "('a \<Rightarrow> 'e + bool) \<Rightarrow> 'a list \<Rightarrow> 'e + bool" where
  "any_of f [] = Inr False"
| "any_of f (x # xs) = and_then (f x) (\<lambda>b. if b then Inr True else any_of f xs)"

lemma any_of_True: "any_of f xs = Inr True \<Longrightarrow> \<exists>x \<in> set xs. f x = Inr True"
  by (induction xs) (auto simp: and_then_Inr split: if_splits)

lemma any_of_False: "any_of f xs = Inr False \<longleftrightarrow> (\<forall>x \<in> set xs. f x = Inr False)"
  by (induction xs) (auto simp: and_then_def split: sum.splits if_splits)

lemma map_all_Inr: "map_all f xs = Inr ys \<longleftrightarrow> list_all2 (\<lambda>x y. f x = Inr y) xs ys"
proof (induction xs arbitrary: ys)
  case (Cons x xs)
  show ?case by (cases ys) (auto simp: and_then_Inr Cons.IH)
qed auto

lemma map_all_in: "map_all f xs = Inr ys \<Longrightarrow> y \<in> set ys \<Longrightarrow> \<exists>x \<in> set xs. f x = Inr y"
  by (induction xs arbitrary: ys) (auto simp: and_then_Inr)

lemma map_all_error: "x \<in> set xs \<Longrightarrow> \<exists>e. f x = Inl e \<Longrightarrow> \<exists>e. map_all f xs = Inl e"
  by (induction xs) (auto simp: and_then_def split: sum.splits)

section \<open>Runs of a machine\<close>

locale invariant_machine =
  fixes step :: "'op \<Rightarrow> 's \<Rightarrow> 's"
    and inv :: "'s \<Rightarrow> bool"
  assumes step_inv: "inv s \<Longrightarrow> inv (step x s)"
begin

lemma run_inv: "inv s \<Longrightarrow> inv (fold step xs s)"
  by (induction xs arbitrary: s) (auto intro: step_inv)

end

locale monotone_machine = invariant_machine +
  fixes le :: "'s \<Rightarrow> 's \<Rightarrow> bool"
  assumes le_refl: "le s s"
    and le_trans: "le s t \<Longrightarrow> le t u \<Longrightarrow> le s u"
    and step_le: "inv s \<Longrightarrow> le s (step x s)"
begin

lemma run_le: "inv s \<Longrightarrow> le s (fold step xs s)"
  by (induction xs arbitrary: s) (auto intro: le_refl le_trans step_le step_inv)

end

end
