(* ===== verification/PyUrl.thy ===== *)
theory PyUrl
  imports Prelude
begin

text \<open>
  What the exchange uses of Python's \<open>str\<close> and \<open>urllib.parse\<close> (Python 3.12), on texts whose code
  points are below 256: \<open>lower\<close>, \<open>casefold\<close>, \<open>isprintable\<close>, \<open>strip\<close>, \<open>rstrip\<close>, \<open>split\<close>, \<open>urlsplit\<close> and
  \<open>SplitResult.hostname\<close>, \<open>quote\<close> with no safe character and \<open>parse_qsl\<close>; and \<open>redact_addresses\<close> of
  \<open>apps/exchange/src/__init__.py\<close>. No text below 256 has a compatibility form that holds one of
  \<open>/?#@:\<close>, so \<open>urlsplit\<close>'s check of that never fails here. Percent-decoding and the check of a
  bracketed host are arguments.
\<close>

section \<open>Characters\<close>

abbreviation point :: "char \<Rightarrow> nat" where
  "point c \<equiv> of_char c"

definition ascii_letter :: "char \<Rightarrow> bool" where
  "ascii_letter c \<longleftrightarrow> (let n = point c in (65 \<le> n \<and> n \<le> 90) \<or> (97 \<le> n \<and> n \<le> 122))"

definition ascii_digit :: "char \<Rightarrow> bool" where
  "ascii_digit c \<longleftrightarrow> (let n = point c in 48 \<le> n \<and> n \<le> 57)"

definition latin_space :: "char \<Rightarrow> bool" where
  "latin_space c \<longleftrightarrow> py_space c \<or> point c = 133 \<or> point c = 160"

definition trim_with :: "(char \<Rightarrow> bool) \<Rightarrow> string \<Rightarrow> string" where
  "trim_with p s = rev (dropWhile p (rev (dropWhile p s)))"

definition trim :: "string \<Rightarrow> string" where
  "trim s = trim_with latin_space s"

definition rstrip_char :: "char \<Rightarrow> string \<Rightarrow> string" where
  "rstrip_char c s = rev (dropWhile (\<lambda>d. d = c) (rev s))"

definition lower_char :: "char \<Rightarrow> char" where
  "lower_char c = (let n = point c in
     if (65 \<le> n \<and> n \<le> 90) \<or> (192 \<le> n \<and> n \<le> 222 \<and> n \<noteq> 215) then char_of (n + 32) else c)"

definition lower :: "string \<Rightarrow> string" where
  "lower s = map lower_char s"

text \<open>\<open>casefold\<close> takes the sharp s to two letters; the micro sign, whose folding no other character
  below 256 has, stays itself.\<close>

definition full_casefold :: "string \<Rightarrow> string" where
  "full_casefold s = concat (map (\<lambda>c. if point c = 223 then ''ss'' else [lower_char c]) s)"

definition printable :: "string \<Rightarrow> bool" where
  "printable s \<longleftrightarrow> list_all (\<lambda>c. let n = point c in (32 \<le> n \<and> n \<le> 126) \<or> (161 \<le> n \<and> n \<noteq> 173)) s"

text \<open>\<open>\w\<close> of a regular expression.\<close>

definition word_char :: "char \<Rightarrow> bool" where
  "word_char c \<longleftrightarrow> ascii_letter c \<or> ascii_digit c \<or> c = CHR ''_'' \<or>
     point c \<in> {170, 178, 179, 181, 185, 186, 188, 189, 190} \<or>
     (192 \<le> point c \<and> point c \<noteq> 215 \<and> point c \<noteq> 247)"

section \<open>Cutting\<close>

text \<open>The text before the first \<open>c\<close> and, when there is one, the text after it.\<close>

definition cut_at :: "char \<Rightarrow> string \<Rightarrow> string \<times> string option" where
  "cut_at c s =
     (let (h, t) = (takeWhile (\<lambda>d. d \<noteq> c) s, dropWhile (\<lambda>d. d \<noteq> c) s)
      in (h, if t = [] then None else Some (tl t)))"

fun split_on :: "char \<Rightarrow> string \<Rightarrow> string list" where
  "split_on c [] = [[]]"
| "split_on c (d # s) = (if d = c then [] # split_on c s
     else (case split_on c s of [] \<Rightarrow> [[d]] | w # ws \<Rightarrow> (d # w) # ws))"

section \<open>urlsplit\<close>

record url_parts =
  up_scheme :: string
  up_netloc :: string
  up_path :: string
  up_query :: string

definition scheme_char :: "char \<Rightarrow> bool" where
  "scheme_char c \<longleftrightarrow> ascii_letter c \<or> ascii_digit c \<or> c \<in> {CHR ''+'', CHR ''-'', CHR ''.''}"

definition split_scheme :: "string \<Rightarrow> string \<times> string" where
  "split_scheme url =
     (case cut_at (CHR '':'') url of
        (h, Some rest) \<Rightarrow>
          if h \<noteq> [] \<and> ascii_letter (hd h) \<and> list_all scheme_char h then (lower h, rest) else ([], url)
      | (h, None) \<Rightarrow> ([], url))"

definition netloc_end :: "char \<Rightarrow> bool" where
  "netloc_end c \<longleftrightarrow> c \<in> {CHR ''/'', CHR ''?'', CHR ''#''}"

definition split_netloc :: "string \<Rightarrow> string \<times> string" where
  "split_netloc url =
     (if take 2 url = ''//''
      then (takeWhile (\<lambda>c. \<not> netloc_end c) (drop 2 url), dropWhile (\<lambda>c. \<not> netloc_end c) (drop 2 url))
      else ([], url))"

text \<open>\<open>urlsplit(url)\<close>; \<open>None\<close> is its \<open>ValueError\<close>.\<close>

definition urlsplit :: "(string \<Rightarrow> bool) \<Rightarrow> string \<Rightarrow> url_parts option" where
  "urlsplit bracketed_ok text =
     (let url = filter (\<lambda>c. point c \<notin> {9, 10, 13}) (dropWhile (\<lambda>c. point c \<le> 32) text);
          (scheme, url1) = split_scheme url;
          (netloc, url2) = split_netloc url1;
          (url3, fragment) = cut_at (CHR ''#'') url2;
          (path, query) = cut_at (CHR ''?'') url3;
          opened = CHR ''['' \<in> set netloc; closed = CHR '']'' \<in> set netloc
      in if opened \<noteq> closed \<or> (opened \<and> \<not> bracketed_ok netloc) then None
         else Some \<lparr>up_scheme = scheme, up_netloc = netloc, up_path = path,
                    up_query = (case query of Some q \<Rightarrow> q | None \<Rightarrow> [])\<rparr>)"

definition hostname :: "url_parts \<Rightarrow> string option" where
  "hostname p =
     (let hostinfo = rev (takeWhile (\<lambda>c. c \<noteq> CHR ''@'') (rev (up_netloc p)));
          host = (case cut_at (CHR ''['') hostinfo of
             (_, Some bracketed) \<Rightarrow> fst (cut_at (CHR '']'') bracketed)
           | (_, None) \<Rightarrow> fst (cut_at (CHR '':'') hostinfo))
      in if host = [] then None
         else Some (case cut_at (CHR ''%'') host of
             (name, Some zone) \<Rightarrow> lower name @ ''%'' @ zone
           | (name, None) \<Rightarrow> lower name))"

section \<open>quote and parse\_qsl\<close>

definition unreserved :: "char \<Rightarrow> bool" where
  "unreserved c \<longleftrightarrow> ascii_letter c \<or> ascii_digit c \<or> c \<in> {CHR ''_'', CHR ''.'', CHR ''-'', CHR ''~''}"

definition hex_digit :: "nat \<Rightarrow> char" where
  "hex_digit n = (if n < 10 then char_of (48 + n) else char_of (55 + n))"

definition percent_byte :: "nat \<Rightarrow> string" where
  "percent_byte b = [CHR ''%'', hex_digit (b div 16), hex_digit (b mod 16)]"

definition quote :: "string \<Rightarrow> string" where
  "quote s = concat (map (\<lambda>c.
     if unreserved c then [c]
     else if point c < 128 then percent_byte (point c)
     else percent_byte (192 + point c div 64) @ percent_byte (128 + point c mod 64)) s)"

definition plus_to_space :: "string \<Rightarrow> string" where
  "plus_to_space s = map (\<lambda>c. if c = CHR ''+'' then CHR '' '' else c) s"

definition parse_qsl :: "(string \<Rightarrow> string) \<Rightarrow> string \<Rightarrow> (string \<times> string) list" where
  "parse_qsl unquote qs =
     concat (map (\<lambda>pair.
       case cut_at (CHR ''='') pair of
         (name, Some v) \<Rightarrow> if v = [] then [] else [(unquote (plus_to_space name), unquote (plus_to_space v))]
       | (name, None) \<Rightarrow> []) (split_on (CHR ''&'') qs))"

section \<open>redact\_addresses\<close>

text \<open>
  \<open>_DEFAULT_REPR\<close>: \<open><\<close>, a name, optionally \<open> object\<close>, \<open> at 0x\<close>, hexadecimal digits, \<open>>\<close>. No choice of
  the expression is ever taken back: a name holds no space, and the digits no \<open>>\<close>.
\<close>

definition hexadecimal :: "char \<Rightarrow> bool" where
  "hexadecimal c \<longleftrightarrow> ascii_digit c \<or> (let n = point c in (65 \<le> n \<and> n \<le> 70) \<or> (97 \<le> n \<and> n \<le> 102))"

definition after_address :: "string \<Rightarrow> string option" where
  "after_address s =
     (if starts_with s '' at 0x'' \<or> starts_with s '' at 0X'' then
        let digits = takeWhile hexadecimal (drop 6 s); rest = dropWhile hexadecimal (drop 6 s)
        in if digits \<noteq> [] \<and> rest \<noteq> [] \<and> hd rest = CHR ''>'' then Some (tl rest) else None
      else None)"

definition default_repr :: "string \<Rightarrow> (string \<times> string) option" where
  "default_repr s =
     (let name = takeWhile (\<lambda>c. word_char c \<or> c = CHR ''.'') s;
          rest = dropWhile (\<lambda>c. word_char c \<or> c = CHR ''.'') s
      in if name = [] \<or> \<not> (ascii_letter (hd name) \<or> hd name = CHR ''_'') then None
         else
           case (if starts_with rest '' object'' then after_address (drop 7 rest) else None) of
             Some end_ \<Rightarrow> Some (name, end_)
           | None \<Rightarrow> map_option (Pair name) (after_address rest))"

lemma after_address_shorter: "after_address s = Some t \<Longrightarrow> length t < length s"
  using length_dropWhile_le [of hexadecimal "drop 6 s"]
  by (cases s) (auto simp: after_address_def Let_def simp del: drop_Suc_Cons split: if_splits)

lemma default_repr_shorter: "default_repr s = Some (name, t) \<Longrightarrow> length t < length s"
  using length_dropWhile_le [of "\<lambda>c. word_char c \<or> c = CHR ''.''" s]
  by (fastforce simp: default_repr_def Let_def dest: after_address_shorter split: if_splits option.splits)

function redact_addresses :: "string \<Rightarrow> string" where
  "redact_addresses [] = []"
| "redact_addresses (c # s) =
     (case (if c = CHR ''<'' then default_repr s else None) of
        Some (name, rest) \<Rightarrow> ''<'' @ name @ ''>'' @ redact_addresses rest
      | None \<Rightarrow> c # redact_addresses s)"
  by pat_completeness auto
termination
  by (relation "measure length") (auto dest!: default_repr_shorter split: if_splits)

lemma redact_plain: "CHR ''<'' \<notin> set s \<Longrightarrow> redact_addresses s = s"
  by (induction s) auto

end
