(* ===== verification/PyTime.thy ===== *)
theory PyTime
  imports Prelude
begin

text \<open>
  What the ledger uses of Python's \<open>str\<close> and \<open>datetime\<close>.

  A \<open>str\<close> is the list of its code points, \<^typ>\<open>int list\<close> (a Python string may hold any code point,
  unpaired surrogates included). A \<open>datetime\<close> is a \<open>moment\<close>: the calendar fields of the proleptic
  Gregorian calendar. Subtracting a \<open>timedelta\<close> goes through the day number, as CPython does
  (\<open>_ymd2ord\<close>, \<open>_ord2ymd\<close> of \<open>datetime.py\<close>), and overflows outside the years 1 to 9999.
\<close>

type_synonym pystr = "int list"

definition u :: "string \<Rightarrow> pystr" where
  "u s = map of_char s"

lemma u_inj: "u s = u t \<longleftrightarrow> s = t"
  unfolding u_def by (rule inj_map_eq_map [OF inj_of_char])

definition unicode_space :: "int \<Rightarrow> bool" where
  "unicode_space c \<longleftrightarrow>
     (9 \<le> c \<and> c \<le> 13) \<or> (28 \<le> c \<and> c \<le> 32) \<or> c = 133 \<or> c = 160 \<or> c = 5760 \<or>
     (8192 \<le> c \<and> c \<le> 8202) \<or> c = 8232 \<or> c = 8233 \<or> c = 8239 \<or> c = 8287 \<or> c = 12288"

definition strip_text :: "pystr \<Rightarrow> pystr" where
  "strip_text t = rev (dropWhile unicode_space (rev (dropWhile unicode_space t)))"

section \<open>Decimal digits\<close>

definition is_digit :: "int \<Rightarrow> bool" where
  "is_digit c \<longleftrightarrow> 48 \<le> c \<and> c \<le> 57"

definition digit_value :: "int \<Rightarrow> int" where
  "digit_value c = c - 48"

definition digits_value :: "pystr \<Rightarrow> int" where
  "digits_value t = foldl (\<lambda>n c. n * 10 + digit_value c) 0 t"

text \<open>\<open>f"{n:0{w}d}"\<close>\<close>

fun pad_digits :: "nat \<Rightarrow> int \<Rightarrow> pystr" where
  "pad_digits 0 n = []"
| "pad_digits (Suc w) n = pad_digits w (n div 10) @ [48 + n mod 10]"

lemma length_pad_digits [simp]: "length (pad_digits w n) = w"
  by (induction w arbitrary: n) auto

lemma pad_digits_digits [simp]: "list_all is_digit (pad_digits w n)"
  by (induction w arbitrary: n) (auto simp: is_digit_def)

lemma digits_value_snoc: "digits_value (t @ [c]) = digits_value t * 10 + digit_value c"
  by (simp add: digits_value_def)

lemma digits_value_pad: "0 \<le> n \<Longrightarrow> n < 10 ^ w \<Longrightarrow> digits_value (pad_digits w n) = n"
proof (induction w arbitrary: n)
  case 0
  then show ?case by (simp add: digits_value_def)
next
  case (Suc w)
  then have "0 \<le> n div 10" "n div 10 < 10 ^ w" by (simp, simp add: div_less_iff_less_mult mult.commute)
  with Suc.IH show ?case by (simp add: digits_value_snoc digit_value_def)
qed

section \<open>The calendar\<close>

record moment =
  mo_year :: int
  mo_month :: int
  mo_day :: int
  mo_hour :: int
  mo_minute :: int
  mo_second :: int
  mo_micro :: int

definition is_leap :: "int \<Rightarrow> bool" where
  "is_leap y \<longleftrightarrow> y mod 4 = 0 \<and> (y mod 100 \<noteq> 0 \<or> y mod 400 = 0)"

definition days_in_month :: "bool \<Rightarrow> int \<Rightarrow> int" where
  "days_in_month leap m = (if m = 2 then (if leap then 29 else 28)
     else if m \<in> {4, 6, 9, 11} then 30 else 31)"

definition days_before_month :: "bool \<Rightarrow> int \<Rightarrow> int" where
  "days_before_month leap m = sum_list (map (days_in_month leap) [1..m - 1])"

definition days_before_year :: "int \<Rightarrow> int" where
  "days_before_year y = (y - 1) * 365 + (y - 1) div 4 - (y - 1) div 100 + (y - 1) div 400"

definition valid_moment :: "moment \<Rightarrow> bool" where
  "valid_moment t \<longleftrightarrow> 1 \<le> mo_year t \<and> mo_year t \<le> 9999 \<and> 1 \<le> mo_month t \<and> mo_month t \<le> 12 \<and>
     1 \<le> mo_day t \<and> mo_day t \<le> days_in_month (is_leap (mo_year t)) (mo_month t) \<and>
     0 \<le> mo_hour t \<and> mo_hour t < 24 \<and> 0 \<le> mo_minute t \<and> mo_minute t < 60 \<and>
     0 \<le> mo_second t \<and> mo_second t < 60 \<and> 0 \<le> mo_micro t \<and> mo_micro t < 1000000"

definition ymd2ord :: "int \<Rightarrow> int \<Rightarrow> int \<Rightarrow> int" where
  "ymd2ord y m d = days_before_year y + days_before_month (is_leap y) m + d"

text \<open>The month and the day of the month of the day \<open>n\<close> (from 0) of a year.\<close>

definition month_day :: "bool \<Rightarrow> int \<Rightarrow> int \<times> int" where
  "month_day leap n =
     (let m = (n + 50) div 32
      in if days_before_month leap m > n
         then (m - 1, n - days_before_month leap (m - 1) + 1)
         else (m, n - days_before_month leap m + 1))"

definition ord2ymd :: "int \<Rightarrow> int \<times> int \<times> int" where
  "ord2ymd ordinal =
     (let n = ordinal - 1;
          n400 = n div 146097; r400 = n mod 146097;
          n100 = r400 div 36524; r100 = r400 mod 36524;
          n4 = r100 div 1461; r4 = r100 mod 1461;
          n1 = r4 div 365; r1 = r4 mod 365;
          year = n400 * 400 + 1 + n100 * 100 + n4 * 4 + n1
      in if n1 = 4 \<or> n100 = 4 then (year - 1, 12, 31)
         else
           let (m, d) = month_day (n1 = 3 \<and> (n4 \<noteq> 24 \<or> n100 = 3)) r1 in (year, m, d))"

definition max_ordinal :: int where
  "max_ordinal = 3652059"

text \<open>\<open>moment - timedelta(minutes=offset)\<close>, \<open>None\<close> for the \<open>OverflowError\<close>.\<close>

definition minus_minutes :: "moment \<Rightarrow> int \<Rightarrow> moment option" where
  "minus_minutes t offset =
     (let total = ymd2ord (mo_year t) (mo_month t) (mo_day t) * 1440 +
            mo_hour t * 60 + mo_minute t - offset;
          ordinal = total div 1440; rest = total mod 1440
      in if ordinal < 1 \<or> ordinal > max_ordinal then None
         else
           let (y, m, d) = ord2ymd ordinal
           in Some (t\<lparr>mo_year := y, mo_month := m, mo_day := d, mo_hour := rest div 60,
                mo_minute := rest mod 60\<rparr>))"

section \<open>The calendar arithmetic stays in the calendar\<close>

lemma days_before_month_table:
  "days_before_month l 1 = 0" "days_before_month l 2 = 31"
  "days_before_month l 3 = (if l then 60 else 59)" "days_before_month l 4 = (if l then 91 else 90)"
  "days_before_month l 5 = (if l then 121 else 120)" "days_before_month l 6 = (if l then 152 else 151)"
  "days_before_month l 7 = (if l then 182 else 181)" "days_before_month l 8 = (if l then 213 else 212)"
  "days_before_month l 9 = (if l then 244 else 243)" "days_before_month l 10 = (if l then 274 else 273)"
  "days_before_month l 11 = (if l then 305 else 304)" "days_before_month l 12 = (if l then 335 else 334)"
  by (simp_all add: days_before_month_def days_in_month_def upto.simps)

lemma month_day_ok:
  assumes "0 \<le> n" and "n < (if leap then 366 else 365)" and "month_day leap n = (m, d)"
  shows "1 \<le> m \<and> m \<le> 12 \<and> 1 \<le> d \<and> d \<le> days_in_month leap m"
proof -
  define k where "k = (n + 50) div 32"
  have k: "32 * k \<le> n + 50" "n + 50 < 32 * k + 32"
    by (auto simp: k_def)
  have "1 \<le> k" "k \<le> 12"
    using k assms(1,2) by (auto split: if_splits)
  then have "k = 1 \<or> k = 2 \<or> k = 3 \<or> k = 4 \<or> k = 5 \<or> k = 6 \<or> k = 7 \<or> k = 8 \<or> k = 9 \<or> k = 10 \<or>
      k = 11 \<or> k = 12"
    by arith
  then consider "k = 1" | "k = 2" | "k = 3" | "k = 4" | "k = 5" | "k = 6" | "k = 7" | "k = 8" |
    "k = 9" | "k = 10" | "k = 11" | "k = 12"
    by blast
  then show ?thesis
    using assms k unfolding month_day_def k_def [symmetric]
    by cases (auto simp: Let_def days_before_month_table days_in_month_def split: if_splits)
qed

lemma ord2ymd_leap:
  fixes c n100 n4 n1 :: int
  assumes "n100 < 4" and "n4 \<le> 24" and "n1 < 4" and "0 \<le> n100" and "0 \<le> n4" and "0 \<le> n1"
  shows "is_leap (c * 400 + 1 + n100 * 100 + n4 * 4 + n1) \<longleftrightarrow> n1 = 3 \<and> (n4 \<noteq> 24 \<or> n100 = 3)"
proof -
  note b = assms
  define x where "x = 1 + n4 * 4 + n1"
  have year: "c * 400 + 1 + n100 * 100 + n4 * 4 + n1 = x + 100 * (4 * c + n100)"
    by (simp add: x_def)
  have "c * 400 + 1 + n100 * 100 + n4 * 4 + n1 = (1 + n1) + 4 * (c * 100 + n100 * 25 + n4)"
    by simp
  then have "(c * 400 + 1 + n100 * 100 + n4 * 4 + n1) mod 4 = (1 + n1) mod 4"
    by (metis mod_mult_self2)
  moreover have "(1 + n1) mod 4 = 0 \<longleftrightarrow> n1 = 3"
    using b(3,6) by (cases "n1 = 3") auto
  ultimately have four: "(c * 400 + 1 + n100 * 100 + n4 * 4 + n1) mod 4 = 0 \<longleftrightarrow> n1 = 3"
    by (simp only:)
  have x: "1 \<le> x" "x \<le> 100" using b by (auto simp: x_def)
  have x100: "x = 100 \<longleftrightarrow> n4 = 24 \<and> n1 = 3" using b unfolding x_def by linarith
  have "(x + 100 * (4 * c + n100)) mod 100 = x mod 100" by (rule mod_mult_self2)
  moreover have "x mod 100 = 0 \<longleftrightarrow> x = 100" using x by (cases "x = 100") auto
  ultimately have hundred: "(c * 400 + 1 + n100 * 100 + n4 * 4 + n1) mod 100 = 0 \<longleftrightarrow> n4 = 24 \<and> n1 = 3"
    using x100 by (simp only: year)
  have "x + 100 * (4 * c + n100) = (x + 100 * n100) + 400 * c" by simp
  then have "(x + 100 * (4 * c + n100)) mod 400 = (x + 100 * n100) mod 400"
    by (metis mod_mult_self2)
  moreover have "(x + 100 * n100) mod 400 = 0 \<longleftrightarrow> x + 100 * n100 = 400"
    using x b(1,4) by (cases "x + 100 * n100 = 400") auto
  moreover have "x + 100 * n100 = 400 \<longleftrightarrow> x = 100 \<and> n100 = 3"
    using x b(1) by auto
  ultimately have fourhundred: "(c * 400 + 1 + n100 * 100 + n4 * 4 + n1) mod 400 = 0 \<longleftrightarrow>
      n100 = 3 \<and> n4 = 24 \<and> n1 = 3"
    using x100 by (auto simp only: year)
  show ?thesis
    using four hundred fourhundred by (auto simp: is_leap_def)
qed

lemma ord2ymd_ok:
  assumes "1 \<le> ordinal" and "ordinal \<le> max_ordinal" and "ord2ymd ordinal = (y, m, d)"
  shows "1 \<le> y \<and> y \<le> 9999 \<and> 1 \<le> m \<and> m \<le> 12 \<and> 1 \<le> d \<and> d \<le> days_in_month (is_leap y) m"
proof -
  define n where "n = ordinal - 1"
  have n: "0 \<le> n" "n < 3652059" using assms(1,2) by (simp_all add: n_def max_ordinal_def)
  define n400 r400 where "n400 = n div 146097" and "r400 = n mod 146097"
  define n100 r100 where "n100 = r400 div 36524" and "r100 = r400 mod 36524"
  define n4 r4 where "n4 = r100 div 1461" and "r4 = r100 mod 1461"
  define n1 r1 where "n1 = r4 div 365" and "r1 = r4 mod 365"
  note defs = n400_def r400_def n100_def r100_def n4_def r4_def n1_def r1_def
  have split: "n = 146097 * n400 + r400" "r400 = 36524 * n100 + r100" "r100 = 1461 * n4 + r4"
    "r4 = 365 * n1 + r1" and less: "r400 < 146097" "r100 < 36524" "r4 < 1461" "r1 < 365"
    and nonneg: "0 \<le> r400" "0 \<le> r100" "0 \<le> r4" "0 \<le> r1"
    by (simp_all add: defs)
  have pos: "0 \<le> n400" "0 \<le> n100" "0 \<le> n4" "0 \<le> n1"
    using n(1) nonneg by (simp_all add: n400_def n100_def n4_def n1_def pos_imp_zdiv_nonneg_iff)
  define year where "year = n400 * 400 + 1 + n100 * 100 + n4 * 4 + n1"
  have ord: "ord2ymd ordinal = (if n1 = 4 \<or> n100 = 4 then (year - 1, 12, 31)
      else let (m, d) = month_day (n1 = 3 \<and> (n4 \<noteq> 24 \<or> n100 = 3)) r1 in (year, m, d))"
    unfolding ord2ymd_def Let_def year_def defs n_def by (rule refl)
  have small: "n400 \<le> 24" "n100 \<le> 4" "n4 \<le> 24" "n1 \<le> 4"
    using split less nonneg n by linarith+
  show ?thesis
  proof (cases "n1 = 4 \<or> n100 = 4")
    case True
    have "year \<le> 10000"
    proof (rule ccontr)
      assume "\<not> year \<le> 10000"
      with True small have "146097 * n400 + 36524 * n100 + 1461 * n4 + 365 * n1 \<ge> 3652059"
        using pos unfolding year_def by linarith
      with split n nonneg show False by linarith
    qed
    moreover have "2 \<le> year" using True pos by (auto simp: year_def)
    ultimately have "1 \<le> year - 1 \<and> year - 1 \<le> 9999" by linarith
    moreover have "(y, m, d) = (year - 1, 12, 31)"
      using True assms(3) by (simp only: ord if_True simp_thms)
    ultimately show ?thesis by (simp add: days_in_month_def)
  next
    case False
    with small have few: "n100 \<le> 3" "n1 \<le> 3" by linarith+
    define leap where "leap = (n1 = 3 \<and> (n4 \<noteq> 24 \<or> n100 = 3))"
    have md: "y = year" "month_day leap r1 = (m, d)"
      using False assms(3) unfolding ord leap_def by (simp_all split: prod.splits)
    have "is_leap year = leap"
      unfolding year_def leap_def by (rule ord2ymd_leap) (use few small pos in linarith)+
    moreover have "r1 < (if leap then 366 else 365)" using less(4) by simp
    then have "1 \<le> m \<and> m \<le> 12 \<and> 1 \<le> d \<and> d \<le> days_in_month leap m"
      by (rule month_day_ok [OF nonneg(4) _ md(2)])
    moreover have "year \<le> 9999"
    proof (rule ccontr)
      assume "\<not> year \<le> 9999"
      with few small have "n400 = 24 \<and> n100 = 3 \<and> n4 = 24 \<and> n1 = 3"
        unfolding year_def by linarith
      with split n nonneg show False by linarith
    qed
    moreover have "1 \<le> year" using pos by (simp add: year_def)
    ultimately show ?thesis by (simp add: md(1))
  qed
qed

lemma minus_minutes_valid:
  assumes "minus_minutes t offset = Some t'" and "valid_moment t"
  shows "valid_moment t'"
proof -
  define total where "total = ymd2ord (mo_year t) (mo_month t) (mo_day t) * 1440 +
    mo_hour t * 60 + mo_minute t - offset"
  have range: "1 \<le> total div 1440" "total div 1440 \<le> max_ordinal"
    using assms(1) by (auto simp: minus_minutes_def Let_def total_def [symmetric] split: if_splits)
  obtain y m d where o: "ord2ymd (total div 1440) = (y, m, d)"
    by (metis prod_cases3)
  have "1 \<le> y \<and> y \<le> 9999 \<and> 1 \<le> m \<and> m \<le> 12 \<and> 1 \<le> d \<and> d \<le> days_in_month (is_leap y) m"
    by (rule ord2ymd_ok [OF range o])
  moreover have "0 \<le> total mod 1440 div 60" "total mod 1440 div 60 < 24"
    by (simp_all add: pos_imp_zdiv_nonneg_iff div_less_iff_less_mult)
  moreover have "t' = t\<lparr>mo_year := y, mo_month := m, mo_day := d,
      mo_hour := total mod 1440 div 60, mo_minute := total mod 1440 mod 60\<rparr>"
    using assms(1) o by (simp add: minus_minutes_def Let_def total_def [symmetric] split: if_splits)
  ultimately show ?thesis
    using assms(2) by (simp add: valid_moment_def)
qed

end
