(* ===== verification/PyFloat.thy ===== *)
theory PyFloat
  imports PyTime
begin

text \<open>
  What the canonicaliser uses of Python's \<open>float\<close>: the IEEE-754 double nearest to a rational
  (round half to even, subnormals and overflow included), and the shortest decimal that rounds to a
  double, which is what \<open>Decimal(repr(value)).normalize()\<close> holds. A finite double is its exact
  rational value; \<open>-0.0\<close> and \<open>0.0\<close> are one value here, as both are written \<open>0\<close>.
\<close>

datatype pyfloat = Finite rat | NotFinite

text \<open>The number of binary digits of a positive integer.\<close>

function bits :: "int \<Rightarrow> int" where
  "bits n = (if n \<le> 0 then 0 else 1 + bits (n div 2))"
  by pat_completeness auto
termination
  by (relation "measure nat") auto

declare bits.simps [simp del]

definition power_int_rat :: "rat \<Rightarrow> int \<Rightarrow> rat" where
  "power_int_rat b e = (if e \<ge> 0 then b ^ nat e else 1 / b ^ nat (- e))"

text \<open>The \<open>e\<close> with \<open>2 ^ e \<le> r < 2 ^ (e + 1)\<close>, for \<open>r > 0\<close>.\<close>

definition floor_log2 :: "rat \<Rightarrow> int" where
  "floor_log2 r =
     (let (p, q) = quotient_of r; k = bits p - bits q
      in if power_int_rat 2 k \<le> r then k else k - 1)"

definition round_half_even :: "rat \<Rightarrow> int" where
  "round_half_even r =
     (let f = floor r; rest = r - of_int f
      in if rest < 1 / 2 then f else if rest > 1 / 2 then f + 1 else if f mod 2 = 0 then f else f + 1)"

text \<open>The double nearest to a positive rational, \<open>None\<close> on overflow.\<close>

definition nearest_double :: "rat \<Rightarrow> rat option" where
  "nearest_double r =
     (let quantum = power_int_rat 2 (max (floor_log2 r - 52) (- 1074));
          d = of_int (round_half_even (r / quantum)) * quantum
      in if d \<ge> power_int_rat 2 1024 then None else Some d)"

text \<open>For evaluation: the bound written out.\<close>

lemma nearest_double_code [code]:
  "nearest_double r =
     (let quantum = power_int_rat 2 (max (floor_log2 r - 52) (- 1074));
          d = of_int (round_half_even (r / quantum)) * quantum
      in if d \<ge> 179769313486231590772930519078902473361797697894230657273430081157732675805500963132708477322407536021120113879871393357658789768814416622492847430639474124377767893424865485276302219601246094119453082952085005768838150682342462881473913110540827237163350510684586298239947245938479716304835356329624224137216 then None else Some d)"
proof -
  have "power_int_rat 2 1024 = 179769313486231590772930519078902473361797697894230657273430081157732675805500963132708477322407536021120113879871393357658789768814416622492847430639474124377767893424865485276302219601246094119453082952085005768838150682342462881473913110540827237163350510684586298239947245938479716304835356329624224137216" by (simp add: power_int_rat_def)
  then show ?thesis by (simp add: nearest_double_def)
qed

text \<open>\<open>float(v)\<close> for an integer, \<open>None\<close> for the \<open>OverflowError\<close>.\<close>

definition float_of_int :: "int \<Rightarrow> rat option" where
  "float_of_int v =
     (if v = 0 then Some 0
      else if v > 0 then nearest_double (of_int v)
      else map_option uminus (nearest_double (of_int (- v))))"

section \<open>The shortest decimal\<close>

function decimal_digits :: "int \<Rightarrow> pystr" where
  "decimal_digits n =
     (if n < 10 then [48 + n] else decimal_digits (n div 10) @ [48 + n mod 10])"
  by pat_completeness auto
termination
  by (relation "measure nat") auto

declare decimal_digits.simps [simp del]

text \<open>The \<open>e\<close> with \<open>10 ^ (e - 1) \<le> r < 10 ^ e\<close>, for \<open>r > 0\<close>.\<close>

definition decimal_point :: "rat \<Rightarrow> int" where
  "decimal_point r =
     (let (p, q) = quotient_of r; k = int (length (decimal_digits p)) - int (length (decimal_digits q))
      in if power_int_rat 10 k \<le> r then k + 1 else k)"

text \<open>The \<open>n\<close>-digit decimals on both sides of \<open>r\<close> that round to it, the nearer one first.\<close>

definition decimals_for :: "rat \<Rightarrow> int \<Rightarrow> int list" where
  "decimals_for r n =
     (let scale = power_int_rat 10 (decimal_point r - n);
          low = floor (r / scale);
          both = (if r / scale - of_int low \<le> 1 / 2 then [low, low + 1] else [low + 1, low])
      in filter (\<lambda>c. nearest_double (of_int c * scale) = Some r) both)"

fun strip_zeros :: "nat \<Rightarrow> int \<Rightarrow> int \<Rightarrow> int \<times> int" where
  "strip_zeros 0 c e = (c, e)"
| "strip_zeros (Suc fuel) c e =
     (if c \<noteq> 0 \<and> c mod 10 = 0 then strip_zeros fuel (c div 10) (e + 1) else (c, e))"

text \<open>
  The coefficient and the exponent of the shortest decimal of a positive double; 17 digits always
  suffice, and a coefficient has at most 18 to strip.
\<close>

definition shortest_decimal :: "rat \<Rightarrow> int \<times> int" where
  "shortest_decimal r =
     (case filter (\<lambda>n. decimals_for r n \<noteq> []) [1..17] of
        [] \<Rightarrow> (0, 0)
      | n # _ \<Rightarrow> strip_zeros 18 (hd (decimals_for r n)) (decimal_point r - n))"

text \<open>For evaluation: the search stops at the first length that works.\<close>

fun search_digits :: "rat \<Rightarrow> int list \<Rightarrow> int \<times> int" where
  "search_digits r [] = (0, 0)"
| "search_digits r (n # ns) =
     (case decimals_for r n of
        [] \<Rightarrow> search_digits r ns
      | c # _ \<Rightarrow> strip_zeros 18 c (decimal_point r - n))"

lemma search_digits_filter:
  "search_digits r ns =
     (case filter (\<lambda>n. decimals_for r n \<noteq> []) ns of
        [] \<Rightarrow> (0, 0)
      | n # _ \<Rightarrow> strip_zeros 18 (hd (decimals_for r n)) (decimal_point r - n))"
  by (induction ns) (auto split: list.split)

lemma shortest_decimal_code [code]: "shortest_decimal r = search_digits r [1..17]"
  by (simp add: shortest_decimal_def search_digits_filter)

end
