(* ===== verification/CheckoutRules.thy ===== *)
theory CheckoutRules
  imports PyUrl PyFloat
begin

text \<open>
  The rules a checkout is held to: hosts (\<open>apps/exchange/src/checkout/domain.py\<close>), the validity window
  and the codes a cart applies (\<open>validity.py\<close>), codes, expiry, quantity and permalinks (\<open>codes.py\<close>),
  what makes a merchant's code readable (\<open>packages/contracts/src/boundary.py\<close>), and the destination of
  a fallback (\<open>ranking/candidates.py\<close>).

  The library supplies the fields of \<open>checkout_lib\<close>: \<open>datetime.fromisoformat\<close> as seconds from the
  epoch (a naive instant read as UTC), \<open>float\<close> and \<open>int\<close> of a text, \<open>str\<close> of a number with a fraction,
  a list or a mapping, percent-decoding, the check of a bracketed host, and SHA-256 in hexadecimal.
  Finite floats are their rational values; an addition is rounded to the nearest double.
\<close>

datatype float_text = FiniteText rat | PlusInfinity | MinusInfinity | NotANumber

record checkout_lib =
  lib_fromisoformat :: "string \<Rightarrow> rat option"
  lib_float :: "string \<Rightarrow> float_text option"
  lib_int :: "string \<Rightarrow> int option"
  lib_str :: "json \<Rightarrow> string"
  lib_unquote :: "string \<Rightarrow> string"
  lib_bracketed_ok :: "string \<Rightarrow> bool"
  lib_sha256 :: "string \<Rightarrow> string"

text \<open>\<open>str(d.get(name) or "")\<close>\<close>

definition field_text :: "checkout_lib \<Rightarrow> (string, json) dict \<Rightarrow> string \<Rightarrow> string" where
  "field_text lib d name =
     (case dget d name of
        Some v \<Rightarrow> if truthy v then str_of (lib_str lib) v else []
      | None \<Rightarrow> [])"

section \<open>Hosts\<close>

datatype domain_problem = NoRegisteredDomain | NoUrl | Unparsable | BadScheme string | NoHost | WrongHost string string

definition allowed_checkout_schemes :: "string list" where
  "allowed_checkout_schemes = [''https'', ''http'']"

definition domain_problem_of :: "checkout_lib \<Rightarrow> string \<Rightarrow> string \<Rightarrow> domain_problem option" where
  "domain_problem_of lib url registered_domain =
     (if trim registered_domain = [] then Some NoRegisteredDomain
      else if trim url = [] then Some NoUrl
      else
        case urlsplit (lib_bracketed_ok lib) url of
          None \<Rightarrow> Some Unparsable
        | Some parts \<Rightarrow>
            if lower (up_scheme parts) \<notin> set allowed_checkout_schemes then Some (BadScheme (up_scheme parts))
            else
              (case hostname parts of
                 None \<Rightarrow> Some NoHost
               | Some host \<Rightarrow>
                   let expected = rstrip_char (CHR ''.'') (lower (trim registered_domain));
                       actual = rstrip_char (CHR ''.'') (lower host)
                   in if actual \<noteq> expected then Some (WrongHost actual expected) else None))"

definition is_on_domain :: "checkout_lib \<Rightarrow> string \<Rightarrow> string \<Rightarrow> bool" where
  "is_on_domain lib url registered_domain \<longleftrightarrow> domain_problem_of lib url registered_domain = None"

section \<open>The validity window and the cart\<close>

text \<open>A deadline is a number, or minus infinity where an offer's text says so.\<close>

datatype deadline = At rat | NeverOpen

text \<open>\<open>window_reason\<close>: closed, unless no deadline is named.\<close>

definition window_closed :: "deadline option \<Rightarrow> rat \<Rightarrow> bool" where
  "window_closed expires_at now \<longleftrightarrow>
     (case expires_at of
        None \<Rightarrow> False
      | Some NeverOpen \<Rightarrow> True
      | Some (At t) \<Rightarrow> \<not> now < t)"

definition discount_query_keys :: "string list" where
  "discount_query_keys = [''discount'']"

definition applied_discount_codes :: "checkout_lib \<Rightarrow> string \<Rightarrow> string list" where
  "applied_discount_codes lib permalink_url =
     (if trim permalink_url = [] then []
      else
        case urlsplit (lib_bracketed_ok lib) permalink_url of
          None \<Rightarrow> []
        | Some parts \<Rightarrow>
            map snd (filter (\<lambda>pair. lower (trim (fst pair)) \<in> set discount_query_keys)
              (parse_qsl (lib_unquote lib) (up_query parts))))"

definition same_code :: "string \<Rightarrow> string \<Rightarrow> bool" where
  "same_code applied code \<longleftrightarrow> full_casefold (trim applied) = full_casefold (trim code)"

definition cart_conflict :: "checkout_lib \<Rightarrow> string \<Rightarrow> string \<Rightarrow> bool" where
  "cart_conflict lib permalink_url code \<longleftrightarrow>
     filter (\<lambda>v. trim v \<noteq> [] \<and> \<not> same_code v code) (applied_discount_codes lib permalink_url) \<noteq> []"

section \<open>Codes, expiry and quantity\<close>

definition code_alphabet :: string where
  "code_alphabet = ''0123456789ABCDEFGHJKMNPQRSTVWXYZ''"

definition code_prefix :: string where "code_prefix = ''PSX-''"

definition code_body_length :: nat where "code_body_length = 8"

definition max_code_ttl_seconds :: rat where "max_code_ttl_seconds = 48 * 60 * 60"

text \<open>The sum of two doubles; one that overflows is left exact.\<close>

definition float_add :: "rat \<Rightarrow> rat \<Rightarrow> rat" where
  "float_add a b =
     (let s = a + b; r = (if s = 0 then Some 0 else if s > 0 then nearest_double s
                          else map_option uminus (nearest_double (- s)))
      in case r of Some d \<Rightarrow> d | None \<Rightarrow> s)"

text \<open>\<open>contracts.boundary.parse_timestamp\<close> of a text.\<close>

definition parse_timestamp :: "checkout_lib \<Rightarrow> string \<Rightarrow> rat option" where
  "parse_timestamp lib v =
     (let t = trim v
      in if t = [] then None
         else if last t = CHR ''Z'' \<or> last t = CHR ''z'' then lib_fromisoformat lib (butlast t @ ''+00:00'')
         else lib_fromisoformat lib t)"

text \<open>\<open>expiry_epoch\<close>; \<open>Inl\<close> is the type of the exception. An integer no double holds overflows.\<close>

definition expiry_epoch :: "checkout_lib \<Rightarrow> json \<Rightarrow> string + float_text" where
  "expiry_epoch lib v =
     (case v of
        JBool b \<Rightarrow> Inr (FiniteText (if b then 1 else 0))
      | JInt n \<Rightarrow> (case float_of_int n of Some r \<Rightarrow> Inr (FiniteText r) | None \<Rightarrow> Inl ''OverflowError'')
      | JReal r \<Rightarrow> Inr (FiniteText r)
      | JStr s \<Rightarrow>
          (case parse_timestamp lib s of
             Some t \<Rightarrow> Inr (FiniteText t)
           | None \<Rightarrow> (case lib_float lib s of Some x \<Rightarrow> Inr x | None \<Rightarrow> Inl ''UnusableOffer''))
      | _ \<Rightarrow> Inl ''UnusableOffer'')"

text \<open>\<open>min(ceiling, x)\<close>: the ceiling unless \<open>x\<close> is less.\<close>

definition code_expiry :: "checkout_lib \<Rightarrow> rat \<Rightarrow> (string, json) dict \<Rightarrow> string + deadline" where
  "code_expiry lib now offer =
     (let ceiling = float_add now max_code_ttl_seconds in
      case dget offer ''expires_at'' of
        None \<Rightarrow> Inr (At ceiling)
      | Some JNull \<Rightarrow> Inr (At ceiling)
      | Some v \<Rightarrow>
          (case expiry_epoch lib v of
             Inl e \<Rightarrow> Inl e
           | Inr (FiniteText t) \<Rightarrow> Inr (At (if t < ceiling then t else ceiling))
           | Inr MinusInfinity \<Rightarrow> Inr NeverOpen
           | Inr _ \<Rightarrow> Inr (At ceiling)))"

definition truncate_rat :: "rat \<Rightarrow> int" where
  "truncate_rat r = (if r < 0 then - floor (- r) else floor r)"

definition offer_quantity :: "checkout_lib \<Rightarrow> (string, json) dict \<Rightarrow> string + int" where
  "offer_quantity lib offer =
     (let v = (case dget offer ''quantity'' of Some v \<Rightarrow> v | None \<Rightarrow> JNull) in
      if v = JNull \<or> v = JStr [] then Inr 1
      else
        case (case v of
                JBool b \<Rightarrow> Some (if b then 1 else 0)
              | JInt n \<Rightarrow> Some n
              | JReal r \<Rightarrow> Some (truncate_rat r)
              | JStr s \<Rightarrow> lib_int lib s
              | _ \<Rightarrow> None) of
          None \<Rightarrow> Inl ''UnusableOffer''
        | Some n \<Rightarrow> if n < 1 then Inl ''UnusableOffer'' else Inr n)"

text \<open>
  \<open>_unreadable_unit_price_reasons\<close>: what the boundary says of the unit price alone, for a price that
  is stated. A boolean is no number; the numbers of an offer are within the range of a double.
\<close>

definition unreadable_unit_price :: "(string, json) dict \<Rightarrow> bool" where
  "unreadable_unit_price offer \<longleftrightarrow>
     (case dget offer ''unit_price'' of
        None \<Rightarrow> False
      | Some JNull \<Rightarrow> False
      | Some (JInt n) \<Rightarrow> n < 0
      | Some (JReal r) \<Rightarrow> r < 0
      | Some _ \<Rightarrow> True)"

definition assert_offer_is_mintable :: "checkout_lib \<Rightarrow> (string, json) dict \<Rightarrow> rat \<Rightarrow> string + deadline" where
  "assert_offer_is_mintable lib offer now =
     (case code_expiry lib now offer of
        Inl e \<Rightarrow> Inl e
      | Inr limit \<Rightarrow>
          (case offer_quantity lib offer of
             Inl e \<Rightarrow> Inl e
           | Inr _ \<Rightarrow> if unreadable_unit_price offer then Inl ''UnusableOffer'' else Inr limit))"

definition build_cart_permalink :: "string \<Rightarrow> string \<Rightarrow> string \<Rightarrow> int \<Rightarrow> string" where
  "build_cart_permalink shop_domain code variant_id quantity =
     ''https://'' @ shop_domain @ ''/cart/'' @ quote variant_id @ '':'' @ int_string quantity @
     ''?discount='' @ quote code"

text \<open>\<open>fallback_checkout_url\<close>; \<open>None\<close> is an offer that names no variant.\<close>

definition fallback_checkout_url :: "string \<Rightarrow> string option \<Rightarrow> string" where
  "fallback_checkout_url registered_domain variant_ref =
     (let named = (case variant_ref of Some v \<Rightarrow> trim v | None \<Rightarrow> [])
      in if named = [] then ''https://'' @ registered_domain @ ''/''
         else ''https://'' @ registered_domain @ ''/cart/'' @ quote named @ '':1'')"

definition code_fingerprint :: "checkout_lib \<Rightarrow> string \<Rightarrow> string" where
  "code_fingerprint lib code = (if code = [] then ''code:none'' else ''code:'' @ take 12 (lib_sha256 lib code))"

section \<open>Which codes are readable\<close>

definition code_max_length :: nat where "code_max_length = 128"

text \<open>\<open>_TRIMMED_CODE_POINTS\<close> below 256 are the whitespace \<open>str.strip\<close> takes.\<close>

datatype code_problem = CodeMissing | CodeNotAString | CodeBlank | CodeWhitespace | CodeControlCharacters | CodeTooLong

definition control_character :: "char \<Rightarrow> bool" where
  "control_character c \<longleftrightarrow> point c < 32 \<or> (127 \<le> point c \<and> point c \<le> 159)"

definition discount_code_reasons :: "json \<Rightarrow> code_problem list" where
  "discount_code_reasons v =
     (case v of
        JNull \<Rightarrow> [CodeMissing]
      | JStr s \<Rightarrow>
          if trim s = [] then [CodeBlank]
          else (if list_ex latin_space s then [CodeWhitespace] else []) @
               (if list_ex (\<lambda>c. \<not> latin_space c \<and> control_character c) s then [CodeControlCharacters] else []) @
               (if code_max_length < length s then [CodeTooLong] else [])
      | _ \<Rightarrow> [CodeNotAString])"

text \<open>\<open>_acted_on\<close>: a code whose only fault is plain spaces is taken.\<close>

definition acted_on :: "code_problem list \<Rightarrow> json \<Rightarrow> code_problem list" where
  "acted_on refusals code =
     (case code of
        JStr s \<Rightarrow> if refusals = [CodeWhitespace] \<and> printable s then [] else refusals
      | _ \<Rightarrow> refusals)"

end
