(* ===== verification/LedgerContract.thy ===== *)
theory LedgerContract
  imports Prelude
begin

text \<open>
  The platform's ledger event contract (\<open>packages/contracts/src/ledger.py\<close>) and the exchange's
  emitting side of it (\<open>apps/exchange/src/auction/ledger.py\<close>): the frozen kinds, the published
  payload keys of each kind, the payload validator, the join-key reader, event construction, the
  bounded in-memory sink and the recorder that never lets a failing sink fail an auction.
\<close>

section \<open>The published vocabulary\<close>

definition ledger_event_kinds :: "string list" where
  "ledger_event_kinds =
     [''bid_placed'', ''shown'', ''accepted'', ''code_created'', ''checkout_redirect'',
      ''checkout_pixel'', ''order_paid'', ''order_fulfilled'', ''refund'', ''feedback'',
      ''reconciled'', ''claim_verified'', ''policy_event'', ''auction_opened'',
      ''auction_closed'', ''offer_integrity'', ''blacklisted'', ''blacklist_expired'']"

definition joinable_kinds :: "string list" where
  "joinable_kinds = [''checkout_pixel'', ''order_paid'']"

definition join_key_aliases :: "(string, string list) dict" where
  "join_key_aliases =
     [(''checkout_token'', [''checkout_token'', ''checkoutToken'', ''token'']),
      (''order_ref'', [''order_ref'', ''order_id'', ''orderId'', ''orderRef'']),
      (''client_id'', [''client_id'', ''clientId'']),
      (''discount_code'', [''discount_code'', ''discountCode'', ''code''])]"

definition ledger_payload_shapes :: "(string, string list) dict" where
  "ledger_payload_shapes =
     [(''auction_opened'', [''intent_id'', ''cluster_id'', ''roster_size'']),
      (''bid_placed'', [''bid_ref'', ''store_id'', ''offer'']),
      (''auction_closed'', [''shortlist_size'', ''reason'']),
      (''shown'', [''bid_ref'', ''slot'']),
      (''accepted'', [''bid_ref'', ''checkout_token'', ''offer'']),
      (''code_created'', [''code'', ''permalink_url'', ''expires_at'']),
      (''checkout_redirect'', [''checkout_token'', ''permalink_url'']),
      (''checkout_pixel'', [''checkout_token'', ''client_id'', ''total_price'']),
      (''order_paid'', [''checkout_token'', ''order_ref'', ''total_price'']),
      (''order_fulfilled'', [''order_ref'', ''fulfilled_at'']),
      (''refund'', [''order_ref'', ''amount'', ''reason'']),
      (''feedback'', [''matched_pitch'', ''reason'']),
      (''reconciled'', [''price_honored'', ''discount_honored'', ''pixel_missing'', ''order_ref'']),
      (''claim_verified'', [''claim_ref'', ''status'', ''dim'']),
      (''policy_event'', [''kind'', ''severity'', ''opened_at'']),
      (''offer_integrity'', [''bid_ref'', ''field'', ''promised'', ''observed'']),
      (''blacklisted'', [''store_id'', ''reason_code'', ''source'', ''expires_at'']),
      (''blacklist_expired'', [''store_id'', ''reason_code''])]"

type_synonym payload = "(string, json) dict"

text \<open>\<open>_read\<close>: the first of the names whose value is neither \<open>None\<close> nor the empty string.\<close>

definition blank :: "json \<Rightarrow> bool" where
  "blank v \<longleftrightarrow> v = JNull \<or> v = JStr []"

fun read_first :: "payload \<Rightarrow> string list \<Rightarrow> json option" where
  "read_first p [] = None"
| "read_first p (name # names) =
     (case dget p name of
        Some v \<Rightarrow> if blank v then read_first p names else Some v
      | None \<Rightarrow> read_first p names)"

text \<open>
  \<open>join_key_view\<close> on a dictionary event: the payload's spelling first, the event's own second.
  A payload that is not a mapping reads as the empty one; \<open>None\<close> in the view is \<open>None\<close>.
\<close>

definition event_payload :: "payload \<Rightarrow> payload" where
  "event_payload ev = (case dget ev ''payload'' of Some (JObj p) \<Rightarrow> p | _ \<Rightarrow> [])"

definition join_key_view :: "payload \<Rightarrow> (string, json option) dict" where
  "join_key_view ev =
     map (\<lambda>(key, aliases).
       (key, (case read_first (event_payload ev) aliases of
                Some v \<Rightarrow> Some v
              | None \<Rightarrow> read_first ev aliases)))
       join_key_aliases"

text \<open>The validator's findings, one constructor per sentence it can write.\<close>

datatype payload_problem =
    UnknownKind string
  | MissingKey string string
  | MissingJoinToken string

definition validate_ledger_payload :: "string \<Rightarrow> payload \<Rightarrow> payload_problem list" where
  "validate_ledger_payload kind p =
     (if kind \<notin> set ledger_event_kinds then [UnknownKind kind]
      else
        let expected = (case dget ledger_payload_shapes kind of Some ks \<Rightarrow> ks | None \<Rightarrow> []) in
        if kind \<in> set joinable_kinds then
          concat (map (\<lambda>key.
             let aliases = (case dget join_key_aliases key of Some a \<Rightarrow> a | None \<Rightarrow> [key]) in
             if read_first p aliases = None then [MissingKey kind key] else []) expected)
          @ (if read_first p (the (dget join_key_aliases ''checkout_token'')) = None
             then [MissingJoinToken kind] else [])
        else
          concat (map (\<lambda>key.
             if key \<notin> set (dkeys p) then [MissingKey kind key] else []) expected))"

lemma read_first_None_iff:
  "read_first p names = None \<longleftrightarrow> (\<forall>n \<in> set names. \<forall>v. dget p n = Some v \<longrightarrow> blank v)"
  by (induction names) (auto split: option.splits)

lemma read_first_Some:
  "read_first p names = Some v \<Longrightarrow> \<not> blank v \<and> (\<exists>n \<in> set names. dget p n = Some v)"
  by (induction names) (auto split: option.splits if_splits)

lemma every_kind_has_a_shape:
  "kind \<in> set ledger_event_kinds \<Longrightarrow> dget ledger_payload_shapes kind \<noteq> None"
  by (simp add: ledger_event_kinds_def ledger_payload_shapes_def) (elim disjE; simp)

lemma validate_plain_kind:
  assumes "kind \<in> set ledger_event_kinds" and "kind \<notin> set joinable_kinds"
  shows "validate_ledger_payload kind p = [] \<longleftrightarrow>
     set (the (dget ledger_payload_shapes kind)) \<subseteq> set (dkeys p)"
proof -
  obtain ks where ks: "dget ledger_payload_shapes kind = Some ks"
    using every_kind_has_a_shape [OF assms(1)] by auto
  have "concat (map (\<lambda>key. if key \<notin> set (dkeys p) then [MissingKey kind key] else []) ks) = [] \<longleftrightarrow>
     set ks \<subseteq> set (dkeys p)"
    by (induction ks) auto
  with assms ks show ?thesis
    by (simp add: validate_ledger_payload_def)
qed

section \<open>Events, the in-memory sink and the recorder\<close>

record ledger_event =
  le_event_id :: string
  le_ts :: string
  le_kind :: string
  le_auction_id :: "string option"
  le_store_id :: "string option"
  le_order_ref :: "string option"
  le_payload :: payload

datatype ledger_error = UnknownLedgerEventKind string | MalformedLedgerPayload "payload_problem list"

text \<open>
  \<open>build_event\<close>; the drawn \<open>uuid4\<close> and the wall-clock reading it falls back to are the
  argument \<open>stamp\<close>.
\<close>

definition build_event ::
  "string \<times> string \<Rightarrow> string \<Rightarrow> string option \<Rightarrow> string option \<Rightarrow> string option \<Rightarrow> payload \<Rightarrow>
   ledger_error + ledger_event" where
  "build_event stamp kind auction_id store_id order_ref p =
     (if kind \<notin> set ledger_event_kinds then Inl (UnknownLedgerEventKind kind)
      else Inr \<lparr>le_event_id = fst stamp, le_ts = snd stamp, le_kind = kind,
                 le_auction_id = auction_id, le_store_id = store_id,
                 le_order_ref = order_ref, le_payload = p\<rparr>)"

definition build_published_event ::
  "string \<times> string \<Rightarrow> string \<Rightarrow> string option \<Rightarrow> string option \<Rightarrow> string option \<Rightarrow> payload \<Rightarrow>
   ledger_error + ledger_event" where
  "build_published_event stamp kind auction_id store_id order_ref p =
     (case build_event stamp kind auction_id store_id order_ref p of
        Inl e \<Rightarrow> Inl e
      | Inr ev \<Rightarrow>
          (let problems = validate_ledger_payload kind (le_payload ev) in
           if problems \<noteq> [] then Inl (MalformedLedgerPayload problems) else Inr ev))"

text \<open>The bounded readback ring; \<open>capacity = None\<close> is unbounded.\<close>

record ring_sink =
  rs_capacity :: "nat option"
  rs_ring :: "ledger_event list"
  rs_evicted :: nat

definition new_ring :: "int option \<Rightarrow> ring_sink" where
  "new_ring cap = \<lparr>rs_capacity = map_option (\<lambda>c. nat (max 1 c)) cap, rs_ring = [], rs_evicted = 0\<rparr>"

definition ring_emit :: "ledger_event \<Rightarrow> ring_sink \<Rightarrow> ring_sink" where
  "ring_emit ev s =
     (case rs_capacity s of
        None \<Rightarrow> s\<lparr>rs_ring := rs_ring s @ [ev]\<rparr>
      | Some cap \<Rightarrow>
          (let s1 = (if length (rs_ring s) = cap then s\<lparr>rs_evicted := Suc (rs_evicted s)\<rparr> else s)
           in s1\<lparr>rs_ring := trim_front cap (rs_ring s1 @ [ev])\<rparr>))"

text \<open>\<open>for_auction\<close>: \<open>Inl\<close> is \<open>LedgerReadbackEvicted\<close>, with the number evicted.\<close>

definition ring_for_auction :: "string \<Rightarrow> ring_sink \<Rightarrow> nat + ledger_event list" where
  "ring_for_auction auction_id s =
     (let rows = filter (\<lambda>ev. le_auction_id ev = Some auction_id) (rs_ring s) in
      if rows = [] \<and> rs_evicted s \<noteq> 0 then Inl (rs_evicted s) else Inr rows)"

text \<open>
  The recorder: the sink's \<open>emit\<close> is an argument, \<open>Inl\<close> when it raised. A raising sink costs
  the event, which is kept in \<open>failures\<close>, and never the operation that recorded it.
\<close>

record 'k recorder =
  rec_sink :: 'k
  rec_failures :: "(ledger_event \<times> string) list"

definition recorder_record ::
  "(ledger_event \<Rightarrow> 'k \<Rightarrow> (string + unit) \<times> 'k) \<Rightarrow> string \<times> string \<Rightarrow> string \<Rightarrow>
   string option \<Rightarrow> string option \<Rightarrow> string option \<Rightarrow> payload \<Rightarrow> 'k recorder \<Rightarrow>
   (ledger_error + ledger_event) \<times> 'k recorder" where
  "recorder_record emit stamp kind auction_id store_id order_ref p r =
     (case build_event stamp kind auction_id store_id order_ref p of
        Inl e \<Rightarrow> (Inl e, r)
      | Inr ev \<Rightarrow>
          (case emit ev (rec_sink r) of
             (Inl why, k) \<Rightarrow> (Inr ev, r\<lparr>rec_sink := k, rec_failures := rec_failures r @ [(ev, why)]\<rparr>)
           | (Inr _, k) \<Rightarrow> (Inr ev, r\<lparr>rec_sink := k\<rparr>)))"

definition ring_sink_emit :: "ledger_event \<Rightarrow> ring_sink \<Rightarrow> (string + unit) \<times> ring_sink" where
  "ring_sink_emit ev s = (Inr (), ring_emit ev s)"

section \<open>The ring keeps the newest events, in order, and counts the rest\<close>

definition ring_inv :: "ring_sink \<Rightarrow> bool" where
  "ring_inv s \<longleftrightarrow> (case rs_capacity s of None \<Rightarrow> rs_evicted s = 0
     | Some cap \<Rightarrow> 0 < cap \<and> length (rs_ring s) \<le> cap \<and> (rs_evicted s \<noteq> 0 \<longrightarrow> length (rs_ring s) = cap))"

lemma ring_inv_new: "ring_inv (new_ring cap)"
  by (cases cap) (auto simp: ring_inv_def new_ring_def)

lemma ring_emit_capacity [simp]: "rs_capacity (ring_emit ev s) = rs_capacity s"
  by (simp add: ring_emit_def Let_def split: option.splits)

lemma ring_emit_inv: "ring_inv s \<Longrightarrow> ring_inv (ring_emit ev s)"
  by (auto simp: ring_inv_def ring_emit_def Let_def trim_front_drop split: option.splits)

interpretation ring: invariant_machine ring_emit ring_inv
  by unfold_locales (rule ring_emit_inv)

lemma ring_emit_window:
  assumes "ring_inv s"
  shows "rs_ring s = drop (rs_evicted s) all \<and> rs_evicted s \<le> length all \<Longrightarrow>
     rs_ring (ring_emit ev s) = drop (rs_evicted (ring_emit ev s)) (all @ [ev]) \<and>
     rs_evicted (ring_emit ev s) \<le> length (all @ [ev])"
  using assms
  by (cases "rs_capacity s")
    (auto simp: ring_inv_def ring_emit_def Let_def trim_front_drop drop_Suc tl_drop [symmetric]
      Suc_diff_le neq_Nil_conv)

lemma ring_run_window:
  assumes "ring_inv s" and "rs_ring s = drop (rs_evicted s) all" and "rs_evicted s \<le> length all"
  shows "rs_ring (fold ring_emit evs s) = drop (rs_evicted (fold ring_emit evs s)) (all @ evs) \<and>
    rs_evicted (fold ring_emit evs s) \<le> length (all @ evs)"
  using assms
proof (induction evs arbitrary: s all)
  case Nil
  then show ?case by simp
next
  case (Cons ev evs)
  have "rs_ring (ring_emit ev s) = drop (rs_evicted (ring_emit ev s)) (all @ [ev])"
    and "rs_evicted (ring_emit ev s) \<le> length (all @ [ev])"
    using ring_emit_window [OF Cons.prems(1), of all ev] Cons.prems(2,3) by auto
  from Cons.IH [OF ring_emit_inv [OF Cons.prems(1)] this] show ?case by simp
qed

end
