(* ===== verification/Checkout.thy ===== *)
theory Checkout
  imports CheckoutRules LedgerContract "HOL-Library.Char_ord" "HOL-Library.List_Lexorder"
begin

text \<open>
  The checkout port and its two providers (\<open>apps/exchange/src/checkout/provider.py\<close>, \<open>providers.py\<close>,
  \<open>registry.py\<close>, \<open>sellers.py\<close>) and the log of audit anomalies (\<open>auction/ledger.py\<close>).

  A \<open>shop\<close> is what a checkout changes: the draws of \<open>secrets\<close>, the event stamps (a \<open>uuid4\<close> and a clock
  reading), the anomaly log and the merchant behind \<open>POST /codes\<close>. An exception is the name of its type,
  with the orphaned code where it carries one; the redaction of its message is not modelled.
\<close>

section \<open>The shop\<close>

record audit_anomaly =
  aa_seq :: nat
  aa_where :: string
  aa_kind :: string
  aa_published :: "string list"
  aa_written :: "string list"
  aa_context :: payload

definition audit_anomaly_capacity :: nat where "audit_anomaly_capacity = 512"

record 'm shop =
  sh_choices :: "nat \<Rightarrow> nat"
  sh_chosen :: nat
  sh_tokens :: "nat \<Rightarrow> string"
  sh_tokens_drawn :: nat
  sh_stamps :: "nat \<Rightarrow> string \<times> string"
  sh_stamped :: nat
  sh_anomalies :: "audit_anomaly list"
  sh_anomaly_seq :: nat
  sh_merchant :: 'm

text \<open>\<open>record_audit_anomaly\<close>: its sentence is not modelled; a context value that is \<open>None\<close> is dropped.\<close>

definition record_audit_anomaly ::
  "string \<Rightarrow> string \<Rightarrow> payload \<Rightarrow> payload \<Rightarrow> 'm shop \<Rightarrow> 'm shop" where
  "record_audit_anomaly site kind written context w =
     w\<lparr>sh_anomaly_seq := Suc (sh_anomaly_seq w),
       sh_anomalies := trim_front audit_anomaly_capacity (sh_anomalies w @
         [\<lparr>aa_seq = sh_anomaly_seq w, aa_where = site, aa_kind = kind,
           aa_published = (case dget ledger_payload_shapes kind of Some ks \<Rightarrow> ks | None \<Rightarrow> []),
           aa_written = sort (dkeys written),
           aa_context = filter (\<lambda>p. snd p \<noteq> JNull) context\<rparr>])\<rparr>"

text \<open>
  \<open>build_published_event\<close> with a stamp of its own; a malformed body is recorded and gives no event.
\<close>

definition published_or_recorded ::
  "string \<Rightarrow> string \<Rightarrow> string \<Rightarrow> string option \<Rightarrow> payload \<Rightarrow> payload \<Rightarrow> 'm shop \<Rightarrow>
   ledger_event option \<times> 'm shop" where
  "published_or_recorded site kind auction_id store_id body context w =
     (let w1 = w\<lparr>sh_stamped := Suc (sh_stamped w)\<rparr> in
      case build_published_event (sh_stamps w (sh_stamped w)) kind (Some auction_id) store_id None body of
        Inr ev \<Rightarrow> (Some ev, w1)
      | Inl _ \<Rightarrow> (None, record_audit_anomaly site kind body
          ([(''auction_id'', JStr auction_id), (''store_id'', json_opt JStr store_id)] @ context) w1))"

section \<open>Requests and results\<close>

datatype domain_answer = LookupRaised | DomainAnswer "string option"

type_synonym registered_domains = "string \<Rightarrow> domain_answer"

definition no_registered_domains :: registered_domains where
  "no_registered_domains store_id = DomainAnswer None"

definition static_registered_domains :: "(string, string) dict \<Rightarrow> registered_domains" where
  "static_registered_domains domains store_id = DomainAnswer (dget domains store_id)"

text \<open>The merchant client: asked for a code, it may raise, or answer a JSON value.\<close>

type_synonym 'm code_creator = "string \<Rightarrow> payload \<Rightarrow> 'm \<Rightarrow> (string + json) \<times> 'm"

record 'm checkout_request =
  cq_auction_id :: string
  cq_bid_ref :: string
  cq_store_id :: string
  cq_store_domain :: string
  cq_offer :: json
  cq_mode :: string
  cq_creator :: "'m code_creator option"
  cq_now :: rat
  cq_domains :: "registered_domains option"

record orphaned_code =
  or_code :: string
  or_permalink_url :: string
  or_provider :: string
  or_store_id :: string
  or_auction_id :: string
  or_bid_ref :: string
  or_expires_at :: "deadline option"

datatype failure = Failed string | Orphaned string orphaned_code

record minted_checkout =
  mt_code :: string
  mt_permalink_url :: string
  mt_expires_at :: "deadline option"

record checkout_result =
  cr_code :: string
  cr_permalink_url :: string
  cr_events :: "ledger_event list"
  cr_mode :: string
  cr_provider :: string
  cr_token :: string
  cr_expires_at :: deadline
  cr_domain_verified :: bool

definition domain_is_platform_verified :: "'m checkout_request \<Rightarrow> bool" where
  "domain_is_platform_verified req \<longleftrightarrow> cq_domains req \<noteq> None"

definition usable_domain :: "string \<Rightarrow> failure + string" where
  "usable_domain domain =
     (if trim domain = [] then Inl (Failed ''OffDomainCheckout'') else Inr (redact_addresses domain))"

definition registered_domain_for :: "'m checkout_request \<Rightarrow> failure + string" where
  "registered_domain_for req =
     (case cq_domains req of
        None \<Rightarrow> usable_domain (cq_store_domain req)
      | Some lookup \<Rightarrow>
          (case lookup (cq_store_id req) of
             LookupRaised \<Rightarrow> Inl (Failed ''OffDomainCheckout'')
           | DomainAnswer None \<Rightarrow> Inl (Failed ''OffDomainCheckout'')
           | DomainAnswer (Some domain) \<Rightarrow> usable_domain domain))"

section \<open>Minting\<close>

text \<open>
  A mint answers what it minted or the exception it raised, with the codes it reported to the minting
  ledger, oldest first.
\<close>

type_synonym 'm mint_outcome = "((failure + minted_checkout) \<times> string list) \<times> 'm shop"

definition mint_code :: "'m shop \<Rightarrow> string \<times> 'm shop" where
  "mint_code w =
     (code_prefix @ map (\<lambda>i. code_alphabet ! (sh_choices w (sh_chosen w + i) mod length code_alphabet))
        [0..<code_body_length],
      w\<lparr>sh_chosen := sh_chosen w + code_body_length\<rparr>)"

text \<open>The offer as a mapping, the empty one when it is none.\<close>

definition offer_fields :: "json \<Rightarrow> payload" where
  "offer_fields v = (case v of JObj d \<Rightarrow> d | _ \<Rightarrow> [])"

definition variant_named :: "checkout_lib \<Rightarrow> payload \<Rightarrow> string" where
  "variant_named lib offer =
     (let named = (case dget offer ''variant_ref'' of
                     Some v \<Rightarrow> if truthy v then Some v else dget offer ''variant_id''
                   | None \<Rightarrow> dget offer ''variant_id'')
      in case named of
           None \<Rightarrow> []
         | Some JNull \<Rightarrow> []
         | Some (JBool b) \<Rightarrow> []
         | Some v \<Rightarrow> trim (str_of (lib_str lib) v))"

definition default_permalink :: "checkout_lib \<Rightarrow> 'm checkout_request \<Rightarrow> string \<Rightarrow> failure + string" where
  "default_permalink lib req code =
     (let offer = offer_fields (cq_offer req); named = variant_named lib offer;
          variant = (if named = [] then ''1'' else named)
      in case registered_domain_for req of
           Inl e \<Rightarrow> Inl e
         | Inr domain \<Rightarrow>
             (case offer_quantity lib offer of
                Inl e \<Rightarrow> Inl (Failed e)
              | Inr n \<Rightarrow> Inr (build_cart_permalink domain code variant n)))"

text \<open>The permalink and the expiry a provider makes of a code it has; \<open>given\<close> is the merchant's own link.\<close>

definition dress_code ::
  "checkout_lib \<Rightarrow> 'm checkout_request \<Rightarrow> string \<Rightarrow> string option \<Rightarrow> failure + minted_checkout" where
  "dress_code lib req code given =
     (case (case given of Some link \<Rightarrow> Inr link | None \<Rightarrow> default_permalink lib req code) of
        Inl e \<Rightarrow> Inl e
      | Inr permalink \<Rightarrow>
          (case code_expiry lib (cq_now req) (offer_fields (cq_offer req)) of
             Inl e \<Rightarrow> Inl (Failed e)
           | Inr limit \<Rightarrow> Inr \<lparr>mt_code = code, mt_permalink_url = permalink, mt_expires_at = Some limit\<rparr>))"

definition simulated_mint :: "checkout_lib \<Rightarrow> 'm checkout_request \<Rightarrow> 'm shop \<Rightarrow> 'm mint_outcome" where
  "simulated_mint lib req w =
     (let (code, w1) = mint_code w in ((dress_code lib req code None, [code]), w1))"

definition reply_field :: "json \<Rightarrow> string \<Rightarrow> json" where
  "reply_field reply name =
     (case reply of JObj d \<Rightarrow> (case dget d name of Some v \<Rightarrow> v | None \<Rightarrow> JNull) | _ \<Rightarrow> JNull)"

text \<open>\<open>_code_refusals\<close>: a mapping is read alike by both readers, so both give the same reasons.\<close>

definition code_refusals :: "json \<Rightarrow> json \<Rightarrow> code_problem list" where
  "code_refusals reply code = acted_on (discount_code_reasons code) code"

definition merchant_permalink :: "checkout_lib \<Rightarrow> json \<Rightarrow> string option" where
  "merchant_permalink lib reply =
     (let a = reply_field reply ''permalink_url''; b = reply_field reply ''permalink''
      in if truthy a then Some (str_of (lib_str lib) a)
         else if truthy b then Some (str_of (lib_str lib) b) else None)"

definition orphan_of :: "'m checkout_request \<Rightarrow> string \<Rightarrow> string \<Rightarrow> string \<Rightarrow> deadline option \<Rightarrow> orphaned_code" where
  "orphan_of req provider code permalink expires_at =
     \<lparr>or_code = code, or_permalink_url = permalink, or_provider = provider, or_store_id = cq_store_id req,
      or_auction_id = cq_auction_id req, or_bid_ref = cq_bid_ref req, or_expires_at = expires_at\<rparr>"

text \<open>The permalink there is when an exception cuts the dressing of a code short.\<close>

definition link_so_far :: "checkout_lib \<Rightarrow> 'm checkout_request \<Rightarrow> string \<Rightarrow> string option \<Rightarrow> string" where
  "link_so_far lib req code given =
     (case given of
        Some link \<Rightarrow> link
      | None \<Rightarrow> (case default_permalink lib req code of Inr link \<Rightarrow> link | Inl _ \<Rightarrow> []))"

text \<open>The reasons of a refused code, as the anomaly's context spells them.\<close>

fun code_problem_name :: "code_problem \<Rightarrow> string" where
  "code_problem_name CodeMissing = ''code_unusable:code:missing''"
| "code_problem_name CodeNotAString = ''code_unusable:code:not_a_string''"
| "code_problem_name CodeBlank = ''code_unusable:code:blank''"
| "code_problem_name CodeWhitespace = ''code_unusable:code:whitespace''"
| "code_problem_name CodeControlCharacters = ''code_unusable:code:control_characters''"
| "code_problem_name CodeTooLong = ''code_unusable:code:too_long''"

definition shopify_mint :: "checkout_lib \<Rightarrow> 'm checkout_request \<Rightarrow> 'm shop \<Rightarrow> 'm mint_outcome" where
  "shopify_mint lib req w =
     (case cq_creator req of
        None \<Rightarrow> ((Inl (Failed ''CheckoutCreatorError''), []), w)
      | Some create \<Rightarrow>
          (let (answer, m) = create (cq_store_id req) (offer_fields (cq_offer req)) (sh_merchant w);
               w1 = w\<lparr>sh_merchant := m\<rparr> in
           case answer of
             Inl e \<Rightarrow> ((Inl (Failed e), []), w1)
           | Inr reply \<Rightarrow>
               (let v = reply_field reply ''code'' in
                if \<not> truthy v then ((Inl (Failed ''CheckoutCreatorError''), []), w1)
                else
                  let refusals = code_refusals reply v; code = str_of (lib_str lib) v in
                  if refusals \<noteq> [] then
                    ((Inl (Failed ''CheckoutCreatorError''), []),
                     record_audit_anomaly ''ShopifyCheckoutProvider.mint'' ''code_created'' []
                       [(''provider'', JStr ''shopify''), (''auction_id'', JStr (cq_auction_id req)),
                        (''store_id'', JStr (cq_store_id req)), (''bid_ref'', JStr (cq_bid_ref req)),
                        (''code_reasons'', JArr (map (JStr \<circ> code_problem_name) refusals)),
                        (''fingerprint'', JStr (code_fingerprint lib code))] w1)
                  else
                    let link = merchant_permalink lib reply in
                    case dress_code lib req code link of
                      Inr minted \<Rightarrow> ((Inr minted, [code]), w1)
                    | Inl _ \<Rightarrow>
                        ((Inl (Orphaned ''OrphanedCheckoutCode'' (orphan_of req ''shopify'' code
                            (link_so_far lib req code link) None)), [code]), w1))))"

section \<open>The port\<close>

datatype provider = SimulatedRedirect | Shopify

fun provider_name :: "provider \<Rightarrow> string" where
  "provider_name SimulatedRedirect = ''simulated-redirect''"
| "provider_name Shopify = ''shopify''"

fun provider_mint :: "checkout_lib \<Rightarrow> provider \<Rightarrow> 'm checkout_request \<Rightarrow> 'm shop \<Rightarrow> 'm mint_outcome" where
  "provider_mint lib SimulatedRedirect req w = simulated_mint lib req w"
| "provider_mint lib Shopify req w = shopify_mint lib req w"

definition resolve_provider :: "string \<Rightarrow> provider option" where
  "resolve_provider mode =
     dget [(''redirect'', SimulatedRedirect), (''shopify_stub'', Shopify), (''shopify'', Shopify)]
       (lower (trim mode))"

text \<open>\<open>_mint_recording_orphans\<close>: an exception after a code was reported carries that code out.\<close>

definition mint_recording_orphans ::
  "checkout_lib \<Rightarrow> provider \<Rightarrow> 'm checkout_request \<Rightarrow> 'm shop \<Rightarrow> (failure + minted_checkout) \<times> 'm shop" where
  "mint_recording_orphans lib p req w =
     (let ((res, recorded), w1) = provider_mint lib p req w in
      case res of
        Inl (Failed e) \<Rightarrow>
          if recorded = [] \<or> last recorded = [] then (Inl (Failed e), w1)
          else (Inl (Orphaned (if e = ''OffDomainCheckout'' then ''OrphanedOffDomainCheckout''
                               else ''OrphanedCheckoutCode'')
                  (orphan_of req (provider_name p) (last recorded) [] None)), w1)
      | _ \<Rightarrow> (res, w1))"

definition deadline_json :: "deadline \<Rightarrow> json" where
  "deadline_json d = (case d of At t \<Rightarrow> JReal t | NeverOpen \<Rightarrow> JNull)"

definition offer_field :: "payload \<Rightarrow> string \<Rightarrow> json" where
  "offer_field offer name = (case dget offer name of Some v \<Rightarrow> v | None \<Rightarrow> JNull)"

text \<open>The C11 bodies. The deadline is open by now, so it is a number.\<close>

definition checkout_bodies ::
  "'m checkout_request \<Rightarrow> minted_checkout \<Rightarrow> string \<Rightarrow> bool \<Rightarrow> deadline \<Rightarrow> (string \<times> payload) list" where
  "checkout_bodies req minted token verified expires_at =
     [(''accepted'',
       [(''checkout_token'', JStr token), (''bid_ref'', JStr (cq_bid_ref req)),
        (''offer'', JObj (map (\<lambda>name. (name, offer_field (offer_fields (cq_offer req)) name))
           [''product_ref'', ''unit_price'', ''total_price'', ''discount'', ''delivery_estimate_days'']))]),
      (''code_created'',
       [(''code'', JStr (mt_code minted)), (''permalink_url'', JStr (mt_permalink_url minted)),
        (''expires_at'', deadline_json expires_at), (''checkout_token'', JStr token),
        (''discount_code'', JStr (mt_code minted))]),
      (''checkout_redirect'',
       [(''checkout_token'', JStr token), (''permalink_url'', JStr (mt_permalink_url minted)),
        (''discount_code'', JStr (mt_code minted)), (''domain_verified'', JBool verified)])]"

fun emit_bodies ::
  "checkout_lib \<Rightarrow> provider \<Rightarrow> 'm checkout_request \<Rightarrow> minted_checkout \<Rightarrow> string \<Rightarrow> (string \<times> payload) list \<Rightarrow>
   'm shop \<Rightarrow> ledger_event list \<times> 'm shop" where
  "emit_bodies lib p req minted token [] w = ([], w)"
| "emit_bodies lib p req minted token ((kind, body) # rest) w =
     (let (ev, w1) = published_or_recorded ''CheckoutProvider._events'' kind (cq_auction_id req)
             (Some (cq_store_id req)) body
             [(''provider'', JStr (provider_name p)), (''bid_ref'', JStr (cq_bid_ref req)),
              (''checkout_token'', JStr token), (''fingerprint'', JStr (code_fingerprint lib (mt_code minted)))] w;
          (evs, w2) = emit_bodies lib p req minted token rest w1
      in ((case ev of Some e \<Rightarrow> e # evs | None \<Rightarrow> evs), w2))"

text \<open>What the port does before it asks a provider for anything.\<close>

definition checkout_preconditions :: "checkout_lib \<Rightarrow> 'm checkout_request \<Rightarrow> failure + string" where
  "checkout_preconditions lib req =
     (case registered_domain_for req of
        Inl e \<Rightarrow> Inl e
      | Inr registered \<Rightarrow>
          (case cq_offer req of
             JObj offer \<Rightarrow>
               (let url = field_text lib offer ''checkout_url'' in
                if url \<noteq> [] \<and> \<not> is_on_domain lib url registered then Inl (Failed ''OffDomainCheckout'')
                else
                  case assert_offer_is_mintable lib offer (cq_now req) of
                    Inl e \<Rightarrow> Inl (Failed e)
                  | Inr limit \<Rightarrow>
                      if window_closed (Some limit) (cq_now req) then Inl (Failed ''DiscountDoesNotApply'')
                      else Inr registered)
           | _ \<Rightarrow> Inl (Failed ''AttributeError'')))"

definition checkout ::
  "checkout_lib \<Rightarrow> provider \<Rightarrow> 'm checkout_request \<Rightarrow> 'm shop \<Rightarrow> (failure + checkout_result) \<times> 'm shop" where
  "checkout lib p req w =
     (case checkout_preconditions lib req of
        Inl e \<Rightarrow> (Inl e, w)
      | Inr registered \<Rightarrow>
          (let (res, w1) = mint_recording_orphans lib p req w in
           case res of
             Inl e \<Rightarrow> (Inl e, w1)
           | Inr minted \<Rightarrow>
               (let orphan = orphan_of req (provider_name p) (mt_code minted) (mt_permalink_url minted)
                      (mt_expires_at minted) in
                if \<not> is_on_domain lib (mt_permalink_url minted) registered
                then (Inl (Orphaned ''OrphanedOffDomainCheckout'' orphan), w1)
                else if window_closed (mt_expires_at minted) (cq_now req) \<or>
                        cart_conflict lib (mt_permalink_url minted) (mt_code minted)
                then (Inl (Orphaned ''OrphanedUnusableDiscount'' orphan), w1)
                else
                  let token = sh_tokens w1 (sh_tokens_drawn w1);
                      w2 = w1\<lparr>sh_tokens_drawn := Suc (sh_tokens_drawn w1)\<rparr> in
                  case (case mt_expires_at minted of
                          Some d \<Rightarrow> Inr d
                        | None \<Rightarrow> code_expiry lib (cq_now req) (offer_fields (cq_offer req))) of
                    Inl _ \<Rightarrow> (Inl (Orphaned ''OrphanedCheckoutCode'' orphan), w2)
                  | Inr expires_at \<Rightarrow>
                      (let verified = domain_is_platform_verified req;
                           (evs, w3) = emit_bodies lib p req minted token
                             (checkout_bodies req minted token verified expires_at) w2
                       in (Inr \<lparr>cr_code = mt_code minted, cr_permalink_url = mt_permalink_url minted,
                                cr_events = evs, cr_mode = cq_mode req, cr_provider = provider_name p,
                                cr_token = token, cr_expires_at = expires_at, cr_domain_verified = verified\<rparr>,
                           w3)))))"

end
