(* ===== verification/Eligibility.thy ===== *)
theory Eligibility
  imports Prelude
begin

text \<open>
  Seller eligibility, the refusal-by-default reading of a trust source
  (\<open>apps/exchange/src/eligibility/__init__.py\<close>, \<open>layered.py\<close>). A source is what the code can ask of
  it: the version it declares (\<open>None\<close> when that is not a text) and its \<open>check\<close>, which may raise,
  answer nothing, or answer a status (\<open>None\<close> when that is not a text). The sentence a decision
  carries beside its status is not modelled. A store is named by a value of any type.
\<close>

definition eligibility_interface_version :: string where
  "eligibility_interface_version = ''seller-eligibility/1.0.0''"

definition eligible_status :: string where "eligible_status = ''eligible''"

definition blacklisted_status :: string where "blacklisted_status = ''blacklisted''"

definition unavailable_status :: string where "unavailable_status = ''unavailable''"

definition eligibility_statuses :: "string list" where
  "eligibility_statuses = [eligible_status, blacklisted_status, unavailable_status]"

record 'i eligibility_decision =
  ed_store_id :: 'i
  ed_status :: string

datatype eligibility_answer = CheckRaised | NoDecision | Answered "string option"

record 'i eligibility_source =
  es_version :: "string option"
  es_check :: "'i \<Rightarrow> eligibility_answer"

definition speaks_supported_interface :: "'i eligibility_source \<Rightarrow> bool" where
  "speaks_supported_interface source \<longleftrightarrow> es_version source = Some eligibility_interface_version"

definition read_eligibility :: "'i eligibility_source \<Rightarrow> 'i \<Rightarrow> 'i eligibility_decision" where
  "read_eligibility source store_id =
     (case es_check source store_id of
        CheckRaised \<Rightarrow> \<lparr>ed_store_id = store_id, ed_status = unavailable_status\<rparr>
      | NoDecision \<Rightarrow> \<lparr>ed_store_id = store_id, ed_status = unavailable_status\<rparr>
      | Answered None \<Rightarrow> \<lparr>ed_store_id = store_id, ed_status = unavailable_status\<rparr>
      | Answered (Some status) \<Rightarrow>
          if status \<notin> set eligibility_statuses then \<lparr>ed_store_id = store_id, ed_status = unavailable_status\<rparr>
          else \<lparr>ed_store_id = store_id, ed_status = status\<rparr>)"

text \<open>\<open>StaticSellerEligibility\<close>: a stated status per store and a default, \<open>unavailable\<close> unless given.\<close>

definition static_eligibility :: "('i, string) dict \<Rightarrow> string \<Rightarrow> string \<Rightarrow> 'i eligibility_source" where
  "static_eligibility statuses default_status version =
     \<lparr>es_version = Some version,
      es_check = (\<lambda>store_id. Answered (Some
        (case dget statuses store_id of Some status \<Rightarrow> status | None \<Rightarrow> default_status)))\<rparr>"

text \<open>\<open>LayeredSellerEligibility\<close>: what the deployment states decides; the rest is asked of the other.\<close>

definition defers :: "('i, string) dict \<Rightarrow> 'i \<Rightarrow> bool" where
  "defers stated store_id \<longleftrightarrow> store_id \<notin> set (dkeys stated)"

definition layered_check ::
  "('i, string) dict \<Rightarrow> 'i eligibility_source \<Rightarrow> 'i \<Rightarrow> eligibility_answer" where
  "layered_check stated deferred store_id =
     (if \<not> defers stated store_id
      then es_check (static_eligibility stated unavailable_status eligibility_interface_version) store_id
      else if \<not> speaks_supported_interface deferred then Answered (Some unavailable_status)
      else Answered (Some (ed_status (read_eligibility deferred store_id))))"

definition layered_eligibility :: "('i, string) dict \<Rightarrow> 'i eligibility_source \<Rightarrow> 'i eligibility_source" where
  "layered_eligibility stated deferred =
     \<lparr>es_version = Some eligibility_interface_version, es_check = layered_check stated deferred\<rparr>"

lemma read_eligibility_eligible:
  "ed_status (read_eligibility source store_id) = eligible_status \<longleftrightarrow>
     es_check source store_id = Answered (Some eligible_status)"
  by (auto simp: read_eligibility_def eligibility_statuses_def eligible_status_def blacklisted_status_def
      unavailable_status_def split: eligibility_answer.split option.split if_splits)

lemma read_eligibility_closed:
  "ed_status (read_eligibility source store_id) \<in> set eligibility_statuses"
  by (auto simp: read_eligibility_def eligibility_statuses_def split: eligibility_answer.split option.split)

lemma layered_eligible:
  "ed_status (read_eligibility (layered_eligibility stated deferred) store_id) = eligible_status \<longleftrightarrow>
     (case dget stated store_id of
        Some status \<Rightarrow> status = eligible_status
      | None \<Rightarrow> speaks_supported_interface deferred \<and>
          es_check deferred store_id = Answered (Some eligible_status))"
proof (cases "dget stated store_id")
  case None
  then have "defers stated store_id" by (simp add: defers_def dget_None_iff)
  with None show ?thesis
    by (auto simp: read_eligibility_eligible layered_eligibility_def layered_check_def)
      (auto simp: eligible_status_def unavailable_status_def)
next
  case (Some status)
  then have "\<not> defers stated store_id" by (auto simp: defers_def dest: dget_in_set intro: rev_image_eqI)
  with Some show ?thesis
    by (simp add: read_eligibility_eligible layered_eligibility_def layered_check_def static_eligibility_def)
qed

end
