(* ===== verification/AuctionStore.thy ===== *)
theory AuctionStore
  imports Prelude
begin

text \<open>
  \<open>apps/exchange/src/auction/state.py\<close>: the auction record, the interface
  \<open>AuctionStore\<close> the state machine is written against, and the process-local
  \<open>InMemoryAuctionStore\<close> with its two bounds (capacity and TTL), its reservations and its
  tombstone ring.

  The store's injected clock is a stream of readings with a cursor, so that every call of
  \<open>self._clock()\<close> is a reading of its own. Readings are rationals: every finite Python float
  is one, and the difference of two wall-clock floats within a factor two of one another is exact.
  \<open>json.dumps\<close> and \<open>json.loads\<close> of a record are inverse to one another on the JSON values a
  record holds, so a stored blob is the record.
\<close>

section \<open>Auction records\<close>

datatype auction_state = Created | Open | Closed | Accepted | Expired

fun state_name :: "auction_state \<Rightarrow> string" where
  "state_name Created = ''created''"
| "state_name Open = ''open''"
| "state_name Closed = ''closed''"
| "state_name Accepted = ''accepted''"
| "state_name Expired = ''expired''"

lemma state_name_inject [simp]: "state_name a = state_name b \<longleftrightarrow> a = b"
  by (cases a; cases b) auto

fun transitions :: "auction_state \<Rightarrow> auction_state list" where
  "transitions Created = [Open, Expired]"
| "transitions Open = [Closed, Expired]"
| "transitions Closed = [Accepted, Expired]"
| "transitions Accepted = []"
| "transitions Expired = []"

text \<open>A roster row: the store it names, if it names one, and its other JSON fields.\<close>

record roster_entry =
  re_store_id :: "string option"
  re_fields :: "(string \<times> json) list"

record auction_record =
  ar_auction_id :: string
  ar_intent_id :: string
  ar_cluster_id :: string
  ar_state :: auction_state
  ar_roster :: "roster_entry list"
  ar_accepted_bid_ref :: "string option"
  ar_opened_at :: "rat option"
  ar_closed_at :: "rat option"
  ar_deadline :: "rat option"
  ar_history :: "(auction_state \<times> rat option) list"

definition exit_reservation :: "auction_state \<Rightarrow> string" where
  "exit_reservation st = ''exit:'' @ state_name st"

definition creation_reservation :: string where
  "creation_reservation = ''create''"

definition acceptance_reservation_name :: string where
  "acceptance_reservation_name = ''accept''"

definition reservation_names_per_auction :: nat where
  "reservation_names_per_auction = 5"

definition default_auction_capacity :: int where
  "default_auction_capacity = 512"

definition auction_ttl_seconds :: rat where
  "auction_ttl_seconds = 15 * 60"

section \<open>The store interface\<close>

text \<open>
  What \<open>AuctionStateMachine\<close> calls. Every operation may raise (a Redis connection may be
  lost between any two of them); \<open>Inl\<close> is the exception, and the state is returned with it.
  \<open>op_reserve\<close> answers \<open>None\<close> when the caller won and the holder's token otherwise.
\<close>

record 'st auction_store_ops =
  op_load :: "string \<Rightarrow> 'st \<Rightarrow> (string + auction_record option) \<times> 'st"
  op_save :: "auction_record \<Rightarrow> 'st \<Rightarrow> (string + unit) \<times> 'st"
  op_reserve :: "string \<Rightarrow> string \<Rightarrow> string \<Rightarrow> 'st \<Rightarrow> (string + string option) \<times> 'st"
  op_release :: "string \<Rightarrow> string \<Rightarrow> string \<Rightarrow> 'st \<Rightarrow> (string + unit) \<times> 'st"

section \<open>The in-memory store\<close>

datatype gone_reason = GoneEvicted | GoneExpired

record mem_store =
  ms_capacity :: nat
  ms_ttl :: rat
  ms_clock :: "nat \<Rightarrow> rat"
  ms_reads :: nat
  ms_records :: "(string, auction_record) dict"
  ms_written_at :: "(string, rat) dict"
  ms_reservations :: "(string \<times> string, rat \<times> string) dict"
  ms_gone :: "(string, gone_reason \<times> rat) dict"
  ms_evicted :: nat
  ms_expired :: nat

definition new_mem_store :: "int \<Rightarrow> rat \<Rightarrow> (nat \<Rightarrow> rat) \<Rightarrow> mem_store" where
  "new_mem_store capacity ttl clock =
     \<lparr>ms_capacity = nat (max 1 capacity), ms_ttl = ttl, ms_clock = clock, ms_reads = 0,
      ms_records = [], ms_written_at = [], ms_reservations = [], ms_gone = [],
      ms_evicted = 0, ms_expired = 0\<rparr>"

definition read_clock :: "mem_store \<Rightarrow> rat \<times> mem_store" where
  "read_clock s = (ms_clock s (ms_reads s), s\<lparr>ms_reads := Suc (ms_reads s)\<rparr>)"

definition forget :: "string \<Rightarrow> gone_reason \<Rightarrow> mem_store \<Rightarrow> mem_store" where
  "forget key reason s =
     (let s1 = s\<lparr>ms_records := dpop key (ms_records s),
                 ms_written_at := dpop key (ms_written_at s),
                 ms_reservations := filter (\<lambda>p. fst (fst p) \<noteq> key) (ms_reservations s),
                 ms_gone := dpop key (ms_gone s)\<rparr>;
          (now, s2) = read_clock s1
      in s2\<lparr>ms_gone := trim_front (ms_capacity s2) (dset key (reason, now) (ms_gone s2))\<rparr>)"

definition written_at :: "mem_store \<Rightarrow> string \<Rightarrow> rat" where
  "written_at s key = (case dget (ms_written_at s) key of Some t \<Rightarrow> t | None \<Rightarrow> 0)"

definition aged_out :: "mem_store \<Rightarrow> string \<Rightarrow> rat \<Rightarrow> bool" where
  "aged_out s key moment \<longleftrightarrow> moment - written_at s key \<ge> ms_ttl s"

definition claimed :: "mem_store \<Rightarrow> string \<Rightarrow> rat \<Rightarrow> bool" where
  "claimed s key moment \<longleftrightarrow>
     (case dget (ms_reservations s) (key, acceptance_reservation_name) of
        Some held \<Rightarrow> moment - fst held < ms_ttl s
      | None \<Rightarrow> False)"

definition count_expired :: "mem_store \<Rightarrow> mem_store" where
  "count_expired s = s\<lparr>ms_expired := Suc (ms_expired s)\<rparr>"

definition count_evicted :: "mem_store \<Rightarrow> mem_store" where
  "count_evicted s = s\<lparr>ms_evicted := Suc (ms_evicted s)\<rparr>"

lemma forget_simps [simp]:
  "ms_capacity (forget k r s) = ms_capacity s"
  "ms_ttl (forget k r s) = ms_ttl s"
  "ms_clock (forget k r s) = ms_clock s"
  "ms_reads (forget k r s) = Suc (ms_reads s)"
  "ms_records (forget k r s) = dpop k (ms_records s)"
  "ms_written_at (forget k r s) = dpop k (ms_written_at s)"
  "ms_reservations (forget k r s) = filter (\<lambda>p. fst (fst p) \<noteq> k) (ms_reservations s)"
  "ms_gone (forget k r s) =
     trim_front (ms_capacity s) (dset k (r, ms_clock s (ms_reads s)) (dpop k (ms_gone s)))"
  "ms_evicted (forget k r s) = ms_evicted s"
  "ms_expired (forget k r s) = ms_expired s"
  by (simp_all add: forget_def read_clock_def Let_def)

lemma count_simps [simp]:
  "ms_capacity (count_expired s) = ms_capacity s" "ms_capacity (count_evicted s) = ms_capacity s"
  "ms_ttl (count_expired s) = ms_ttl s" "ms_ttl (count_evicted s) = ms_ttl s"
  "ms_clock (count_expired s) = ms_clock s" "ms_clock (count_evicted s) = ms_clock s"
  "ms_reads (count_expired s) = ms_reads s" "ms_reads (count_evicted s) = ms_reads s"
  "ms_records (count_expired s) = ms_records s" "ms_records (count_evicted s) = ms_records s"
  "ms_written_at (count_expired s) = ms_written_at s"
  "ms_written_at (count_evicted s) = ms_written_at s"
  "ms_reservations (count_expired s) = ms_reservations s"
  "ms_reservations (count_evicted s) = ms_reservations s"
  "ms_gone (count_expired s) = ms_gone s" "ms_gone (count_evicted s) = ms_gone s"
  "ms_evicted (count_expired s) = ms_evicted s"
  "ms_evicted (count_evicted s) = Suc (ms_evicted s)"
  "ms_expired (count_expired s) = Suc (ms_expired s)"
  "ms_expired (count_evicted s) = ms_expired s"
  by (simp_all add: count_expired_def count_evicted_def)

text \<open>\<open>_evict\<close>, first loop: reap the aged-out prefix, oldest write first.\<close>

function evict_aged :: "rat \<Rightarrow> mem_store \<Rightarrow> mem_store" where
  "evict_aged moment s =
     (case ms_records s of
        [] \<Rightarrow> s
      | (oldest, _) # _ \<Rightarrow>
          if \<not> aged_out s oldest moment then s
          else evict_aged moment (count_expired (forget oldest GoneExpired s)))"
  by pat_completeness auto
termination
  by (relation "measure (\<lambda>(moment, s). length (ms_records s))")
    (auto intro!: le_imp_less_Suc length_dpop_le)

declare evict_aged.simps [simp del]

text \<open>
  The victim of the second loop: \<open>next((key for key in records if not claimed), oldest)\<close>.
\<close>

definition evict_victim :: "rat \<Rightarrow> mem_store \<Rightarrow> string" where
  "evict_victim moment s =
     first_or_head (\<lambda>key. \<not> claimed s key moment) (dkeys (ms_records s))"

lemma evict_victim_in: "ms_records s \<noteq> [] \<Longrightarrow> evict_victim moment s \<in> set (dkeys (ms_records s))"
  unfolding evict_victim_def by (rule first_or_head_in) simp

text \<open>\<open>_evict\<close>, second loop: one victim at a time while over the cap.\<close>

definition evict_one :: "rat \<Rightarrow> mem_store \<Rightarrow> mem_store" where
  "evict_one moment s =
     (let victim = evict_victim moment s in
      if aged_out s victim moment then count_expired (forget victim GoneExpired s)
      else count_evicted (forget victim GoneEvicted s))"

lemma evict_one_records: "ms_records (evict_one moment s) = dpop (evict_victim moment s) (ms_records s)"
  by (simp add: evict_one_def Let_def)

lemma evict_one_capacity [simp]: "ms_capacity (evict_one moment s) = ms_capacity s"
  by (simp add: evict_one_def Let_def)

lemma evict_one_less: "ms_records s \<noteq> [] \<Longrightarrow> length (ms_records (evict_one moment s)) < length (ms_records s)"
  by (simp add: evict_one_records length_dpop_less evict_victim_in del: set_map)

function evict_over :: "rat \<Rightarrow> mem_store \<Rightarrow> mem_store" where
  "evict_over moment s =
     (if length (ms_records s) > ms_capacity s then evict_over moment (evict_one moment s) else s)"
  by pat_completeness auto
termination
  by (relation "measure (\<lambda>(moment, s). length (ms_records s))") (auto intro!: evict_one_less)

declare evict_over.simps [simp del]

definition evict :: "mem_store \<Rightarrow> mem_store" where
  "evict s = (let (moment, s1) = read_clock s in evict_over moment (evict_aged moment s1))"

definition mem_load :: "string \<Rightarrow> mem_store \<Rightarrow> auction_record option \<times> mem_store" where
  "mem_load key s =
     (case dget (ms_records s) key of
        None \<Rightarrow> (None, s)
      | Some blob \<Rightarrow>
          (let (now, s1) = read_clock s in
           if now - written_at s1 key \<ge> ms_ttl s1
           then (None, count_expired (forget key GoneExpired s1))
           else (Some blob, s1)))"

definition mem_save :: "auction_record \<Rightarrow> mem_store \<Rightarrow> mem_store" where
  "mem_save r s =
     (let key = ar_auction_id r;
          s1 = s\<lparr>ms_records := dset key r (dpop key (ms_records s))\<rparr>;
          (now, s2) = read_clock s1
      in evict (s2\<lparr>ms_written_at := dset key now (ms_written_at s2),
                   ms_gone := dpop key (ms_gone s2)\<rparr>))"

text \<open>The reservation backstop: orphans first, then the oldest.\<close>

definition reservation_victim :: "mem_store \<Rightarrow> string \<times> string" where
  "reservation_victim s =
     first_or_head (\<lambda>held. fst held \<notin> set (dkeys (ms_records s))) (dkeys (ms_reservations s))"

lemma reservation_victim_in:
  "ms_reservations s \<noteq> [] \<Longrightarrow> reservation_victim s \<in> set (dkeys (ms_reservations s))"
  unfolding reservation_victim_def by (rule first_or_head_in) simp

definition drop_reservation :: "mem_store \<Rightarrow> mem_store" where
  "drop_reservation s = s\<lparr>ms_reservations := dpop (reservation_victim s) (ms_reservations s)\<rparr>"

function trim_reservations :: "mem_store \<Rightarrow> mem_store" where
  "trim_reservations s =
     (if length (ms_reservations s) > ms_capacity s * reservation_names_per_auction
      then trim_reservations (drop_reservation s) else s)"
  by pat_completeness auto
termination
  by (relation "measure (\<lambda>s. length (ms_reservations s))")
    (auto simp: drop_reservation_def simp del: set_map
      intro!: length_dpop_less reservation_victim_in)

declare trim_reservations.simps [simp del]

definition place_reservation ::
  "string \<times> string \<Rightarrow> string \<Rightarrow> mem_store \<Rightarrow> mem_store" where
  "place_reservation pair token s =
     (let (now, s1) = read_clock s in
      trim_reservations (s1\<lparr>ms_reservations := dset pair (now, token) (ms_reservations s1)\<rparr>))"

definition mem_reserve ::
  "string \<Rightarrow> string \<Rightarrow> string \<Rightarrow> mem_store \<Rightarrow> string option \<times> mem_store" where
  "mem_reserve auction_id name token s =
     (let pair = (auction_id, name) in
      case dget (ms_reservations s) pair of
        None \<Rightarrow> (None, place_reservation pair token s)
      | Some (written, holder) \<Rightarrow>
          (let (now, s1) = read_clock s in
           if now - written < ms_ttl s1 then (Some holder, s1)
           else (None, place_reservation pair token
                         (s1\<lparr>ms_reservations := dpop pair (ms_reservations s1)\<rparr>))))"

definition mem_release :: "string \<Rightarrow> string \<Rightarrow> string \<Rightarrow> mem_store \<Rightarrow> mem_store" where
  "mem_release auction_id name token s =
     (let pair = (auction_id, name) in
      case dget (ms_reservations s) pair of
        Some (written, holder) \<Rightarrow>
          if holder = token then s\<lparr>ms_reservations := dpop pair (ms_reservations s)\<rparr> else s
      | None \<Rightarrow> s)"

text \<open>\<open>absence\<close>: which of its four sentences the store writes, with the figures in it.\<close>

datatype absence_note =
    WasEvicted nat nat
  | WasExpired nat
  | CapIsTheLikelyCause nat nat
  | NothingEvicted nat

definition absence :: "string \<Rightarrow> mem_store \<Rightarrow> absence_note" where
  "absence key s =
     (case dget (ms_gone s) key of
        Some (GoneEvicted, _) \<Rightarrow> WasEvicted (ms_evicted s) (ms_expired s)
      | Some (GoneExpired, _) \<Rightarrow> WasExpired (ms_expired s)
      | None \<Rightarrow>
          if ms_evicted s \<noteq> 0 then CapIsTheLikelyCause (ms_evicted s) (ms_expired s)
          else NothingEvicted (ms_expired s))"

text \<open>The in-memory store as an \<open>AuctionStore\<close>: its operations never raise.\<close>

definition mem_ops :: "mem_store auction_store_ops" where
  "mem_ops =
     \<lparr>op_load = (\<lambda>k s. let (r, t) = mem_load k s in (Inr r, t)),
      op_save = (\<lambda>r s. (Inr (), mem_save r s)),
      op_reserve = (\<lambda>a n tok s. let (h, t) = mem_reserve a n tok s in (Inr h, t)),
      op_release = (\<lambda>a n tok s. (Inr (), mem_release a n tok s))\<rparr>"

section \<open>What every operation keeps\<close>

definition mem_wf :: "mem_store \<Rightarrow> bool" where
  "mem_wf s \<longleftrightarrow>
     1 \<le> ms_capacity s \<and>
     distinct (dkeys (ms_records s)) \<and>
     distinct (dkeys (ms_written_at s)) \<and>
     set (dkeys (ms_written_at s)) = set (dkeys (ms_records s)) \<and>
     (\<forall>p \<in> set (ms_records s). ar_auction_id (snd p) = fst p) \<and>
     distinct (dkeys (ms_reservations s)) \<and>
     distinct (dkeys (ms_gone s)) \<and>
     length (ms_gone s) \<le> ms_capacity s \<and>
     set (dkeys (ms_gone s)) \<inter> set (dkeys (ms_records s)) = {}"

definition mem_inv :: "mem_store \<Rightarrow> bool" where
  "mem_inv s \<longleftrightarrow> mem_wf s \<and> length (ms_records s) \<le> ms_capacity s \<and>
     length (ms_reservations s) \<le> ms_capacity s * reservation_names_per_auction"

lemma forget_gone_keys:
  "set (dkeys (ms_gone (forget k r s))) \<subseteq> insert k (set (dkeys (ms_gone s)))"
proof -
  let ?g = "dset k (r, ms_clock s (ms_reads s)) (dpop k (ms_gone s))"
  have "set (dkeys (trim_front (ms_capacity s) ?g)) \<subseteq> set (dkeys ?g)"
    unfolding set_map by (intro image_mono set_trim_front)
  also have "\<dots> = insert k (set (dkeys (ms_gone s)) - {k})"
    by (simp only: dict_simps)
  finally show ?thesis by auto
qed

lemma mem_wf_forget:
  assumes "mem_wf s"
  shows "mem_wf (forget k r s)"
proof -
  note wf = assms [unfolded mem_wf_def]
  have rec: "set (dkeys (dpop k (ms_records s))) = set (dkeys (ms_records s)) - {k}"
    and wri: "set (dkeys (dpop k (ms_written_at s))) = set (dkeys (ms_written_at s)) - {k}"
    by (simp_all only: dict_simps)
  have "set (dkeys (ms_gone (forget k r s))) \<inter> set (dkeys (ms_records (forget k r s))) = {}"
    unfolding forget_simps(5) rec using wf forget_gone_keys [of k r s] by blast
  moreover have "\<forall>p \<in> set (ms_records (forget k r s)). ar_auction_id (snd p) = fst p"
    using wf set_dpop_subset [of k "ms_records s"] by auto
  moreover have "set (dkeys (ms_written_at (forget k r s))) = set (dkeys (ms_records (forget k r s)))"
    unfolding forget_simps(5,6) rec wri using wf by simp
  ultimately show ?thesis
    unfolding mem_wf_def using wf
    by (simp add: distinct_dpop distinct_dset distinct_dkeys_trim_front distinct_dkeys_filter
        length_trim_front del: set_map)
qed

lemma mem_wf_count [simp]:
  "mem_wf (count_expired s) = mem_wf s" "mem_wf (count_evicted s) = mem_wf s"
  by (simp_all add: mem_wf_def)

lemma mem_wf_read [simp]: "mem_wf (s\<lparr>ms_reads := n\<rparr>) = mem_wf s"
  by (simp add: mem_wf_def)

text \<open>Whatever forgetting one record keeps, both eviction loops keep.\<close>

lemma evict_aged_keeps:
  assumes "\<And>k t. Q t \<Longrightarrow> aged_out t k moment \<Longrightarrow> Q (count_expired (forget k GoneExpired t))"
    and "Q s"
  shows "Q (evict_aged moment s)"
  using assms
proof (induction moment s rule: evict_aged.induct)
  case (1 moment s)
  show ?case
  proof (cases "ms_records s")
    case Nil
    then show ?thesis using "1.prems" by (simp add: evict_aged.simps [of moment s])
  next
    case (Cons p ps)
    moreover obtain k r where p: "p = (k, r)" by (cases p)
    ultimately show ?thesis
      using "1.IH" [OF Cons p [symmetric]] "1.prems"
      by (auto simp: evict_aged.simps [of moment s])
  qed
qed

lemma evict_over_keeps:
  assumes "\<And>t. Q t \<Longrightarrow> Q (evict_one moment t)" and "Q s"
  shows "Q (evict_over moment s)"
  using assms
proof (induction moment s rule: evict_over.induct)
  case (1 moment s)
  then show ?case by (auto simp: evict_over.simps [of moment s])
qed

lemma evict_over_fits: "length (ms_records (evict_over moment s)) \<le> ms_capacity (evict_over moment s)"
proof (induction moment s rule: evict_over.induct)
  case (1 moment s)
  then show ?case by (auto simp: evict_over.simps [of moment s])
qed

lemma mem_wf_evict_one: "mem_wf s \<Longrightarrow> mem_wf (evict_one moment s)"
  by (simp add: evict_one_def Let_def mem_wf_forget)

lemma evict_keeps:
  assumes "\<And>k r t. Q t \<Longrightarrow> Q (forget k r t)"
    and "\<And>t. Q (count_expired t) = Q t" and "\<And>t. Q (count_evicted t) = Q t"
    and "\<And>t n. Q (t\<lparr>ms_reads := n\<rparr>) = Q t" and "Q s"
  shows "Q (evict s)"
proof -
  have one: "Q (evict_one m t)" if "Q t" for m t
    using assms(1) [OF that] by (simp add: evict_one_def Let_def assms(2,3))
  have aged: "Q (count_expired (forget k GoneExpired t))" if "Q t" for k t
    using assms(1) [OF that] by (simp add: assms(2))
  have "Q (evict_aged m (s\<lparr>ms_reads := n\<rparr>))" for m n
    by (rule evict_aged_keeps [where Q = Q, OF aged]) (simp_all add: assms(4,5))
  then have "Q (evict_over m (evict_aged m (s\<lparr>ms_reads := n\<rparr>)))" for m n
    by (intro evict_over_keeps [where Q = Q]) (simp_all add: one)
  then show ?thesis
    by (simp add: evict_def read_clock_def)
qed

lemma evict_fits: "length (ms_records (evict s)) \<le> ms_capacity (evict s)"
  by (simp add: evict_def read_clock_def evict_over_fits)

lemma forget_shrinks:
  "length (ms_reservations (forget k r s)) \<le> length (ms_reservations s)"
  "length (ms_records (forget k r s)) \<le> length (ms_records s)"
  by (simp_all add: length_dpop_le)

lemma evict_capacity: "ms_capacity (evict s) = ms_capacity s"
  by (rule evict_keeps [where Q = "\<lambda>t. ms_capacity t = ms_capacity s"]) simp_all

lemma evict_shrinks: "length (ms_reservations (evict s)) \<le> length (ms_reservations s)"
  by (rule evict_keeps [where Q = "\<lambda>t. length (ms_reservations t) \<le> length (ms_reservations s)"])
    (simp_all add: order_trans [OF forget_shrinks(1)] del: forget_simps)

lemma evict_inv:
  assumes "mem_wf s" and "length (ms_reservations s) \<le> ms_capacity s * reservation_names_per_auction"
  shows "mem_inv (evict s)"
proof -
  have "mem_wf (evict s)"
    using assms(1) by (rule evict_keeps [where Q = mem_wf, rotated -1]) (simp_all add: mem_wf_forget)
  with assms(2) show ?thesis
    using order_trans [OF evict_shrinks assms(2)]
    by (simp add: mem_inv_def evict_fits [unfolded evict_capacity] evict_capacity)
qed

lemma mem_inv_read [simp]: "mem_inv (s\<lparr>ms_reads := n\<rparr>) = mem_inv s"
  by (simp add: mem_inv_def)

lemma mem_inv_forget: "mem_inv s \<Longrightarrow> mem_inv (forget k r s)"
  unfolding mem_inv_def
  using forget_shrinks [of k r s] by (simp add: mem_wf_forget del: forget_simps(5,7))

lemma mem_inv_count [simp]:
  "mem_inv (count_expired s) = mem_inv s" "mem_inv (count_evicted s) = mem_inv s"
  by (simp_all add: mem_inv_def)

lemma mem_load_inv: "mem_inv s \<Longrightarrow> mem_inv (snd (mem_load k s))"
  by (simp add: mem_load_def read_clock_def Let_def mem_inv_forget split: option.split)

lemma mem_save_inv:
  assumes "mem_inv s"
  shows "mem_inv (mem_save r s)"
proof -
  let ?k = "ar_auction_id r"
  note wf = assms [unfolded mem_inv_def mem_wf_def]
  have rec: "set (dkeys (dset ?k r (dpop ?k (ms_records s)))) = insert ?k (set (dkeys (ms_records s)))"
    and wri: "set (dkeys (dset ?k t (ms_written_at s))) = insert ?k (set (dkeys (ms_written_at s)))"
    and gone: "set (dkeys (dpop ?k (ms_gone s))) = set (dkeys (ms_gone s)) - {?k}" for t
    by (auto simp only: dict_simps)
  have sub: "set (dset ?k r (dpop ?k (ms_records s))) \<subseteq> insert (?k, r) (set (ms_records s))"
    using set_dset_subset [of ?k r "dpop ?k (ms_records s)"] set_dpop_subset [of ?k "ms_records s"]
    by blast
  then have own: "\<forall>p \<in> set (dset ?k r (dpop ?k (ms_records s))). ar_auction_id (snd p) = fst p"
    using wf by auto
  have "mem_wf (s\<lparr>ms_records := dset ?k r (dpop ?k (ms_records s)), ms_reads := n,
      ms_written_at := dset ?k t (ms_written_at s), ms_gone := dpop ?k (ms_gone s)\<rparr>)" for n t
    unfolding mem_wf_def using wf own rec wri [of t] gone
      length_dpop_le [of ?k "ms_gone s"]
    by (simp add: distinct_dpop distinct_dset del: set_map) blast
  with assms show ?thesis
    by (simp add: mem_save_def read_clock_def Let_def mem_inv_def [of s] evict_inv)
qed

lemma trim_reservations_keeps:
  assumes "\<And>t. Q t \<Longrightarrow> Q (drop_reservation t)" and "Q s"
  shows "Q (trim_reservations s)"
  using assms
proof (induction s rule: trim_reservations.induct)
  case (1 s)
  then show ?case by (auto simp: trim_reservations.simps [of s])
qed

lemma trim_reservations_fits:
  "length (ms_reservations (trim_reservations s)) \<le>
     ms_capacity (trim_reservations s) * reservation_names_per_auction"
proof (induction s rule: trim_reservations.induct)
  case (1 s)
  then show ?case by (auto simp: trim_reservations.simps [of s])
qed

lemma mem_wf_reservations:
  "mem_wf s \<Longrightarrow> distinct (dkeys d) \<Longrightarrow> mem_wf (s\<lparr>ms_reservations := d\<rparr>)"
  by (simp add: mem_wf_def)

lemma mem_wf_distinct_reservations: "mem_wf s \<Longrightarrow> distinct (dkeys (ms_reservations s))"
  by (simp add: mem_wf_def)

lemma trim_reservations_records [simp]:
  "ms_records (trim_reservations s) = ms_records s"
  "ms_capacity (trim_reservations s) = ms_capacity s"
proof -
  have "ms_records (trim_reservations s) = ms_records s \<and> ms_capacity (trim_reservations s) = ms_capacity s"
    by (rule trim_reservations_keeps) (auto simp: drop_reservation_def)
  then show "ms_records (trim_reservations s) = ms_records s"
    and "ms_capacity (trim_reservations s) = ms_capacity s" by auto
qed

lemma place_reservation_inv:
  assumes "mem_wf s" and "length (ms_records s) \<le> ms_capacity s"
  shows "mem_inv (place_reservation pair token s)"
proof -
  have "mem_wf (trim_reservations (s\<lparr>ms_reads := n, ms_reservations := dset pair x (ms_reservations s)\<rparr>))" for n x
    using assms(1)
    by (intro trim_reservations_keeps [where Q = mem_wf])
      (auto simp: drop_reservation_def intro!: mem_wf_reservations distinct_dpop distinct_dset
        intro: mem_wf_distinct_reservations)
  then show ?thesis
    using assms(2) trim_reservations_fits [of "s\<lparr>ms_reads := Suc (ms_reads s),
      ms_reservations := dset pair (ms_clock s (ms_reads s), token) (ms_reservations s)\<rparr>"]
    by (simp add: place_reservation_def read_clock_def mem_inv_def)
qed

lemma mem_reserve_inv:
  assumes "mem_inv s"
  shows "mem_inv (snd (mem_reserve a n tok s))"
proof -
  have "mem_wf (s\<lparr>ms_reads := m, ms_reservations := dpop p (ms_reservations s)\<rparr>)" for m p
    using assms mem_wf_distinct_reservations [of s]
    by (intro mem_wf_reservations) (auto simp: mem_inv_def intro: distinct_dpop)
  with assms show ?thesis
    by (auto simp: mem_reserve_def Let_def read_clock_def mem_inv_def [of "s\<lparr>ms_reads := _\<rparr>"]
        mem_inv_def [of s] split: option.splits intro!: place_reservation_inv intro: distinct_dpop)
qed

lemma mem_inv_drop_reservation:
  assumes "mem_inv s"
  shows "mem_inv (s\<lparr>ms_reservations := dpop p (ms_reservations s)\<rparr>)"
  using assms mem_wf_distinct_reservations [of s] length_dpop_le [of p "ms_reservations s"]
  by (auto simp: mem_inv_def intro!: mem_wf_reservations distinct_dpop)

lemma mem_release_inv: "mem_inv s \<Longrightarrow> mem_inv (mem_release a n tok s)"
  by (simp add: mem_release_def Let_def mem_inv_drop_reservation split: option.split)

text \<open>A run of the store: any sequence of its four operations.\<close>

datatype store_call =
    CallLoad string
  | CallSave auction_record
  | CallReserve string string string
  | CallRelease string string string

fun store_step :: "store_call \<Rightarrow> mem_store \<Rightarrow> mem_store" where
  "store_step (CallLoad k) s = snd (mem_load k s)"
| "store_step (CallSave r) s = mem_save r s"
| "store_step (CallReserve a n tok) s = snd (mem_reserve a n tok s)"
| "store_step (CallRelease a n tok) s = mem_release a n tok s"

lemma store_step_inv: "mem_inv s \<Longrightarrow> mem_inv (store_step c s)"
  by (cases c) (simp_all add: mem_load_inv mem_save_inv mem_reserve_inv mem_release_inv)

interpretation store_run: invariant_machine store_step mem_inv
  by unfold_locales (rule store_step_inv)

lemma mem_inv_new: "mem_inv (new_mem_store capacity ttl clock)"
  by (simp add: mem_inv_def mem_wf_def new_mem_store_def)

end
