(* ===== verification/AuctionStoreLaws.thy ===== *)
theory AuctionStoreLaws
  imports AuctionStore
begin

text \<open>
  What the auction state machine may rely on in a store (\<open>auction_store\<close>), the proof that the
  in-memory store of \<open>apps/exchange/src/auction/state.py\<close> provides it, and what a save and a
  reservation guarantee to the next reader.
\<close>

section \<open>The contract of an auction store\<close>

text \<open>
  What the state machine needs of a store to keep its records well formed: a load answers only
  what was saved under that id, a save adds only the record saved, and reserving, releasing,
  loading and evicting add nothing. \<open>held\<close> is the set of records the store holds.
\<close>

locale auction_store =
  fixes ops :: "'st auction_store_ops"
    and held :: "'st \<Rightarrow> auction_record set"
    and ok :: "'st \<Rightarrow> bool"
  assumes load_ok: "ok s \<Longrightarrow> ok (snd (op_load ops k s))"
    and save_ok: "ok s \<Longrightarrow> ok (snd (op_save ops r s))"
    and reserve_ok: "ok s \<Longrightarrow> ok (snd (op_reserve ops a n tok s))"
    and release_ok: "ok s \<Longrightarrow> ok (snd (op_release ops a n tok s))"
    and load_held: "ok s \<Longrightarrow> fst (op_load ops k s) = Inr (Some r) \<Longrightarrow> r \<in> held s \<and> ar_auction_id r = k"
    and load_frame: "ok s \<Longrightarrow> held (snd (op_load ops k s)) \<subseteq> held s"
    and save_frame: "ok s \<Longrightarrow> held (snd (op_save ops r s)) \<subseteq> insert r (held s)"
    and reserve_frame: "ok s \<Longrightarrow> held (snd (op_reserve ops a n tok s)) \<subseteq> held s"
    and release_frame: "ok s \<Longrightarrow> held (snd (op_release ops a n tok s)) \<subseteq> held s"

definition mem_held :: "mem_store \<Rightarrow> auction_record set" where
  "mem_held s = snd ` set (ms_records s)"

lemma mem_held_forget: "mem_held (forget k r s) \<subseteq> mem_held s"
  using set_dpop_subset [of k "ms_records s"] by (auto simp: mem_held_def)

lemma mem_held_evict: "mem_held (evict s) \<subseteq> mem_held s"
  by (rule evict_keeps [where Q = "\<lambda>t. mem_held t \<subseteq> mem_held s"])
    (auto simp: mem_held_def dest: subsetD [OF set_dpop_subset])

lemma mem_held_load: "mem_held (snd (mem_load k s)) \<subseteq> mem_held s"
  using mem_held_forget [of k GoneExpired "s\<lparr>ms_reads := Suc (ms_reads s)\<rparr>"]
  by (auto simp: mem_load_def read_clock_def Let_def mem_held_def split: option.splits)

lemma mem_held_save: "mem_held (mem_save r s) \<subseteq> insert r (mem_held s)"
proof -
  let ?d = "dset (ar_auction_id r) r (dpop (ar_auction_id r) (ms_records s))"
  have "snd ` set ?d \<subseteq> insert r (mem_held s)"
    using values_dset [of "ar_auction_id r" r "dpop (ar_auction_id r) (ms_records s)"]
      values_dpop [of "ar_auction_id r" "ms_records s"]
    unfolding mem_held_def by blast
  then show ?thesis
    unfolding mem_save_def read_clock_def Let_def prod.case
    by (intro order_trans [OF mem_held_evict]) (simp add: mem_held_def)
qed

lemma mem_held_reserve: "mem_held (snd (mem_reserve a n tok s)) = mem_held s"
  by (simp add: mem_reserve_def place_reservation_def read_clock_def Let_def mem_held_def
      split: option.split)

lemma mem_held_release: "mem_held (mem_release a n tok s) = mem_held s"
  by (simp add: mem_release_def Let_def mem_held_def split: option.split)

lemma mem_load_found:
  assumes "mem_inv s" and "fst (mem_load k s) = Some r"
  shows "r \<in> mem_held s \<and> ar_auction_id r = k"
proof -
  have "dget (ms_records s) k = Some r"
    using assms(2) by (auto simp: mem_load_def read_clock_def Let_def split: option.splits if_splits)
  then have "(k, r) \<in> set (ms_records s)" by (rule dget_in_set)
  moreover from this have "ar_auction_id (snd (k, r)) = fst (k, r)"
    using assms(1) unfolding mem_inv_def mem_wf_def by blast
  ultimately show ?thesis
    unfolding mem_held_def by force
qed

lemma mem_ops_simps [simp]:
  "op_load mem_ops k s = (Inr (fst (mem_load k s)), snd (mem_load k s))"
  "op_save mem_ops r s = (Inr (), mem_save r s)"
  "op_reserve mem_ops a n tok s = (Inr (fst (mem_reserve a n tok s)), snd (mem_reserve a n tok s))"
  "op_release mem_ops a n tok s = (Inr (), mem_release a n tok s)"
  by (simp_all add: mem_ops_def split_def Let_def)

interpretation mem: auction_store mem_ops mem_held mem_inv
  by unfold_locales
    (simp_all add: mem_load_inv mem_save_inv mem_reserve_inv mem_release_inv mem_load_found
      mem_held_load mem_held_save mem_held_reserve mem_held_release)

section \<open>What a save and a reservation guarantee\<close>

text \<open>Every two readings of the clock are closer than the TTL: nothing ages out meanwhile.\<close>

definition within_ttl :: "mem_store \<Rightarrow> bool" where
  "within_ttl s \<longleftrightarrow> (\<forall>i j. ms_clock s j - ms_clock s i < ms_ttl s)"

lemma evict_aged_keeps_fresh:
  fixes s :: mem_store
  assumes "dget (ms_records s) k = Some r" and "dget (ms_written_at s) k = Some w"
    and "moment - w < ms_ttl s"
  defines "t \<equiv> evict_aged moment s"
  shows "dget (ms_records t) k = Some r \<and> dget (ms_written_at t) k = Some w \<and>
    ms_ttl t = ms_ttl s \<and> ms_clock t = ms_clock s \<and> ms_capacity t = ms_capacity s \<and>
    length (ms_records t) \<le> length (ms_records s)"
proof -
  define Q where "Q u \<longleftrightarrow> dget (ms_records u) k = Some r \<and> dget (ms_written_at u) k = Some w \<and>
      ms_ttl u = ms_ttl s \<and> ms_clock u = ms_clock s \<and> ms_capacity u = ms_capacity s \<and>
      length (ms_records u) \<le> length (ms_records s)" for u :: mem_store
  have "Q (count_expired (forget k' GoneExpired u))" if "Q u" and "aged_out u k' moment" for k' and u :: mem_store
  proof -
    have "k' \<noteq> k"
      using that assms(3) by (auto simp: Q_def aged_out_def written_at_def)
    then show ?thesis
      using that(1) length_dpop_le [of k' "ms_records u"] by (simp add: Q_def dict_simps)
  qed
  moreover have "Q s"
    using assms(1,2) by (simp add: Q_def)
  ultimately have "Q t"
    unfolding t_def by (rule evict_aged_keeps [where Q = Q])
  then show ?thesis by (simp add: Q_def)
qed

lemma length_replace:
  assumes "k \<in> set (dkeys d) \<or> length d < n" and "length d \<le> n"
  shows "length (dset k v (dpop k d)) \<le> n"
proof (cases "k \<in> set (dkeys d)")
  case True
  then show ?thesis
    using length_dset_le [of k v "dpop k d"] length_dpop_less [OF True] assms(2) by linarith
next
  case False
  then show ?thesis
    using length_dset_le [of k v "dpop k d"] length_dpop_le [of k d] assms(1) by linarith
qed

lemma mem_save_then_load:
  assumes "within_ttl s"
    and "ar_auction_id r \<in> set (dkeys (ms_records s)) \<or> length (ms_records s) < ms_capacity s"
    and "length (ms_records s) \<le> ms_capacity s"
  shows "fst (mem_load (ar_auction_id r) (mem_save r s)) = Some r"
proof -
  let ?k = "ar_auction_id r"
  let ?w = "ms_clock s (ms_reads s)" and ?m = "ms_clock s (Suc (ms_reads s))"
  let ?s1 = "s\<lparr>ms_records := dset ?k r (dpop ?k (ms_records s)),
      ms_written_at := dset ?k ?w (ms_written_at s), ms_gone := dpop ?k (ms_gone s),
      ms_reads := Suc (Suc (ms_reads s))\<rparr>"
  let ?e = "evict_aged ?m ?s1"
  have young: "ms_clock s i - ?w < ms_ttl s" for i
    using assms(1) by (simp add: within_ttl_def)
  have e: "dget (ms_records ?e) ?k = Some r \<and> dget (ms_written_at ?e) ?k = Some ?w \<and>
      ms_ttl ?e = ms_ttl s \<and> ms_clock ?e = ms_clock s \<and> ms_capacity ?e = ms_capacity s \<and>
      length (ms_records ?e) \<le> length (ms_records ?s1)"
    using evict_aged_keeps_fresh [of ?s1 ?k r ?w ?m] young by (simp add: dict_simps)
  have "length (ms_records ?s1) \<le> ms_capacity s"
    using length_replace [OF assms(2,3)] by simp
  with e have "length (ms_records ?e) \<le> ms_capacity ?e"
    by simp
  then have "evict_over ?m ?e = ?e"
    by (simp add: evict_over.simps [of ?m ?e])
  then have save: "mem_save r s = ?e"
    by (simp add: mem_save_def evict_def read_clock_def Let_def)
  show ?thesis
    unfolding save using e young [of "ms_reads ?e"]
    by (simp add: mem_load_def read_clock_def written_at_def Let_def)
qed

lemma mem_reserve_exclusive:
  assumes "within_ttl s" and "length (ms_reservations s) < ms_capacity s * reservation_names_per_auction"
    and won: "mem_reserve a n tok s = (None, t)"
  shows "fst (mem_reserve a n tok' t) = Some tok"
proof -
  let ?c = "ms_capacity s * reservation_names_per_auction"
  have trim: "trim_reservations u = u"
    if "length (ms_reservations u) \<le> ms_capacity u * reservation_names_per_auction" for u
    using that by (simp add: trim_reservations.simps [of u])
  have len: "length (dset (a, n) x d) \<le> ?c" if "length d < ?c" for x and d :: "(string \<times> string, rat \<times> string) dict"
    using that length_dset_le [of "(a, n)" x d] by simp
  have pop: "length (dpop (a, n) (ms_reservations s)) < ?c"
    using assms(2) length_dpop_le [of "(a, n)" "ms_reservations s"] by simp
  obtain i where i: "dget (ms_reservations t) (a, n) = Some (ms_clock s i, tok)"
      and "ms_clock t = ms_clock s" and "ms_ttl t = ms_ttl s"
    using won len [OF assms(2)] len [OF pop]
    by (auto simp: mem_reserve_def place_reservation_def read_clock_def Let_def trim dict_simps
        split: option.splits if_splits)
  with assms(1) show ?thesis
    by (simp add: mem_reserve_def read_clock_def within_ttl_def)
qed

end
