(* ===== verification/AcceptClaims.thy ===== *)
theory AcceptClaims
  imports AuctionStoreLaws
begin

text \<open>
  The acceptance claim (\<open>apps/exchange/src/accept/claims.py\<close>): one auction, one caller who may have a
  code minted, taken before the merchant is asked. The interface is \<open>claim_ops\<close>; the two tables are
  the auction's own store (\<open>store_claims\<close>) and a process-local dictionary (\<open>memory_claims\<close>). What an
  accept relies on is the locale \<open>acceptance_claims\<close>, and both tables provide it.
\<close>

section \<open>The tables\<close>

record claim_outcome =
  co_won :: bool
  co_holder :: "string option"

text \<open>An operation of an injected table may raise: \<open>Inl\<close> is the name of the exception's type.\<close>

record 'c claim_ops =
  cl_claim :: "string \<Rightarrow> string \<Rightarrow> 'c \<Rightarrow> (string + claim_outcome) \<times> 'c"
  cl_release :: "string \<Rightarrow> string \<Rightarrow> 'c \<Rightarrow> (string + unit) \<times> 'c"

definition store_claim ::
  "'st auction_store_ops \<Rightarrow> string \<Rightarrow> string \<Rightarrow> 'st \<Rightarrow> (string + claim_outcome) \<times> 'st" where
  "store_claim ops auction_id bid_ref s =
     (case op_reserve ops auction_id acceptance_reservation_name bid_ref s of
        (Inl e, t) \<Rightarrow> (Inl e, t)
      | (Inr None, t) \<Rightarrow> (Inr \<lparr>co_won = True, co_holder = Some bid_ref\<rparr>, t)
      | (Inr (Some held), t) \<Rightarrow> (Inr \<lparr>co_won = False, co_holder = Some held\<rparr>, t))"

definition store_claims :: "'st auction_store_ops \<Rightarrow> 'st claim_ops" where
  "store_claims ops =
     \<lparr>cl_claim = store_claim ops,
      cl_release = (\<lambda>auction_id bid_ref. op_release ops auction_id acceptance_reservation_name bid_ref)\<rparr>"

type_synonym claim_table = "(string, string) dict"

definition memory_claim :: "string \<Rightarrow> string \<Rightarrow> claim_table \<Rightarrow> claim_outcome \<times> claim_table" where
  "memory_claim auction_id bid_ref t =
     (case dget t auction_id of
        Some held \<Rightarrow> (\<lparr>co_won = False, co_holder = Some held\<rparr>, t)
      | None \<Rightarrow> (\<lparr>co_won = True, co_holder = Some bid_ref\<rparr>, dset auction_id bid_ref t))"

definition memory_release :: "string \<Rightarrow> string \<Rightarrow> claim_table \<Rightarrow> claim_table" where
  "memory_release auction_id bid_ref t =
     (if dget t auction_id = Some bid_ref then dpop auction_id t else t)"

definition memory_claims :: "claim_table claim_ops" where
  "memory_claims =
     \<lparr>cl_claim = (\<lambda>a b t. let (outcome, t') = memory_claim a b t in (Inr outcome, t')),
      cl_release = (\<lambda>a b t. (Inr (), memory_release a b t))\<rparr>"

text \<open>\<open>platform_acceptance_claims\<close>: the request's table, else the process's, else none.\<close>

definition claims_in_force :: "'t option \<Rightarrow> 't option \<Rightarrow> 't option" where
  "claims_in_force scoped platform = (case scoped of Some t \<Rightarrow> Some t | None \<Rightarrow> platform)"

section \<open>What an accept relies on\<close>

text \<open>
  \<open>held\<close> is the reference a live claim was taken with, \<open>ok\<close> the table's own invariant and \<open>room\<close> that
  it can take another claim without dropping one. A claim is won exactly when none is held, is held
  from then on, and touches no other auction; a claim that raises may have been taken, but takes
  nothing from whoever holds it. A release takes back the caller's claim and no other, and frees the auction.
\<close>

locale acceptance_claims =
  fixes ops :: "'c claim_ops"
    and held :: "'c \<Rightarrow> string \<Rightarrow> string option"
    and ok :: "'c \<Rightarrow> bool"
    and room :: "'c \<Rightarrow> bool"
  assumes claim_ok: "ok c \<Longrightarrow> ok (snd (cl_claim ops a b c))"
    and release_ok: "ok c \<Longrightarrow> ok (snd (cl_release ops a b c))"
    and claim_won: "ok c \<Longrightarrow> room c \<Longrightarrow> cl_claim ops a b c = (Inr o', c') \<Longrightarrow> co_won o' \<Longrightarrow>
        held c a = None \<and> held c' a = Some b"
    and claim_lost: "ok c \<Longrightarrow> cl_claim ops a b c = (Inr o', c') \<Longrightarrow> \<not> co_won o' \<Longrightarrow>
        held c a = co_holder o' \<and> held c a \<noteq> None"
    and claim_frame: "ok c \<Longrightarrow> room c \<Longrightarrow> a' \<noteq> a \<or> held c a \<noteq> None \<Longrightarrow>
        held (snd (cl_claim ops a b c)) a' = held c a'"
    and release_frame: "ok c \<Longrightarrow> a' \<noteq> a \<or> held c a \<noteq> Some b \<Longrightarrow>
        held (snd (cl_release ops a b c)) a' = held c a'"
    and release_own: "ok c \<Longrightarrow> held c a = Some b \<Longrightarrow> cl_release ops a b c = (Inr u, c') \<Longrightarrow> held c' a = None"

section \<open>The process-local table\<close>

interpretation memory: acceptance_claims memory_claims dget "\<lambda>_. True" "\<lambda>_. True"
  by unfold_locales
    (auto simp: memory_claims_def memory_claim_def memory_release_def dict_simps
      split: option.splits if_splits)

section \<open>The auction's own store\<close>

definition store_held :: "mem_store \<Rightarrow> string \<Rightarrow> string option" where
  "store_held s a = map_option snd (dget (ms_reservations s) (a, acceptance_reservation_name))"

definition reservation_room :: "mem_store \<Rightarrow> bool" where
  "reservation_room s \<longleftrightarrow> length (ms_reservations s) < ms_capacity s * reservation_names_per_auction"

lemma trim_reservations_id:
  "length (ms_reservations s) \<le> ms_capacity s * reservation_names_per_auction \<Longrightarrow> trim_reservations s = s"
  by (simp add: trim_reservations.simps)

lemma trim_reservations_frame:
  "ms_clock (trim_reservations s) = ms_clock s \<and> ms_ttl (trim_reservations s) = ms_ttl s \<and>
   set (ms_reservations (trim_reservations s)) \<subseteq> set (ms_reservations s)"
  by (rule trim_reservations_keeps)
    (auto simp: drop_reservation_def dest: subsetD [OF set_dpop_subset])

text \<open>No two readings are a TTL apart, and every reservation was written at a reading.\<close>

definition store_claims_ok :: "mem_store \<Rightarrow> bool" where
  "store_claims_ok s \<longleftrightarrow> within_ttl s \<and>
     (\<forall>entry \<in> set (ms_reservations s). fst (snd entry) \<in> range (ms_clock s))"

lemma store_claims_ok_weaken:
  assumes "store_claims_ok s" and "ms_clock t = ms_clock s" and "ms_ttl t = ms_ttl s"
    and "\<forall>entry \<in> set (ms_reservations t) - set (ms_reservations s). fst (snd entry) \<in> range (ms_clock s)"
  shows "store_claims_ok t"
  using assms unfolding store_claims_ok_def within_ttl_def by auto

lemma place_reservation_ok:
  assumes "store_claims_ok s"
  shows "store_claims_ok (place_reservation p tok s)"
proof (rule store_claims_ok_weaken [OF assms])
  let ?s = "s\<lparr>ms_reads := Suc (ms_reads s), ms_reservations := dset p (ms_clock s (ms_reads s), tok) (ms_reservations s)\<rparr>"
  have t: "place_reservation p tok s = trim_reservations ?s"
    by (simp add: place_reservation_def read_clock_def)
  show "ms_clock (place_reservation p tok s) = ms_clock s" "ms_ttl (place_reservation p tok s) = ms_ttl s"
    using trim_reservations_frame [of ?s] by (simp_all add: t)
  have "set (ms_reservations (place_reservation p tok s)) \<subseteq>
      insert (p, ms_clock s (ms_reads s), tok) (set (ms_reservations s))"
    using trim_reservations_frame [of ?s] set_dset_subset [of p "(ms_clock s (ms_reads s), tok)" "ms_reservations s"]
    by (auto simp: t)
  then show "\<forall>entry \<in> set (ms_reservations (place_reservation p tok s)) - set (ms_reservations s).
      fst (snd entry) \<in> range (ms_clock s)"
    by auto
qed

lemma place_reservation_held:
  assumes "reservation_room s"
  shows "dget (ms_reservations (place_reservation p tok s)) p' =
    (if p' = p then Some (ms_clock s (ms_reads s), tok) else dget (ms_reservations s) p')"
proof -
  let ?s = "s\<lparr>ms_reads := Suc (ms_reads s), ms_reservations := dset p (ms_clock s (ms_reads s), tok) (ms_reservations s)\<rparr>"
  have "trim_reservations ?s = ?s"
    using assms length_dset_le [of p "(ms_clock s (ms_reads s), tok)" "ms_reservations s"]
    by (intro trim_reservations_id) (simp add: reservation_room_def)
  then show ?thesis
    by (simp add: place_reservation_def read_clock_def dict_simps)
qed

text \<open>Nothing has aged out, so a reserve that finds the name taken refuses, and otherwise places it.\<close>

lemma mem_reserve_cases:
  assumes "store_claims_ok s"
  obtains (taken) w h where "dget (ms_reservations s) (a, n) = Some (w, h)"
      and "mem_reserve a n tok s = (Some h, s\<lparr>ms_reads := Suc (ms_reads s)\<rparr>)"
    | (free) "dget (ms_reservations s) (a, n) = None"
      and "mem_reserve a n tok s = (None, place_reservation (a, n) tok s)"
proof (cases "dget (ms_reservations s) (a, n)")
  case None
  then show ?thesis by (intro free) (simp_all add: mem_reserve_def)
next
  case (Some held)
  obtain w h where held: "held = (w, h)" by (cases held)
  have "((a, n), (w, h)) \<in> set (ms_reservations s)"
    using Some unfolding held by (rule dget_in_set)
  then have "w \<in> range (ms_clock s)"
    using assms unfolding store_claims_ok_def by force
  then have "ms_clock s (ms_reads s) - w < ms_ttl s"
    using assms by (auto simp: store_claims_ok_def within_ttl_def)
  then show ?thesis
    using Some by (intro taken) (simp_all add: held mem_reserve_def read_clock_def)
qed

lemma store_claims_ok_read:
  "store_claims_ok s \<Longrightarrow> store_claims_ok (s\<lparr>ms_reads := k\<rparr>)"
  "store_claims_ok s \<Longrightarrow> store_claims_ok (s\<lparr>ms_reservations := dpop p (ms_reservations s)\<rparr>)"
  by (auto elim!: store_claims_ok_weaken dest: subsetD [OF set_dpop_subset])

lemma mem_reserve_ok:
  assumes "store_claims_ok s"
  shows "store_claims_ok (snd (mem_reserve a n tok s))"
  using assms by (cases rule: mem_reserve_cases [OF assms, of a n tok])
    (simp_all add: place_reservation_ok store_claims_ok_read)

lemma mem_release_ok: "store_claims_ok s \<Longrightarrow> store_claims_ok (mem_release a n tok s)"
  by (auto simp: mem_release_def Let_def store_claims_ok_read split: option.split)

lemma mem_release_held:
  "dget (ms_reservations (mem_release a n tok s)) p =
     (if p = (a, n) \<and> map_option snd (dget (ms_reservations s) p) = Some tok then None
      else dget (ms_reservations s) p)"
  by (auto simp: mem_release_def Let_def dict_simps split: option.split)

interpretation store: acceptance_claims "store_claims mem_ops" store_held store_claims_ok reservation_room
proof unfold_locales
  fix c :: mem_store and a b a' :: string and o' :: claim_outcome and c' :: mem_store and u :: unit
  let ?n = acceptance_reservation_name
  show "store_claims_ok (snd (cl_claim (store_claims mem_ops) a b c))" if "store_claims_ok c"
    using mem_reserve_ok [OF that, of a ?n b]
    by (auto simp: store_claims_def store_claim_def split: option.split)
  show "store_claims_ok (snd (cl_release (store_claims mem_ops) a b c))" if "store_claims_ok c"
    using mem_release_ok [OF that] by (simp add: store_claims_def)
  show "store_held c a = None \<and> store_held c' a = Some b"
    if "store_claims_ok c" "reservation_room c" "cl_claim (store_claims mem_ops) a b c = (Inr o', c')" "co_won o'"
    using that
    by (cases rule: mem_reserve_cases [OF that(1), of a ?n b])
      (auto simp: store_claims_def store_claim_def store_held_def place_reservation_held)
  show "store_held c a = co_holder o' \<and> store_held c a \<noteq> None"
    if "store_claims_ok c" "cl_claim (store_claims mem_ops) a b c = (Inr o', c')" "\<not> co_won o'"
    using that
    by (cases rule: mem_reserve_cases [OF that(1), of a ?n b])
      (auto simp: store_claims_def store_claim_def store_held_def)
  show "store_held (snd (cl_claim (store_claims mem_ops) a b c)) a' = store_held c a'"
    if "store_claims_ok c" "reservation_room c" "a' \<noteq> a \<or> store_held c a \<noteq> None"
    using that
    by (cases rule: mem_reserve_cases [OF that(1), of a ?n b])
      (auto simp: store_claims_def store_claim_def store_held_def place_reservation_held)
  show "store_held (snd (cl_release (store_claims mem_ops) a b c)) a' = store_held c a'"
    if "store_claims_ok c" "a' \<noteq> a \<or> store_held c a \<noteq> Some b"
    using that by (auto simp: store_claims_def store_held_def mem_release_held)
  show "store_held c' a = None"
    if "store_claims_ok c" "store_held c a = Some b" "cl_release (store_claims mem_ops) a b c = (Inr u, c')"
    using that by (auto simp: store_claims_def store_held_def mem_release_held)
qed

end
