(* ===== verification/Accept.thy ===== *)
theory Accept
  imports Checkout Eligibility AcceptClaims
begin

text \<open>
  Accepting a bid (\<open>apps/exchange/src/accept/offer.py\<close>, \<open>gate.py\<close>, \<open>reasons.py\<close>): the auction object, the
  slots to offer next, the refusals with their events, the claim, the handoff of a fallback and the
  minting of a code, and the eligibility gate in front of it.

  A denial is its machine-readable code; the sentence that follows it in \<open>denial_reason\<close> is not
  modelled. The tables that \<open>use_acceptance_claims\<close> and \<open>use_registered_domains\<close> wire are arguments.
\<close>

section \<open>Denials\<close>

definition denial_unknown_bid :: string where "denial_unknown_bid = ''unknown_bid''"

definition denial_already_accepted :: string where "denial_already_accepted = ''already_accepted''"

definition denial_unrecordable :: string where "denial_unrecordable = ''unrecordable_acceptance''"

definition denial_checkout_refused :: string where "denial_checkout_refused = ''checkout_refused''"

definition denial_unroutable_fallback :: string where "denial_unroutable_fallback = ''unroutable_fallback''"

definition denial_not_acceptable :: string where "denial_not_acceptable = ''auction_not_acceptable''"

definition denial_unspecified :: string where "denial_unspecified = ''unspecified''"

definition denial_reasons :: "string list" where
  "denial_reasons =
     [denial_already_accepted, denial_not_acceptable, blacklisted_status, denial_checkout_refused,
      unavailable_status, denial_unknown_bid, denial_unrecordable, denial_unroutable_fallback,
      denial_unspecified]"

section \<open>The auction object and its slots\<close>

text \<open>\<open>av_recordable\<close> is false for an object that cannot hold the stamp.\<close>

record auction_view =
  av_auction_id :: string
  av_bids :: "payload list"
  av_slots :: "payload list"
  av_accepted :: "string option"
  av_now :: rat
  av_recordable :: bool

record ('c, 'm) desk =
  dk_auction :: auction_view
  dk_claims :: 'c
  dk_shop :: "'m shop"

text \<open>\<open>str(x[first] or x[second] or "")\<close>\<close>

definition either_text :: "checkout_lib \<Rightarrow> payload \<Rightarrow> string \<Rightarrow> string \<Rightarrow> string" where
  "either_text lib d first second =
     (case dget d first of
        Some v \<Rightarrow> if truthy v then str_of (lib_str lib) v else field_text lib d second
      | None \<Rightarrow> field_text lib d second)"

definition bid_ref_of :: "checkout_lib \<Rightarrow> payload \<Rightarrow> string" where
  "bid_ref_of lib bid = either_text lib bid ''bid_id'' ''bid_ref''"

definition find_bid :: "checkout_lib \<Rightarrow> string \<Rightarrow> payload list \<Rightarrow> payload option" where
  "find_bid lib wanted bids = find (\<lambda>bid. bid_ref_of lib bid = wanted) bids"

definition nonblank :: "string list \<Rightarrow> string list" where
  "nonblank refs = filter (\<lambda>ref. ref \<noteq> []) refs"

definition slot_order :: "checkout_lib \<Rightarrow> auction_view \<Rightarrow> string list" where
  "slot_order lib a =
     (let refs = nonblank (map (\<lambda>slot. either_text lib slot ''bid_ref'' ''bid_id'') (av_slots a))
      in if refs \<noteq> [] then refs else nonblank (map (bid_ref_of lib) (av_bids a)))"

text \<open>The rest of a list after the first occurrence of an element.\<close>

fun after_first :: "'a \<Rightarrow> 'a list \<Rightarrow> 'a list" where
  "after_first x [] = []"
| "after_first x (y # ys) = (if y = x then ys else after_first x ys)"

definition next_slot :: "checkout_lib \<Rightarrow> auction_view \<Rightarrow> string \<Rightarrow> string list \<Rightarrow> string option" where
  "next_slot lib a after exhausted =
     (let order = slot_order lib a; spent = insert after (set exhausted);
          tail = (if after \<in> set order then after_first after order else order)
      in find (\<lambda>ref. ref \<notin> spent) tail)"

section \<open>Results and refusals\<close>

record accept_result =
  ac_accepted :: bool
  ac_auction_id :: string
  ac_bid_ref :: string
  ac_mode :: string
  ac_store_id :: "string option"
  ac_permalink_url :: "string option"
  ac_code :: "string option"
  ac_token :: "string option"
  ac_expires_at :: "deadline option"
  ac_provider :: "string option"
  ac_domain_verified :: bool
  ac_claim_verified :: bool
  ac_notice :: "string option"
  ac_denial :: "string option"
  ac_reoffer :: "string option"
  ac_orphan :: "orphaned_code option"
  ac_events :: "ledger_event list"

definition no_discount_on_a_fallback :: string where
  "no_discount_on_a_fallback =
     ''No discount applies to this offer. This store's agent never answered the exchange, so '' @
     ''the price shown is the store's own catalogue list price rather than anything it quoted '' @
     ''for you, and no discount code was created. You are being sent to the store's ordinary '' @
     ''checkout, at its ordinary prices.''"

definition some_nonblank :: "string \<Rightarrow> string option" where
  "some_nonblank s = (if s = [] then None else Some s)"

definition orphan_record ::
  "checkout_lib \<Rightarrow> auction_view \<Rightarrow> orphaned_code \<Rightarrow> 'm shop \<Rightarrow> ledger_event option \<times> 'm shop" where
  "orphan_record lib a orphan w =
     published_or_recorded ''accept._orphan_record'' ''code_created''
       (if av_auction_id a \<noteq> [] then av_auction_id a else or_auction_id orphan)
       (some_nonblank (or_store_id orphan))
       [(''code'', JStr (or_code orphan)), (''permalink_url'', JStr (or_permalink_url orphan)),
        (''expires_at'', json_opt deadline_json (or_expires_at orphan)),
        (''orphaned'', JBool True), (''revocation_required'', JBool True),
        (''bid_ref'', JStr (or_bid_ref orphan)), (''provider'', JStr (or_provider orphan)),
        (''fingerprint'', JStr (code_fingerprint lib (or_code orphan)))]
       [(''bid_ref'', JStr (or_bid_ref orphan)), (''provider'', JStr (or_provider orphan)),
        (''fingerprint'', JStr (code_fingerprint lib (or_code orphan)))] w"

definition refusal_event ::
  "checkout_lib \<Rightarrow> auction_view \<Rightarrow> string \<Rightarrow> string option \<Rightarrow> string \<Rightarrow> orphaned_code option \<Rightarrow> 'm shop \<Rightarrow>
   ledger_event list \<times> 'm shop" where
  "refusal_event lib a bid_ref store_id reason orphan w =
     (let (events, pointer, w1) =
        (case orphan of
           None \<Rightarrow> ([], [], w)
         | Some o' \<Rightarrow>
             (let (ev, w1) = orphan_record lib a o' w;
                  fingerprint = (''fingerprint'', JStr (code_fingerprint lib (or_code o')));
                  tail = [(''kind'', JStr ''code_created''), (''provider'', JStr (or_provider o'))]
              in case ev of
                   Some e \<Rightarrow> ([e], [(''orphaned_code'',
                     JObj (fingerprint # (''event_id'', JStr (le_event_id e)) # tail))], w1)
                 | None \<Rightarrow> ([], [(''orphaned_code'',
                     JObj (fingerprint # (''recorded'', JBool False) # tail))], w1)));
          (refusal, w2) = published_or_recorded ''accept._refusal_event'' ''policy_event''
            (av_auction_id a) store_id
            ([(''kind'', JStr ''accept_refused''),
              (''severity'', JStr (if orphan \<noteq> None then ''critical'' else ''warning'')),
              (''opened_at'', JReal (av_now a)), (''bid_ref'', JStr bid_ref),
              (''reason'', JStr reason)] @ pointer)
            [(''bid_ref'', JStr bid_ref), (''policy_kind'', JStr ''accept_refused'')] w1
      in (events @ (case refusal of Some e \<Rightarrow> [e] | None \<Rightarrow> []), w2))"

definition refused ::
  "checkout_lib \<Rightarrow> string \<Rightarrow> string \<Rightarrow> string \<Rightarrow> string option \<Rightarrow> string option \<Rightarrow> orphaned_code option \<Rightarrow>
   ('c, 'm) desk \<Rightarrow> (string + accept_result) \<times> ('c, 'm) desk" where
  "refused lib ref mode reason store_id reoffer orphan d =
     (let (evs, w) = refusal_event lib (dk_auction d) ref store_id reason orphan (dk_shop d)
      in (Inr \<lparr>ac_accepted = False, ac_auction_id = av_auction_id (dk_auction d), ac_bid_ref = ref,
               ac_mode = mode, ac_store_id = store_id, ac_permalink_url = None, ac_code = None,
               ac_token = None, ac_expires_at = None, ac_provider = None, ac_domain_verified = False,
               ac_claim_verified = False, ac_notice = None, ac_denial = Some reason,
               ac_reoffer = reoffer, ac_orphan = orphan, ac_events = evs\<rparr>,
          d\<lparr>dk_shop := w\<rparr>))"

definition record_acceptance :: "string \<Rightarrow> ('c, 'm) desk \<Rightarrow> ('c, 'm) desk" where
  "record_acceptance ref d = d\<lparr>dk_auction := (dk_auction d)\<lparr>av_accepted := Some ref\<rparr>\<rparr>"

section \<open>The claim\<close>

text \<open>
  The guard: \<open>Inl\<close> is the denial, \<open>Inr\<close> whether a claim is held. An auction without an id, a table that
  raises and a claim already taken are refused; with no table in force there is no guard.
\<close>

definition take_claim ::
  "'c claim_ops option \<Rightarrow> string \<Rightarrow> string \<Rightarrow> 'c \<Rightarrow> (string + bool) \<times> 'c" where
  "take_claim table auction_id ref c =
     (case table of
        None \<Rightarrow> (Inr False, c)
      | Some ops \<Rightarrow>
          if auction_id = [] then (Inl denial_unrecordable, c)
          else
            (case cl_claim ops auction_id ref c of
               (Inl e, c') \<Rightarrow> (Inl denial_unrecordable, c')
             | (Inr outcome, c') \<Rightarrow>
                 if co_won outcome then (Inr True, c') else (Inl denial_already_accepted, c')))"

definition give_claim_back :: "'c claim_ops option \<Rightarrow> string \<Rightarrow> string \<Rightarrow> 'c \<Rightarrow> 'c" where
  "give_claim_back table auction_id ref c =
     (case table of None \<Rightarrow> c | Some ops \<Rightarrow> snd (cl_release ops auction_id ref c))"

section \<open>Accepting\<close>

definition bid_is_fallback :: "payload \<Rightarrow> bool" where
  "bid_is_fallback bid \<longleftrightarrow> (case dget bid ''fallback'' of Some v \<Rightarrow> truthy v | None \<Rightarrow> False)"

definition request_of ::
  "checkout_lib \<Rightarrow> auction_view \<Rightarrow> payload \<Rightarrow> string \<Rightarrow> string \<Rightarrow> 'm code_creator option \<Rightarrow>
   registered_domains option \<Rightarrow> 'm checkout_request" where
  "request_of lib a bid ref mode creator sellers =
     \<lparr>cq_auction_id = av_auction_id a, cq_bid_ref = ref, cq_store_id = field_text lib bid ''store_id'',
      cq_store_domain = (if bid_is_fallback bid then [] else field_text lib bid ''store_domain''),
      cq_offer = (case dget bid ''offer'' of Some v \<Rightarrow> if truthy v then v else JObj [] | None \<Rightarrow> JObj []),
      cq_mode = mode, cq_creator = creator, cq_now = av_now a, cq_domains = sellers\<rparr>"

definition fallback_destination :: "checkout_lib \<Rightarrow> 'm checkout_request \<Rightarrow> failure + string" where
  "fallback_destination lib req =
     (case registered_domain_for req of
        Inl e \<Rightarrow> Inl e
      | Inr domain \<Rightarrow>
          (let named = (case dget (offer_fields (cq_offer req)) ''variant_ref'' of
                          None \<Rightarrow> None
                        | Some JNull \<Rightarrow> None
                        | Some v \<Rightarrow> Some (str_of (lib_str lib) v));
               destination = fallback_checkout_url domain named
           in if is_on_domain lib destination domain then Inr destination
              else Inl (Failed ''OffDomainCheckout'')))"

definition handoff_events ::
  "string \<Rightarrow> string \<Rightarrow> string \<Rightarrow> json \<Rightarrow> string \<Rightarrow> 'm shop \<Rightarrow> ledger_event list \<times> 'm shop" where
  "handoff_events auction_id ref store_id offer destination w =
     (let context = [(''bid_ref'', JStr ref), (''fallback'', JBool True)];
          (accepted, w1) = published_or_recorded ''accept._handoff_events'' ''accepted'' auction_id
            (Some store_id)
            [(''bid_ref'', JStr ref), (''checkout_token'', JNull), (''offer'', JObj (offer_fields offer)),
             (''fallback'', JBool True), (''discount_applied'', JBool False)] context w;
          (redirect, w2) = published_or_recorded ''accept._handoff_events'' ''checkout_redirect'' auction_id
            (Some store_id)
            [(''checkout_token'', JNull), (''permalink_url'', JStr destination), (''fallback'', JBool True),
             (''discount_applied'', JBool False), (''domain_verified'', JBool True)] context w1
      in (map the (filter (\<lambda>ev. ev \<noteq> None) [accepted, redirect]), w2))"

definition handed_off ::
  "'m checkout_request \<Rightarrow> string \<Rightarrow> bool \<Rightarrow> ledger_event list \<Rightarrow> accept_result" where
  "handed_off req destination claimed_it handoff =
     \<lparr>ac_accepted = True, ac_auction_id = cq_auction_id req, ac_bid_ref = cq_bid_ref req,
      ac_mode = cq_mode req, ac_store_id = Some (cq_store_id req), ac_permalink_url = Some destination,
      ac_code = None, ac_token = None, ac_expires_at = None, ac_provider = None,
      ac_domain_verified = True, ac_claim_verified = claimed_it,
      ac_notice = Some no_discount_on_a_fallback, ac_denial = None, ac_reoffer = None,
      ac_orphan = None, ac_events = handoff\<rparr>"

text \<open>An accepted fallback: the destination and its events first, then the claim, then the stamp.\<close>

definition accept_fallback ::
  "checkout_lib \<Rightarrow> 'c claim_ops option \<Rightarrow> 'm checkout_request \<Rightarrow> ('c, 'm) desk \<Rightarrow>
   (string + accept_result) \<times> ('c, 'm) desk" where
  "accept_fallback lib table req d =
     (let a = dk_auction d; ref = cq_bid_ref req; store_id = cq_store_id req in
      case fallback_destination lib req of
        Inl _ \<Rightarrow> refused lib ref (cq_mode req) denial_unroutable_fallback (Some store_id)
                   (next_slot lib a ref []) None d
      | Inr destination \<Rightarrow>
          (let (handoff, w) = handoff_events (cq_auction_id req) ref store_id (cq_offer req) destination
                 (dk_shop d);
               (claim, c) = take_claim table (cq_auction_id req) ref (dk_claims d);
               d1 = d\<lparr>dk_shop := w, dk_claims := c\<rparr> in
           case claim of
             Inl reason \<Rightarrow> refused lib ref (cq_mode req) reason (Some store_id) None None d1
           | Inr held \<Rightarrow> (Inr (handed_off req destination held handoff), record_acceptance ref d1)))"

definition checked_out :: "'m checkout_request \<Rightarrow> bool \<Rightarrow> checkout_result \<Rightarrow> accept_result" where
  "checked_out req claimed_it c =
     \<lparr>ac_accepted = True, ac_auction_id = cq_auction_id req, ac_bid_ref = cq_bid_ref req,
      ac_mode = cr_mode c, ac_store_id = Some (cq_store_id req),
      ac_permalink_url = Some (cr_permalink_url c), ac_code = Some (cr_code c),
      ac_token = Some (cr_token c), ac_expires_at = Some (cr_expires_at c),
      ac_provider = Some (cr_provider c), ac_domain_verified = cr_domain_verified c,
      ac_claim_verified = claimed_it, ac_notice = None, ac_denial = None, ac_reoffer = None,
      ac_orphan = None, ac_events = cr_events c\<rparr>"

text \<open>
  An accepted bid: the claim, then the provider. A checkout that raises gives the claim back, unless
  it carries an orphaned code.
\<close>

definition accept_minting ::
  "checkout_lib \<Rightarrow> 'c claim_ops option \<Rightarrow> provider \<Rightarrow> 'm checkout_request \<Rightarrow> ('c, 'm) desk \<Rightarrow>
   (string + accept_result) \<times> ('c, 'm) desk" where
  "accept_minting lib table p req d =
     (let a = dk_auction d; ref = cq_bid_ref req; store_id = cq_store_id req;
          (claim, c) = take_claim table (cq_auction_id req) ref (dk_claims d);
          d1 = d\<lparr>dk_claims := c\<rparr> in
      case claim of
        Inl reason \<Rightarrow> refused lib ref (cq_mode req) reason (Some store_id) None None d1
      | Inr held \<Rightarrow>
          (let (res, w) = checkout lib p req (dk_shop d1); d2 = d1\<lparr>dk_shop := w\<rparr> in
           case res of
             Inr bought \<Rightarrow> (Inr (checked_out req held bought), record_acceptance ref d2)
           | Inl (Orphaned e orphan) \<Rightarrow>
               refused lib ref (cq_mode req) denial_checkout_refused (Some store_id)
                 (next_slot lib a ref []) (Some orphan) d2
           | Inl (Failed e) \<Rightarrow>
               refused lib ref (cq_mode req) denial_checkout_refused (Some store_id)
                 (next_slot lib a ref []) None
                 (if held then d2\<lparr>dk_claims := give_claim_back table (cq_auction_id req) ref (dk_claims d2)\<rparr>
                  else d2)))"

text \<open>\<open>accept\<close>; \<open>Inl\<close> is the exception that leaves it.\<close>

definition accept ::
  "checkout_lib \<Rightarrow> 'c claim_ops option \<Rightarrow> registered_domains option \<Rightarrow> 'm code_creator option \<Rightarrow>
   string \<Rightarrow> string \<Rightarrow> ('c, 'm) desk \<Rightarrow> (string + accept_result) \<times> ('c, 'm) desk" where
  "accept lib table sellers creator mode ref d =
     (let a = dk_auction d in
      case find_bid lib ref (av_bids a) of
        None \<Rightarrow> refused lib ref mode denial_unknown_bid None (next_slot lib a ref []) None d
      | Some bid \<Rightarrow>
          (let store_id = field_text lib bid ''store_id'' in
           if av_accepted a \<noteq> None \<and> av_accepted a \<noteq> Some []
           then refused lib ref mode denial_already_accepted (Some store_id) None None d
           else if \<not> av_recordable a
           then refused lib ref mode denial_unrecordable (Some store_id) None None d
           else
             case resolve_provider mode of
               None \<Rightarrow> (Inl ''UnknownCheckoutMode'', d)
             | Some p \<Rightarrow>
                 (let req = request_of lib a bid ref mode creator sellers
                  in if bid_is_fallback bid then accept_fallback lib table req d
                     else accept_minting lib table p req d)))"

section \<open>The eligibility gate\<close>

text \<open>The code of \<open>_denial_reason\<close>: the status where it is a denial, else unavailable.\<close>

definition eligibility_denial :: "string eligibility_decision \<Rightarrow> string" where
  "eligibility_denial decision =
     (if ed_status decision \<in> set denial_reasons then ed_status decision else unavailable_status)"

definition accept_offer ::
  "checkout_lib \<Rightarrow> 'c claim_ops option \<Rightarrow> registered_domains option \<Rightarrow> string eligibility_source \<Rightarrow>
   'm code_creator option \<Rightarrow> string \<Rightarrow> string \<Rightarrow> ('c, 'm) desk \<Rightarrow>
   (string + accept_result) \<times> ('c, 'm) desk" where
  "accept_offer lib table sellers eligibility creator mode ref d =
     (case find_bid lib ref (av_bids (dk_auction d)) of
        None \<Rightarrow> accept lib table sellers creator mode ref d
      | Some bid \<Rightarrow>
          (let store_id = field_text lib bid ''store_id''; reoffer = next_slot lib (dk_auction d) ref [] in
           if \<not> speaks_supported_interface eligibility
           then refused lib ref mode unavailable_status (Some store_id) reoffer None d
           else
             let decision = read_eligibility eligibility store_id in
             if ed_status decision \<noteq> eligible_status
             then refused lib ref mode (eligibility_denial decision) (Some store_id) reoffer None d
             else accept lib table sellers creator mode ref d))"

end
