(* ===== verification/AcceptNet.thy ===== *)
theory AcceptNet
  imports Accept
begin

text \<open>
  Accepts that run side by side over one claim table. An accept in flight is a \<open>flight\<close>; the steps are
  what \<open>accept\<close> does between two calls that leave the process: the claim, the minting of a code the
  exchange can read, an ending that keeps the claim and one that gives it back, in any order and
  interleaved with whatever else happens to the table, as long as that takes no live claim away.
\<close>

datatype phase = Holding | Minted | Kept | GivenBack

record flight =
  fg_auction :: string
  fg_ref :: string
  fg_phase :: phase

record 'c accept_net =
  an_claims :: 'c
  an_codes :: "(string \<times> string) list"
  an_flights :: "flight list"

definition opened_net :: "'c \<Rightarrow> 'c accept_net" where
  "opened_net c = \<lparr>an_claims = c, an_codes = [], an_flights = []\<rparr>"

definition set_phase :: "nat \<Rightarrow> phase \<Rightarrow> 'c accept_net \<Rightarrow> 'c accept_net" where
  "set_phase i p n = n\<lparr>an_flights := (an_flights n)[i := (an_flights n ! i)\<lparr>fg_phase := p\<rparr>]\<rparr>"

inductive accept_net_step ::
  "'c claim_ops \<Rightarrow> ('c \<Rightarrow> string \<Rightarrow> string option) \<Rightarrow> ('c \<Rightarrow> bool) \<Rightarrow> ('c \<Rightarrow> bool) \<Rightarrow>
   'c accept_net \<Rightarrow> 'c accept_net \<Rightarrow> bool"
  for ops held ok room where
  win: "room (an_claims n) \<Longrightarrow> cl_claim ops a r (an_claims n) = (Inr outcome, c) \<Longrightarrow> co_won outcome \<Longrightarrow>
     accept_net_step ops held ok room n
       (n\<lparr>an_claims := c, an_flights := an_flights n @ [\<lparr>fg_auction = a, fg_ref = r, fg_phase = Holding\<rparr>]\<rparr>)"
| lose: "room (an_claims n) \<Longrightarrow> cl_claim ops a r (an_claims n) = (Inr outcome, c) \<Longrightarrow> \<not> co_won outcome \<Longrightarrow>
     accept_net_step ops held ok room n (n\<lparr>an_claims := c\<rparr>)"
| unreachable: "room (an_claims n) \<Longrightarrow> cl_claim ops a r (an_claims n) = (Inl e, c) \<Longrightarrow>
     accept_net_step ops held ok room n (n\<lparr>an_claims := c\<rparr>)"
| mint: "i < length (an_flights n) \<Longrightarrow> fg_phase (an_flights n ! i) = Holding \<Longrightarrow>
     accept_net_step ops held ok room n
       (set_phase i Minted (n\<lparr>an_codes := an_codes n @ [(fg_auction (an_flights n ! i), code)]\<rparr>))"
| keep: "i < length (an_flights n) \<Longrightarrow> fg_phase (an_flights n ! i) = Holding \<Longrightarrow>
     accept_net_step ops held ok room n (set_phase i Kept n)"
| give_back: "i < length (an_flights n) \<Longrightarrow> fg_phase (an_flights n ! i) = Holding \<Longrightarrow>
     cl_release ops (fg_auction (an_flights n ! i)) (fg_ref (an_flights n ! i)) (an_claims n) = (res, c) \<Longrightarrow>
     accept_net_step ops held ok room n (set_phase i GivenBack (n\<lparr>an_claims := c\<rparr>))"
| elsewhere: "ok c \<Longrightarrow> (\<And>a b. held (an_claims n) a = Some b \<Longrightarrow> held c a = Some b) \<Longrightarrow>
     accept_net_step ops held ok room n (n\<lparr>an_claims := c\<rparr>)"

definition live_at :: "flight list \<Rightarrow> string \<Rightarrow> nat \<Rightarrow> bool" where
  "live_at fs a i \<longleftrightarrow> i < length fs \<and> fg_auction (fs ! i) = a \<and> fg_phase (fs ! i) \<noteq> GivenBack"

definition minted_of :: "flight list \<Rightarrow> string \<Rightarrow> nat set" where
  "minted_of fs a = {i. live_at fs a i \<and> fg_phase (fs ! i) = Minted}"

text \<open>
  One live flight per auction, under a claim of its own reference; a code per flight that minted.
\<close>

definition net_inv :: "('c \<Rightarrow> string \<Rightarrow> string option) \<Rightarrow> ('c \<Rightarrow> bool) \<Rightarrow> 'c accept_net \<Rightarrow> bool" where
  "net_inv held ok n \<longleftrightarrow> ok (an_claims n) \<and>
     (\<forall>a i j. live_at (an_flights n) a i \<longrightarrow> live_at (an_flights n) a j \<longrightarrow> i = j) \<and>
     (\<forall>a i. live_at (an_flights n) a i \<longrightarrow> held (an_claims n) a = Some (fg_ref (an_flights n ! i))) \<and>
     (\<forall>a. length (filter (\<lambda>p. fst p = a) (an_codes n)) = card (minted_of (an_flights n) a))"

lemma net_inv_opened: "ok c \<Longrightarrow> net_inv held ok (opened_net c)"
  by (simp add: net_inv_def opened_net_def live_at_def minted_of_def)

lemma set_phase_simps [simp]:
  "an_claims (set_phase i p n) = an_claims n" "an_codes (set_phase i p n) = an_codes n"
  "length (an_flights (set_phase i p n)) = length (an_flights n)"
  by (simp_all add: set_phase_def)

lemma set_phase_flight:
  "i < length (an_flights n) \<Longrightarrow> an_flights (set_phase i p n) ! j =
     (if j = i then (an_flights n ! i)\<lparr>fg_phase := p\<rparr> else an_flights n ! j)"
  by (simp add: set_phase_def nth_list_update)

lemma live_set_phase:
  assumes "i < length (an_flights n)" and "fg_phase (an_flights n ! i) = Holding"
  shows "live_at (an_flights (set_phase i p n)) a j \<longleftrightarrow>
    live_at (an_flights n) a j \<and> (j = i \<longrightarrow> p \<noteq> GivenBack)"
  using assms by (auto simp: live_at_def set_phase_flight)

lemma minted_set_phase:
  assumes "i < length (an_flights n)" and "fg_phase (an_flights n ! i) = Holding"
  shows "minted_of (an_flights (set_phase i p n)) a =
    (if p = Minted \<and> fg_auction (an_flights n ! i) = a then insert i (minted_of (an_flights n) a)
     else minted_of (an_flights n) a)"
  using assms by (auto simp: minted_of_def live_set_phase set_phase_flight) (auto simp: live_at_def)

lemma finite_minted: "finite (minted_of fs a)"
  by (rule finite_subset [of _ "{..<length fs}"]) (auto simp: minted_of_def live_at_def)

lemma holding_not_minted: "fg_phase (fs ! i) = Holding \<Longrightarrow> i \<notin> minted_of fs a"
  by (simp add: minted_of_def)

lemma live_snoc: "fg_phase g \<noteq> GivenBack \<Longrightarrow>
    live_at (fs @ [g]) a i \<longleftrightarrow> live_at fs a i \<or> (i = length fs \<and> fg_auction g = a)"
  by (auto simp: live_at_def nth_append)

lemma minted_snoc: "fg_phase g = Holding \<Longrightarrow> minted_of (fs @ [g]) a = minted_of fs a"
  by (auto simp: minted_of_def live_at_def nth_append split: if_splits)

context acceptance_claims
begin

lemma inv_claims:
  assumes "net_inv held ok n" and "ok c" and "\<And>a b. held (an_claims n) a = Some b \<Longrightarrow> held c a = Some b"
  shows "net_inv held ok (n\<lparr>an_claims := c\<rparr>)"
  using assms by (simp add: net_inv_def)

lemma claim_keeps:
  assumes "ok c" and "room c" and "cl_claim ops a r c = (res, c')"
  shows "ok c'" and "held c b = Some x \<Longrightarrow> held c' b = Some x"
proof -
  show "ok c'" using claim_ok [OF assms(1), of a r] assms(3) by simp
  show "held c b = Some x \<Longrightarrow> held c' b = Some x"
    using claim_frame [OF assms(1,2), of b a r] assms(3) by (cases "b = a") auto
qed

lemma inv_win:
  assumes "net_inv held ok n" and "room (an_claims n)"
    and "cl_claim ops a r (an_claims n) = (Inr outcome, c)" and "co_won outcome"
  shows "net_inv held ok
    (n\<lparr>an_claims := c, an_flights := an_flights n @ [\<lparr>fg_auction = a, fg_ref = r, fg_phase = Holding\<rparr>]\<rparr>)"
proof -
  have okn: "ok (an_claims n)" using assms(1) by (simp add: net_inv_def)
  have c: "held (an_claims n) a = None" "held c a = Some r"
    using claim_won [OF okn assms(2,3,4)] by simp_all
  have none: "\<not> live_at (an_flights n) a i" for i
    using assms(1) c(1) by (auto simp: net_inv_def)
  have same: "(an_flights n @ [g]) ! i = an_flights n ! i" if "live_at (an_flights n) b i" for b i g
    using that by (simp add: live_at_def nth_append)
  have "net_inv held ok (n\<lparr>an_claims := c\<rparr>)"
    using assms(1) claim_keeps [OF okn assms(2,3)] by (intro inv_claims)
  then show ?thesis
    using none c(2) same by (simp add: net_inv_def minted_snoc) (auto simp: live_snoc)
qed

lemma inv_give_back:
  assumes "net_inv held ok n" and "i < length (an_flights n)" and "fg_phase (an_flights n ! i) = Holding"
    and "cl_release ops (fg_auction (an_flights n ! i)) (fg_ref (an_flights n ! i)) (an_claims n) = (res, c)"
  shows "net_inv held ok (set_phase i GivenBack (n\<lparr>an_claims := c\<rparr>))"
proof -
  let ?g = "an_flights n ! i" and ?n = "n\<lparr>an_claims := c\<rparr>"
  have okn: "ok (an_claims n)" using assms(1) by (simp add: net_inv_def)
  have "ok c" using release_ok [OF okn, of "fg_auction ?g" "fg_ref ?g"] assms(4) by simp
  have i: "i < length (an_flights ?n)" "fg_phase (an_flights ?n ! i) = Holding"
    using assms(2,3) by simp_all
  have live: "live_at (an_flights n) (fg_auction ?g) i"
    using assms(2,3) by (simp add: live_at_def)
  have keeps: "held c b = Some (fg_ref (an_flights n ! j))" if "live_at (an_flights n) b j" "j \<noteq> i" for b j
  proof -
    have "b \<noteq> fg_auction ?g" using that live assms(1) unfolding net_inv_def by blast
    then have "held c b = held (an_claims n) b"
      using release_frame [OF okn, of b "fg_auction ?g" "fg_ref ?g"] assms(4) by simp
    with that(1) assms(1) show ?thesis unfolding net_inv_def by simp
  qed
  show ?thesis
    using assms(1) \<open>ok c\<close> keeps unfolding net_inv_def
    by (simp add: live_set_phase [OF i] minted_set_phase [OF i] set_phase_flight [OF i(1)]) blast
qed

lemma inv_set_phase:
  assumes "net_inv held ok n" and "i < length (an_flights n)" and "fg_phase (an_flights n ! i) = Holding"
  shows "net_inv held ok (set_phase i Kept n)"
    and "net_inv held ok (set_phase i Minted
      (n\<lparr>an_codes := an_codes n @ [(fg_auction (an_flights n ! i), code)]\<rparr>))"
proof -
  show "net_inv held ok (set_phase i Kept n)"
    using assms unfolding net_inv_def by (simp add: live_set_phase minted_set_phase set_phase_flight)
  let ?n = "n\<lparr>an_codes := an_codes n @ [(fg_auction (an_flights n ! i), code)]\<rparr>"
  have i: "i < length (an_flights ?n)" "fg_phase (an_flights ?n ! i) = Holding"
    using assms by simp_all
  show "net_inv held ok (set_phase i Minted ?n)"
    using assms(1) holding_not_minted [OF assms(3)] unfolding net_inv_def
    by (simp add: live_set_phase [OF i] minted_set_phase [OF i] set_phase_flight [OF i(1)] finite_minted)
qed

lemma net_inv_step:
  assumes "accept_net_step ops held ok room n m" and "net_inv held ok n"
  shows "net_inv held ok m"
  using assms
proof (induction rule: accept_net_step.induct)
  case (lose n a r outcome c)
  then show ?case
    using claim_keeps [OF _ lose(1,2)] by (intro inv_claims) (auto simp: net_inv_def)
next
  case (unreachable n a r e c)
  then show ?case
    using claim_keeps [OF _ unreachable(1,2)] by (intro inv_claims) (auto simp: net_inv_def)
qed (blast intro: inv_win inv_give_back inv_set_phase inv_claims)+

lemma net_inv_run:
  assumes "(accept_net_step ops held ok room)\<^sup>*\<^sup>* n m" and "net_inv held ok n"
  shows "net_inv held ok m"
  using assms by (induction rule: rtranclp_induct) (auto intro: net_inv_step)

lemma one_code:
  assumes "net_inv held ok n"
  shows "length (filter (\<lambda>p. fst p = a) (an_codes n)) \<le> 1"
proof -
  have "card (minted_of (an_flights n) a) \<le> 1"
    using assms finite_minted [of "an_flights n" a] unfolding net_inv_def
    by (auto simp: card_le_Suc0_iff_eq minted_of_def)
  with assms show ?thesis by (simp add: net_inv_def)
qed

end

section \<open>An accept is a run of the interleaving\<close>

text \<open>The codes an accept answers with: the one it sells and the one it orphaned.\<close>

definition codes_of :: "accept_result \<Rightarrow> string list" where
  "codes_of r = (case ac_code r of Some c \<Rightarrow> [c] | None \<Rightarrow> []) @
     (case ac_orphan r of Some o' \<Rightarrow> [or_code o'] | None \<Rightarrow> [])"

definition sold :: "string \<Rightarrow> string + accept_result \<Rightarrow> (string \<times> string) list" where
  "sold a res = (case res of Inl _ \<Rightarrow> [] | Inr r \<Rightarrow> map (Pair a) (codes_of r))"

lemma refused_claims [simp]: "dk_claims (snd (refused lib ref mode reason store reoffer orphan d)) = dk_claims d"
  by (simp add: refused_def split_def Let_def)

lemma sold_refused [simp]:
  "sold a (fst (refused lib ref mode reason store reoffer orphan d)) =
     (case orphan of Some o' \<Rightarrow> [(a, or_code o')] | None \<Rightarrow> [])"
  by (simp add: refused_def split_def Let_def sold_def codes_of_def split: option.split)

lemma sold_results [simp]:
  "sold a (Inr (handed_off req destination h evs)) = []"
  "sold a (Inr (checked_out req h c)) = [(a, cr_code c)]"
  by (simp_all add: sold_def codes_of_def handed_off_def checked_out_def)

lemma record_acceptance_claims [simp]: "dk_claims (record_acceptance ref d) = dk_claims d"
  by (simp add: record_acceptance_def)

lemma request_of_simps [simp]:
  "cq_auction_id (request_of lib a bid ref mode creator sellers) = av_auction_id a"
  "cq_bid_ref (request_of lib a bid ref mode creator sellers) = ref"
  "cq_store_id (request_of lib a bid ref mode creator sellers) = field_text lib bid ''store_id''"
  "cq_mode (request_of lib a bid ref mode creator sellers) = mode"
  "cq_creator (request_of lib a bid ref mode creator sellers) = creator"
  "cq_now (request_of lib a bid ref mode creator sellers) = av_now a"
  "cq_domains (request_of lib a bid ref mode creator sellers) = sellers"
  by (simp_all add: request_of_def)

text \<open>The four ways through \<open>accept\<close>: two end before the claim.\<close>

lemma accept_cases:
  obtains (refusal) reason store reoffer
    where "accept lib table sellers creator mode ref d = refused lib ref mode reason store reoffer None d"
      and "reason \<in> {denial_unknown_bid, denial_already_accepted, denial_unrecordable}"
  | (unknown_mode) "resolve_provider mode = None"
      and "accept lib table sellers creator mode ref d = (Inl ''UnknownCheckoutMode'', d)"
  | (fallback) bid p where "find_bid lib ref (av_bids (dk_auction d)) = Some bid" and "bid_is_fallback bid"
      and "resolve_provider mode = Some p"
      and "av_accepted (dk_auction d) = None \<or> av_accepted (dk_auction d) = Some []"
      and "accept lib table sellers creator mode ref d =
        accept_fallback lib table (request_of lib (dk_auction d) bid ref mode creator sellers) d"
  | (minting) bid p where "find_bid lib ref (av_bids (dk_auction d)) = Some bid" and "\<not> bid_is_fallback bid"
      and "resolve_provider mode = Some p"
      and "av_accepted (dk_auction d) = None \<or> av_accepted (dk_auction d) = Some []"
      and "accept lib table sellers creator mode ref d =
        accept_minting lib table p (request_of lib (dk_auction d) bid ref mode creator sellers) d"
proof (cases "find_bid lib ref (av_bids (dk_auction d))")
  case None
  then show ?thesis
    by (intro refusal [of denial_unknown_bid None "next_slot lib (dk_auction d) ref []"])
      (simp_all add: accept_def Let_def)
next
  case (Some bid)
  show ?thesis
  proof (cases "(av_accepted (dk_auction d) \<noteq> None \<and> av_accepted (dk_auction d) \<noteq> Some []) \<or>
      \<not> av_recordable (dk_auction d)")
    case True
    then show ?thesis
      using Some by (cases "av_accepted (dk_auction d) \<noteq> None \<and> av_accepted (dk_auction d) \<noteq> Some []")
        (auto simp: accept_def Let_def intro: refusal)
  next
    case False
    then show ?thesis
      using Some unknown_mode fallback minting
      by (cases "resolve_provider mode"; cases "bid_is_fallback bid") (auto simp: accept_def Let_def)
  qed
qed

context acceptance_claims
begin

abbreviation run :: "'c accept_net \<Rightarrow> 'c accept_net \<Rightarrow> bool" where
  "run \<equiv> (accept_net_step ops held ok room)\<^sup>*\<^sup>*"

definition runs_to :: "'c accept_net \<Rightarrow> 'c \<Rightarrow> (string \<times> string) list \<Rightarrow> bool" where
  "runs_to n c codes \<longleftrightarrow> (\<exists>m. run n m \<and> an_claims m = c \<and> an_codes m = an_codes n @ codes)"

lemma runs_to_refl [simp]: "runs_to n (an_claims n) []"
  unfolding runs_to_def by (intro exI [of _ n]) simp

lemma denied_run:
  assumes "take_claim (Some ops) a r (an_claims n) = (Inl reason, c)" and "room (an_claims n)"
  shows "runs_to n c []"
proof (cases "a = []")
  case True
  with assms(1) have "c = an_claims n" by (simp add: take_claim_def)
  then show ?thesis by simp
next
  case False
  have "accept_net_step ops held ok room n (n\<lparr>an_claims := c\<rparr>)"
    using assms False
    by (auto simp: take_claim_def split: prod.splits sum.splits if_splits intro: lose unreachable)
  then show ?thesis unfolding runs_to_def by (intro exI [of _ "n\<lparr>an_claims := c\<rparr>"]) auto
qed

lemma claimed_run:
  assumes "take_claim (Some ops) a r (an_claims n) = (Inr h, c)" and "room (an_claims n)"
  obtains m where "h" and "run n m" and "an_claims m = c" and "an_codes m = an_codes n"
    and "an_flights m = an_flights n @ [\<lparr>fg_auction = a, fg_ref = r, fg_phase = Holding\<rparr>]"
proof -
  let ?m = "n\<lparr>an_claims := c, an_flights := an_flights n @ [\<lparr>fg_auction = a, fg_ref = r, fg_phase = Holding\<rparr>]\<rparr>"
  have "h \<and> accept_net_step ops held ok room n ?m"
    using assms by (auto simp: take_claim_def split: prod.splits sum.splits if_splits intro: win)
  then show ?thesis by (intro that [of ?m]) auto
qed

lemma runs_to_step:
  assumes "run n m" and "an_codes m = an_codes n" and "accept_net_step ops held ok room m k"
    and "an_claims k = c" and "an_codes k = an_codes m @ codes"
  shows "runs_to n c codes"
  using rtranclp.rtrancl_into_rtrancl [OF assms(1,3)] assms(2,4,5)
  unfolding runs_to_def by auto

lemma flight_ends:
  assumes "an_flights m = fs @ [\<lparr>fg_auction = a, fg_ref = r, fg_phase = Holding\<rparr>]" and "run n m"
    and "an_codes m = an_codes n"
  shows "runs_to n (an_claims m) []"
    and "runs_to n (an_claims m) [(a, code)]"
    and "runs_to n (snd (cl_release ops a r (an_claims m))) []"
proof -
  let ?i = "length fs"
  have i: "?i < length (an_flights m)" "fg_phase (an_flights m ! ?i) = Holding"
    "fg_auction (an_flights m ! ?i) = a" "fg_ref (an_flights m ! ?i) = r"
    by (simp_all add: assms(1))
  show "runs_to n (an_claims m) []"
    using accept_net_step.keep [OF i(1,2)] by (rule runs_to_step [OF assms(2,3)]) simp_all
  show "runs_to n (an_claims m) [(a, code)]"
    using accept_net_step.mint [OF i(1,2)] by (rule runs_to_step [OF assms(2,3)]) (simp_all add: i(3))
  show "runs_to n (snd (cl_release ops a r (an_claims m))) []"
    using accept_net_step.give_back [OF i(1,2), unfolded i(3,4), OF prod.collapse [symmetric]]
    by (rule runs_to_step [OF assms(2,3)]) simp_all
qed

lemma accept_fallback_run:
  assumes "an_claims n = dk_claims d" and "room (an_claims n)"
  shows "runs_to n (dk_claims (snd (accept_fallback lib (Some ops) req d)))
    (sold (cq_auction_id req) (fst (accept_fallback lib (Some ops) req d)))"
proof (cases "fallback_destination lib req")
  case (Inl e)
  then show ?thesis by (simp add: accept_fallback_def Let_def assms(1) [symmetric])
next
  case (Inr destination)
  obtain claim c where t: "take_claim (Some ops) (cq_auction_id req) (cq_bid_ref req) (an_claims n) = (claim, c)"
    by fastforce
  show ?thesis
  proof (cases claim)
    case (Inl reason)
    then show ?thesis
      using denied_run [OF _ assms(2)] t Inr
      by (auto simp: accept_fallback_def Let_def split_def assms(1) [symmetric])
  next
    case held: (Inr h)
    obtain m where "run n m" "an_claims m = c" "an_codes m = an_codes n"
      "an_flights m = an_flights n @ [\<lparr>fg_auction = cq_auction_id req, fg_ref = cq_bid_ref req, fg_phase = Holding\<rparr>]"
      using claimed_run [OF t [unfolded held] assms(2)] by blast
    then show ?thesis
      using flight_ends(1) t held Inr by (auto simp: accept_fallback_def Let_def split_def assms(1) [symmetric])
  qed
qed

lemma accept_minting_run:
  assumes "an_claims n = dk_claims d" and "room (an_claims n)"
  shows "runs_to n (dk_claims (snd (accept_minting lib (Some ops) p req d)))
    (sold (cq_auction_id req) (fst (accept_minting lib (Some ops) p req d)))"
proof -
  obtain claim c where t: "take_claim (Some ops) (cq_auction_id req) (cq_bid_ref req) (an_claims n) = (claim, c)"
    by fastforce
  show ?thesis
  proof (cases claim)
    case (Inl reason)
    then show ?thesis
      using denied_run [OF _ assms(2)] t
      by (auto simp: accept_minting_def Let_def split_def assms(1) [symmetric])
  next
    case held: (Inr h)
    obtain m where m: "h" "run n m" "an_claims m = c" "an_codes m = an_codes n"
      "an_flights m = an_flights n @ [\<lparr>fg_auction = cq_auction_id req, fg_ref = cq_bid_ref req, fg_phase = Holding\<rparr>]"
      using claimed_run [OF t [unfolded held] assms(2)] by blast
    obtain co w where co: "checkout lib p req (dk_shop d) = (co, w)" by fastforce
    show ?thesis
      using flight_ends [OF m(5,2,4)] m(1,3) t held co
      by (cases co)
        (auto simp: accept_minting_def Let_def give_claim_back_def assms(1) [symmetric] split: failure.split)
  qed
qed

lemma accept_run:
  assumes "an_claims n = dk_claims d" and "room (an_claims n)"
  shows "runs_to n (dk_claims (snd (accept lib (Some ops) sellers creator mode ref d)))
    (sold (av_auction_id (dk_auction d)) (fst (accept lib (Some ops) sellers creator mode ref d)))"
proof (cases rule: accept_cases [of lib "Some ops" sellers creator mode ref d])
  case (refusal reason store reoffer)
  then show ?thesis by (simp add: assms(1) [symmetric])
next
  case unknown_mode
  then show ?thesis by (simp add: sold_def assms(1) [symmetric])
next
  case (fallback bid p)
  then show ?thesis
    using accept_fallback_run [OF assms, of lib "request_of lib (dk_auction d) bid ref mode creator sellers"]
    by simp
next
  case (minting bid p)
  then show ?thesis
    using accept_minting_run [OF assms, of lib p "request_of lib (dk_auction d) bid ref mode creator sellers"]
    by simp
qed

end

end
