(* ===== verification/PyUrlLaws.thy ===== *)
theory PyUrlLaws
  imports PyUrl
begin

text \<open>
  Facts of the text functions of \<open>PyUrl\<close>: what quoting and numbers are made of, and that a link put
  together from a host, a path and a query is taken apart into these.
\<close>

text \<open>A registered domain as a registry writes it: letters, digits, hyphens and dots.\<close>

definition host_char :: "char \<Rightarrow> bool" where
  "host_char c \<longleftrightarrow> ascii_letter c \<or> ascii_digit c \<or> c = CHR ''-'' \<or> c = CHR ''.''"

definition host_like :: "string \<Rightarrow> bool" where
  "host_like d \<longleftrightarrow> d \<noteq> [] \<and> list_all host_char d"

lemma lower_char_idem: "lower_char (lower_char c) = lower_char c"
  by (auto simp: lower_char_def Let_def)

lemma lower_idem [simp]: "lower (lower s) = lower s"
  by (simp add: lower_def lower_char_idem)

lemma dropWhile_none: "list_all (\<lambda>c. \<not> P c) s \<Longrightarrow> dropWhile P s = s"
  by (cases s) auto

lemma trim_fixed: "list_all (\<lambda>c. \<not> latin_space c) s \<Longrightarrow> trim s = s"
  by (simp add: trim_def trim_with_def dropWhile_none)

lemma trim_nonempty:
  assumes "c \<in> set s" and "\<not> latin_space c"
  shows "trim s \<noteq> []"
proof -
  have "c \<in> set (dropWhile latin_space s)"
    using assms by (induction s) auto
  then show ?thesis
    using assms(2) by (auto simp: trim_def trim_with_def)
qed

lemma host_char_facts:
  assumes "host_char c"
  shows "\<not> latin_space c" "\<not> netloc_end c" "c \<noteq> CHR ''@''" "c \<noteq> CHR ''[''" "c \<noteq> CHR '']''" "c \<noteq> CHR '':''"
    "c \<noteq> CHR ''%''" "unreserved c" "c \<noteq> CHR ''<''"
  using assms
  by (auto simp: host_char_def latin_space_def py_space_def netloc_end_def unreserved_def ascii_letter_def
      ascii_digit_def Let_def)

lemma unreserved_facts:
  assumes "unreserved c"
  shows "point c \<notin> {9, 10, 13}" "c \<noteq> CHR ''#''" "c \<noteq> CHR ''?''" "c \<noteq> CHR ''&''" "c \<noteq> CHR ''=''" "c \<noteq> CHR ''+''"
    "c \<noteq> CHR ''%''" "\<not> latin_space c"
  using assms
  by (auto simp: unreserved_def latin_space_def py_space_def ascii_letter_def ascii_digit_def Let_def)

lemma quote_unreserved: "list_all unreserved s \<Longrightarrow> quote s = s"
  by (induction s) (auto simp: quote_def)

lemma cut_at_absent: "c \<notin> set s \<Longrightarrow> cut_at c s = (s, None)"
  by (induction s) (auto simp: cut_at_def Let_def)

lemma cut_at_first: "c \<notin> set s \<Longrightarrow> cut_at c (s @ c # t) = (s, Some t)"
  by (induction s) (auto simp: cut_at_def Let_def)

lemma split_on_absent: "c \<notin> set s \<Longrightarrow> split_on c s = [s]"
  by (induction s) auto

lemma stop_at:
  assumes "list_all P s" and "\<not> P c"
  shows "takeWhile P (s @ c # t) = s" and "dropWhile P (s @ c # t) = c # t"
  using assms by (induction s) auto

lemma hex_digit_unreserved: "n < 16 \<Longrightarrow> unreserved (hex_digit n)"
  by (auto simp: hex_digit_def unreserved_def ascii_digit_def ascii_letter_def Let_def)

lemma percent_byte_chars: "b < 256 \<Longrightarrow> list_all (\<lambda>c. unreserved c \<or> c = CHR ''%'') (percent_byte b)"
  by (simp add: percent_byte_def hex_digit_unreserved div_less_iff_less_mult)

lemma quote_chars: "list_all (\<lambda>c. unreserved c \<or> c = CHR ''%'') (quote s)"
proof (induction s)
  case Nil
  then show ?case by (simp add: quote_def)
next
  case (Cons c s)
  have n: "point c < 256" by simp
  have "list_all (\<lambda>c. unreserved c \<or> c = CHR ''%'') (percent_byte (192 + point c div 64))"
    "list_all (\<lambda>c. unreserved c \<or> c = CHR ''%'') (percent_byte (128 + point c mod 64))"
    by (rule percent_byte_chars, use n in linarith, rule percent_byte_chars, use n in linarith)
  then show ?case
    using Cons percent_byte_chars [of "point c"] n by (simp add: quote_def)
qed

lemma nat_digits_chars: "list_all ascii_digit (nat_digits n)"
proof (induction n rule: nat_digits.induct)
  case (1 n)
  have digit: "ascii_digit (char_of (48 + k))" if "k < 10" for k :: nat
    using that by (auto simp: ascii_digit_def Let_def)
  show ?case
  proof (cases "n < 10")
    case True
    then show ?thesis using digit [of n] by (simp add: nat_digits.simps)
  next
    case False
    then have "nat_digits n = nat_digits (n div 10) @ [char_of (48 + n mod 10)]"
      by (simp add: nat_digits.simps)
    then show ?thesis using 1 [OF False] digit [of "n mod 10"] by simp
  qed
qed

lemma int_string_chars: "list_all unreserved (int_string n)"
proof -
  have "list_all unreserved (nat_digits k)" for k
    using nat_digits_chars [of k] by (auto simp: list_all_iff unreserved_def)
  then show ?thesis by (simp add: int_string_def unreserved_def)
qed

text \<open>The characters of a link.\<close>

definition link_char :: "char \<Rightarrow> bool" where
  "link_char c \<longleftrightarrow> unreserved c \<or> c \<in> {CHR ''%'', CHR '':'', CHR ''/'', CHR ''='', CHR ''?''}"

lemma link_char_facts: "link_char c \<Longrightarrow> point c \<notin> {9, 10, 13} \<and> c \<noteq> CHR ''#''"
  using unreserved_facts [of c] by (auto simp: link_char_def)

lemma link_literals:
  "list_all link_char ''https://''" "link_char (CHR ''/'')" "link_char (CHR ''?'')"
  by (simp_all add: link_char_def unreserved_def ascii_letter_def)

lemma host_like_link: "host_like d \<Longrightarrow> list_all link_char d"
  by (auto simp: host_like_def list_all_iff link_char_def dest: host_char_facts(8))

text \<open>A path with a query, under a host, is taken apart into just these.\<close>

lemma urlsplit_https:
  assumes "host_like d" and "list_all link_char path" and "CHR ''?'' \<notin> set path" and "list_all link_char query"
  shows "urlsplit ok (''https://'' @ d @ ''/'' @ path @ ''?'' @ query) =
    Some \<lparr>up_scheme = ''https'', up_netloc = d, up_path = ''/'' @ path, up_query = query\<rparr>"
proof -
  let ?rest = "''/'' @ path @ ''?'' @ query"
  define url where "url = ''https://'' @ d @ ?rest"
  have "list_all link_char url"
    using assms host_like_link link_literals by (simp add: url_def)
  then have plain: "filter (\<lambda>c. point c \<notin> {9, 10, 13}) (dropWhile (\<lambda>c. point c \<le> 32) url) = url"
    using link_char_facts by (auto simp: url_def filter_id_conv list_all_iff)
  have scheme: "split_scheme url = (''https'', ''//'' @ d @ ?rest)"
    using cut_at_first [of "CHR '':''" "''https''" "''//'' @ d @ ?rest"]
    by (simp add: url_def split_scheme_def ascii_letter_def scheme_char_def lower_def lower_char_def)
  have "list_all (\<lambda>c. \<not> netloc_end c) d"
    using assms(1) by (auto simp: host_like_def list_all_iff dest: host_char_facts(2))
  then have netloc: "split_netloc (''//'' @ d @ ?rest) = (d, ?rest)"
    using stop_at [of "\<lambda>c. \<not> netloc_end c" d "CHR ''/''" "path @ ''?'' @ query"]
    by (simp add: split_netloc_def netloc_end_def)
  have "list_all link_char ?rest"
    using assms link_literals by simp
  then have "CHR ''#'' \<notin> set ?rest"
    using link_char_facts unfolding list_all_iff by blast
  then have frag: "cut_at (CHR ''#'') ?rest = (?rest, None)"
    by (rule cut_at_absent)
  have query: "cut_at (CHR ''?'') ?rest = (''/'' @ path, Some query)"
    using cut_at_first [of "CHR ''?''" "''/'' @ path" query] assms(3) by simp
  have "CHR ''['' \<notin> set d" "CHR '']'' \<notin> set d"
    using assms(1) by (auto simp: host_like_def list_all_iff dest: host_char_facts(4,5))
  then show ?thesis
    unfolding url_def [symmetric] urlsplit_def plain Let_def scheme prod.case netloc frag query by simp
qed

lemma hostname_host_like:
  assumes "host_like d" and "up_netloc p = d"
  shows "hostname p = Some (lower d)"
proof -
  have no: "c \<notin> set d" if "\<not> host_char c" for c
    using assms(1) that by (auto simp: host_like_def list_all_iff)
  have chars: "CHR ''@'' \<notin> set d" "CHR ''['' \<notin> set d" "CHR '':'' \<notin> set d" "CHR ''%'' \<notin> set d"
    by (intro no; simp add: host_char_def ascii_letter_def ascii_digit_def)+
  have "takeWhile (\<lambda>c. c \<noteq> CHR ''@'') (rev d) = rev d"
    unfolding takeWhile_eq_all_conv using chars(1) by auto
  then have "rev (takeWhile (\<lambda>c. c \<noteq> CHR ''@'') (rev d)) = d"
    by (simp only: rev_rev_ident)
  then show ?thesis
    using assms chars by (simp add: hostname_def Let_def cut_at_absent host_like_def)
qed

lemma quote_link: "list_all link_char (quote s)"
  using quote_chars [of s] by (auto simp: list_all_iff link_char_def)

lemma unreserved_link: "list_all unreserved s \<Longrightarrow> list_all link_char s"
  by (auto simp: list_all_iff link_char_def)

lemma quote_no_question: "CHR ''?'' \<notin> set (quote s)"
  using quote_chars [of s] by (auto simp: list_all_iff dest: unreserved_facts(3))

lemma parse_single:
  assumes "CHR ''&'' \<notin> set name" and "CHR ''='' \<notin> set name" and "CHR ''&'' \<notin> set v" and "v \<noteq> []"
  shows "parse_qsl unquote (name @ ''='' @ v) = [(unquote (plus_to_space name), unquote (plus_to_space v))]"
  using assms cut_at_first [OF assms(2), of v] by (simp add: parse_qsl_def split_on_absent)

lemma plus_to_space_unreserved: "list_all unreserved s \<Longrightarrow> plus_to_space s = s"
  by (induction s) (auto simp: plus_to_space_def dest: unreserved_facts(6))

end
