(* ===== verification/CheckoutLaws.thy ===== *)
theory CheckoutLaws
  imports AcceptNet PyUrlLaws
begin

text \<open>
  What a checkout guarantees: a code that was reported is in what the checkout returns or raises, a
  checkout that returns is on the seller's domain, inside its window and applies its own code, and the
  permalink the exchange builds itself passes these checks.
\<close>

section \<open>No reported code is lost\<close>

lemma mint_code_text: "fst (mint_code w) \<noteq> []"
  by (simp add: mint_code_def code_prefix_def)

lemma dress_code_minted: "dress_code lib req code given = Inr minted \<Longrightarrow> mt_code minted = code"
  by (auto simp: dress_code_def split: sum.splits)

lemma dress_code_failed: "dress_code lib req code given = Inl e \<Longrightarrow> \<exists>t. e = Failed t"
  by (auto simp: dress_code_def default_permalink_def registered_domain_for_def usable_domain_def Let_def
      split: sum.splits option.splits domain_answer.splits if_splits)

lemma readable_code_is_text:
  assumes "truthy v" and "code_refusals reply v = []"
  obtains s where "v = JStr s" and "s \<noteq> []"
  using assms by (cases v) (auto simp: code_refusals_def acted_on_def discount_code_reasons_def)

text \<open>A provider reports nothing and fails, or one code, which its result or its orphan carries.\<close>

definition reports_its_code :: "failure + minted_checkout \<Rightarrow> string list \<Rightarrow> bool" where
  "reports_its_code res recorded \<longleftrightarrow>
     (case res of
        Inr m \<Rightarrow> recorded = [mt_code m] \<and> mt_code m \<noteq> []
      | Inl (Orphaned e o') \<Rightarrow> recorded = [or_code o'] \<and> or_code o' \<noteq> []
      | Inl (Failed e) \<Rightarrow> recorded = [] \<or> (\<exists>c. recorded = [c] \<and> c \<noteq> []))"

lemma dress_code_reports:
  assumes "code \<noteq> []"
  shows "reports_its_code (dress_code lib req code given) [code]"
proof (cases "dress_code lib req code given")
  case (Inl e)
  then show ?thesis using dress_code_failed [OF Inl] assms by (auto simp: reports_its_code_def)
next
  case (Inr m)
  then show ?thesis using dress_code_minted [OF Inr] assms by (simp add: reports_its_code_def)
qed

lemma shopify_mint_reports:
  "reports_its_code (fst (fst (shopify_mint lib req w))) (snd (fst (shopify_mint lib req w)))"
proof (cases "cq_creator req")
  case None
  then show ?thesis by (simp add: shopify_mint_def reports_its_code_def)
next
  case (Some create)
  obtain answer m where create: "create (cq_store_id req) (offer_fields (cq_offer req)) (sh_merchant w) = (answer, m)"
    by fastforce
  show ?thesis
  proof (cases answer)
    case (Inl e)
    with Some create show ?thesis by (simp add: shopify_mint_def reports_its_code_def)
  next
    case (Inr reply)
    let ?v = "reply_field reply ''code''"
    show ?thesis
    proof (cases "truthy ?v \<and> code_refusals reply ?v = []")
      case True
      then obtain s where s: "?v = JStr s" "s \<noteq> []" by (blast elim: readable_code_is_text)
      have "reports_its_code (dress_code lib req s (merchant_permalink lib reply)) [s]"
        using s(2) by (rule dress_code_reports)
      with True Some create Inr s show ?thesis
        by (auto simp: shopify_mint_def str_of_def orphan_of_def reports_its_code_def Let_def split: sum.split)
    next
      case False
      with Some create Inr show ?thesis by (auto simp: shopify_mint_def reports_its_code_def Let_def)
    qed
  qed
qed

lemma provider_mint_reports:
  assumes "provider_mint lib p req w = ((res, recorded), w')"
  shows "reports_its_code res recorded"
proof (cases p)
  case SimulatedRedirect
  with assms show ?thesis
    using dress_code_reports [OF mint_code_text [of w], of lib req None]
    by (auto simp: simulated_mint_def split_def Let_def)
next
  case Shopify
  with assms show ?thesis using shopify_mint_reports [of lib req w] by simp
qed

text \<open>The codes a checkout answers with: the one it sells or the one it orphans.\<close>

definition checkout_codes :: "failure + checkout_result \<Rightarrow> string list" where
  "checkout_codes res =
     (case res of Inr c \<Rightarrow> [cr_code c] | Inl (Orphaned e o') \<Rightarrow> [or_code o'] | Inl (Failed e) \<Rightarrow> [])"

lemma checkout_mints:
  assumes "provider_mint lib p req w = ((res, recorded), w')"
  shows "checkout_codes (fst (checkout lib p req w)) =
    (case checkout_preconditions lib req of Inl _ \<Rightarrow> [] | Inr _ \<Rightarrow> recorded)"
proof (cases "checkout_preconditions lib req")
  case (Inl e)
  moreover have "\<exists>t. e = Failed t"
    using Inl by (auto simp: checkout_preconditions_def registered_domain_for_def usable_domain_def Let_def
        split: sum.splits option.splits domain_answer.splits json.splits if_splits)
  ultimately show ?thesis by (auto simp: checkout_def checkout_codes_def)
next
  case (Inr registered)
  show ?thesis
  proof (cases res)
    case (Inl e)
    with Inr assms provider_mint_reports [OF assms] show ?thesis
      by (cases e)
        (auto simp: checkout_def mint_recording_orphans_def checkout_codes_def reports_its_code_def orphan_of_def)
  next
    case minted: (Inr m)
    with Inr assms provider_mint_reports [OF assms] show ?thesis
      by (auto simp: checkout_def mint_recording_orphans_def checkout_codes_def reports_its_code_def
          orphan_of_def Let_def split_def split: sum.split option.split)
  qed
qed

section \<open>The events are published\<close>

lemma published:
  assumes "kind \<in> set ledger_event_kinds" and "kind \<notin> set joinable_kinds"
    and "set (the (dget ledger_payload_shapes kind)) \<subseteq> set (dkeys body)"
  shows "published_or_recorded site kind a st body ctx w =
    (Some \<lparr>le_event_id = fst (sh_stamps w (sh_stamped w)), le_ts = snd (sh_stamps w (sh_stamped w)),
       le_kind = kind, le_auction_id = Some a, le_store_id = st, le_order_ref = None, le_payload = body\<rparr>,
     w\<lparr>sh_stamped := Suc (sh_stamped w)\<rparr>)"
  using assms validate_plain_kind [OF assms(1,2), of body]
  by (simp add: published_or_recorded_def build_published_event_def build_event_def Let_def)

text \<open>The kinds an accept publishes, and the keys their bodies must have.\<close>

lemma accept_kinds:
  "kind \<in> {''accepted'', ''code_created'', ''checkout_redirect'', ''policy_event''} \<Longrightarrow>
   kind \<in> set ledger_event_kinds \<and> kind \<notin> set joinable_kinds"
  by (auto simp: ledger_event_kinds_def joinable_kinds_def)

lemma accept_shapes:
  "dget ledger_payload_shapes ''accepted'' = Some [''bid_ref'', ''checkout_token'', ''offer'']"
  "dget ledger_payload_shapes ''code_created'' = Some [''code'', ''permalink_url'', ''expires_at'']"
  "dget ledger_payload_shapes ''checkout_redirect'' = Some [''checkout_token'', ''permalink_url'']"
  "dget ledger_payload_shapes ''policy_event'' = Some [''kind'', ''severity'', ''opened_at'']"
  by (simp_all add: ledger_payload_shapes_def)

lemmas accept_published =
  published [OF conjunct1 [OF accept_kinds] conjunct2 [OF accept_kinds]]

lemma emit_bodies_published:
  assumes "\<forall>(kind, body) \<in> set bodies.
      kind \<in> {''accepted'', ''code_created'', ''checkout_redirect'', ''policy_event''} \<and>
      set (the (dget ledger_payload_shapes kind)) \<subseteq> set (dkeys body)"
  shows "map (\<lambda>ev. (le_kind ev, le_payload ev)) (fst (emit_bodies lib p req minted token bodies w)) = bodies \<and>
    list_all (\<lambda>ev. le_auction_id ev = Some (cq_auction_id req) \<and> le_store_id ev = Some (cq_store_id req))
      (fst (emit_bodies lib p req minted token bodies w)) \<and>
    snd (emit_bodies lib p req minted token bodies w) = w\<lparr>sh_stamped := sh_stamped w + length bodies\<rparr>"
  using assms
proof (induction bodies arbitrary: w)
  case Nil
  then show ?case by simp
next
  case (Cons b bodies)
  obtain kind body where b: "b = (kind, body)" by fastforce
  have "kind \<in> {''accepted'', ''code_created'', ''checkout_redirect'', ''policy_event''}"
    "set (the (dget ledger_payload_shapes kind)) \<subseteq> set (dkeys body)"
    using Cons.prems by (auto simp: b)
  note pub = accept_published [OF this(1) this(1) this(2)]
  show ?case
    using Cons.IH Cons.prems by (simp add: b pub split_def Let_def)
qed

lemma checkout_bodies_published:
  "\<forall>(kind, body) \<in> set (checkout_bodies req minted token verified expires_at).
      kind \<in> {''accepted'', ''code_created'', ''checkout_redirect'', ''policy_event''} \<and>
      set (the (dget ledger_payload_shapes kind)) \<subseteq> set (dkeys body)"
  by (simp add: checkout_bodies_def accept_shapes)

section \<open>A checkout that returns is sound\<close>

text \<open>What a buyer is handed.\<close>

definition sound_checkout :: "checkout_lib \<Rightarrow> 'm checkout_request \<Rightarrow> checkout_result \<Rightarrow> bool" where
  "sound_checkout lib req c \<longleftrightarrow>
     (\<exists>registered. registered_domain_for req = Inr registered \<and>
        is_on_domain lib (cr_permalink_url c) registered) \<and>
     (\<exists>t. cr_expires_at c = At t \<and> cq_now req < t) \<and>
     \<not> cart_conflict lib (cr_permalink_url c) (cr_code c) \<and>
     cr_domain_verified c = (cq_domains req \<noteq> None) \<and> cr_mode c = cq_mode req \<and>
     map (\<lambda>ev. (le_kind ev, le_payload ev)) (cr_events c) =
       checkout_bodies req \<lparr>mt_code = cr_code c, mt_permalink_url = cr_permalink_url c, mt_expires_at = None\<rparr>
         (cr_token c) (cr_domain_verified c) (cr_expires_at c) \<and>
     list_all (\<lambda>ev. le_auction_id ev = Some (cq_auction_id req) \<and> le_store_id ev = Some (cq_store_id req))
       (cr_events c)"

lemma checkout_events [simp]:
  "map (\<lambda>ev. (le_kind ev, le_payload ev))
     (fst (emit_bodies lib p req m token (checkout_bodies req m token verified expires_at) w)) =
   checkout_bodies req \<lparr>mt_code = mt_code m, mt_permalink_url = mt_permalink_url m, mt_expires_at = None\<rparr>
     token verified expires_at"
  "list_all (\<lambda>ev. le_auction_id ev = Some (cq_auction_id req) \<and> le_store_id ev = Some (cq_store_id req))
     (fst (emit_bodies lib p req m token (checkout_bodies req m token verified expires_at) w))"
  using emit_bodies_published [OF checkout_bodies_published, of lib p req m token req m token verified expires_at w]
  by (simp_all add: checkout_bodies_def)

lemma window_open_At: "\<not> window_closed (Some d) now \<Longrightarrow> \<exists>t. d = At t \<and> now < t"
  by (cases d) (auto simp: window_closed_def)

lemma preconditions_domain:
  "checkout_preconditions lib req = Inr registered \<Longrightarrow> registered_domain_for req = Inr registered"
  by (auto simp: checkout_preconditions_def Let_def split: sum.splits json.splits if_splits)

lemma preconditions_window:
  assumes "checkout_preconditions lib req = Inr registered"
  obtains t where "code_expiry lib (cq_now req) (offer_fields (cq_offer req)) = Inr (At t)"
    and "cq_now req < t"
proof -
  obtain limit where "code_expiry lib (cq_now req) (offer_fields (cq_offer req)) = Inr limit"
    and "\<not> window_closed (Some limit) (cq_now req)"
    using assms
    by (auto simp: checkout_preconditions_def assert_offer_is_mintable_def offer_fields_def Let_def
        split: sum.splits json.splits if_splits)
  with that window_open_At show ?thesis by blast
qed

lemma checkout_sound:
  assumes "checkout lib p req w = (Inr c, w')"
  shows "sound_checkout lib req c"
proof -
  obtain registered where pre: "checkout_preconditions lib req = Inr registered"
    using assms by (auto simp: checkout_def split: sum.splits)
  obtain m w1 where m: "mint_recording_orphans lib p req w = (Inr m, w1)"
    using assms pre by (cases "fst (mint_recording_orphans lib p req w)")
      (auto simp: checkout_def split_def, metis prod.collapse)
  obtain t where t: "code_expiry lib (cq_now req) (offer_fields (cq_offer req)) = Inr (At t)" "cq_now req < t"
    by (rule preconditions_window [OF pre])
  show ?thesis
    using assms m pre preconditions_domain [OF pre] t window_open_At
    by (cases "mt_expires_at m")
      (auto simp: checkout_def sound_checkout_def domain_is_platform_verified_def Let_def split_def split: if_splits)
qed

text \<open>The deadline is no later than 48 hours from now, nor than the offer's own.\<close>

lemma code_expiry_bound:
  assumes "code_expiry lib now offer = Inr (At t)"
  shows "t \<le> float_add now max_code_ttl_seconds"
    and "dget offer ''expires_at'' = Some v \<Longrightarrow> expiry_epoch lib v = Inr (FiniteText x) \<Longrightarrow> v \<noteq> JNull \<Longrightarrow> t \<le> x"
  using assms
  by (auto simp: code_expiry_def Let_def split: option.splits json.splits sum.splits float_text.splits if_splits)

lemma dress_code_expiry:
  assumes "dress_code lib req code given = Inr m"
  obtains limit where "mt_expires_at m = Some limit"
    and "code_expiry lib (cq_now req) (offer_fields (cq_offer req)) = Inr limit"
  using assms by (auto simp: dress_code_def split: sum.splits)

lemma provider_mint_expiry:
  assumes "fst (fst (provider_mint lib p req w)) = Inr m"
  obtains limit where "mt_expires_at m = Some limit"
    and "code_expiry lib (cq_now req) (offer_fields (cq_offer req)) = Inr limit"
  using assms
  by (cases p)
    (auto simp: simulated_mint_def shopify_mint_def split_def Let_def
      split: option.splits sum.splits if_splits elim: dress_code_expiry)

lemma checkout_expiry:
  assumes "checkout lib p req w = (Inr c, w')"
  shows "code_expiry lib (cq_now req) (offer_fields (cq_offer req)) = Inr (cr_expires_at c)"
proof -
  obtain m where m: "fst (mint_recording_orphans lib p req w) = Inr m"
    and c: "mt_expires_at m = Some (cr_expires_at c) \<or> mt_expires_at m = None"
    using assms
    by (cases "fst (mint_recording_orphans lib p req w)")
      (auto simp: checkout_def split_def Let_def split: sum.splits if_splits option.splits)
  have "fst (fst (provider_mint lib p req w)) = Inr m"
    using m by (auto simp: mint_recording_orphans_def split_def Let_def split: sum.splits failure.splits if_splits)
  with c show ?thesis by (auto elim: provider_mint_expiry)
qed

section \<open>The exchange's own permalink passes its own checks\<close>

lemma on_own_domain:
  assumes "host_like d" and "list_all link_char path" and "CHR ''?'' \<notin> set path"
    and "list_all link_char query"
  shows "is_on_domain lib (''https://'' @ d @ ''/'' @ path @ ''?'' @ query) d"
proof -
  let ?url = "''https://'' @ d @ ''/'' @ path @ ''?'' @ query"
  let ?p = "\<lparr>up_scheme = ''https'', up_netloc = d, up_path = ''/'' @ path, up_query = query\<rparr>"
  have "trim d = d"
    using assms(1) by (intro trim_fixed) (auto simp: host_like_def list_all_iff dest: host_char_facts(1))
  moreover have "lower ''https'' = ''https''" by (simp add: lower_def lower_char_def)
  moreover have "d \<noteq> []" using assms(1) by (simp add: host_like_def)
  moreover have "trim ?url \<noteq> []"
    by (rule trim_nonempty [of "CHR ''h''"]) (simp_all add: latin_space_def py_space_def)
  ultimately show ?thesis
    using urlsplit_https [OF assms] hostname_host_like [OF assms(1), of ?p]
    by (simp add: is_on_domain_def domain_problem_of_def allowed_checkout_schemes_def Let_def)
qed

lemma permalink_parts:
  "build_cart_permalink d code v q =
     ''https://'' @ d @ ''/'' @ (''cart/'' @ quote v @ '':'' @ int_string q) @ ''?'' @ (''discount='' @ quote code)"
  "list_all link_char (''cart/'' @ quote v @ '':'' @ int_string q)"
  "CHR ''?'' \<notin> set (''cart/'' @ quote v @ '':'' @ int_string q)"
  "list_all link_char (''discount='' @ quote code)"
proof -
  have "CHR ''?'' \<notin> set (int_string q)"
    using int_string_chars [of q] by (auto simp: list_all_iff dest: unreserved_facts(3))
  then show "CHR ''?'' \<notin> set (''cart/'' @ quote v @ '':'' @ int_string q)"
    using quote_no_question [of v] by simp
  have "list_all link_char (''cart/'')" "link_char (CHR '':'')" "list_all link_char (''discount='')"
    by (simp_all add: link_char_def unreserved_def ascii_letter_def)
  then show "list_all link_char (''cart/'' @ quote v @ '':'' @ int_string q)"
    "list_all link_char (''discount='' @ quote code)"
    using quote_link unreserved_link [OF int_string_chars [of q]] by simp_all
qed (simp add: build_cart_permalink_def)

lemma permalink_on_domain: "host_like d \<Longrightarrow> is_on_domain lib (build_cart_permalink d code v q) d"
  unfolding permalink_parts(1) by (rule on_own_domain [OF _ permalink_parts(2,3,4)])

lemma permalink_split:
  assumes "host_like d"
  shows "urlsplit ok (build_cart_permalink d code v q) =
    Some \<lparr>up_scheme = ''https'', up_netloc = d, up_path = ''/cart/'' @ quote v @ '':'' @ int_string q,
          up_query = ''discount='' @ quote code\<rparr>"
  unfolding permalink_parts(1) using urlsplit_https [OF assms permalink_parts(2,3,4), of ok v q code] by simp

text \<open>Percent-decoding leaves a text without percent signs as it is.\<close>

definition decodes_plainly :: "checkout_lib \<Rightarrow> bool" where
  "decodes_plainly lib \<longleftrightarrow> (\<forall>s. CHR ''%'' \<notin> set s \<longrightarrow> lib_unquote lib s = s)"

lemma permalink_applies_its_code:
  assumes "host_like d" and "decodes_plainly lib" and "list_all unreserved code" and "code \<noteq> []"
  shows "applied_discount_codes lib (build_cart_permalink d code v q) = [code]"
proof -
  have no: "c \<notin> set code" if "\<not> unreserved c" for c
    using assms(3) that by (auto simp: list_all_iff)
  have chars: "CHR ''&'' \<notin> set code" "CHR ''%'' \<notin> set code"
    by (intro no; simp add: unreserved_def ascii_letter_def ascii_digit_def)+
  have disc: "plus_to_space ''discount'' = ''discount''" "trim ''discount'' = ''discount''"
    "lower ''discount'' = ''discount''"
    by (simp_all add: plus_to_space_def trim_def trim_with_def latin_space_def py_space_def lower_def lower_char_def)
  have "parse_qsl (lib_unquote lib) (''discount'' @ ''='' @ code) = [(''discount'', code)]"
    using assms(2,4) chars by (subst parse_single)
      (simp_all add: disc plus_to_space_unreserved [OF assms(3)] decodes_plainly_def)
  moreover have "trim (build_cart_permalink d code v q) \<noteq> []"
    by (rule trim_nonempty [of "CHR ''h''"])
      (simp_all add: build_cart_permalink_def latin_space_def py_space_def)
  ultimately show ?thesis
    by (simp add: applied_discount_codes_def permalink_split [OF assms(1)] quote_unreserved [OF assms(3)]
        discount_query_keys_def disc)
qed

lemma mint_code_chars: "list_all unreserved (fst (mint_code w))"
proof -
  have "list_all unreserved code_alphabet"
    by (simp add: code_alphabet_def unreserved_def ascii_letter_def ascii_digit_def)
  then have "unreserved (code_alphabet ! (n mod length code_alphabet))" for n
    by (simp add: list_all_length code_alphabet_def)
  then show ?thesis
    by (simp add: mint_code_def list_all_iff code_prefix_def unreserved_def ascii_letter_def)
qed

lemma mint_code_length: "length (fst (mint_code w)) = 12"
  by (simp add: mint_code_def code_prefix_def code_body_length_def)

lemma preconditions_quantity:
  assumes "checkout_preconditions lib req = Inr registered"
  obtains n where "offer_quantity lib (offer_fields (cq_offer req)) = Inr n"
  using assms
  by (auto simp: checkout_preconditions_def assert_offer_is_mintable_def offer_fields_def Let_def
      split: sum.splits json.splits if_splits)

lemma simulated_checkout:
  assumes pre: "checkout_preconditions lib req = Inr d" and "host_like d" and "decodes_plainly lib"
  obtains c w' where "checkout lib SimulatedRedirect req w = (Inr c, w')" and "cr_code c = fst (mint_code w)"
proof -
  let ?code = "fst (mint_code w)" and ?offer = "offer_fields (cq_offer req)"
  obtain t where t: "code_expiry lib (cq_now req) ?offer = Inr (At t)" "cq_now req < t"
    by (rule preconditions_window [OF pre])
  obtain n where n: "offer_quantity lib ?offer = Inr n"
    by (rule preconditions_quantity [OF pre])
  obtain v where link: "default_permalink lib req ?code = Inr (build_cart_permalink d ?code v n)"
    using preconditions_domain [OF pre] n by (simp add: default_permalink_def Let_def)
  let ?m = "\<lparr>mt_code = ?code, mt_permalink_url = build_cart_permalink d ?code v n, mt_expires_at = Some (At t)\<rparr>"
  have "mint_recording_orphans lib SimulatedRedirect req w = (Inr ?m, snd (mint_code w))"
    using link t by (simp add: mint_recording_orphans_def simulated_mint_def dress_code_def split_def Let_def)
  moreover have "\<not> cart_conflict lib (build_cart_permalink d ?code v n) ?code"
    using permalink_applies_its_code [OF assms(2,3) mint_code_chars mint_code_text, of w v n]
    by (simp add: cart_conflict_def same_code_def)
  ultimately show ?thesis
    using pre t permalink_on_domain [OF assms(2), of lib ?code v n]
    by (intro that) (auto simp: checkout_def window_closed_def Let_def split_def)
qed

section \<open>A code the exchange cannot read\<close>

text \<open>
  A merchant that was asked and answered a value that is not a readable code: nothing is sold, nothing
  orphaned, and the merchant has moved on.
\<close>

lemma record_audit_anomaly_frame [simp]:
  "sh_merchant (record_audit_anomaly site kind written ctx w) = sh_merchant w"
  "sh_chosen (record_audit_anomaly site kind written ctx w) = sh_chosen w"
  by (simp_all add: record_audit_anomaly_def)

lemma unreadable_checkout:
  assumes "checkout_preconditions lib req = Inr d" and "cq_creator req = Some create"
    and "create (cq_store_id req) (offer_fields (cq_offer req)) (sh_merchant w) = (Inr reply, m)"
    and "truthy (reply_field reply ''code'')"
    and "code_refusals reply (reply_field reply ''code'') \<noteq> []"
  obtains w' where "checkout lib Shopify req w = (Inl (Failed ''CheckoutCreatorError''), w')"
    and "sh_merchant w' = m"
proof -
  have "\<exists>w'. checkout lib Shopify req w = (Inl (Failed ''CheckoutCreatorError''), w') \<and> sh_merchant w' = m"
    using assms by (simp add: checkout_def mint_recording_orphans_def shopify_mint_def Let_def)
  then show ?thesis using that by blast
qed

end
