(* ===== verification/AuctionMachine.thy ===== *)
theory AuctionMachine
  imports AuctionStoreLaws LedgerContract
begin

text \<open>
  \<open>AuctionStateMachine\<close> of \<open>apps/exchange/src/auction/state.py\<close>, over any store of the
  \<open>AuctionStore\<close> interface and any ledger sink: reading, creating, and the one transition
  routine behind \<open>open\<close>, \<open>close\<close>, \<open>expire\<close> and \<open>accept\<close>, with its reservation, its
  re-read, its release on every failure and the ledger event it writes after the save.
\<close>

section \<open>The machine\<close>

text \<open>
  \<open>IllegalAuctionTransition\<close> in its five wordings; \<open>UnknownAuction\<close>; an exception the store
  raised, passed on; and an exception of the event builder.
\<close>

datatype auction_error =
    AlreadyExists string
  | NotLegal auction_state auction_state
  | AlreadyLeft auction_state string
  | MovedMeanwhile auction_state auction_state
  | UnknownAuction string
  | StoreRaised string
  | LedgerRaised ledger_error

fun is_illegal_transition :: "auction_error \<Rightarrow> bool" where
  "is_illegal_transition (AlreadyExists _) = True"
| "is_illegal_transition (NotLegal _ _) = True"
| "is_illegal_transition (AlreadyLeft _ _) = True"
| "is_illegal_transition (MovedMeanwhile _ _) = True"
| "is_illegal_transition _ = False"

definition machine_get ::
  "'st auction_store_ops \<Rightarrow> string \<Rightarrow> 'st \<Rightarrow> (auction_error + auction_record) \<times> 'st" where
  "machine_get ops auction_id s =
     (case op_load ops auction_id s of
        (Inl e, s1) \<Rightarrow> (Inl (StoreRaised e), s1)
      | (Inr None, s1) \<Rightarrow> (Inl (UnknownAuction auction_id), s1)
      | (Inr (Some r), s1) \<Rightarrow> (Inr r, s1))"

text \<open>
  \<open>except BaseException: release(...); raise\<close>. A release that itself raises replaces the
  exception being handled.
\<close>

definition release_and_raise ::
  "'st auction_store_ops \<Rightarrow> string \<Rightarrow> string \<Rightarrow> string \<Rightarrow> auction_error \<Rightarrow> 'st \<Rightarrow>
   (auction_error + 'a) \<times> 'st" where
  "release_and_raise ops auction_id name token err s =
     (case op_release ops auction_id name token s of
        (Inl e, s1) \<Rightarrow> (Inl (StoreRaised e), s1)
      | (Inr _, s1) \<Rightarrow> (Inl err, s1))"

text \<open>The body of the \<open>try\<close> in \<open>create\<close>.\<close>

definition create_body ::
  "'st auction_store_ops \<Rightarrow> auction_record \<Rightarrow> 'st \<Rightarrow> (auction_error + auction_record) \<times> 'st" where
  "create_body ops r s =
     (case op_load ops (ar_auction_id r) s of
        (Inl e, s1) \<Rightarrow> (Inl (StoreRaised e), s1)
      | (Inr (Some _), s1) \<Rightarrow> (Inl (AlreadyExists (ar_auction_id r)), s1)
      | (Inr None, s1) \<Rightarrow>
          (case op_save ops r s1 of
             (Inl e, s2) \<Rightarrow> (Inl (StoreRaised e), s2)
           | (Inr _, s2) \<Rightarrow> (Inr r, s2)))"

definition new_auction ::
  "string \<Rightarrow> string \<Rightarrow> string \<Rightarrow> roster_entry list \<Rightarrow> rat option \<Rightarrow> auction_record" where
  "new_auction auction_id intent_id cluster_id roster deadline =
     \<lparr>ar_auction_id = auction_id, ar_intent_id = intent_id, ar_cluster_id = cluster_id,
      ar_state = Created, ar_roster = roster, ar_accepted_bid_ref = None, ar_opened_at = None,
      ar_closed_at = None, ar_deadline = deadline, ar_history = []\<rparr>"

definition machine_create ::
  "'st auction_store_ops \<Rightarrow> string \<Rightarrow> string \<Rightarrow> string \<Rightarrow> roster_entry list \<Rightarrow> rat option \<Rightarrow> 'st \<Rightarrow>
   (auction_error + auction_record) \<times> 'st" where
  "machine_create ops auction_id intent_id cluster_id roster deadline s =
     (case op_reserve ops auction_id creation_reservation auction_id s of
        (Inl e, s1) \<Rightarrow> (Inl (StoreRaised e), s1)
      | (Inr (Some _), s1) \<Rightarrow> (Inl (AlreadyExists auction_id), s1)
      | (Inr None, s1) \<Rightarrow>
          (case create_body ops (new_auction auction_id intent_id cluster_id roster deadline) s1 of
             (Inl err, s2) \<Rightarrow> release_and_raise ops auction_id creation_reservation auction_id err s2
           | (Inr r, s2) \<Rightarrow> (Inr r, s2)))"

text \<open>The mutation of the re-read record.\<close>

definition moved :: "auction_state \<Rightarrow> rat option \<Rightarrow> string option \<Rightarrow> auction_record \<Rightarrow> auction_record" where
  "moved target now bid_ref r =
     (let r1 = r\<lparr>ar_state := target\<rparr>;
          r2 = (if target = Open then r1\<lparr>ar_opened_at := now\<rparr>
                else if target = Closed \<or> target = Expired then r1\<lparr>ar_closed_at := now\<rparr>
                else if target = Accepted then r1\<lparr>ar_accepted_bid_ref := bid_ref\<rparr>
                else r1)
      in r2\<lparr>ar_history := ar_history r2 @ [(target, now)]\<rparr>)"

text \<open>The body of the \<open>try\<close> in \<open>_transition\<close>: re-read, check, mutate, save.\<close>

definition move_body ::
  "'st auction_store_ops \<Rightarrow> string \<Rightarrow> auction_state \<Rightarrow> auction_state \<Rightarrow> rat option \<Rightarrow> string option \<Rightarrow>
   'st \<Rightarrow> (auction_error + auction_record) \<times> 'st" where
  "move_body ops auction_id source target now bid_ref s =
     (case machine_get ops auction_id s of
        (Inl err, s1) \<Rightarrow> (Inl err, s1)
      | (Inr r, s1) \<Rightarrow>
          if ar_state r \<noteq> source then (Inl (MovedMeanwhile source (ar_state r)), s1)
          else (case op_save ops (moved target now bid_ref r) s1 of
                  (Inl e, s2) \<Rightarrow> (Inl (StoreRaised e), s2)
                | (Inr _, s2) \<Rightarrow> (Inr (moved target now bid_ref r), s2)))"

text \<open>\<open>_transition\<close> up to and including the \<open>try\<close>: everything the store sees of it.\<close>

definition store_transition ::
  "'st auction_store_ops \<Rightarrow> string \<Rightarrow> auction_state \<Rightarrow> rat option \<Rightarrow> string option \<Rightarrow> 'st \<Rightarrow>
   (auction_error + auction_record) \<times> 'st" where
  "store_transition ops auction_id target now bid_ref s =
     (case machine_get ops auction_id s of
        (Inl err, s1) \<Rightarrow> (Inl err, s1)
      | (Inr r, s1) \<Rightarrow>
          if target \<notin> set (transitions (ar_state r)) then (Inl (NotLegal (ar_state r) target), s1)
          else
            let source = ar_state r; name = exit_reservation source in
            (case op_reserve ops auction_id name (state_name target) s1 of
               (Inl e, s2) \<Rightarrow> (Inl (StoreRaised e), s2)
             | (Inr (Some taken), s2) \<Rightarrow> (Inl (AlreadyLeft source taken), s2)
             | (Inr None, s2) \<Rightarrow>
                 (case move_body ops auction_id source target now bid_ref s2 of
                    (Inl err, s3) \<Rightarrow>
                      release_and_raise ops auction_id name (state_name target) err s3
                  | (Inr r', s3) \<Rightarrow> (Inr r', s3))))"

section \<open>The ledger event of a transition\<close>

fun transition_kind :: "auction_state \<Rightarrow> string option" where
  "transition_kind Open = Some ''auction_opened''"
| "transition_kind Closed = Some ''auction_closed''"
| "transition_kind Expired = Some ''auction_closed''"
| "transition_kind Accepted = Some ''accepted''"
| "transition_kind Created = None"

definition roster_store_id :: "roster_entry \<Rightarrow> json" where
  "roster_store_id e = JStr (case re_store_id e of Some sid \<Rightarrow> sid | None \<Rightarrow> [])"

definition transition_payload :: "auction_state \<Rightarrow> auction_record \<Rightarrow> payload \<Rightarrow> payload" where
  "transition_payload target r p =
     (let body = [(''state'', JStr (state_name target)),
                  (''intent_id'', JStr (ar_intent_id r)),
                  (''cluster_id'', JStr (ar_cluster_id r))];
          body1 = (if target = Open then
                     dset ''roster'' (JArr (map roster_store_id (ar_roster r)))
                       (dset ''roster_size'' (JInt (int (length (ar_roster r)))) body)
                   else body)
      in dupdate body1 p)"

text \<open>The machine's own state: the store and the recorder.\<close>

record ('st, 'k) machine =
  mc_store :: 'st
  mc_ledger :: "'k recorder"

type_synonym 'k emitter = "ledger_event \<Rightarrow> 'k \<Rightarrow> (string + unit) \<times> 'k"

text \<open>
  \<open>_transition\<close> in full. A target that is in no \<open>TRANSITIONS\<close> set never gets past the
  legality check, so the lookup of its kind, \<open>_TRANSITION_KIND[target]\<close>, cannot miss.
\<close>

definition machine_transition ::
  "'st auction_store_ops \<Rightarrow> 'k emitter \<Rightarrow> string \<times> string \<Rightarrow> string \<Rightarrow> auction_state \<Rightarrow> rat option \<Rightarrow>
   payload \<Rightarrow> string option \<Rightarrow> string option \<Rightarrow> ('st, 'k) machine \<Rightarrow>
   (auction_error + auction_record) \<times> ('st, 'k) machine" where
  "machine_transition ops emit stamp auction_id target now p bid_ref store_id m =
     (case store_transition ops auction_id target now bid_ref (mc_store m) of
        (Inl err, s) \<Rightarrow> (Inl err, m\<lparr>mc_store := s\<rparr>)
      | (Inr r, s) \<Rightarrow>
          (case recorder_record emit stamp (the (transition_kind target)) (Some auction_id) store_id
                  None (transition_payload target r p) (mc_ledger m) of
             (Inl e, l) \<Rightarrow> (Inl (LedgerRaised e), m\<lparr>mc_store := s, mc_ledger := l\<rparr>)
           | (Inr _, l) \<Rightarrow> (Inr r, m\<lparr>mc_store := s, mc_ledger := l\<rparr>)))"

definition machine_open where
  "machine_open ops emit stamp auction_id now m =
     machine_transition ops emit stamp auction_id Open now [] None None m"

definition close_payload :: "string \<Rightarrow> int option \<Rightarrow> payload \<Rightarrow> payload" where
  "close_payload reason shortlist_size outcome =
     dupdate [(''reason'', JStr reason), (''shortlist_size'', json_opt JInt shortlist_size)] outcome"

definition machine_close where
  "machine_close ops emit stamp auction_id now reason shortlist_size outcome m =
     machine_transition ops emit stamp auction_id Closed now
       (close_payload reason shortlist_size outcome) None None m"

definition machine_expire where
  "machine_expire ops emit stamp auction_id now m =
     machine_transition ops emit stamp auction_id Expired now
       [(''reason'', JStr ''expired''), (''shortlist_size'', JNull)] None None m"

definition accept_payload :: "string \<Rightarrow> string option \<Rightarrow> payload option \<Rightarrow> payload" where
  "accept_payload bid_ref checkout_token offer =
     [(''bid_ref'', JStr bid_ref), (''checkout_token'', json_opt JStr checkout_token),
      (''offer'', json_opt JObj offer)]"

definition machine_accept where
  "machine_accept ops emit stamp auction_id bid_ref now checkout_token offer store_id m =
     machine_transition ops emit stamp auction_id Accepted now
       (accept_payload bid_ref checkout_token offer) (Some bid_ref) store_id m"

end
