(* ===== verification/AuctionMachineLaws.thy ===== *)
theory AuctionMachineLaws
  imports AuctionMachine
begin

text \<open>
  Laws of the auction state machine over any store that keeps the \<open>auction_store\<close> contract:
  every record it ever writes carries a history that is a legal walk from \<open>Created\<close> to its
  state, and a transition only ever moves along \<open>TRANSITIONS\<close>.
\<close>

section \<open>Legal walks\<close>

fun walk :: "auction_state \<Rightarrow> (auction_state \<times> rat option) list \<Rightarrow> auction_state \<Rightarrow> bool" where
  "walk a [] b \<longleftrightarrow> a = b"
| "walk a ((c, _) # h) b \<longleftrightarrow> c \<in> set (transitions a) \<and> walk c h b"

lemma walk_append: "walk a (h @ k) c \<longleftrightarrow> (\<exists>b. walk a h b \<and> walk b k c)"
  by (induction h arbitrary: a) auto

fun rank :: "auction_state \<Rightarrow> nat" where
  "rank Created = 0"
| "rank Open = 1"
| "rank Closed = 2"
| "rank Accepted = 3"
| "rank Expired = 3"

lemma transition_rank: "b \<in> set (transitions a) \<Longrightarrow> rank a < rank b"
  by (cases a) auto

lemma walk_rank: "walk a h b \<Longrightarrow> rank a + length h \<le> rank b"
proof (induction h arbitrary: a)
  case (Cons p h)
  then show ?case
    by (cases p) (fastforce dest: transition_rank)
qed simp

lemma walk_target_rank: "walk a h b \<Longrightarrow> x \<in> set h \<Longrightarrow> rank a < rank (fst x)"
proof (induction h arbitrary: a)
  case (Cons p h)
  obtain c t where p: "p = (c, t)" by (cases p)
  with Cons.prems have "rank a < rank c" and "walk c h b"
    by (auto dest: transition_rank)
  with Cons show ?case by (force simp: p)
qed simp

lemma walk_distinct: "walk a h b \<Longrightarrow> distinct (a # map fst h)"
proof (induction h arbitrary: a)
  case (Cons p h)
  obtain c t where p: "p = (c, t)" by (cases p)
  with Cons.prems have w: "walk c h b" and "rank a < rank c"
    by (auto dest: transition_rank)
  moreover have "rank c < rank (fst x)" if "x \<in> set h" for x
    using walk_target_rank [OF w that] .
  ultimately have "a \<noteq> c" and "a \<notin> fst ` set h"
    by (auto, force)
  with Cons.IH [OF w] show ?case by (simp add: p)
qed simp

definition lawful :: "auction_record \<Rightarrow> bool" where
  "lawful r \<longleftrightarrow> walk Created (ar_history r) (ar_state r) \<and>
     (ar_accepted_bid_ref r \<noteq> None \<longrightarrow> ar_state r = Accepted)"

lemma lawful_new: "lawful (new_auction a i c ro d)"
  by (simp add: lawful_def new_auction_def)

lemma moved_simps [simp]:
  "ar_state (moved target now ref r) = target"
  "ar_history (moved target now ref r) = ar_history r @ [(target, now)]"
  "ar_auction_id (moved target now ref r) = ar_auction_id r"
  "ar_intent_id (moved target now ref r) = ar_intent_id r"
  "ar_cluster_id (moved target now ref r) = ar_cluster_id r"
  "ar_roster (moved target now ref r) = ar_roster r"
  "ar_accepted_bid_ref (moved target now ref r) =
     (if target = Accepted then ref else ar_accepted_bid_ref r)"
  by (simp_all add: moved_def Let_def)

lemma lawful_moved:
  assumes "lawful r" and "target \<in> set (transitions (ar_state r))"
  shows "lawful (moved target now ref r)"
  using assms by (cases "ar_state r") (auto simp: lawful_def walk_append)

section \<open>The machine over a lawful store\<close>

context auction_store
begin

lemma get_found:
  assumes "ok s" and "machine_get ops k s = (Inr r, s')"
  shows "r \<in> held s" and "ar_auction_id r = k"
  using assms load_held [of s k r]
  by (auto simp: machine_get_def split: prod.splits sum.splits option.splits)

lemma get_state:
  assumes "ok s"
  shows "ok (snd (machine_get ops k s)) \<and> held (snd (machine_get ops k s)) \<subseteq> held s"
  using load_ok [OF assms, of k] load_frame [OF assms, of k]
  by (auto simp: machine_get_def split: prod.splits sum.splits option.splits)

lemma release_and_raise_ok: "ok s \<Longrightarrow> ok (snd (release_and_raise ops a n tok err s))"
  using release_ok [of s a n tok]
  by (auto simp: release_and_raise_def split: prod.splits sum.splits)

lemma release_and_raise_held:
  "r \<in> held (snd (release_and_raise ops a n tok err s)) \<Longrightarrow> ok s \<Longrightarrow> r \<in> held s"
  using release_frame [of s a n tok]
  by (auto simp: release_and_raise_def split: prod.splits sum.splits)

lemma release_and_raise_fails: "fst (release_and_raise ops a n tok err s) \<noteq> Inr x"
  by (auto simp: release_and_raise_def split: prod.splits sum.splits)

lemma create_body_state:
  assumes "ok s"
  shows "ok (snd (create_body ops r s)) \<and> held (snd (create_body ops r s)) \<subseteq> insert r (held s)"
proof -
  obtain x s1 where l: "op_load ops (ar_auction_id r) s = (x, s1)" by fastforce
  have s1: "ok s1" "held s1 \<subseteq> held s"
    using load_ok [OF assms, of "ar_auction_id r"] load_frame [OF assms, of "ar_auction_id r"] l by auto
  have "ok (snd (op_save ops r s1))" and "held (snd (op_save ops r s1)) \<subseteq> insert r (held s)"
    using save_ok [OF s1(1), of r] save_frame [OF s1(1), of r] s1(2) by auto
  with s1 show ?thesis
    by (auto simp: create_body_def l split: prod.splits sum.splits option.splits)
qed

lemma create_state:
  assumes "ok s"
  shows "ok (snd (machine_create ops a i c ro d s)) \<and>
    held (snd (machine_create ops a i c ro d s)) \<subseteq> insert (new_auction a i c ro d) (held s)"
proof -
  let ?r = "new_auction a i c ro d"
  obtain x s1 where l: "op_reserve ops a creation_reservation a s = (x, s1)" by fastforce
  have s1: "ok s1" "held s1 \<subseteq> held s"
    using reserve_ok [OF assms, of a creation_reservation a]
      reserve_frame [OF assms, of a creation_reservation a] l by auto
  obtain y s2 where b: "create_body ops ?r s1 = (y, s2)" by fastforce
  have s2: "ok s2" "held s2 \<subseteq> insert ?r (held s)"
    using create_body_state [OF s1(1), of ?r] s1(2) b by auto
  from s1 s2 show ?thesis
    by (auto simp: machine_create_def l b release_and_raise_ok [OF s2(1)]
        split: prod.splits sum.splits option.splits dest!: release_and_raise_held [OF _ s2(1)])
qed

lemma move_body_state:
  assumes "ok s"
  shows "ok (snd (move_body ops a src target now ref s)) \<and>
    (\<forall>r \<in> held (snd (move_body ops a src target now ref s)).
       r \<in> held s \<or> (\<exists>q \<in> held s. ar_state q = src \<and> r = moved target now ref q))"
proof (cases "machine_get ops a s")
  case (Pair x s1)
  have s1: "ok s1" "held s1 \<subseteq> held s"
    using get_state [OF assms, of a] Pair by auto
  show ?thesis
  proof (cases x)
    case (Inl e)
    with Pair s1 show ?thesis by (auto simp: move_body_def)
  next
    case (Inr q)
    have q: "q \<in> held s" using get_found [OF assms] Pair Inr by auto
    have "ok (snd (op_save ops (moved target now ref q) s1))"
      and "held (snd (op_save ops (moved target now ref q) s1)) \<subseteq> insert (moved target now ref q) (held s)"
      using save_ok [OF s1(1), of "moved target now ref q"]
        save_frame [OF s1(1), of "moved target now ref q"] s1(2) by auto
    with Pair Inr s1 q show ?thesis
      by (auto simp: move_body_def split: prod.splits sum.splits)
  qed
qed

lemma move_body_result:
  assumes "ok s" and "move_body ops a src target now ref s = (Inr r, s')"
  obtains q where "q \<in> held s" and "ar_auction_id q = a" and "ar_state q = src"
    and "r = moved target now ref q"
  using assms get_found [OF assms(1), of a]
  by (auto simp: move_body_def split: prod.splits sum.splits if_splits)

lemma transition_state:
  assumes "ok s"
  shows "ok (snd (store_transition ops a target now ref s)) \<and>
    (\<forall>r \<in> held (snd (store_transition ops a target now ref s)).
       r \<in> held s \<or> (\<exists>q \<in> held s. target \<in> set (transitions (ar_state q)) \<and> r = moved target now ref q))"
proof (cases "machine_get ops a s")
  case (Pair x s1)
  have s1: "ok s1" "held s1 \<subseteq> held s"
    using get_state [OF assms, of a] Pair by auto
  show ?thesis
  proof (cases x)
    case (Inl e)
    with Pair s1 show ?thesis by (auto simp: store_transition_def)
  next
    case (Inr r)
    let ?n = "exit_reservation (ar_state r)"
    obtain y s2 where res: "op_reserve ops a ?n (state_name target) s1 = (y, s2)" by fastforce
    have s2: "ok s2" "held s2 \<subseteq> held s"
      using reserve_ok [OF s1(1), of a ?n "state_name target"]
        reserve_frame [OF s1(1), of a ?n "state_name target"] s1(2) res by auto
    obtain z s3 where mv: "move_body ops a (ar_state r) target now ref s2 = (z, s3)" by fastforce
    have s3: "ok s3" "\<forall>r' \<in> held s3. r' \<in> held s \<or>
        (\<exists>q \<in> held s. ar_state q = ar_state r \<and> r' = moved target now ref q)"
      using move_body_state [OF s2(1), of a "ar_state r" target now ref] s2(2) mv by auto
    show ?thesis
    proof (cases "target \<in> set (transitions (ar_state r))")
      case False
      with Pair Inr s1 show ?thesis by (auto simp: store_transition_def)
    next
      case True
      then have "\<forall>r' \<in> held s3. r' \<in> held s \<or>
          (\<exists>q \<in> held s. target \<in> set (transitions (ar_state q)) \<and> r' = moved target now ref q)"
        using s3(2) by metis
      with Pair Inr True res mv s1 s2 s3(1) show ?thesis
        by (cases y; cases z) (auto simp: store_transition_def Let_def release_and_raise_ok
            split: option.splits dest!: release_and_raise_held)
    qed
  qed
qed

lemma release_and_raise_not_Inr: "release_and_raise ops a n tok err s \<noteq> (Inr x, t)"
  using release_and_raise_fails [of a n tok err s x] by auto

lemma transition_result:
  assumes "ok s" and "store_transition ops a target now ref s = (Inr r, s')"
  shows "\<exists>q \<in> held s. ar_auction_id q = a \<and> target \<in> set (transitions (ar_state q)) \<and>
    r = moved target now ref q"
proof -
  obtain q s1 s2 where get: "machine_get ops a s = (Inr q, s1)"
    and legal: "target \<in> set (transitions (ar_state q))"
    and res: "op_reserve ops a (exit_reservation (ar_state q)) (state_name target) s1 = (Inr None, s2)"
    and mv: "move_body ops a (ar_state q) target now ref s2 = (Inr r, s')"
    using assms(2)
    by (auto simp: store_transition_def Let_def release_and_raise_not_Inr
        split: prod.splits sum.splits option.splits if_splits)
  have s1: "ok s1" "held s1 \<subseteq> held s"
    using get_state [OF assms(1), of a] get by auto
  have s2: "ok s2" "held s2 \<subseteq> held s"
    using reserve_ok [OF s1(1), of a "exit_reservation (ar_state q)" "state_name target"]
      reserve_frame [OF s1(1), of a "exit_reservation (ar_state q)" "state_name target"] res s1(2)
    by auto
  from move_body_result [OF s2(1) mv] s2(2) legal show ?thesis
    by (metis subsetD)
qed

definition all_lawful :: "'st \<Rightarrow> bool" where
  "all_lawful s \<longleftrightarrow> ok s \<and> (\<forall>r \<in> held s. lawful r)"

lemma create_lawful: "all_lawful s \<Longrightarrow> all_lawful (snd (machine_create ops a i c ro d s))"
  unfolding all_lawful_def using create_state [of s a i c ro d] lawful_new by blast

lemma transition_lawful:
  "all_lawful s \<Longrightarrow> all_lawful (snd (store_transition ops a target now ref s))"
  unfolding all_lawful_def using transition_state [of s a target now ref] lawful_moved by blast

end

end
