(* ===== verification/AcceptRoute.thy ===== *)
theory AcceptRoute
  imports CheckoutLaws AuctionMachineLaws
begin

text \<open>
  \<open>POST /auctions/{id}/accept\<close> (\<open>apps/exchange/src/accept/routes.py\<close>): the bid book, the handler over the
  auction machine, the claims in the machine's own store, the gate, and the ledger. The readings of
  \<open>time.time\<close> are arguments. The fold of the outcome into the bandit's posteriors, which cannot fail an
  accept, is not modelled.
\<close>

section \<open>The bid book\<close>

record bid_book =
  bb_capacity :: nat
  bb_max_records :: nat
  bb_ttl :: rat
  bb_bids :: "(string, rat \<times> payload list) dict"

definition new_bid_book :: "int \<Rightarrow> int \<Rightarrow> rat \<Rightarrow> bid_book" where
  "new_bid_book capacity max_records ttl =
     \<lparr>bb_capacity = nat (max 1 capacity), bb_max_records = nat (max 1 max_records), bb_ttl = ttl, bb_bids = []\<rparr>"

definition record_count :: "(string, rat \<times> payload list) dict \<Rightarrow> nat" where
  "record_count d = sum_list (map (\<lambda>entry. length (snd (snd entry))) d)"

text \<open>\<open>while len(d) > 1 and self._record_count() > max: popitem(last=False)\<close>\<close>

fun shed_records :: "nat \<Rightarrow> (string, rat \<times> payload list) dict \<Rightarrow> (string, rat \<times> payload list) dict" where
  "shed_records cap [] = []"
| "shed_records cap [e] = [e]"
| "shed_records cap (e # f # d) =
     (if record_count (e # f # d) > cap then shed_records cap (f # d) else e # f # d)"

definition book_record :: "string \<Rightarrow> payload list \<Rightarrow> rat \<Rightarrow> bid_book \<Rightarrow> bid_book" where
  "book_record key bids moment b =
     (let kept = filter (\<lambda>entry. \<not> bb_ttl b \<le> moment - fst (snd entry)) (dpop key (bb_bids b))
      in b\<lparr>bb_bids := shed_records (bb_max_records b)
             (trim_front (bb_capacity b) (dset key (moment, bids) kept))\<rparr>)"

definition book_bids_for :: "string \<Rightarrow> rat \<Rightarrow> bid_book \<Rightarrow> payload list \<times> bid_book" where
  "book_bids_for key moment b =
     (case dget (bb_bids b) key of
        None \<Rightarrow> ([], b)
      | Some (written, bids) \<Rightarrow>
          if bb_ttl b \<le> moment - written then ([], b\<lparr>bb_bids := dpop key (bb_bids b)\<rparr>)
          else (bids, b))"

lemma shed_records_bounds:
  "length (shed_records cap d) \<le> length d \<and>
   (length (shed_records cap d) \<le> 1 \<or> record_count (shed_records cap d) \<le> cap)"
  by (induction cap d rule: shed_records.induct) auto

lemma book_record_bounds:
  "length (bb_bids (book_record key bids moment b)) \<le> bb_capacity b \<and>
   (length (bb_bids (book_record key bids moment b)) \<le> 1 \<or>
    record_count (bb_bids (book_record key bids moment b)) \<le> bb_max_records b)"
proof -
  let ?d = "trim_front (bb_capacity b) (dset key (moment, bids)
      (filter (\<lambda>entry. \<not> bb_ttl b \<le> moment - fst (snd entry)) (dpop key (bb_bids b))))"
  have "length ?d \<le> bb_capacity b" by (rule length_trim_front)
  with shed_records_bounds [of "bb_max_records b" ?d] show ?thesis
    by (auto simp: book_record_def Let_def)
qed

section \<open>The handler\<close>

datatype accept_answer =
    Served string "string option" "string option"
  | Refused409 string
  | NotFound404
  | Misconfigured503
  | ServerError500

text \<open>\<open>_denied\<close>: the published code of a reason.\<close>

definition denied :: "string \<Rightarrow> accept_answer" where
  "denied reason = Refused409 (if reason \<in> set denial_reasons then reason else denial_unspecified)"

definition accepted_event :: "accept_result \<Rightarrow> ledger_event option" where
  "accepted_event r = find (\<lambda>ev. le_kind ev = ''accepted'') (ac_events r)"

definition accepted_store :: "accept_result \<Rightarrow> string option" where
  "accepted_store r = (case accepted_event r of Some ev \<Rightarrow> le_store_id ev | None \<Rightarrow> None)"

definition offer_of_event :: "ledger_event \<Rightarrow> payload option" where
  "offer_of_event ev = (case dget (le_payload ev) ''offer'' of Some (JObj offer) \<Rightarrow> Some offer | _ \<Rightarrow> None)"

fun first_offer :: "ledger_event list \<Rightarrow> payload option" where
  "first_offer [] = None"
| "first_offer (ev # evs) =
     (if le_kind ev = ''accepted'' \<and> offer_of_event ev \<noteq> None then offer_of_event ev else first_offer evs)"

definition bridge_kinds :: "string list" where
  "bridge_kinds = [''code_created'', ''checkout_redirect'']"

text \<open>\<open>_record_checkout_bridge\<close>: the port's own events, their ids and stamps kept.\<close>

definition bridge_one :: "'k emitter \<Rightarrow> ledger_event \<Rightarrow> 'k recorder \<Rightarrow> 'k recorder" where
  "bridge_one emit ev l =
     (if le_kind ev \<in> set bridge_kinds
      then snd (recorder_record emit (le_event_id ev, le_ts ev) (le_kind ev) (le_auction_id ev)
        (le_store_id ev) (le_order_ref ev) (le_payload ev) l)
      else l)"

definition record_checkout_bridge :: "'k emitter \<Rightarrow> ledger_event list \<Rightarrow> 'k recorder \<Rightarrow> 'k recorder" where
  "record_checkout_bridge emit evs l = fold (bridge_one emit) evs l"

text \<open>The auction object the handler builds of a record and its bids.\<close>

definition auction_of :: "auction_record \<Rightarrow> payload list \<Rightarrow> rat \<Rightarrow> auction_view" where
  "auction_of r bids now =
     \<lparr>av_auction_id = ar_auction_id r, av_bids = bids, av_slots = [], av_accepted = ar_accepted_bid_ref r,
      av_now = now, av_recordable = True\<rparr>"

record ('st, 'k, 'm) exchange =
  ex_machine :: "('st, 'k) machine"
  ex_shop :: "'m shop"

text \<open>What follows an accepted result: the stamp through the machine, then the bridge.\<close>

definition stamp_acceptance ::
  "'st auction_store_ops \<Rightarrow> 'k emitter \<Rightarrow> string \<Rightarrow> rat \<Rightarrow> accept_result \<Rightarrow> ('st, 'k, 'm) exchange \<Rightarrow>
   accept_answer \<times> ('st, 'k, 'm) exchange" where
  "stamp_acceptance ops emit auction_id now r x =
     (let w = ex_shop x; stamp = sh_stamps w (sh_stamped w);
          (res, m) = machine_accept ops emit stamp auction_id (ac_bid_ref r) (Some now) (ac_token r)
            (first_offer (ac_events r)) (accepted_store r) (ex_machine x) in
      case res of
        Inl err \<Rightarrow>
          (if is_illegal_transition err then denied denial_not_acceptable else ServerError500,
           x\<lparr>ex_machine := m\<rparr>)
      | Inr _ \<Rightarrow>
          (Served (case ac_permalink_url r of Some url \<Rightarrow> url | None \<Rightarrow> ''None'') (ac_code r) (ac_notice r),
           x\<lparr>ex_machine := m\<lparr>mc_ledger := record_checkout_bridge emit (ac_events r) (mc_ledger m)\<rparr>,
             ex_shop := w\<lparr>sh_stamped := Suc (sh_stamped w)\<rparr>\<rparr>))"

text \<open>The answer to what \<open>accept_offer\<close> returned, or raised.\<close>

definition answer_accept ::
  "'st auction_store_ops \<Rightarrow> 'k emitter \<Rightarrow> string \<Rightarrow> rat \<Rightarrow> string + accept_result \<Rightarrow>
   ('st, 'k, 'm) exchange \<Rightarrow> accept_answer \<times> ('st, 'k, 'm) exchange" where
  "answer_accept ops emit auction_id now res x =
     (case res of
        Inl _ \<Rightarrow> (Misconfigured503, x)
      | Inr r \<Rightarrow>
          if \<not> ac_accepted r
          then (denied (case ac_denial r of Some reason \<Rightarrow> reason | None \<Rightarrow> []), x)
          else stamp_acceptance ops emit auction_id now r x)"

definition accept_bid ::
  "checkout_lib \<Rightarrow> 'st auction_store_ops \<Rightarrow> 'k emitter \<Rightarrow> registered_domains \<Rightarrow> string eligibility_source \<Rightarrow>
   'm code_creator option \<Rightarrow> string \<Rightarrow> payload list \<Rightarrow> string \<Rightarrow> string \<Rightarrow> rat \<Rightarrow> ('st, 'k, 'm) exchange \<Rightarrow>
   accept_answer \<times> ('st, 'k, 'm) exchange" where
  "accept_bid lib ops emit sellers eligibility creator mode bids auction_id ref now x =
     (let (loaded, s) = machine_get ops auction_id (mc_store (ex_machine x));
          x1 = x\<lparr>ex_machine := (ex_machine x)\<lparr>mc_store := s\<rparr>\<rparr> in
      case loaded of
        Inl (UnknownAuction _) \<Rightarrow> (NotFound404, x1)
      | Inl _ \<Rightarrow> (ServerError500, x1)
      | Inr r \<Rightarrow>
          if Accepted \<notin> set (transitions (ar_state r)) then (denied denial_not_acceptable, x1)
          else
            let (res, d) = accept_offer lib (Some (store_claims ops)) (Some sellers) eligibility creator mode ref
                   \<lparr>dk_auction = auction_of r bids now, dk_claims = s, dk_shop = ex_shop x1\<rparr>
            in answer_accept ops emit auction_id now res
                 (x1\<lparr>ex_machine := (ex_machine x1)\<lparr>mc_store := dk_claims d\<rparr>, ex_shop := dk_shop d\<rparr>))"

end
