(* ===== verification/AcceptLaws.thy ===== *)
theory AcceptLaws
  imports AcceptRoute
begin

text \<open>
  What an accept does on each of its ways: what an accepted result is, what a refusal leaves alone, the
  order in which slots are offered again, and what the handler writes to the ledger.
\<close>

section \<open>Accepted results\<close>

lemma refused_result [simp]:
  "fst (refused lib ref mode reason store reoffer orphan d) = Inr r \<Longrightarrow>
     \<not> ac_accepted r \<and> ac_denial r = Some reason \<and> ac_reoffer r = reoffer \<and> ac_orphan r = orphan \<and>
     ac_code r = None"
  by (auto simp: refused_def Let_def split_def)

lemma refused_Inr: "\<exists>r. fst (refused lib ref mode reason store reoffer orphan d) = Inr r"
  by (simp add: refused_def Let_def split_def)

definition request_for ::
  "checkout_lib \<Rightarrow> registered_domains option \<Rightarrow> 'm code_creator option \<Rightarrow> string \<Rightarrow> string \<Rightarrow>
   ('c, 'm) desk \<Rightarrow> payload \<Rightarrow> 'm checkout_request" where
  "request_for lib sellers creator mode ref d bid = request_of lib (dk_auction d) bid ref mode creator sellers"

text \<open>The two kinds of accepted result: a code that was minted, or a buyer handed off without one.\<close>

definition is_sale ::
  "checkout_lib \<Rightarrow> 'c claim_ops option \<Rightarrow> 'm checkout_request \<Rightarrow> 'm shop \<Rightarrow> accept_result \<Rightarrow> bool" where
  "is_sale lib table req w r \<longleftrightarrow>
     (\<exists>p c w'. checkout lib p req w = (Inr c, w') \<and> r = checked_out req (table \<noteq> None) c)"

definition is_handoff ::
  "checkout_lib \<Rightarrow> 'c claim_ops option \<Rightarrow> 'm checkout_request \<Rightarrow> 'm shop \<Rightarrow> accept_result \<Rightarrow> bool" where
  "is_handoff lib table req w r \<longleftrightarrow>
     (\<exists>destination. fallback_destination lib req = Inr destination \<and>
        r = handed_off req destination (table \<noteq> None) (fst (handoff_events (cq_auction_id req) (cq_bid_ref req)
          (cq_store_id req) (cq_offer req) destination w)))"

lemma take_claim_held: "take_claim table a ref c = (Inr h, c') \<Longrightarrow> h = (table \<noteq> None)"
  by (auto simp: take_claim_def split: option.splits if_splits prod.splits sum.splits)

lemma accept_minting_accepted:
  assumes "fst (accept_minting lib table p req d) = Inr r" and "ac_accepted r"
  shows "is_sale lib table req (dk_shop d) r"
proof -
  obtain claim c where t: "take_claim table (cq_auction_id req) (cq_bid_ref req) (dk_claims d) = (claim, c)"
    by fastforce
  obtain res w where co: "checkout lib p req (dk_shop d) = (res, w)" by fastforce
  show ?thesis
  proof (cases claim)
    case (Inl reason)
    with assms t show ?thesis by (auto simp: accept_minting_def Let_def)
  next
    case (Inr h)
    with t have "h = (table \<noteq> None)" using take_claim_held by metis
    with assms t co Inr show ?thesis
      by (cases res) (auto simp: accept_minting_def Let_def is_sale_def split: failure.splits)
  qed
qed

lemma accept_fallback_accepted:
  assumes "fst (accept_fallback lib table req d) = Inr r" and "ac_accepted r"
  shows "is_handoff lib table req (dk_shop d) r"
proof -
  obtain claim c where t: "take_claim table (cq_auction_id req) (cq_bid_ref req) (dk_claims d) = (claim, c)"
    by fastforce
  show ?thesis
  proof (cases "fallback_destination lib req")
    case (Inl e)
    with assms show ?thesis by (auto simp: accept_fallback_def Let_def)
  next
    case (Inr destination)
    show ?thesis
    proof (cases claim)
      case (Inl reason)
      with assms t \<open>fallback_destination lib req = Inr destination\<close> show ?thesis
        by (auto simp: accept_fallback_def Let_def split_def)
    next
      case (Inr h)
      with t have "h = (table \<noteq> None)" using take_claim_held by metis
      with assms t Inr \<open>fallback_destination lib req = Inr destination\<close> show ?thesis
        by (auto simp: accept_fallback_def Let_def split_def is_handoff_def)
    qed
  qed
qed

lemma accept_accepted:
  assumes "fst (accept lib table sellers creator mode ref d) = Inr r" and "ac_accepted r"
  obtains bid where "find_bid lib ref (av_bids (dk_auction d)) = Some bid"
    and "if bid_is_fallback bid
      then is_handoff lib table (request_for lib sellers creator mode ref d bid) (dk_shop d) r
      else is_sale lib table (request_for lib sellers creator mode ref d bid) (dk_shop d) r"
proof (cases rule: accept_cases [of lib table sellers creator mode ref d])
  case (fallback bid p)
  then show ?thesis
    using assms accept_fallback_accepted [of lib table "request_for lib sellers creator mode ref d bid" d r]
    by (intro that [of bid]) (simp_all add: request_for_def)
next
  case (minting bid p)
  then show ?thesis
    using assms accept_minting_accepted [of lib table p "request_for lib sellers creator mode ref d bid" d r]
    by (intro that [of bid]) (simp_all add: request_for_def)
qed (use assms in auto)

text \<open>The gate in front: only an eligible store gets through it.\<close>

definition gate_passes :: "checkout_lib \<Rightarrow> string eligibility_source \<Rightarrow> payload \<Rightarrow> bool" where
  "gate_passes lib eligibility bid \<longleftrightarrow> speaks_supported_interface eligibility \<and>
     es_check eligibility (field_text lib bid ''store_id'') = Answered (Some eligible_status)"

lemma accept_offer_cases:
  obtains (through) "accept_offer lib table sellers eligibility creator mode ref d =
        accept lib table sellers creator mode ref d"
      and "\<And>bid. find_bid lib ref (av_bids (dk_auction d)) = Some bid \<Longrightarrow> gate_passes lib eligibility bid"
  | (stopped) bid reason store where "find_bid lib ref (av_bids (dk_auction d)) = Some bid"
      and "\<not> gate_passes lib eligibility bid"
      and "accept_offer lib table sellers eligibility creator mode ref d =
        refused lib ref mode reason store (next_slot lib (dk_auction d) ref []) None d"
      and "reason \<in> {blacklisted_status, unavailable_status}"
proof (cases "find_bid lib ref (av_bids (dk_auction d))")
  case None
  then show ?thesis by (intro through) (simp_all add: accept_offer_def)
next
  case (Some bid)
  let ?s = "field_text lib bid ''store_id''"
  show ?thesis
  proof (cases "gate_passes lib eligibility bid")
    case True
    with Some show ?thesis
      by (intro through) (simp_all add: accept_offer_def gate_passes_def read_eligibility_eligible Let_def)
  next
    case False
    have "eligibility_denial (read_eligibility eligibility ?s) \<in> {blacklisted_status, unavailable_status}"
      if "ed_status (read_eligibility eligibility ?s) \<noteq> eligible_status"
      using that read_eligibility_closed [of eligibility ?s]
      by (auto simp: eligibility_denial_def eligibility_statuses_def)
    with False Some show ?thesis
      by (cases "speaks_supported_interface eligibility")
        (auto simp: accept_offer_def gate_passes_def read_eligibility_eligible Let_def intro: stopped)
  qed
qed

section \<open>What a refusal leaves alone\<close>

lemma published_or_recorded_frame [simp]:
  "sh_merchant (snd (published_or_recorded site kind a st body ctx w)) = sh_merchant w"
  "sh_chosen (snd (published_or_recorded site kind a st body ctx w)) = sh_chosen w"
  by (simp_all add: published_or_recorded_def Let_def split: sum.split)

lemma refusal_event_frame [simp]:
  "sh_merchant (snd (refusal_event lib a ref st reason orphan w)) = sh_merchant w"
  "sh_chosen (snd (refusal_event lib a ref st reason orphan w)) = sh_chosen w"
  by (simp_all add: refusal_event_def orphan_record_def Let_def split_def split: option.split)

lemma refused_frame [simp]:
  "sh_merchant (dk_shop (snd (refused lib ref mode reason store reoffer orphan d))) = sh_merchant (dk_shop d)"
  "sh_chosen (dk_shop (snd (refused lib ref mode reason store reoffer orphan d))) = sh_chosen (dk_shop d)"
  "dk_auction (snd (refused lib ref mode reason store reoffer orphan d)) = dk_auction d"
  by (simp_all add: refused_def Let_def split_def)

section \<open>The order in which slots are offered again\<close>

lemma after_first_nth:
  "distinct xs \<Longrightarrow> i < length xs \<Longrightarrow> after_first (xs ! i) xs = drop (Suc i) xs"
proof (induction xs arbitrary: i)
  case (Cons y ys)
  then show ?case by (cases i) auto
qed simp

lemma next_slot_nth:
  assumes "distinct (slot_order lib a)" and "i < length (slot_order lib a)"
  shows "next_slot lib a (slot_order lib a ! i) [] =
    (if Suc i < length (slot_order lib a) then Some (slot_order lib a ! Suc i) else None)"
proof -
  let ?o = "slot_order lib a"
  show ?thesis
  proof (cases "Suc i < length ?o")
    case True
    then have "drop (Suc i) ?o = ?o ! Suc i # drop (Suc (Suc i)) ?o"
      by (rule Cons_nth_drop_Suc [symmetric])
    moreover have "?o ! Suc i \<noteq> ?o ! i"
      using assms True by (simp add: nth_eq_iff_index_eq)
    ultimately show ?thesis
      using assms True by (simp add: next_slot_def Let_def after_first_nth)
  next
    case False
    then show ?thesis using assms by (simp add: next_slot_def Let_def after_first_nth)
  qed
qed

section \<open>The claim follows the code\<close>

lemma store_claim_free:
  assumes "store_claims_ok s" and "reservation_room s" and "store_held s a = None"
  obtains s' where "cl_claim (store_claims mem_ops) a b s = (Inr \<lparr>co_won = True, co_holder = Some b\<rparr>, s')"
    and "store_held s' a = Some b" and "store_claims_ok s'"
  using assms(1)
proof (cases rule: mem_reserve_cases [of s a acceptance_reservation_name b])
  case (taken w h)
  with assms(3) show ?thesis by (simp add: store_held_def)
next
  case free
  let ?s = "place_reservation (a, acceptance_reservation_name) b s"
  show ?thesis
  proof (rule that)
    show "cl_claim (store_claims mem_ops) a b s = (Inr \<lparr>co_won = True, co_holder = Some b\<rparr>, ?s)"
      using free by (simp add: store_claims_def store_claim_def)
    show "store_held ?s a = Some b"
      using assms(2) by (simp add: store_held_def place_reservation_held)
    show "store_claims_ok ?s" using assms(1) by (rule place_reservation_ok)
  qed
qed

lemma sold_checkout:
  "codes_of (checked_out req h c) = [cr_code c]"
  by (simp add: codes_of_def checked_out_def)

lemma codes_of_refused:
  "fst (refused lib ref mode reason store reoffer orphan d) = Inr r \<Longrightarrow>
     codes_of r = (case orphan of Some o' \<Rightarrow> [or_code o'] | None \<Rightarrow> [])"
  by (auto simp: codes_of_def refused_def Let_def split_def)

text \<open>A refusal that carries an orphaned code names it in a \<open>code_created\<close> event of its own.\<close>

lemma orphan_event:
  "\<exists>ev \<in> set (fst (refusal_event lib a ref st reason (Some orphan) w)). le_kind ev = ''code_created'' \<and>
     dget (le_payload ev) ''code'' = Some (JStr (or_code orphan)) \<and>
     dget (le_payload ev) ''revocation_required'' = Some (JBool True)"
  by (simp add: refusal_event_def orphan_record_def Let_def split_def accept_published accept_shapes)

lemma orphan_recorded:
  "\<exists>r. fst (refused lib ref mode reason store reoffer (Some orphan) d) = Inr r \<and> codes_of r = [or_code orphan] \<and>
     (\<exists>ev. ev \<in> set (ac_events r) \<and> le_kind ev = ''code_created'' \<and>
       dget (le_payload ev) ''code'' = Some (JStr (or_code orphan)) \<and>
       dget (le_payload ev) ''revocation_required'' = Some (JBool True))"
  using orphan_event [of lib "dk_auction d" ref store reason orphan "dk_shop d"]
  by (auto simp: refused_def Let_def split_def codes_of_def)

lemma minting_claim:
  assumes "store_claims_ok (dk_claims d)" and "reservation_room (dk_claims d)"
    and "store_held (dk_claims d) (cq_auction_id req) = None" and "cq_auction_id req \<noteq> []"
  obtains r d' where "accept_minting lib (Some (store_claims mem_ops)) p req d = (Inr r, d')"
    and "codes_of r = checkout_codes (fst (checkout lib p req (dk_shop d)))"
    and "store_held (dk_claims d') (cq_auction_id req) = (if codes_of r = [] then None else Some (cq_bid_ref req))"
    and "sh_merchant (dk_shop d') = sh_merchant (snd (checkout lib p req (dk_shop d)))"
proof -
  let ?a = "cq_auction_id req" and ?ops = "store_claims mem_ops"
  obtain s where s: "cl_claim ?ops ?a (cq_bid_ref req) (dk_claims d) =
      (Inr \<lparr>co_won = True, co_holder = Some (cq_bid_ref req)\<rparr>, s)"
    "store_held s ?a = Some (cq_bid_ref req)" "store_claims_ok s"
    by (rule store_claim_free [OF assms(1-3)])
  then have t: "take_claim (Some ?ops) ?a (cq_bid_ref req) (dk_claims d) = (Inr True, s)"
    using assms(4) by (simp add: take_claim_def)
  have released: "store_held (snd (cl_release ?ops ?a (cq_bid_ref req) s)) ?a = None"
    using store.release_own [OF s(3,2), of "()"] by (simp add: store_claims_def)
  obtain res w where co: "checkout lib p req (dk_shop d) = (res, w)" by fastforce
  let ?out = "accept_minting lib (Some ?ops) p req d"
  have "\<exists>r. fst ?out = Inr r \<and> codes_of r = checkout_codes res \<and>
      store_held (dk_claims (snd ?out)) ?a = (if codes_of r = [] then None else Some (cq_bid_ref req)) \<and>
      sh_merchant (dk_shop (snd ?out)) = sh_merchant w"
  proof (cases res)
    case (Inr c)
    with t co s show ?thesis
      by (simp add: accept_minting_def Let_def checkout_codes_def sold_checkout record_acceptance_def)
  next
    case (Inl e)
    obtain reason reoffer orphan d2 where out: "?out = refused lib (cq_bid_ref req) (cq_mode req) reason
        (Some (cq_store_id req)) reoffer orphan d2"
      and "(case orphan of Some o' \<Rightarrow> [or_code o'] | None \<Rightarrow> []) = checkout_codes res"
      and "store_held (dk_claims d2) ?a =
        (if checkout_codes res = [] then None else Some (cq_bid_ref req))"
      and "sh_merchant (dk_shop d2) = sh_merchant w"
      using t co Inl s(2) released
      by (cases e) (auto simp: accept_minting_def Let_def checkout_codes_def give_claim_back_def)
    moreover obtain r where "fst ?out = Inr r" using refused_Inr unfolding out by blast
    ultimately show ?thesis using codes_of_refused [of lib] by (metis refused_claims refused_frame(1))
  qed
  with that show ?thesis by (metis co fst_conv prod.collapse snd_conv)
qed

text \<open>With a free claim and an open offer on the seller's domain, the simulated provider sells.\<close>

lemma simulated_accept:
  assumes "find_bid lib ref (av_bids (dk_auction d)) = Some bid" and "\<not> bid_is_fallback bid"
    and "av_accepted (dk_auction d) = None" and "av_recordable (dk_auction d)"
    and "resolve_provider mode = Some SimulatedRedirect"
    and pre: "checkout_preconditions lib (request_of lib (dk_auction d) bid ref mode creator sellers) = Inr domain"
    and "host_like domain" and "decodes_plainly lib"
    and "store_claims_ok (dk_claims d)" and "reservation_room (dk_claims d)"
    and "store_held (dk_claims d) (av_auction_id (dk_auction d)) = None" and "av_auction_id (dk_auction d) \<noteq> []"
  obtains r d' where "accept lib (Some (store_claims mem_ops)) sellers creator mode ref d = (Inr r, d')"
    and "ac_accepted r" and "ac_code r = Some (fst (mint_code (dk_shop d)))"
    and "av_accepted (dk_auction d') = Some ref"
    and "store_held (dk_claims d') (av_auction_id (dk_auction d)) = Some ref"
proof -
  let ?req = "request_of lib (dk_auction d) bid ref mode creator sellers"
  obtain c w' where co: "checkout lib SimulatedRedirect ?req (dk_shop d) = (Inr c, w')"
    "cr_code c = fst (mint_code (dk_shop d))"
    by (rule simulated_checkout [OF pre assms(7,8)])
  obtain s where s: "cl_claim (store_claims mem_ops) (av_auction_id (dk_auction d)) ref (dk_claims d) =
      (Inr \<lparr>co_won = True, co_holder = Some ref\<rparr>, s)" "store_held s (av_auction_id (dk_auction d)) = Some ref"
    by (rule store_claim_free [OF assms(9-11)])
  let ?d = "d\<lparr>dk_claims := s, dk_shop := w'\<rparr>"
  have "accept_minting lib (Some (store_claims mem_ops)) SimulatedRedirect ?req d =
      (Inr (checked_out ?req True c), record_acceptance ref ?d)"
    using co(1) s(1) assms(12) by (simp add: accept_minting_def take_claim_def)
  then have "accept lib (Some (store_claims mem_ops)) sellers creator mode ref d =
      (Inr (checked_out ?req True c), record_acceptance ref ?d)"
    using assms(1-5) by (simp add: accept_def)
  then show ?thesis
    using co(2) s(2)
    by (intro that [of "checked_out ?req True c" "record_acceptance ref ?d"])
      (simp_all add: checked_out_def record_acceptance_def)
qed

section \<open>What the handler writes to the ledger\<close>

definition new_event ::
  "string \<times> string \<Rightarrow> string \<Rightarrow> string option \<Rightarrow> string option \<Rightarrow> string option \<Rightarrow> payload \<Rightarrow> ledger_event" where
  "new_event stamp kind a st ref body =
     \<lparr>le_event_id = fst stamp, le_ts = snd stamp, le_kind = kind, le_auction_id = a, le_store_id = st,
      le_order_ref = ref, le_payload = body\<rparr>"

text \<open>
  What one event does to the recorder, whatever the sink: the sink takes it, or it raised and the event
  is kept among the failures.
\<close>

definition hand_over :: "(ledger_event \<Rightarrow> 'k \<Rightarrow> (string + unit) \<times> 'k) \<Rightarrow> ledger_event \<Rightarrow> 'k recorder \<Rightarrow> 'k recorder" where
  "hand_over emit ev l =
     (case emit ev (rec_sink l) of
        (Inl why, k) \<Rightarrow> l\<lparr>rec_sink := k, rec_failures := rec_failures l @ [(ev, why)]\<rparr>
      | (Inr _, k) \<Rightarrow> l\<lparr>rec_sink := k\<rparr>)"

text \<open>The code's own sink takes every event; its ring keeps the newest.\<close>

lemma ring_hand_over:
  "fold (hand_over ring_sink_emit) evs l = l\<lparr>rec_sink := fold ring_emit evs (rec_sink l)\<rparr>"
  by (induction evs arbitrary: l) (simp_all add: hand_over_def ring_sink_emit_def)

lemma ring_holds_the_newest:
  assumes "ring_inv (rec_sink l)" and "rs_ring (rec_sink l) = drop (rs_evicted (rec_sink l)) all"
    and "rs_evicted (rec_sink l) \<le> length all"
  shows "rs_ring (rec_sink (fold (hand_over ring_sink_emit) evs l)) =
      drop (rs_evicted (rec_sink (fold (hand_over ring_sink_emit) evs l))) (all @ evs)"
  using ring_run_window [OF assms] by (simp add: ring_hand_over)

lemma new_event_simps [simp]:
  "le_kind (new_event stamp kind a st ref body) = kind"
  "le_auction_id (new_event stamp kind a st ref body) = a"
  "le_store_id (new_event stamp kind a st ref body) = st"
  by (simp_all add: new_event_def)

lemma new_event_same:
  "new_event (le_event_id ev, le_ts ev) (le_kind ev) (le_auction_id ev) (le_store_id ev) (le_order_ref ev)
     (le_payload ev) = ev"
  by (simp add: new_event_def)

lemma record_hands_over:
  assumes "kind \<in> set ledger_event_kinds"
  shows "recorder_record emit stamp kind a st ref body l =
    (Inr (new_event stamp kind a st ref body), hand_over emit (new_event stamp kind a st ref body) l)"
  using assms
  by (simp add: recorder_record_def build_event_def new_event_def hand_over_def split: prod.split sum.split)

lemma bridge_kinds_known: "kind \<in> set bridge_kinds \<Longrightarrow> kind \<in> set ledger_event_kinds"
  by (auto simp: bridge_kinds_def ledger_event_kinds_def)

lemma bridge_one_hands_over:
  "bridge_one emit ev l = (if le_kind ev \<in> set bridge_kinds then hand_over emit ev l else l)"
  by (simp add: bridge_one_def record_hands_over bridge_kinds_known new_event_same)

lemma bridge_hands_over:
  "record_checkout_bridge emit evs l =
     fold (hand_over emit) (filter (\<lambda>ev. le_kind ev \<in> set bridge_kinds) evs) l"
  by (induction evs arbitrary: l) (simp_all add: record_checkout_bridge_def bridge_one_hands_over)

lemma machine_accept_hands_over:
  assumes "machine_accept ops emit stamp a ref now token offer st m = (res, m')"
  shows "case res of
      Inl _ \<Rightarrow> mc_ledger m' = mc_ledger m
    | Inr _ \<Rightarrow> (\<exists>ev. le_kind ev = ''accepted'' \<and> le_auction_id ev = Some a \<and> le_store_id ev = st \<and>
          mc_ledger m' = hand_over emit ev (mc_ledger m))"
proof -
  obtain moved s where st: "store_transition ops a Accepted now (Some ref) (mc_store m) = (moved, s)"
    by fastforce
  show ?thesis
  proof (cases moved)
    case (Inl err)
    with st assms show ?thesis by (auto simp: machine_accept_def machine_transition_def)
  next
    case (Inr r)
    have "''accepted'' \<in> set ledger_event_kinds" by (simp add: ledger_event_kinds_def)
    with st Inr assms show ?thesis
      by (auto simp: machine_accept_def machine_transition_def record_hands_over
          intro!: exI [of _ "new_event stamp ''accepted'' (Some a) st None _"])
  qed
qed

lemma handoff_kinds:
  "map le_kind (fst (handoff_events a ref st offer destination w)) = [''accepted'', ''checkout_redirect'']"
  by (simp add: handoff_events_def Let_def accept_published accept_shapes)

lemma sale_events:
  assumes "checkout lib p req w = (Inr c, w')"
  shows "\<exists>e1 e2 e3. cr_events c = [e1, e2, e3] \<and> le_kind e1 = ''accepted'' \<and> le_kind e2 = ''code_created'' \<and>
    le_kind e3 = ''checkout_redirect'' \<and> dget (le_payload e2) ''code'' = Some (JStr (cr_code c))"
proof -
  have "map (\<lambda>ev. (le_kind ev, le_payload ev)) (cr_events c) =
      checkout_bodies req \<lparr>mt_code = cr_code c, mt_permalink_url = cr_permalink_url c, mt_expires_at = None\<rparr>
        (cr_token c) (cr_domain_verified c) (cr_expires_at c)"
    using checkout_sound [OF assms] by (simp add: sound_checkout_def)
  then show ?thesis by (auto simp: checkout_bodies_def map_eq_Cons_conv)
qed

text \<open>The events of an accepted result: with a code the C11 three, for a fallback the first and the last.\<close>

definition accept_trail :: "accept_result \<Rightarrow> bool" where
  "accept_trail r \<longleftrightarrow>
     (case ac_code r of
        Some c \<Rightarrow> \<exists>e1 e2 e3. ac_events r = [e1, e2, e3] \<and> le_kind e1 = ''accepted'' \<and>
          le_kind e2 = ''code_created'' \<and> le_kind e3 = ''checkout_redirect'' \<and>
          dget (le_payload e2) ''code'' = Some (JStr c)
      | None \<Rightarrow> \<exists>e1 e2. ac_events r = [e1, e2] \<and> le_kind e1 = ''accepted'' \<and> le_kind e2 = ''checkout_redirect'')"

lemma accepted_trail:
  assumes "fst (accept lib table sellers creator mode ref d) = Inr r" and "ac_accepted r"
  shows "accept_trail r"
proof -
  obtain bid where way: "if bid_is_fallback bid
      then is_handoff lib table (request_for lib sellers creator mode ref d bid) (dk_shop d) r
      else is_sale lib table (request_for lib sellers creator mode ref d bid) (dk_shop d) r"
    by (rule accept_accepted [OF assms])
  show ?thesis
  proof (cases "bid_is_fallback bid")
    case True
    then have "ac_code r = None" "map le_kind (ac_events r) = [''accepted'', ''checkout_redirect'']"
      using way handoff_kinds by (auto simp: is_handoff_def handed_off_def)
    then show ?thesis by (auto simp: accept_trail_def map_eq_Cons_conv)
  next
    case False
    then obtain p c w' where co: "checkout lib p (request_for lib sellers creator mode ref d bid) (dk_shop d) = (Inr c, w')"
      and "ac_code r = Some (cr_code c)" "ac_events r = cr_events c"
      using way by (auto simp: is_sale_def checked_out_def)
    with sale_events [OF co] show ?thesis by (simp add: accept_trail_def)
  qed
qed

text \<open>A result with an orphan is a refusal that names the orphan in its events.\<close>

lemma minting_orphan:
  assumes "fst (accept_minting lib table p req d) = Inr r" and "ac_orphan r = Some orphan"
  shows "\<exists>reason store reoffer d'.
    accept_minting lib table p req d = refused lib (cq_bid_ref req) (cq_mode req) reason store reoffer (Some orphan) d'"
proof -
  obtain claim c where t: "take_claim table (cq_auction_id req) (cq_bid_ref req) (dk_claims d) = (claim, c)"
    by fastforce
  obtain out w where co: "checkout lib p req (dk_shop d) = (out, w)" by fastforce
  show ?thesis
  proof (cases claim)
    case (Inl reason)
    with assms t show ?thesis by (auto simp: accept_minting_def Let_def)
  next
    case (Inr held)
    show ?thesis
    proof (cases out)
      case (Inr c)
      with assms t co \<open>claim = Inr held\<close> show ?thesis
        by (auto simp: accept_minting_def Let_def checked_out_def)
    next
      case (Inl e)
      with assms t co \<open>claim = Inr held\<close> show ?thesis
        by (cases e) (auto simp: accept_minting_def Let_def)
    qed
  qed
qed

lemma fallback_no_orphan:
  "fst (accept_fallback lib table req d) = Inr r \<Longrightarrow> ac_orphan r = None"
  by (auto simp: accept_fallback_def Let_def split_def handed_off_def split: sum.splits)

lemma refused_is:
  "refused lib ref mode reason store reoffer orphan d = (Inr r, d') \<Longrightarrow> \<not> ac_accepted r \<and> ac_orphan r = orphan"
  using refused_result [of lib ref mode reason store reoffer orphan d r] by simp

lemma orphan_refused:
  assumes "accept_offer lib table sellers eligibility creator mode ref d = (Inr r, d')"
    and "ac_orphan r = Some orphan"
  shows "\<not> ac_accepted r \<and> (\<exists>ev. ev \<in> set (ac_events r) \<and> le_kind ev = ''code_created'' \<and>
    dget (le_payload ev) ''code'' = Some (JStr (or_code orphan)))"
proof -
  have "\<exists>reason store reoffer d2. (Inr r, d') = refused lib ref mode reason store reoffer (Some orphan) d2"
  proof (cases rule: accept_offer_cases [of lib table sellers eligibility creator mode ref d])
    case (stopped bid reason store)
    with assms show ?thesis by (auto dest: refused_is)
  next
    case through
    then have acc: "accept lib table sellers creator mode ref d = (Inr r, d')" using assms(1) by simp
    show ?thesis
    proof (cases rule: accept_cases [of lib table sellers creator mode ref d])
      case (refusal reason store reoffer)
      with acc assms(2) show ?thesis by (auto dest: refused_is)
    next
      case unknown_mode
      with acc show ?thesis by simp
    next
      case (fallback bid p)
      with acc assms(2) show ?thesis
        using fallback_no_orphan [of lib table "request_of lib (dk_auction d) bid ref mode creator sellers" d r] by simp
    next
      case (minting bid p)
      with acc assms(2) minting_orphan [of lib table p "request_of lib (dk_auction d) bid ref mode creator sellers" d r orphan]
      show ?thesis by simp
    qed
  qed
  then obtain reason store reoffer d2 where
    r: "(Inr r, d') = refused lib ref mode reason store reoffer (Some orphan) d2" by blast
  show ?thesis
    using orphan_recorded [of lib ref mode reason store reoffer orphan d2] refused_is [OF r [symmetric]]
    unfolding r [symmetric] by auto
qed

text \<open>The two ways through the handler: an answer that leaves the ledger alone, or an accepted result to stamp.\<close>

lemma accept_bid_cases:
  obtains (refused) answer x' where
      "accept_bid lib ops emit sellers eligibility creator mode bids a ref now x = (answer, x')"
      and "mc_ledger (ex_machine x') = mc_ledger (ex_machine x)"
      and "\<And>url code notice. answer \<noteq> Served url code notice"
  | (accepted) r x1 where
      "accept_bid lib ops emit sellers eligibility creator mode bids a ref now x =
         stamp_acceptance ops emit a now r x1"
      and "accept_trail r" and "mc_ledger (ex_machine x1) = mc_ledger (ex_machine x)"
proof -
  obtain loaded s where m: "machine_get ops a (mc_store (ex_machine x)) = (loaded, s)" by fastforce
  show ?thesis
  proof (cases loaded)
    case (Inl e)
    with m refused show ?thesis by (cases e) (auto simp: accept_bid_def)
  next
    case (Inr rec)
    show ?thesis
    proof (cases "Accepted \<in> set (transitions (ar_state rec))")
      case False
      with m Inr refused show ?thesis by (auto simp: accept_bid_def denied_def)
    next
      case True
      let ?d = "\<lparr>dk_auction = auction_of rec bids now, dk_claims = s, dk_shop = ex_shop x\<rparr>"
      obtain res d where offer: "accept_offer lib (Some (store_claims ops)) (Some sellers) eligibility creator mode ref ?d = (res, d)"
        by fastforce
      let ?x = "x\<lparr>ex_machine := (ex_machine x)\<lparr>mc_store := dk_claims d\<rparr>, ex_shop := dk_shop d\<rparr>"
      have bid: "accept_bid lib ops emit sellers eligibility creator mode bids a ref now x =
          answer_accept ops emit a now res ?x"
        using m Inr True offer by (simp add: accept_bid_def)
      show ?thesis
      proof (cases "\<exists>r. res = Inr r \<and> ac_accepted r")
        case False
        with bid refused show ?thesis
          by (cases res) (auto simp: answer_accept_def denied_def)
      next
        case accepted_result: True
        then obtain r where r: "res = Inr r" "ac_accepted r" by blast
        have "fst (accept lib (Some (store_claims ops)) (Some sellers) creator mode ref ?d) = Inr r"
        proof (cases rule: accept_offer_cases [of lib "Some (store_claims ops)" "Some sellers" eligibility creator mode ref ?d])
          case through
          with offer r show ?thesis by simp
        next
          case (stopped b reason store)
          with offer r show ?thesis by (auto dest: refused_is)
        qed
        then have "accept_trail r" using r(2) by (rule accepted_trail)
        with bid r show ?thesis by (intro accepted [of r ?x]) (simp_all add: answer_accept_def)
      qed
    qed
  qed
qed

lemma stamp_hands_over:
  assumes "stamp_acceptance ops emit a now r x = (answer, x')" and "accept_trail r"
  shows "case answer of
      Served url code notice \<Rightarrow>
        (\<exists>evs. mc_ledger (ex_machine x') = fold (hand_over emit) evs (mc_ledger (ex_machine x)) \<and>
          map le_kind evs = (case code of
              Some _ \<Rightarrow> [''accepted'', ''code_created'', ''checkout_redirect'']
            | None \<Rightarrow> [''accepted'', ''checkout_redirect'']) \<and>
          (\<forall>c. code = Some c \<longrightarrow> dget (le_payload (evs ! 1)) ''code'' = Some (JStr c)))
    | _ \<Rightarrow> mc_ledger (ex_machine x') = mc_ledger (ex_machine x)"
proof -
  let ?stamp = "sh_stamps (ex_shop x) (sh_stamped (ex_shop x))"
  obtain res m where ma: "machine_accept ops emit ?stamp a (ac_bid_ref r) (Some now) (ac_token r)
      (first_offer (ac_events r)) (accepted_store r) (ex_machine x) = (res, m)"
    by fastforce
  note hands = machine_accept_hands_over [OF ma]
  show ?thesis
  proof (cases res)
    case (Inl err)
    with hands ma assms(1) show ?thesis
      by (auto simp: stamp_acceptance_def Let_def denied_def split: if_splits)
  next
    case (Inr u)
    with hands obtain ev where ev: "le_kind ev = ''accepted''"
      "mc_ledger m = hand_over emit ev (mc_ledger (ex_machine x))" by auto
    let ?evs = "ev # filter (\<lambda>ev. le_kind ev \<in> set bridge_kinds) (ac_events r)"
    have "mc_ledger (ex_machine x') = record_checkout_bridge emit (ac_events r) (mc_ledger m)"
      and answer: "\<exists>url notice. answer = Served url (ac_code r) notice"
      using assms(1) ma Inr by (auto simp: stamp_acceptance_def Let_def)
    then have "mc_ledger (ex_machine x') = fold (hand_over emit) ?evs (mc_ledger (ex_machine x))"
      by (simp add: bridge_hands_over ev(2))
    moreover have "map le_kind ?evs = (case ac_code r of
          Some _ \<Rightarrow> [''accepted'', ''code_created'', ''checkout_redirect'']
        | None \<Rightarrow> [''accepted'', ''checkout_redirect'']) \<and>
        (\<forall>c. ac_code r = Some c \<longrightarrow> dget (le_payload (?evs ! 1)) ''code'' = Some (JStr c))"
      using assms(2) ev(1) by (cases "ac_code r") (auto simp: accept_trail_def bridge_kinds_def)
    ultimately show ?thesis using answer by (auto simp del: fold.simps intro!: exI [of _ ?evs])
  qed
qed

end
