(* ===== verification/AcceptProps.thy ===== *)
theory AcceptProps
  imports AcceptLaws
begin

text \<open>
  The properties of accepting a bid: one code per auction, what the eligibility gate stops, what happens
  to a code that was minted, what an accepted buyer is handed, and what reaches the ledger.
\<close>

section \<open>A sample for the witnesses\<close>

definition sample_lib :: checkout_lib where
  "sample_lib = \<lparr>lib_fromisoformat = \<lambda>_. None, lib_float = \<lambda>_. None, lib_int = \<lambda>_. None,
     lib_str = \<lambda>_. [], lib_unquote = \<lambda>s. s, lib_bracketed_ok = \<lambda>_. True, lib_sha256 = \<lambda>s. s\<rparr>"

definition sample_bid :: payload where
  "sample_bid = [(''bid_id'', JStr ''b1''), (''store_id'', JStr ''s1''),
     (''offer'', JObj [(''variant_ref'', JStr ''42''), (''unit_price'', JInt 9)])]"

definition sample_fallback :: payload where
  "sample_fallback = [(''bid_id'', JStr ''b2''), (''store_id'', JStr ''s1''), (''fallback'', JBool True)]"

definition sample_view :: auction_view where
  "sample_view = \<lparr>av_auction_id = ''a1'', av_bids = [sample_bid, sample_fallback], av_slots = [],
     av_accepted = None, av_now = 0, av_recordable = True\<rparr>"

definition sample_shop :: "nat shop" where
  "sample_shop = \<lparr>sh_choices = \<lambda>_. 0, sh_chosen = 0, sh_tokens = \<lambda>_. ''t'', sh_tokens_drawn = 0,
     sh_stamps = \<lambda>_. (''e'', ''2026-01-01T00:00:00.000Z''), sh_stamped = 0, sh_anomalies = [],
     sh_anomaly_seq = 0, sh_merchant = 0\<rparr>"

definition sample_store :: mem_store where
  "sample_store = new_mem_store 2 900 (\<lambda>_. 0)"

definition sample_desk :: "(mem_store, nat) desk" where
  "sample_desk = \<lparr>dk_auction = sample_view, dk_claims = sample_store, dk_shop = sample_shop\<rparr>"

definition sample_sellers :: registered_domains where
  "sample_sellers = static_registered_domains [(''s1'', ''shop.example.com'')]"

text \<open>A merchant that counts its codes and answers the same reply to all.\<close>

definition sample_creator :: "json \<Rightarrow> nat code_creator" where
  "sample_creator reply = (\<lambda>_ _ n. (Inr reply, Suc n))"

definition sample_request :: "nat code_creator option \<Rightarrow> nat checkout_request" where
  "sample_request creator = request_of sample_lib sample_view sample_bid ''b1'' ''redirect'' creator (Some sample_sellers)"

lemmas sample_defs = sample_lib_def sample_bid_def sample_fallback_def sample_view_def sample_shop_def
  sample_store_def sample_desk_def sample_sellers_def sample_creator_def sample_request_def

lemma sample_store_ok:
  "store_claims_ok sample_store" "reservation_room sample_store" "store_held sample_store a = None"
  by (simp_all add: store_claims_ok_def within_ttl_def reservation_room_def store_held_def sample_store_def
      new_mem_store_def reservation_names_per_auction_def)

lemma two_days: "float_add 0 172800 = 172800"
  by code_simp

lemma sample_preconditions:
  "checkout_preconditions sample_lib (sample_request creator) = Inr ''shop.example.com''"
proof -
  have "usable_domain ''shop.example.com'' = Inr ''shop.example.com''" by code_simp
  then have "registered_domain_for (sample_request creator) = Inr ''shop.example.com''"
    by (simp add: sample_request_def request_of_def registered_domain_for_def sample_sellers_def
        static_registered_domains_def sample_bid_def field_text_def str_of_def)
  moreover have "assert_offer_is_mintable sample_lib [(''variant_ref'', JStr ''42''), (''unit_price'', JInt 9)] 0 =
      Inr (At 172800)"
    by (simp add: assert_offer_is_mintable_def code_expiry_def max_code_ttl_seconds_def two_days
        offer_quantity_def unreadable_unit_price_def)
  ultimately show ?thesis
    by (simp add: checkout_preconditions_def sample_request_def request_of_def sample_bid_def sample_view_def
        field_text_def window_closed_def)
qed

lemma sample_found:
  "find_bid sample_lib ''b1'' (av_bids (dk_auction sample_desk)) = Some sample_bid"
  by code_simp

lemma sample_claim:
  obtains s where "take_claim (Some (store_claims mem_ops)) (cq_auction_id (sample_request creator))
    (cq_bid_ref (sample_request creator)) (dk_claims sample_desk) = (Inr True, s)"
proof -
  obtain s where "cl_claim (store_claims mem_ops) ''a1'' ''b1'' sample_store =
      (Inr \<lparr>co_won = True, co_holder = Some ''b1''\<rparr>, s)"
    by (rule store_claim_free [OF sample_store_ok])
  then show ?thesis
    by (intro that [of s]) (simp add: take_claim_def sample_request_def sample_view_def sample_desk_def)
qed

lemma sample_code: "fst (mint_code sample_shop) = ''PSX-00000000''"
  by code_simp

lemma sample_accept:
  "find_bid sample_lib ''b1'' (av_bids (dk_auction sample_desk)) = Some sample_bid" "\<not> bid_is_fallback sample_bid"
  "av_accepted (dk_auction sample_desk) = None" "av_recordable (dk_auction sample_desk)"
  "resolve_provider ''redirect'' = Some SimulatedRedirect"
  "checkout_preconditions sample_lib (request_of sample_lib (dk_auction sample_desk) sample_bid ''b1'' ''redirect''
     (None :: nat code_creator option) (Some sample_sellers)) = Inr ''shop.example.com''"
  "host_like ''shop.example.com''" "decodes_plainly sample_lib"
  "store_claims_ok (dk_claims sample_desk)" "reservation_room (dk_claims sample_desk)"
  "store_held (dk_claims sample_desk) (av_auction_id (dk_auction sample_desk)) = None"
  "av_auction_id (dk_auction sample_desk) \<noteq> []"
proof -
  show "find_bid sample_lib ''b1'' (av_bids (dk_auction sample_desk)) = Some sample_bid"
    by (rule sample_found)
  show "resolve_provider ''redirect'' = Some SimulatedRedirect" "host_like ''shop.example.com''"
    by code_simp+
  show "checkout_preconditions sample_lib (request_of sample_lib (dk_auction sample_desk) sample_bid ''b1''
      ''redirect'' (None :: nat code_creator option) (Some sample_sellers)) = Inr ''shop.example.com''"
    using sample_preconditions [of None] by (simp add: sample_request_def sample_desk_def)
qed (use sample_store_ok in \<open>simp_all add: sample_defs bid_is_fallback_def decodes_plainly_def\<close>)

definition sample_closed :: auction_record where
  "sample_closed = (new_auction ''a1'' ''i1'' ''c1'' [] None)\<lparr>ar_state := Closed\<rparr>"

definition sample_exchange :: "(mem_store, ring_sink, nat) exchange" where
  "sample_exchange =
     \<lparr>ex_machine = \<lparr>mc_store = mem_save sample_closed sample_store,
        mc_ledger = \<lparr>rec_sink = new_ring (Some 2), rec_failures = []\<rparr>\<rparr>,
      ex_shop = sample_shop\<rparr>"

definition sample_eligible :: "string eligibility_source" where
  "sample_eligible = static_eligibility [(''s1'', ''eligible'')] ''unavailable'' eligibility_interface_version"

definition sample_answer :: "string \<Rightarrow> accept_answer \<times> (mem_store, ring_sink, nat) exchange" where
  "sample_answer ref = accept_bid sample_lib mem_ops ring_sink_emit sample_sellers sample_eligible None ''redirect''
     [sample_bid, sample_fallback] ''a1'' ref 0 sample_exchange"

lemma sample_served:
  "case fst (sample_answer ''b1'') of Served url code notice \<Rightarrow> code = Some ''PSX-00000000'' | _ \<Rightarrow> False"
  by code_simp

definition sample_stray :: "nat code_creator" where
  "sample_stray = sample_creator (JObj [(''code'', JStr ''X1''), (''permalink_url'', JStr ''https://other.example/'')])"

lemma sample_loaded: "fst (machine_get mem_ops ''a1'' (mc_store (ex_machine sample_exchange))) = Inr sample_closed"
  by code_simp

lemma sample_stray_offer:
  "map_sum id (\<lambda>r. map_option or_code (ac_orphan r))
     (fst (accept_offer sample_lib (Some (store_claims mem_ops)) (Some sample_sellers) sample_eligible
       (Some sample_stray) ''shopify'' ''b1''
       \<lparr>dk_auction = auction_of sample_closed [sample_bid] 0,
        dk_claims = snd (machine_get mem_ops ''a1'' (mc_store (ex_machine sample_exchange))),
        dk_shop = ex_shop sample_exchange\<rparr>)) = Inr (Some ''X1'')"
  by code_simp

section \<open>One code per auction\<close>

text \<open>
  C1. However accepts run side by side over the reservations of the auction store (claims won and
  lost, codes minted, claims kept and given back, and any other use that takes no live claim away), an
  auction has at most one code, over any span of time in which a claim cannot lapse. The conditions:
  no two readings of the store's clock are its TTL apart (\<open>store_claims_ok\<close>; a claim that lapsed may
  be won again, and the second winner may mint), every claim finds room in the reservation table
  (\<open>reservation_room\<close>; a full table evicts its oldest claim), and what else happens to the store keeps
  every live claim. The codes counted are those the exchange can read: a value of the merchant that is
  no readable code gives the claim back (C37), so a merchant code the exchange never saw may exist
  beside the one counted here.
\<close>

theorem one_code_per_auction:
  assumes "store_claims_ok s"
    and "(accept_net_step (store_claims mem_ops) store_held store_claims_ok reservation_room)\<^sup>*\<^sup>* (opened_net s) n"
  shows "length (filter (\<lambda>p. fst p = a) (an_codes n)) \<le> 1"
  using net_inv_opened [of store_claims_ok s store_held] assms by (blast intro: store.one_code store.net_inv_run)

text \<open>An accept that wins the claim and mints.\<close>

theorem one_code_per_auction_witness:
  "\<exists>n. (accept_net_step (store_claims mem_ops) store_held store_claims_ok reservation_room)\<^sup>*\<^sup>*
       (opened_net sample_store) n \<and>
     an_codes n = [(''a1'', ''PSX-1'')] \<and> length (filter (\<lambda>p. fst p = ''a1'') (an_codes n)) \<le> 1"
proof -
  let ?step = "accept_net_step (store_claims mem_ops) store_held store_claims_ok reservation_room"
  obtain s where s: "cl_claim (store_claims mem_ops) ''a1'' ''b1'' sample_store =
      (Inr \<lparr>co_won = True, co_holder = Some ''b1''\<rparr>, s)"
    using store_claim_free [OF sample_store_ok] by blast
  let ?held = "(opened_net sample_store)\<lparr>an_claims := s,
      an_flights := [\<lparr>fg_auction = ''a1'', fg_ref = ''b1'', fg_phase = Holding\<rparr>]\<rparr>"
  have "?step (opened_net sample_store) ?held"
    using accept_net_step.win [of reservation_room "opened_net sample_store" "store_claims mem_ops"] s sample_store_ok(2)
    by (fastforce simp: opened_net_def)
  moreover have "?step ?held (set_phase 0 Minted (?held\<lparr>an_codes := [(''a1'', ''PSX-1'')]\<rparr>))"
    using accept_net_step.mint [of 0 ?held "store_claims mem_ops" store_held store_claims_ok reservation_room "''PSX-1''"]
    by (simp add: opened_net_def)
  ultimately have run: "?step\<^sup>*\<^sup>* (opened_net sample_store)
      (set_phase 0 Minted (?held\<lparr>an_codes := [(''a1'', ''PSX-1'')]\<rparr>))"
    by (meson converse_rtranclp_into_rtranclp rtranclp.rtrancl_refl)
  show ?thesis
    using run one_code_per_auction [OF sample_store_ok(1) run, of "''a1''"]
    by (intro exI [of _ "set_phase 0 Minted (?held\<lparr>an_codes := [(''a1'', ''PSX-1'')]\<rparr>)"] conjI) simp_all
qed

text \<open>
  C2. An accept is a run of that interleaving: whatever bid is accepted in whatever mode, it moves the
  claims by the steps of the interleaving, and the codes it leaves behind, sold or orphaned, are exactly
  the ones the run mints.
\<close>

theorem accept_is_a_run_of_the_interleaving:
  assumes "an_claims n = dk_claims d" and "reservation_room (an_claims n)"
  shows "\<exists>m. (accept_net_step (store_claims mem_ops) store_held store_claims_ok reservation_room)\<^sup>*\<^sup>* n m \<and>
    an_claims m = dk_claims (snd (accept lib (Some (store_claims mem_ops)) sellers creator mode ref d)) \<and>
    an_codes m = an_codes n @ sold (av_auction_id (dk_auction d))
      (fst (accept lib (Some (store_claims mem_ops)) sellers creator mode ref d))"
  using store.accept_run [OF assms, of lib sellers creator mode ref] by (simp add: store.runs_to_def)

theorem accept_is_a_run_of_the_interleaving_witness:
  "\<exists>m. (accept_net_step (store_claims mem_ops) store_held store_claims_ok reservation_room)\<^sup>*\<^sup>*
       (opened_net sample_store) m \<and>
     an_codes m = sold ''a1'' (fst (accept sample_lib (Some (store_claims mem_ops)) (Some sample_sellers)
       None ''redirect'' ''b1'' sample_desk))"
  using accept_is_a_run_of_the_interleaving [of "opened_net sample_store" sample_desk sample_lib
      "Some sample_sellers" None "''redirect''" "''b1''"] sample_store_ok(2)
  by (auto simp: opened_net_def sample_desk_def sample_view_def)

section \<open>The gate\<close>

text \<open>
  C27. No code is minted for a store the eligibility source does not vouch for: unless the source
  speaks the supported interface and answers that the bid's store is eligible, the accept is refused with
  a published code, the next slot is offered, and neither the auction, the claims, the merchant nor
  the draws of new codes have changed.
\<close>

theorem ineligible_store_gets_no_code:
  assumes "find_bid lib ref (av_bids (dk_auction d)) = Some bid"
    and "\<not> (speaks_supported_interface eligibility \<and>
      es_check eligibility (field_text lib bid ''store_id'') = Answered (Some eligible_status))"
  shows "\<exists>r d'. accept_offer lib table sellers eligibility creator mode ref d = (Inr r, d') \<and>
    \<not> ac_accepted r \<and> codes_of r = [] \<and>
    (ac_denial r = Some blacklisted_status \<or> ac_denial r = Some unavailable_status) \<and>
    ac_reoffer r = next_slot lib (dk_auction d) ref [] \<and>
    dk_auction d' = dk_auction d \<and> dk_claims d' = dk_claims d \<and>
    sh_merchant (dk_shop d') = sh_merchant (dk_shop d) \<and> sh_chosen (dk_shop d') = sh_chosen (dk_shop d)"
proof (cases rule: accept_offer_cases [of lib table sellers eligibility creator mode ref d])
  case through
  with assms show ?thesis by (auto simp: gate_passes_def)
next
  case (stopped bid' reason store)
  let ?out = "refused lib ref mode reason store (next_slot lib (dk_auction d) ref []) None d"
  obtain r where "fst ?out = Inr r" using refused_Inr by blast
  then show ?thesis
    using stopped(4) codes_of_refused [of lib ref mode reason store _ None d r]
    unfolding stopped(3) by (intro exI [of _ r] exI [of _ "snd ?out"]) (auto simp: prod_eq_iff)
qed

text \<open>A source that knows no store.\<close>

theorem ineligible_store_gets_no_code_witness:
  "\<exists>r d'. accept_offer sample_lib (Some (store_claims mem_ops)) (Some sample_sellers)
       (static_eligibility [] unavailable_status eligibility_interface_version) None ''redirect'' ''b1''
       sample_desk = (Inr r, d') \<and> \<not> ac_accepted r \<and> codes_of r = [] \<and> dk_claims d' = sample_store"
  using ineligible_store_gets_no_code [of sample_lib "''b1''" sample_desk sample_bid
      "static_eligibility [] unavailable_status eligibility_interface_version"
      "Some (store_claims mem_ops)" "Some sample_sellers" None "''redirect''"] sample_found
  by (auto simp: static_eligibility_def eligible_status_def unavailable_status_def sample_desk_def)

section \<open>What becomes of a code\<close>

text \<open>
  C22. No code is lost: a code the provider reports is the one the answer carries, sold or orphaned,
  and it is named by a \<open>code_created\<close> event of the answer; the event of an orphan says that the code
  has to be revoked.
\<close>

theorem no_code_is_lost:
  assumes "take_claim table (cq_auction_id req) (cq_bid_ref req) (dk_claims d) = (Inr held, c)"
    and "checkout_preconditions lib req = Inr registered"
    and "provider_mint lib p req (dk_shop d) = ((res, [code]), w)"
  shows "\<exists>r d'. accept_minting lib table p req d = (Inr r, d') \<and> codes_of r = [code] \<and>
    (\<exists>ev. ev \<in> set (ac_events r) \<and> le_kind ev = ''code_created'' \<and>
       dget (le_payload ev) ''code'' = Some (JStr code) \<and>
       (ac_accepted r \<or> dget (le_payload ev) ''revocation_required'' = Some (JBool True)))"
proof -
  obtain out w' where co: "checkout lib p req (dk_shop d) = (out, w')" by fastforce
  have codes: "checkout_codes out = [code]"
    using checkout_mints [OF assms(3)] assms(2) co by simp
  show ?thesis
  proof (cases out)
    case (Inr bought)
    with codes have "cr_code bought = code" by (simp add: checkout_codes_def)
    with sale_events [OF co [unfolded Inr]] assms(1) co Inr show ?thesis
      by (auto simp: accept_minting_def sold_checkout checked_out_def codes_of_def Let_def)
  next
    case (Inl e)
    with codes obtain t orphan where e: "e = Orphaned t orphan" "or_code orphan = code"
      by (cases e) (auto simp: checkout_codes_def)
    let ?d = "d\<lparr>dk_claims := c, dk_shop := w'\<rparr>"
    let ?out = "refused lib (cq_bid_ref req) (cq_mode req) denial_checkout_refused (Some (cq_store_id req))
        (next_slot lib (dk_auction d) (cq_bid_ref req) []) (Some orphan) ?d"
    have "accept_minting lib table p req d = ?out"
      using assms(1) co Inl e by (simp add: accept_minting_def Let_def)
    with orphan_recorded [of lib "cq_bid_ref req" "cq_mode req" denial_checkout_refused
        "Some (cq_store_id req)" "next_slot lib (dk_auction d) (cq_bid_ref req) []" orphan ?d] e(2)
    show ?thesis by (metis prod.collapse)
  qed
qed

theorem no_code_is_lost_witness:
  "\<exists>r d'. accept_minting sample_lib (Some (store_claims mem_ops)) SimulatedRedirect (sample_request None)
       sample_desk = (Inr r, d') \<and> codes_of r = [''PSX-00000000''] \<and>
     (\<exists>ev. ev \<in> set (ac_events r) \<and> dget (le_payload ev) ''code'' = Some (JStr ''PSX-00000000''))"
proof -
  obtain s where "take_claim (Some (store_claims mem_ops)) (cq_auction_id (sample_request None))
      (cq_bid_ref (sample_request None)) (dk_claims sample_desk) = (Inr True, s)"
    by (rule sample_claim)
  moreover obtain res w where "provider_mint sample_lib SimulatedRedirect (sample_request None)
      (dk_shop sample_desk) = ((res, [''PSX-00000000'']), w)"
    using sample_code by (simp add: sample_desk_def simulated_mint_def split_def Let_def)
  ultimately show ?thesis
    using no_code_is_lost [of "Some (store_claims mem_ops)" "sample_request None" sample_desk True s
        sample_lib "''shop.example.com''" SimulatedRedirect res "''PSX-00000000''" w]
      sample_preconditions [of None]
    by blast
qed

text \<open>
  C21. The claim follows the code: an accept that wins a free claim holds it afterwards exactly when a
  code exists, sold or orphaned; otherwise the auction is free for the next slot. The code is the one
  the checkout answered with, and the merchant is where the checkout left it.
\<close>

theorem claim_follows_the_code:
  assumes "store_claims_ok (dk_claims d)" and "reservation_room (dk_claims d)"
    and "store_held (dk_claims d) (cq_auction_id req) = None" and "cq_auction_id req \<noteq> []"
  shows "\<exists>r d'. accept_minting lib (Some (store_claims mem_ops)) p req d = (Inr r, d') \<and>
    codes_of r = checkout_codes (fst (checkout lib p req (dk_shop d))) \<and>
    store_held (dk_claims d') (cq_auction_id req) = (if codes_of r = [] then None else Some (cq_bid_ref req)) \<and>
    sh_merchant (dk_shop d') = sh_merchant (snd (checkout lib p req (dk_shop d)))"
  by (rule minting_claim [OF assms, of lib p]) blast

text \<open>With no merchant client there is no code, and the claim is given back.\<close>

theorem claim_follows_the_code_witness:
  "\<exists>r d'. accept_minting sample_lib (Some (store_claims mem_ops)) Shopify (sample_request None) sample_desk =
     (Inr r, d') \<and> codes_of r = [] \<and> store_held (dk_claims d') ''a1'' = None"
proof -
  have "checkout_codes (fst (checkout sample_lib Shopify (sample_request None) sample_shop)) = []"
    using sample_preconditions [of None]
    by (simp add: checkout_def mint_recording_orphans_def shopify_mint_def checkout_codes_def
        sample_request_def request_of_def)
  then show ?thesis
    using claim_follows_the_code [of sample_desk "sample_request None" sample_lib Shopify] sample_store_ok
    by (auto simp: sample_desk_def sample_request_def sample_view_def)
qed

text \<open>
  C37. A code the exchange cannot read is lost, and the auction is free to ask for another: when the
  merchant answers a value that is not a readable code, nothing is sold or orphaned and the claim is
  given back, although the merchant has been asked and has moved on. The rule that a mint whose code
  exists keeps its claim does not cover this code.
\<close>

theorem unreadable_code_frees_the_auction:
  assumes "store_claims_ok (dk_claims d)" and "reservation_room (dk_claims d)"
    and "store_held (dk_claims d) (cq_auction_id req) = None" and "cq_auction_id req \<noteq> []"
    and "checkout_preconditions lib req = Inr registered" and "cq_creator req = Some create"
    and "create (cq_store_id req) (offer_fields (cq_offer req)) (sh_merchant (dk_shop d)) = (Inr reply, m)"
    and "truthy (reply_field reply ''code'')"
    and "code_refusals reply (reply_field reply ''code'') \<noteq> []"
  shows "\<exists>r d'. accept_minting lib (Some (store_claims mem_ops)) Shopify req d = (Inr r, d') \<and>
    codes_of r = [] \<and> store_held (dk_claims d') (cq_auction_id req) = None \<and> sh_merchant (dk_shop d') = m"
proof -
  obtain w' where co: "checkout lib Shopify req (dk_shop d) = (Inl (Failed ''CheckoutCreatorError''), w')"
    "sh_merchant w' = m"
    by (rule unreadable_checkout [OF assms(5-9)])
  then have "checkout_codes (fst (checkout lib Shopify req (dk_shop d))) = []"
    by (simp add: checkout_codes_def)
  with minting_claim [OF assms(1-4), of lib Shopify] co(2) show ?thesis
    by (metis co(1) snd_conv)
qed

text \<open>The merchant counts one code, and answers a number in its place.\<close>

theorem unreadable_code_frees_the_auction_witness:
  "\<exists>r d'. accept_minting sample_lib (Some (store_claims mem_ops)) Shopify
       (sample_request (Some (sample_creator (JObj [(''code'', JInt 7)])))) sample_desk = (Inr r, d') \<and>
     codes_of r = [] \<and> store_held (dk_claims d') ''a1'' = None \<and> sh_merchant (dk_shop d') = 1"
  using unreadable_code_frees_the_auction [of sample_desk
      "sample_request (Some (sample_creator (JObj [(''code'', JInt 7)])))" sample_lib "''shop.example.com''"
      "sample_creator (JObj [(''code'', JInt 7)])" "JObj [(''code'', JInt 7)]" 1]
    sample_store_ok sample_preconditions
  by (simp add: sample_desk_def sample_request_def sample_creator_def sample_view_def sample_shop_def
      reply_field_def code_refusals_def discount_code_reasons_def acted_on_def request_of_def)

section \<open>What an accepted buyer is handed\<close>

text \<open>
  C6. A buyer who is handed a code is handed a sound checkout: the permalink is on the domain the
  request names for the seller, the deadline is still ahead, at most 48 hours from now and no later than the
  offer's own, the cart applies no other code than this one, and with a claim table in force the accept
  holds the claim.
\<close>

theorem accepted_checkout_is_sound:
  assumes "fst (accept lib table sellers creator mode ref d) = Inr r"
    and "ac_accepted r" and "ac_code r = Some code"
  shows "\<exists>bid registered url t. find_bid lib ref (av_bids (dk_auction d)) = Some bid \<and>
    registered_domain_for (request_of lib (dk_auction d) bid ref mode creator sellers) = Inr registered \<and>
    ac_permalink_url r = Some url \<and> is_on_domain lib url registered \<and> \<not> cart_conflict lib url code \<and>
    ac_expires_at r = Some (At t) \<and> av_now (dk_auction d) < t \<and>
    t \<le> float_add (av_now (dk_auction d)) max_code_ttl_seconds \<and>
    (\<forall>v x. dget (offer_fields (cq_offer (request_of lib (dk_auction d) bid ref mode creator sellers))) ''expires_at'' = Some v
       \<longrightarrow> v \<noteq> JNull \<longrightarrow> expiry_epoch lib v = Inr (FiniteText x) \<longrightarrow> t \<le> x) \<and>
    ac_domain_verified r = (sellers \<noteq> None) \<and> ac_claim_verified r = (table \<noteq> None)"
proof -
  obtain bid where bid: "find_bid lib ref (av_bids (dk_auction d)) = Some bid"
    and way: "if bid_is_fallback bid
      then is_handoff lib table (request_of lib (dk_auction d) bid ref mode creator sellers) (dk_shop d) r
      else is_sale lib table (request_of lib (dk_auction d) bid ref mode creator sellers) (dk_shop d) r"
    by (rule accept_accepted [OF assms(1,2), unfolded request_for_def])
  let ?req = "request_of lib (dk_auction d) bid ref mode creator sellers"
  obtain p c w' where co: "checkout lib p ?req (dk_shop d) = (Inr c, w')"
    and r: "r = checked_out ?req (table \<noteq> None) c"
    using way assms(3) by (auto simp: is_handoff_def is_sale_def handed_off_def split: if_splits)
  have c: "cr_code c = code" using r assms(3) by (simp add: checked_out_def)
  obtain registered t where sound: "registered_domain_for ?req = Inr registered"
    "is_on_domain lib (cr_permalink_url c) registered" "cr_expires_at c = At t" "av_now (dk_auction d) < t"
    "\<not> cart_conflict lib (cr_permalink_url c) code" "cr_domain_verified c = (sellers \<noteq> None)"
    using checkout_sound [OF co] c by (auto simp: sound_checkout_def)
  have expiry: "code_expiry lib (av_now (dk_auction d)) (offer_fields (cq_offer ?req)) = Inr (At t)"
    using checkout_expiry [OF co] sound(3) by simp
  note bounds = code_expiry_bound(1) [OF expiry] code_expiry_bound(2) [OF expiry]
  have r_simps: "ac_permalink_url r = Some (cr_permalink_url c)" "ac_expires_at r = Some (cr_expires_at c)"
    "ac_domain_verified r = cr_domain_verified c" "ac_claim_verified r = (table \<noteq> None)"
    by (simp_all add: r checked_out_def)
  show ?thesis
    unfolding r_simps sound(3,6) using bid sound(1,2,4,5) bounds
    by (intro exI [of _ bid] exI [of _ registered] exI [of _ "cr_permalink_url c"] exI [of _ t]) blast
qed

theorem accepted_checkout_is_sound_witness:
  "\<exists>r url t. fst (accept sample_lib (Some (store_claims mem_ops)) (Some sample_sellers) None ''redirect'' ''b1''
       sample_desk) = Inr r \<and> ac_permalink_url r = Some url \<and>
     is_on_domain sample_lib url ''shop.example.com'' \<and> ac_expires_at r = Some (At t) \<and> t \<le> float_add 0 172800"
proof -
  obtain r d' where r: "accept sample_lib (Some (store_claims mem_ops)) (Some sample_sellers) None ''redirect''
      ''b1'' sample_desk = (Inr r, d')" "ac_accepted r" "ac_code r = Some (fst (mint_code (dk_shop sample_desk)))"
    by (rule simulated_accept [OF sample_accept])
  have registered: "registered_domain_for (sample_request None) = Inr ''shop.example.com''"
    by (rule preconditions_domain [OF sample_preconditions])
  show ?thesis
    using accepted_checkout_is_sound [OF _ r(2,3), of sample_lib "Some (store_claims mem_ops)"
        "Some sample_sellers" None "''redirect''" "''b1''" sample_desk] r(1) registered sample_found
    by (auto simp: sample_request_def sample_desk_def max_code_ttl_seconds_def sample_view_def)
qed

text \<open>
  C28. The simulated redirect delivers. In a mode that resolves to the simulated provider (not in the
  Shopify mode, where the merchant decides), a bid of a store's own (no fallback) of a recordable auction
  that is not yet accepted is accepted whenever its checkout preconditions hold, its domain is that of an
  ordinary host whose decoding leaves plain text alone, the auction has an id and its claim is free, the
  reservation table has room and no two readings of the store's clock are a TTL apart. The buyer gets the freshly drawn code, the auction is stamped with the
  bid, and the claim is held.
\<close>

theorem open_offer_is_accepted:
  assumes "find_bid lib ref (av_bids (dk_auction d)) = Some bid" and "\<not> bid_is_fallback bid"
    and "av_accepted (dk_auction d) = None" and "av_recordable (dk_auction d)"
    and "resolve_provider mode = Some SimulatedRedirect"
    and "checkout_preconditions lib (request_of lib (dk_auction d) bid ref mode creator sellers) = Inr domain"
    and "host_like domain" and "decodes_plainly lib"
    and "store_claims_ok (dk_claims d)" and "reservation_room (dk_claims d)"
    and "store_held (dk_claims d) (av_auction_id (dk_auction d)) = None" and "av_auction_id (dk_auction d) \<noteq> []"
  shows "\<exists>r d'. accept lib (Some (store_claims mem_ops)) sellers creator mode ref d = (Inr r, d') \<and>
    ac_accepted r \<and> ac_code r = Some (fst (mint_code (dk_shop d))) \<and>
    av_accepted (dk_auction d') = Some ref \<and>
    store_held (dk_claims d') (av_auction_id (dk_auction d)) = Some ref"
  by (rule simulated_accept [OF assms]) blast

theorem open_offer_is_accepted_witness:
  "\<exists>r d'. accept sample_lib (Some (store_claims mem_ops)) (Some sample_sellers) None ''redirect'' ''b1''
       sample_desk = (Inr r, d') \<and> ac_accepted r \<and> ac_code r = Some ''PSX-00000000'' \<and>
     store_held (dk_claims d') ''a1'' = Some ''b1''"
  using open_offer_is_accepted [OF sample_accept] sample_code
  by (auto simp: sample_desk_def sample_view_def)

section \<open>What reaches the ledger\<close>

text \<open>
  C26. The ledger tells what was served, whatever sink the exchange writes to: a served accept hands
  the sink exactly the acceptance, the code if there is one, and the redirect, each once and in this
  order, and the code event names the code that was served; any other answer hands it nothing. What
  the sink does with an event is its own: the bounded ring of the code keeps the newest
  (\<open>ring_holds_the_newest\<close>), and one that raises leaves the event among the recorder's failures.
\<close>

theorem ledger_tells_what_was_served:
  assumes "accept_bid lib ops emit sellers eligibility creator mode bids a ref now x = (answer, x')"
  shows "case answer of
      Served url code notice \<Rightarrow>
        (\<exists>evs. mc_ledger (ex_machine x') = fold (hand_over emit) evs (mc_ledger (ex_machine x)) \<and>
          map le_kind evs = (case code of
              Some _ \<Rightarrow> [''accepted'', ''code_created'', ''checkout_redirect'']
            | None \<Rightarrow> [''accepted'', ''checkout_redirect'']) \<and>
          (\<forall>c. code = Some c \<longrightarrow> dget (le_payload (evs ! 1)) ''code'' = Some (JStr c)))
    | _ \<Rightarrow> mc_ledger (ex_machine x') = mc_ledger (ex_machine x)"
proof (cases rule: accept_bid_cases [of lib ops emit sellers eligibility creator mode bids a ref now x])
  case (refused answer')
  with assms show ?thesis by (auto split: accept_answer.split)
next
  case (accepted r x1)
  have "stamp_acceptance ops emit a now r x1 = (answer, x')" using assms accepted(1) by simp
  then show ?thesis using stamp_hands_over accepted(2) unfolding accepted(3) [symmetric] by blast
qed

theorem ledger_tells_what_was_served_witness:
  "\<exists>url notice x'. sample_answer ''b1'' = (Served url (Some ''PSX-00000000'') notice, x') \<and>
     map le_kind (rs_ring (rec_sink (mc_ledger (ex_machine x')))) = [''code_created'', ''checkout_redirect'']"
proof -
  obtain url notice x' where served: "sample_answer ''b1'' = (Served url (Some ''PSX-00000000'') notice, x')"
    using sample_served by (cases "sample_answer ''b1''"; cases "fst (sample_answer ''b1'')") auto
  obtain e1 e2 e3 where "mc_ledger (ex_machine x') = hand_over ring_sink_emit e3 (hand_over ring_sink_emit e2
        (hand_over ring_sink_emit e1 (mc_ledger (ex_machine sample_exchange))))"
      "le_kind e2 = ''code_created''" "le_kind e3 = ''checkout_redirect''"
    using ledger_tells_what_was_served [OF served [unfolded sample_answer_def]] by auto
  then have "map le_kind (rs_ring (rec_sink (mc_ledger (ex_machine x')))) = [''code_created'', ''checkout_redirect'']"
    by (simp add: hand_over_def ring_sink_emit_def sample_exchange_def new_ring_def ring_emit_def Let_def)
  with served show ?thesis by (intro exI conjI)
qed

text \<open>
  The event of an orphaned code never reaches the ledger: when an accept is refused with an orphan,
  the answer carries the \<open>code_created\<close> event that makes the live code visible, and the handler drops it.
\<close>

theorem orphaned_code_is_not_filed:
  assumes "machine_get ops a (mc_store (ex_machine x)) = (Inr rec, s)" and "Accepted \<in> set (transitions (ar_state rec))"
    and "accept_offer lib (Some (store_claims ops)) (Some sellers) eligibility creator mode ref
      \<lparr>dk_auction = auction_of rec bids now, dk_claims = s, dk_shop = ex_shop x\<rparr> = (Inr r, d)"
    and "ac_orphan r = Some orphan"
  shows "(\<exists>ev. ev \<in> set (ac_events r) \<and> le_kind ev = ''code_created'' \<and>
       dget (le_payload ev) ''code'' = Some (JStr (or_code orphan))) \<and>
     (\<exists>reason x'. accept_bid lib ops emit sellers eligibility creator mode bids a ref now x = (Refused409 reason, x') \<and>
       mc_ledger (ex_machine x') = mc_ledger (ex_machine x))"
  using orphan_refused [OF assms(3,4)] assms
  by (auto simp: accept_bid_def answer_accept_def denied_def Let_def)

text \<open>A merchant whose own link leads elsewhere: its code is orphaned.\<close>

theorem orphaned_code_is_not_filed_witness:
  "\<exists>reason x'. accept_bid sample_lib mem_ops ring_sink_emit sample_sellers sample_eligible
       (Some sample_stray) ''shopify'' [sample_bid] ''a1'' ''b1'' 0 sample_exchange = (Refused409 reason, x') \<and>
     mc_ledger (ex_machine x') = mc_ledger (ex_machine sample_exchange)"
proof -
  let ?offer = "\<lambda>s. accept_offer sample_lib (Some (store_claims mem_ops)) (Some sample_sellers) sample_eligible
      (Some sample_stray) ''shopify'' ''b1''
      \<lparr>dk_auction = auction_of sample_closed [sample_bid] 0, dk_claims = s, dk_shop = ex_shop sample_exchange\<rparr>"
  obtain s where s: "machine_get mem_ops ''a1'' (mc_store (ex_machine sample_exchange)) = (Inr sample_closed, s)"
    using sample_loaded by (metis prod.collapse)
  moreover have "Accepted \<in> set (transitions (ar_state sample_closed))" by code_simp
  moreover have "map_sum id (\<lambda>r. map_option or_code (ac_orphan r)) (fst (?offer s)) = Inr (Some ''X1'')"
    using sample_stray_offer s by simp
  then obtain r orphan where "fst (?offer s) = Inr r" "ac_orphan r = Some orphan"
    by (cases "fst (?offer s)") auto
  ultimately show ?thesis
    using orphaned_code_is_not_filed [of mem_ops "''a1''" sample_exchange sample_closed s sample_lib
        sample_sellers sample_eligible "Some sample_stray" "''shopify''" "''b1''" "[sample_bid]" 0 r
        "snd (?offer s)" orphan ring_sink_emit]
    by (metis prod.collapse)
qed

end
