(* ===== verification/Canonical.thy ===== *)
theory Canonical
  imports PyFloat "HOL-Library.List_Lexorder"
begin

text \<open>
  Canonical JSON and the event hash (\<open>apps/trust/src/ledger/canonical.py\<close>).

  A value is what a ledger event may hold: JSON, a \<open>datetime\<close> (with its UTC offset in minutes,
  \<open>None\<close> for a naive one), and \<open>VOther\<close> for an object of any other type. The keys of a mapping are
  strings. SHA-256 is the parameter \<open>sha\<close>, from the bytes to the hex digest.
\<close>

datatype canon_error =
    CanonicalisationError
  | TimeValueError
  | TimeOverflow
  | NonAsciiHash

text \<open>\<open>CanonicalisationError\<close> is a \<open>ValueError\<close>; an \<open>OverflowError\<close> is not.\<close>

fun is_value_error :: "canon_error \<Rightarrow> bool" where
  "is_value_error TimeOverflow = False"
| "is_value_error _ = True"

datatype pyval =
    VNone
  | VBool bool
  | VStr pystr
  | VTime moment "int option"
  | VInt int
  | VFloat pyfloat
  | VArr "pyval list"
  | VObj "(pystr \<times> pyval) list"
  | VOther

type_synonym pydict = "(pystr, pyval) dict"

definition genesis_hash :: pystr where
  "genesis_hash = replicate 64 48"

definition chain_fields :: "pystr list" where
  "chain_fields = [u ''prev_hash'', u ''event_hash'', u ''seq'']"

definition event_fields :: "pystr list" where
  "event_fields = map u [''event_id'', ''ts'', ''kind'', ''auction_id'', ''store_id'', ''order_ref'', ''payload'']"

section \<open>Timestamps\<close>

definition take_digits :: "nat \<Rightarrow> pystr \<Rightarrow> (int \<times> pystr) option" where
  "take_digits n t =
     (if length t \<ge> n \<and> list_all is_digit (take n t) then Some (digits_value (take n t), drop n t) else None)"

fun take_char :: "int list \<Rightarrow> pystr \<Rightarrow> pystr option" where
  "take_char cs [] = None"
| "take_char cs (c # t) = (if c \<in> set cs then Some t else None)"

text \<open>\<open>(?:\.(\d+))?\<close>, giving the digits.\<close>

definition take_fraction :: "pystr \<Rightarrow> (pystr \<times> pystr) option" where
  "take_fraction t =
     (case t of
        c # r \<Rightarrow> if c = 46
          then (if takeWhile is_digit r = [] then None else Some (takeWhile is_digit r, dropWhile is_digit r))
          else Some ([], t)
      | [] \<Rightarrow> Some ([], t))"

text \<open>\<open>(Z|z|[+-]\d{2}:?\d{2})?$\<close>, giving the offset in minutes.\<close>

definition take_offset :: "pystr \<Rightarrow> int option" where
  "take_offset t =
     (case t of
        [] \<Rightarrow> Some 0
      | c # r \<Rightarrow>
          if c = 90 \<or> c = 122 then (if r = [] then Some 0 else None)
          else if c = 43 \<or> c = 45 then
            (case take_digits 2 r of
               None \<Rightarrow> None
             | Some (hours, r1) \<Rightarrow>
                 (case take_digits 2 (case r1 of ch # r2 \<Rightarrow> if ch = 58 then r2 else r1 | [] \<Rightarrow> r1) of
                    Some (minutes, []) \<Rightarrow>
                      Some ((if c = 43 then 1 else - 1) * (hours * 60 + minutes))
                  | _ \<Rightarrow> None))
          else None)"

text \<open>
  \<open>_RFC3339_RE.match\<close> and the conversion of its groups: the fields, the first three digits of the
  fraction padded on the right, and the offset. Digits are the ASCII ones.
\<close>

definition parse_rfc3339 :: "pystr \<Rightarrow> (moment \<times> int) option" where
  "parse_rfc3339 t =
     Option.bind (take_digits 4 t) (\<lambda>(year, t).
     Option.bind (take_char [45] t) (\<lambda>t.
     Option.bind (take_digits 2 t) (\<lambda>(month, t).
     Option.bind (take_char [45] t) (\<lambda>t.
     Option.bind (take_digits 2 t) (\<lambda>(day, t).
     Option.bind (take_char [84, 116, 32] t) (\<lambda>t.
     Option.bind (take_digits 2 t) (\<lambda>(hour, t).
     Option.bind (take_char [58] t) (\<lambda>t.
     Option.bind (take_digits 2 t) (\<lambda>(minute, t).
     Option.bind (take_char [58] t) (\<lambda>t.
     Option.bind (take_digits 2 t) (\<lambda>(second, t).
     Option.bind (take_fraction t) (\<lambda>(fraction, t).
     Option.bind (take_offset t) (\<lambda>offset.
       Some (\<lparr>mo_year = year, mo_month = month, mo_day = day, mo_hour = hour, mo_minute = minute,
               mo_second = second, mo_micro = digits_value (take 3 (fraction @ [48, 48, 48])) * 1000\<rparr>,
             offset))))))))))))))"

text \<open>
  \<open>f"{moment.strftime('%Y-%m-%dT%H:%M:%S')}.{moment.microsecond // 1000:03d}Z"\<close>; \<open>%Y\<close> pads a year
  below 1000 to four digits, as CPython does since 3.12.5.
\<close>

definition format_moment :: "moment \<Rightarrow> pystr" where
  "format_moment t =
     pad_digits 4 (mo_year t) @ 45 # pad_digits 2 (mo_month t) @ 45 # pad_digits 2 (mo_day t) @
     84 # pad_digits 2 (mo_hour t) @ 58 # pad_digits 2 (mo_minute t) @ 58 # pad_digits 2 (mo_second t) @
     46 # pad_digits 3 (mo_micro t div 1000) @ [90]"

definition rfc3339_ms :: "pyval \<Rightarrow> canon_error + pystr" where
  "rfc3339_ms v =
     (case v of
        VTime t offset \<Rightarrow>
          (case offset of
             None \<Rightarrow> Inr (format_moment t)
           | Some d \<Rightarrow>
               (case minus_minutes t d of None \<Rightarrow> Inl TimeOverflow | Some t' \<Rightarrow> Inr (format_moment t')))
      | VStr s \<Rightarrow>
          (case parse_rfc3339 (strip_text s) of
             None \<Rightarrow> Inl CanonicalisationError
           | Some (t, d) \<Rightarrow>
               if \<not> valid_moment t then Inl TimeValueError
               else if d = 0 then Inr (format_moment t)
               else (case minus_minutes t d of None \<Rightarrow> Inl TimeOverflow | Some t' \<Rightarrow> Inr (format_moment t')))
      | _ \<Rightarrow> Inl CanonicalisationError)"

section \<open>JSON\<close>

definition surrogate :: "int \<Rightarrow> bool" where
  "surrogate c \<longleftrightarrow> 55296 \<le> c \<and> c \<le> 57343"

definition hex_digit :: "int \<Rightarrow> int" where
  "hex_digit n = (if n < 10 then 48 + n else 87 + n)"

definition escape_char :: "int \<Rightarrow> pystr" where
  "escape_char c =
     (if c = 34 then [92, 34] else if c = 92 then [92, 92] else if c = 8 then [92, 98]
      else if c = 12 then [92, 102] else if c = 10 then [92, 110] else if c = 13 then [92, 114]
      else if c = 9 then [92, 116]
      else if c < 32 then [92, 117, 48, 48, hex_digit (c div 16), hex_digit (c mod 16)]
      else [c])"

definition serialise_string :: "pystr \<Rightarrow> canon_error + pystr" where
  "serialise_string t =
     (if list_ex surrogate t then Inl CanonicalisationError
      else Inr (34 # concat (map escape_char t) @ [34]))"

definition is_representable_as_double :: "int \<Rightarrow> bool" where
  "is_representable_as_double v \<longleftrightarrow> float_of_int v = Some (of_int v)"

definition es6_positive :: "rat \<Rightarrow> pystr" where
  "es6_positive value =
     (let (coefficient, exponent) = shortest_decimal value;
          digits = decimal_digits coefficient;
          k = int (length digits);
          n = k + exponent
      in if k \<le> n \<and> n \<le> 21 then digits @ replicate (nat (n - k)) 48
         else if 0 < n \<and> n \<le> 21 then take (nat n) digits @ 46 # drop (nat n) digits
         else if - 6 < n \<and> n \<le> 0 then 48 # 46 # replicate (nat (- n)) 48 @ digits
         else
           (if k = 1 then digits else hd digits # 46 # tl digits) @ 101 #
             (if n - 1 \<ge> 0 then 43 else 45) # decimal_digits \<bar>n - 1\<bar>)"

definition es6_number :: "rat \<Rightarrow> pystr" where
  "es6_number value =
     (if value = 0 then [48] else if value < 0 then 45 # es6_positive (- value) else es6_positive value)"

fun serialise_number :: "pyval \<Rightarrow> canon_error + pystr" where
  "serialise_number (VInt v) =
     (if is_representable_as_double v then Inr (es6_number (of_int v)) else Inl CanonicalisationError)"
| "serialise_number (VFloat (Finite r)) = Inr (es6_number r)"
| "serialise_number _ = Inl CanonicalisationError"

definition utf16_units :: "int \<Rightarrow> int list" where
  "utf16_units c =
     (if c < 65536 then [c] else [55296 + (c - 65536) div 1024, 56320 + (c - 65536) mod 1024])"

definition utf16_key :: "pystr \<Rightarrow> int list" where
  "utf16_key name = concat (map utf16_units name)"

fun join_commas :: "pystr list \<Rightarrow> pystr" where
  "join_commas [] = []"
| "join_commas [x] = x"
| "join_commas (x # xs) = x @ 44 # join_commas xs"

text \<open>The results in order, or the first error.\<close>

fun all_right :: "('e + 'a) list \<Rightarrow> 'e + 'a list" where
  "all_right [] = Inr []"
| "all_right (Inl e # rs) = Inl e"
| "all_right (Inr x # rs) = (case all_right rs of Inl e \<Rightarrow> Inl e | Inr xs \<Rightarrow> Inr (x # xs))"

definition member_text :: "pystr \<Rightarrow> canon_error + pystr \<Rightarrow> canon_error + pystr" where
  "member_text name result =
     (case serialise_string name of
        Inl e \<Rightarrow> Inl e
      | Inr key \<Rightarrow> (case result of Inl e \<Rightarrow> Inl e | Inr s \<Rightarrow> Inr (key @ 58 # s)))"

fun canonical_json :: "pyval \<Rightarrow> canon_error + pystr" where
  "canonical_json VNone = Inr (u ''null'')"
| "canonical_json (VBool b) = Inr (if b then u ''true'' else u ''false'')"
| "canonical_json (VStr s) = serialise_string s"
| "canonical_json (VTime t offset) =
     (case rfc3339_ms (VTime t offset) of Inl e \<Rightarrow> Inl e | Inr s \<Rightarrow> serialise_string s)"
| "canonical_json (VInt v) = serialise_number (VInt v)"
| "canonical_json (VFloat v) = serialise_number (VFloat v)"
| "canonical_json (VObj members) =
     (if list_ex (\<lambda>p. list_ex surrogate (fst p)) members then Inl CanonicalisationError
      else
        let results = map (\<lambda>p. (fst p, canonical_json (snd p))) members;
            ordered = sort_key (\<lambda>p. utf16_key (fst p)) results
        in (case all_right (map (\<lambda>p. member_text (fst p) (snd p)) ordered) of
              Inl e \<Rightarrow> Inl e
            | Inr texts \<Rightarrow> Inr (123 # join_commas texts @ [125])))"
| "canonical_json (VArr items) =
     (case all_right (map canonical_json items) of
        Inl e \<Rightarrow> Inl e
      | Inr texts \<Rightarrow> Inr (91 # join_commas texts @ [93]))"
| "canonical_json VOther = Inl CanonicalisationError"

text \<open>\<open>str.encode("utf-8")\<close> of a text without surrogates.\<close>

definition utf8_bytes :: "int \<Rightarrow> int list" where
  "utf8_bytes c =
     (if c < 128 then [c]
      else if c < 2048 then [192 + c div 64, 128 + c mod 64]
      else if c < 65536 then [224 + c div 4096, 128 + c div 64 mod 64, 128 + c mod 64]
      else [240 + c div 262144, 128 + c div 4096 mod 64, 128 + c div 64 mod 64, 128 + c mod 64])"

definition canonical_bytes :: "pyval \<Rightarrow> canon_error + int list" where
  "canonical_bytes v =
     (case canonical_json v of Inl e \<Rightarrow> Inl e | Inr s \<Rightarrow> Inr (concat (map utf8_bytes s)))"

section \<open>The event body and its hash\<close>

definition body_item :: "pystr \<times> pyval \<Rightarrow> canon_error + (pystr \<times> pyval)" where
  "body_item p =
     (if fst p = u ''ts''
      then (case rfc3339_ms (snd p) of Inl e \<Rightarrow> Inl e | Inr s \<Rightarrow> Inr (fst p, VStr s))
      else Inr p)"

definition kept_item :: "pystr \<times> pyval \<Rightarrow> bool" where
  "kept_item p \<longleftrightarrow> fst p \<notin> set chain_fields \<and> snd p \<noteq> VNone"

definition canonical_event :: "pydict \<Rightarrow> canon_error + pydict" where
  "canonical_event event =
     (case all_right (map body_item (filter kept_item event)) of
        Inl e \<Rightarrow> Inl e
      | Inr body \<Rightarrow>
          if u ''event_id'' \<notin> set (dkeys body) \<or> u ''kind'' \<notin> set (dkeys body)
          then Inl CanonicalisationError
          else Inr (dsetdefault (u ''payload'') (VObj []) body))"

definition compute_event_hash :: "(int list \<Rightarrow> pystr) \<Rightarrow> pystr \<Rightarrow> pydict \<Rightarrow> canon_error + pystr" where
  "compute_event_hash sha prev_hash event =
     (if list_ex (\<lambda>c. c \<ge> 128) prev_hash then Inl NonAsciiHash
      else case canonical_event event of
          Inl e \<Rightarrow> Inl e
        | Inr body \<Rightarrow>
            (case canonical_bytes (VObj body) of
               Inl e \<Rightarrow> Inl e
             | Inr bs \<Rightarrow> Inr (sha (prev_hash @ bs))))"

end
