(* ===== verification/PyJson.thy ===== *)
theory PyJson
  imports Canonical
begin

text \<open>
  \<open>json.dumps(value, sort_keys=True, separators=(",", ":"), ensure_ascii=False)\<close> on JSON values:
  members in the order of their names by code point, floats by \<open>repr\<close>. The names of the non-finite
  numbers are not told apart. \<open>None\<close> is the exception: \<open>ValueError\<close> for a non-finite number under
  \<open>allow_nan=False\<close>, \<open>TypeError\<close> for what is not JSON.
\<close>

definition int_text :: "int \<Rightarrow> pystr" where
  "int_text n = (if n < 0 then 45 # decimal_digits (- n) else decimal_digits n)"

text \<open>\<open>float.__repr__\<close> of a positive number: the shortest decimal, scientific below 1e-4 and from 1e16.\<close>

definition repr_positive :: "rat \<Rightarrow> pystr" where
  "repr_positive value =
     (let (coefficient, exponent) = shortest_decimal value;
          digits = decimal_digits coefficient;
          k = int (length digits);
          n = k + exponent
      in if - 4 < n \<and> n \<le> 16
         then
           (if n \<le> 0 then 48 # 46 # replicate (nat (- n)) 48 @ digits
            else if k \<le> n then digits @ replicate (nat (n - k)) 48 @ [46, 48]
            else take (nat n) digits @ 46 # drop (nat n) digits)
         else
           (if k = 1 then digits else hd digits # 46 # tl digits) @ 101 #
             (if n - 1 \<ge> 0 then 43 else 45) #
               (if \<bar>n - 1\<bar> < 10 then [48] else []) @ decimal_digits \<bar>n - 1\<bar>)"

definition repr_float :: "rat \<Rightarrow> pystr" where
  "repr_float value =
     (if value = 0 then u ''0.0'' else if value < 0 then 45 # repr_positive (- value) else repr_positive value)"

definition quoted :: "pystr \<Rightarrow> pystr" where
  "quoted t = 34 # concat (map escape_char t) @ [34]"

fun json_dumps :: "bool \<Rightarrow> pyval \<Rightarrow> pystr option" where
  "json_dumps allow_nan VNone = Some (u ''null'')"
| "json_dumps allow_nan (VBool b) = Some (if b then u ''true'' else u ''false'')"
| "json_dumps allow_nan (VStr s) = Some (quoted s)"
| "json_dumps allow_nan (VInt n) = Some (int_text n)"
| "json_dumps allow_nan (VFloat (Finite r)) = Some (repr_float r)"
| "json_dumps allow_nan (VFloat NotFinite) = (if allow_nan then Some (u ''NaN'') else None)"
| "json_dumps allow_nan (VArr items) =
     (case those (map (json_dumps allow_nan) items) of
        None \<Rightarrow> None
      | Some texts \<Rightarrow> Some (91 # join_commas texts @ [93]))"
| "json_dumps allow_nan (VObj members) =
     (let results = map (\<lambda>p. (fst p, json_dumps allow_nan (snd p))) members
      in case those (map (\<lambda>p. map_option (\<lambda>t. quoted (fst p) @ 58 # t) (snd p)) (sort_key fst results)) of
           None \<Rightarrow> None
         | Some texts \<Rightarrow> Some (123 # join_commas texts @ [125]))"
| "json_dumps allow_nan (VTime t d) = None"
| "json_dumps allow_nan VOther = None"

end
