(* ===== verification/Signing.thy ===== *)
theory Signing
  imports PyJson
begin

text \<open>
  The one signing form of an external bid (\<open>packages/contracts/src/signing.py\<close>) and the signature over
  it (\<open>packages/store-agent/src/external/signatures.py\<close>).

  A payload is plain JSON with text keys. SHA-256 and HMAC-SHA256 are the fields of \<open>signing_lib\<close>, from
  bytes to the hexadecimal digest. \<open>None\<close> is \<open>CanonicalisationError\<close>.
\<close>

record signing_lib =
  sl_sha256 :: "int list \<Rightarrow> pystr"
  sl_hmac :: "int list \<Rightarrow> int list \<Rightarrow> pystr"

text \<open>\<open>payload.get(name)\<close>; what is no mapping has no fields.\<close>

definition vget :: "pyval \<Rightarrow> string \<Rightarrow> pyval" where
  "vget v name =
     (case v of VObj d \<Rightarrow> (case dget d (u name) of Some x \<Rightarrow> x | None \<Rightarrow> VNone) | _ \<Rightarrow> VNone)"

definition required_signing_fields :: "string list" where
  "required_signing_fields = [''signer_id'', ''key_id'', ''issued_at'', ''nonce'', ''schema_version'']"

definition signed_fields :: "string list" where
  "signed_fields =
     [''auction_id'', ''signer_id'', ''store_id'', ''issued_at'', ''nonce'', ''key_id'', ''schema_version'']"

definition non_body_keys :: "string list" where
  "non_body_keys = [''signer_id'', ''key_id'', ''issued_at'', ''nonce'', ''signature'']"

definition blank_point :: "int \<Rightarrow> bool" where
  "blank_point c \<longleftrightarrow> (9 \<le> c \<and> c \<le> 13) \<or> (28 \<le> c \<and> c \<le> 32) \<or> c = 133 \<or> c = 160 \<or> c = 5760 \<or>
     (8192 \<le> c \<and> c \<le> 8202) \<or> c = 8232 \<or> c = 8233 \<or> c = 8239 \<or> c = 8287 \<or> c = 12288 \<or> c = 65279"

definition is_blank :: "pystr \<Rightarrow> bool" where
  "is_blank value = list_all blank_point value"

section \<open>Canonical JSON\<close>

text \<open>The number formatter reads the digits and the exponent off \<open>repr\<close>.\<close>

definition signed_int :: "pystr \<Rightarrow> int" where
  "signed_int t =
     (case t of
        c # r \<Rightarrow> if c = 45 then - digits_value r else if c = 43 then digits_value r else digits_value t
      | [] \<Rightarrow> 0)"

definition ecmascript_positive :: "rat \<Rightarrow> pystr" where
  "ecmascript_positive value =
     (let repr = repr_float value;
          mantissa = takeWhile (\<lambda>c. c \<noteq> 101) repr;
          exponent_text = drop (length mantissa + 1) repr;
          exponent = (if exponent_text = [] then 0 else signed_int exponent_text);
          integer_part = takeWhile (\<lambda>c. c \<noteq> 46) mantissa;
          fraction_part = drop (length integer_part + 1) mantissa;
          raw = integer_part @ fraction_part;
          stripped = dropWhile (\<lambda>c. c = 48) raw;
          leading_zeros = int (length raw) - int (length stripped);
          n = int (length integer_part) + exponent - leading_zeros;
          shortened = rev (dropWhile (\<lambda>c. c = 48) (rev stripped));
          digits = (if shortened = [] then [48] else shortened);
          k = int (length digits)
      in if k \<le> n \<and> n \<le> 21 then digits @ replicate (nat (n - k)) 48
         else if 0 < n \<and> n \<le> 21 then take (nat n) digits @ 46 # drop (nat n) digits
         else if - 6 < n \<and> n \<le> 0 then 48 # 46 # replicate (nat (- n)) 48 @ digits
         else
           (if k = 1 then digits else hd digits # 46 # tl digits) @ 101 #
             (if n - 1 > 0 then 43 else 45) # decimal_digits \<bar>n - 1\<bar>)"

definition ecmascript_number :: "rat \<Rightarrow> pystr" where
  "ecmascript_number value =
     (if value = 0 then [48] else if value < 0 then 45 # ecmascript_positive (- value)
      else ecmascript_positive value)"

fun signing_json :: "pyval \<Rightarrow> pystr option" where
  "signing_json VNone = Some (u ''null'')"
| "signing_json (VBool b) = Some (if b then u ''true'' else u ''false'')"
| "signing_json (VStr s) = (if list_ex surrogate s then None else Some (quoted s))"
| "signing_json (VInt v) =
     (if is_representable_as_double v then Some (ecmascript_number (of_int v)) else None)"
| "signing_json (VFloat (Finite r)) = Some (ecmascript_number r)"
| "signing_json (VFloat NotFinite) = None"
| "signing_json (VObj members) =
     (if list_ex (\<lambda>p. list_ex surrogate (fst p)) members then None
      else
        let results = map (\<lambda>p. (fst p, signing_json (snd p))) members
        in case those (map (\<lambda>p. map_option (\<lambda>t. quoted (fst p) @ 58 # t) (snd p))
                  (sort_key (\<lambda>p. utf16_key (fst p)) results)) of
             None \<Rightarrow> None
           | Some texts \<Rightarrow> Some (123 # join_commas texts @ [125]))"
| "signing_json (VArr items) =
     (case those (map signing_json items) of
        None \<Rightarrow> None
      | Some texts \<Rightarrow> Some (91 # join_commas texts @ [93]))"
| "signing_json (VTime t d) = None"
| "signing_json VOther = None"

text \<open>\<open>str.encode("utf-8", "surrogatepass")\<close>; without surrogates, plain UTF-8.\<close>

definition utf8 :: "pystr \<Rightarrow> int list" where
  "utf8 t = concat (map utf8_bytes t)"

section \<open>The signing bytes\<close>

definition payload_hash :: "signing_lib \<Rightarrow> pyval \<Rightarrow> pystr option" where
  "payload_hash lib payload =
     (case payload of
        VObj d \<Rightarrow>
          map_option (\<lambda>t. u ''sha256:'' @ sl_sha256 lib (utf8 t))
            (signing_json (VObj (filter (\<lambda>p. fst p \<notin> set (map u non_body_keys)) d)))
      | _ \<Rightarrow> None)"

definition missing_signing_fields :: "pyval \<Rightarrow> string list" where
  "missing_signing_fields payload =
     filter (\<lambda>field. case vget payload field of VStr s \<Rightarrow> is_blank s | _ \<Rightarrow> True) required_signing_fields"

definition covered_fields :: "pyval \<Rightarrow> pystr \<Rightarrow> pyval" where
  "covered_fields payload digest =
     VObj (map (\<lambda>field. (u field, vget payload field)) signed_fields @ [(u ''payload_hash'', VStr digest)])"

definition canonical_signing_bytes :: "signing_lib \<Rightarrow> pyval \<Rightarrow> int list option" where
  "canonical_signing_bytes lib payload =
     (case payload of
        VObj d \<Rightarrow>
          if missing_signing_fields payload \<noteq> [] then None
          else if vget payload ''auction_id'' \<in> {VNone, VStr []} \<or> vget payload ''store_id'' \<in> {VNone, VStr []}
          then None
          else
            (case payload_hash lib payload of
               None \<Rightarrow> None
             | Some digest \<Rightarrow> map_option utf8 (signing_json (covered_fields payload digest)))
      | _ \<Rightarrow> None)"

definition keyring_secret :: "pyval \<Rightarrow> pystr \<Rightarrow> pystr \<Rightarrow> pystr option" where
  "keyring_secret keyring signer_id key_id =
     (case keyring of
        VObj signers \<Rightarrow>
          (case dget signers signer_id of
             Some (VObj keys) \<Rightarrow>
               (case dget keys key_id of Some (VStr s) \<Rightarrow> if s \<noteq> [] then Some s else None | _ \<Rightarrow> None)
           | _ \<Rightarrow> None)
      | _ \<Rightarrow> None)"

section \<open>The signature\<close>

definition sign_bid :: "signing_lib \<Rightarrow> pyval \<Rightarrow> pystr \<Rightarrow> pystr option" where
  "sign_bid lib payload secret = map_option (sl_hmac lib (utf8 secret)) (canonical_signing_bytes lib payload)"

definition verify_signature :: "signing_lib \<Rightarrow> pyval \<Rightarrow> pystr \<Rightarrow> pystr \<Rightarrow> bool" where
  "verify_signature lib payload signature secret \<longleftrightarrow>
     strip_text signature \<noteq> [] \<and>
     (case sign_bid lib payload secret of None \<Rightarrow> False | Some expected \<Rightarrow> utf8 expected = utf8 signature)"

end
