(* ===== verification/PyDouble.thy ===== *)
theory PyDouble
  imports PyFloat
begin

text \<open>
  Arithmetic on Python floats: the exact result rounded to the nearest double. A finite double is its
  rational value; \<open>None\<close> is a result beyond the largest one.
\<close>

definition to_double :: "rat \<Rightarrow> rat option" where
  "to_double r =
     (if r = 0 then Some 0 else if r > 0 then nearest_double r else map_option uminus (nearest_double (- r)))"

text \<open>\<open>a + b\<close>, \<open>a - b\<close>, \<open>a * b\<close>, \<open>a / b\<close>\<close>

definition double_add :: "rat \<Rightarrow> rat \<Rightarrow> rat option" where "double_add a b = to_double (a + b)"

definition double_sub :: "rat \<Rightarrow> rat \<Rightarrow> rat option" where "double_sub a b = to_double (a - b)"

definition double_mul :: "rat \<Rightarrow> rat \<Rightarrow> rat option" where "double_mul a b = to_double (a * b)"

definition double_div :: "rat \<Rightarrow> rat \<Rightarrow> rat option" where "double_div a b = to_double (a / b)"

definition truncated :: "rat \<Rightarrow> int" where
  "truncated r = (if r < 0 then - floor (- r) else floor r)"

text \<open>
  Seconds as microseconds, the way \<open>datetime\<close> and \<open>timedelta\<close> take a float: the whole seconds exactly,
  a million times the fraction rounded as a product of doubles and then half to even.
\<close>

definition micros_of_seconds :: "rat \<Rightarrow> int" where
  "micros_of_seconds r =
     (case double_mul 1000000 (r - of_int (truncated r)) of
        Some f \<Rightarrow> truncated r * 1000000 + round_half_even f
      | None \<Rightarrow> truncated r * 1000000)"

section \<open>How far rounding goes\<close>

lemma power_int_rat_2_pos: "power_int_rat 2 e > 0"
  by (simp add: power_int_rat_def)

lemma power_int_rat_2_Suc: "power_int_rat 2 (e + 1) = 2 * power_int_rat 2 e"
proof (cases "e \<ge> 0")
  case True
  then show ?thesis by (simp add: power_int_rat_def nat_add_distrib)
next
  case False
  then obtain n where n: "e = - int (Suc n)" by (metis int_cases linorder_not_le nat_int of_nat_0_le_iff zero_le_imp_eq_int)
  have "nat (- (e + 1)) = n" "nat (- e) = Suc n" using n by simp_all
  with False show ?thesis by (simp add: power_int_rat_def n)
qed

lemma power_int_rat_2_nat: "power_int_rat 2 (e + int n) = 2 ^ n * power_int_rat 2 e"
proof (induction n)
  case (Suc n)
  have "power_int_rat 2 (e + int (Suc n)) = power_int_rat 2 (e + int n + 1)" by (simp add: algebra_simps)
  then show ?case using Suc power_int_rat_2_Suc [of "e + int n"] by simp
qed simp

lemma bits_pos: "n > 0 \<Longrightarrow> bits n = 1 + bits (n div 2)"
  by (subst bits.simps) simp

lemma bits_0: "bits 0 = 0"
  by (subst bits.simps) simp

lemma bits_bounds:
  fixes n :: int
  assumes "n > 0"
  shows "\<exists>k. bits n = int k + 1 \<and> 2 ^ k \<le> n \<and> n < 2 ^ Suc k"
  using assms
proof (induction "nat n" arbitrary: n rule: less_induct)
  case less
  show ?case
  proof (cases "n = 1")
    case True
    then show ?thesis using bits_pos [of 1] bits_0 by (intro exI [of _ 0]) simp
  next
    case False
    with less.prems have "nat (n div 2) < nat n" "n div 2 > 0" by auto
    from less.hyps [OF this] obtain k where k: "bits (n div 2) = int k + 1" "2 ^ k \<le> n div 2" "n div 2 < 2 ^ Suc k"
      by blast
    have "2 ^ Suc k \<le> n" using k(2) by simp
    moreover have "n < 2 ^ Suc (Suc k)" using k(3) by simp
    ultimately show ?thesis using k(1) bits_pos [OF less.prems] by (intro exI [of _ "Suc k"]) simp
  qed
qed

text \<open>\<open>floor_log2 r\<close> is at most the logarithm.\<close>

lemma floor_log2_le:
  assumes "r > 0"
  shows "power_int_rat 2 (floor_log2 r) \<le> r"
proof -
  obtain p q where pq: "quotient_of r = (p, q)" by fastforce
  have q: "q > 0" using quotient_of_denom_pos [OF pq] .
  have r: "r = of_int p / of_int q" using quotient_of_div [OF pq] .
  have p: "p > 0" using assms r q by (simp add: zero_less_divide_iff)
  let ?k = "bits p - bits q"
  obtain a b where a: "bits p = int a + 1" "2 ^ a \<le> p" and b: "bits q = int b + 1" "q < 2 ^ Suc b"
    using bits_bounds [OF p] bits_bounds [OF q] by blast
  have "(2::rat) ^ a \<le> of_int p" "of_int q \<le> (2::rat) ^ Suc b"
    using a(2) b(2) by (metis of_int_le_iff of_int_numeral of_int_power, metis less_imp_le of_int_le_iff of_int_numeral of_int_power)
  moreover have "power_int_rat 2 (?k - 1) * 2 ^ Suc b = 2 ^ a"
  proof -
    have "?k - 1 + int (Suc b) = int a" using a(1) b(1) by simp
    then have "2 ^ Suc b * power_int_rat 2 (?k - 1) = power_int_rat 2 (int a)"
      using power_int_rat_2_nat [of "?k - 1" "Suc b"] by (metis)
    then show ?thesis by (simp add: power_int_rat_def mult.commute)
  qed
  ultimately have "power_int_rat 2 (?k - 1) * of_int q \<le> of_int p"
    using power_int_rat_2_pos [of "?k - 1"] by (metis mult_left_mono order_trans order_less_imp_le)
  then have "power_int_rat 2 (?k - 1) \<le> r" using q by (simp add: r pos_le_divide_eq)
  then show ?thesis using pq by (simp add: floor_log2_def Let_def)
qed

lemma round_half_even_error: "\<bar>of_int (round_half_even r) - r\<bar> \<le> 1 / 2"
proof -
  define f where "f = (of_int (floor r) :: rat)"
  have "f \<le> r" "r < f + 1" using floor_correct [of r] by (auto simp: f_def)
  then show ?thesis by (auto simp: round_half_even_def Let_def abs_if f_def [symmetric])
qed

text \<open>The double a positive rational is rounded to, before the test for overflow.\<close>

definition rounded :: "rat \<Rightarrow> rat" where
  "rounded r =
     (let quantum = power_int_rat 2 (max (floor_log2 r - 52) (- 1074))
      in of_int (round_half_even (r / quantum)) * quantum)"

lemma nearest_double_rounded: "nearest_double r = (if rounded r \<ge> power_int_rat 2 1024 then None else Some (rounded r))"
  by (simp add: nearest_double_def rounded_def Let_def)

lemma rounded_nonneg:
  assumes "r > 0"
  shows "0 \<le> rounded r"
proof -
  let ?q = "power_int_rat 2 (max (floor_log2 r - 52) (- 1074))"
  have "0 \<le> floor (r / ?q)" using assms power_int_rat_2_pos [of "max (floor_log2 r - 52) (- 1074)"] by simp
  then have "0 \<le> round_half_even (r / ?q)" by (simp add: round_half_even_def Let_def)
  then show ?thesis
    using power_int_rat_2_pos [of "max (floor_log2 r - 52) (- 1074)"] by (simp add: rounded_def Let_def)
qed

lemma rounded_error:
  assumes "r > 0"
  shows "\<bar>rounded r - r\<bar> \<le> power_int_rat 2 (max (floor_log2 r - 52) (- 1074)) / 2"
proof -
  let ?q = "power_int_rat 2 (max (floor_log2 r - 52) (- 1074))"
  have q: "?q > 0" by (rule power_int_rat_2_pos)
  have "rounded r - r = (of_int (round_half_even (r / ?q)) - r / ?q) * ?q"
    using q by (simp add: rounded_def Let_def algebra_simps)
  then show ?thesis
    using round_half_even_error [of "r / ?q"] q by (simp add: abs_mult mult_right_mono)
qed

text \<open>A double is within half a unit in the last place.\<close>

lemma normal_quantum:
  assumes "r > 0" and "floor_log2 r - 52 \<ge> - 1074"
  shows "power_int_rat 2 (max (floor_log2 r - 52) (- 1074)) \<le> r / 2 ^ 52"
proof -
  have "max (floor_log2 r - 52) (- 1074) = floor_log2 r - 52" using assms(2) by simp
  then show ?thesis
    using power_int_rat_2_nat [of "floor_log2 r - 52" 52] floor_log2_le [OF assms(1)] by simp
qed

lemma nearest_double_error:
  assumes "nearest_double r = Some d" and "r \<ge> power_int_rat 2 (- 1022)"
  shows "\<bar>d - r\<bar> \<le> r / 2 ^ 53"
proof -
  have r: "r > 0" using assms(2) power_int_rat_2_pos [of "- 1022"] by linarith
  have d: "d = rounded r" using assms(1) by (simp add: nearest_double_rounded split: if_splits)
  have "power_int_rat 2 (max (floor_log2 r - 52) (- 1074)) \<le> r / 2 ^ 52"
  proof (cases "floor_log2 r - 52 \<ge> - 1074")
    case False
    then have "max (floor_log2 r - 52) (- 1074) = - 1074" by simp
    then show ?thesis using power_int_rat_2_nat [of "- 1074" 52] assms(2) by simp
  qed (rule normal_quantum [OF r])
  with rounded_error [OF r] show ?thesis by (simp add: d)
qed

text \<open>Below a bound the rounding stays within what the bound allows.\<close>

lemma to_double_within:
  assumes "0 \<le> r" and "r \<le> b" and "b \<le> 2 ^ 1000" and "b / 2 ^ 53 + 1 / 2 ^ 1000 \<le> delta"
  shows "\<exists>d. to_double r = Some d \<and> 0 \<le> d \<and> \<bar>d - r\<bar> \<le> delta"
proof (cases "r = 0")
  case True
  have "0 \<le> b / 2 ^ 53" using assms(1,2) by simp
  then have "0 \<le> delta" using assms(4) by (rule_tac order_trans [of _ "b / 2 ^ 53 + 1 / 2 ^ 1000"]) simp_all
  with True show ?thesis by (simp add: to_double_def)
next
  case False
  then have r: "r > 0" using assms(1) by simp
  let ?e = "max (floor_log2 r - 52) (- 1074)"
  have q: "power_int_rat 2 ?e / 2 \<le> b / 2 ^ 53 + 1 / 2 ^ 1000"
  proof (cases "floor_log2 r - 52 \<ge> - 1074")
    case True
    from normal_quantum [OF r this] have "power_int_rat 2 ?e / 2 \<le> r / 2 ^ 53" by simp
    also have "\<dots> \<le> b / 2 ^ 53" using assms(2) by (simp add: divide_right_mono)
    finally show ?thesis by (rule order_trans) simp
  next
    case False
    then have "?e = - 1074" by simp
    then have "power_int_rat 2 ?e / 2 \<le> (1 / 2 ^ 1000 :: rat)" by (simp add: power_int_rat_def)
    moreover have "0 \<le> b / 2 ^ 53" using assms(1,2) by simp
    ultimately show ?thesis by (rule_tac order_trans [of _ "1 / 2 ^ 1000"]) simp_all
  qed
  have near: "\<bar>rounded r - r\<bar> \<le> delta"
    using rounded_error [OF r] q assms(4) by (meson order_trans)
  have "rounded r \<le> r + (b / 2 ^ 53 + 1 / 2 ^ 1000)"
    using order_trans [OF abs_ge_self order_trans [OF rounded_error [OF r] q]] by (simp only: diff_le_eq add.commute)
  also have "\<dots> < power_int_rat 2 1024"
  proof -
    have "r + (b / 2 ^ 53 + 1 / 2 ^ 1000) \<le> 2 ^ 1000 + (2 ^ 1000 / 2 ^ 53 + 1 / 2 ^ 1000)"
      using assms(2,3) by (intro add_mono divide_right_mono) simp_all
    also have "\<dots> < power_int_rat 2 1024" by (simp add: power_int_rat_def)
    finally show ?thesis .
  qed
  finally have "rounded r < power_int_rat 2 1024" .
  then show ?thesis
    using r near rounded_nonneg [OF r] by (simp add: to_double_def nearest_double_rounded)
qed

end
