(* ===== verification/BidTimes.thy ===== *)
theory BidTimes
  imports Signing PyDouble
begin

text \<open>
  Instants and date-times of a bid (\<open>packages/contracts/src/boundary.py\<close>). An aware \<open>datetime\<close> is its
  microseconds from the epoch. \<open>datetime.fromisoformat\<close> is a field of \<open>boundary_lib\<close> (a naive result
  read as UTC), with the validation of the generated models, \<open>str\<close> and \<open>repr\<close> of a list or a mapping,
  and \<open>str.lower\<close>.
\<close>

datatype schema_answer = SchemaOk | SchemaErrors "pystr list" | SchemaRaised

record boundary_lib =
  vb_schema :: "bool \<Rightarrow> pyval \<Rightarrow> schema_answer"
  vb_fromisoformat :: "pystr \<Rightarrow> int option"
  vb_str :: "pyval \<Rightarrow> pystr"
  vb_lower :: "pystr \<Rightarrow> pystr"

section \<open>Instants\<close>

definition instant_of_moment :: "moment \<Rightarrow> int \<Rightarrow> int" where
  "instant_of_moment t offset =
     ((((ymd2ord (mo_year t) (mo_month t) (mo_day t) - 719163) * 24 + mo_hour t) * 60 + mo_minute t - offset) * 60 +
       mo_second t) * 1000000 + mo_micro t"

text \<open>The years 1 to 9999.\<close>

definition in_datetime_range :: "int \<Rightarrow> bool" where
  "in_datetime_range m \<longleftrightarrow> - 62135596800000000 \<le> m \<and> m \<le> 253402300799999999"

text \<open>\<open>datetime.fromtimestamp(seconds, tz=UTC)\<close>\<close>

definition instant_of_seconds :: "rat \<Rightarrow> int option" where
  "instant_of_seconds r = (let m = micros_of_seconds r in if in_datetime_range m then Some m else None)"

definition instant_of_text :: "boundary_lib \<Rightarrow> pystr \<Rightarrow> int option" where
  "instant_of_text lib s =
     (let t = strip_text s in
      if t = [] then None
      else if last t = 90 \<or> last t = 122 then vb_fromisoformat lib (butlast t @ u ''+00:00'')
      else vb_fromisoformat lib t)"

definition parse_instant :: "boundary_lib \<Rightarrow> pyval \<Rightarrow> int option" where
  "parse_instant lib v =
     (case v of
        VTime t (Some offset) \<Rightarrow> Some (instant_of_moment t offset)
      | VTime t None \<Rightarrow> Some (instant_of_moment t 0)
      | VInt n \<Rightarrow> Option.bind (float_of_int n) instant_of_seconds
      | VFloat (Finite r) \<Rightarrow> instant_of_seconds r
      | VStr s \<Rightarrow> instant_of_text lib s
      | _ \<Rightarrow> None)"

section \<open>RFC 3339\<close>

definition js_space :: "int \<Rightarrow> bool" where
  "js_space c \<longleftrightarrow> (9 \<le> c \<and> c \<le> 13) \<or> c = 32 \<or> c = 160 \<or> c = 5760 \<or> (8192 \<le> c \<and> c \<le> 8202) \<or>
     c = 8232 \<or> c = 8233 \<or> c = 8239 \<or> c = 8287 \<or> c = 12288 \<or> c = 65279"

definition date_time_separator :: "int \<Rightarrow> bool" where
  "date_time_separator c \<longleftrightarrow> c = 116 \<or> c = 84 \<or> js_space c"

definition is_rfc3339_date :: "pystr \<Rightarrow> bool" where
  "is_rfc3339_date t =
     (case Option.bind (take_digits 4 t) (\<lambda>(year, t).
           Option.bind (take_char [45] t) (\<lambda>t.
           Option.bind (take_digits 2 t) (\<lambda>(month, t).
           Option.bind (take_char [45] t) (\<lambda>t.
           Option.bind (take_digits 2 t) (\<lambda>(day, t).
             if t = [] then Some (year, month, day) else None))))) of
        None \<Rightarrow> False
      | Some (year, month, day) \<Rightarrow>
          1 \<le> month \<and> month \<le> 12 \<and> 1 \<le> day \<and> day \<le> days_in_month (is_leap year) month)"

text \<open>\<open>(?:[Zz]|[+-]hh(?::?mm)?)?\Z\<close>: the sign and the fields; \<open>None\<close> inside is a time without a zone.\<close>

definition take_zone :: "pystr \<Rightarrow> (int \<times> int \<times> int) option option" where
  "take_zone t =
     (case t of
        [] \<Rightarrow> Some None
      | c # r \<Rightarrow>
          if c = 90 \<or> c = 122 then (if r = [] then Some (Some (1, 0, 0)) else None)
          else if c = 43 \<or> c = 45 then
            (case take_digits 2 r of
               None \<Rightarrow> None
             | Some (hours, r1) \<Rightarrow>
                 if r1 = [] then Some (Some (if c = 45 then - 1 else 1, hours, 0))
                 else
                   (case take_digits 2 (if hd r1 = 58 then tl r1 else r1) of
                      Some (minutes, []) \<Rightarrow> Some (Some (if c = 45 then - 1 else 1, hours, minutes))
                    | _ \<Rightarrow> None))
          else None)"

text \<open>\<open>float(match["second"])\<close>: the double nearest to the decimal.\<close>

definition seconds_of :: "int \<Rightarrow> pystr \<Rightarrow> rat" where
  "seconds_of whole fraction =
     (case to_double (of_int whole + of_int (digits_value fraction) / 10 ^ length fraction) of
        Some r \<Rightarrow> r | None \<Rightarrow> of_int whole)"

definition is_rfc3339_time :: "pystr \<Rightarrow> bool" where
  "is_rfc3339_time t =
     (case Option.bind (take_digits 2 t) (\<lambda>(hour, t).
           Option.bind (take_char [58] t) (\<lambda>t.
           Option.bind (take_digits 2 t) (\<lambda>(minute, t).
           Option.bind (take_char [58] t) (\<lambda>t.
           Option.bind (take_digits 2 t) (\<lambda>(whole, t).
           Option.bind (take_fraction t) (\<lambda>(fraction, t).
           map_option (\<lambda>zone. (hour, minute, seconds_of whole fraction, zone)) (take_zone t))))))) of
        None \<Rightarrow> False
      | Some (hour, minute, second, None) \<Rightarrow> False
      | Some (hour, minute, second, Some (tz_sign, tz_hour, tz_minute)) \<Rightarrow>
          if tz_hour > 23 \<or> tz_minute > 59 then False
          else if hour \<le> 23 \<and> minute \<le> 59 \<and> second < 60 then True
          else
            let utc_minute = minute - tz_minute * tz_sign;
                utc_hour = hour - tz_hour * tz_sign - (if utc_minute < 0 then 1 else 0)
            in utc_hour \<in> {23, - 1} \<and> utc_minute \<in> {59, - 1} \<and> second < 61)"

text \<open>\<open>_DATE_TIME_SEPARATOR.split(text)\<close> has two parts exactly when there is one separator.\<close>

definition is_rfc3339_date_time :: "pystr \<Rightarrow> bool" where
  "is_rfc3339_date_time t \<longleftrightarrow>
     length (filter date_time_separator t) = 1 \<and>
     is_rfc3339_date (takeWhile (\<lambda>c. \<not> date_time_separator c) t) \<and>
     is_rfc3339_time (tl (dropWhile (\<lambda>c. \<not> date_time_separator c) t))"

end
