(* ===== verification/BidClaims.thy ===== *)
theory BidClaims
  imports BidTimes "HOL-Library.Multiset"
begin

text \<open>
  Where the claims of a bid come from (\<open>packages/contracts/src/boundary.py\<close>): the closed vocabulary of
  provenance sources, the bounded walk over a claim's value, and the verdict on every claim of the bid
  and of its offer. A bid is plain JSON; a reason is the text the code publishes.
\<close>

definition hosted_path :: pystr where "hosted_path = u ''hosted''"

definition external_path :: pystr where "external_path = u ''external''"

definition hook_provenance_sources :: "pystr list" where
  "hook_provenance_sources =
     map u [''scraped'', ''pixel_feed'', ''owner_statement'', ''envelope_rule'', ''learned_policy'', ''network'']"

definition non_hook_provenance_sources :: "pystr list" where
  "non_hook_provenance_sources = [u ''seller_asserted'']"

definition discount_authorisation_claim_keys :: "pystr list" where
  "discount_authorisation_claim_keys = [u ''authorized_discount_pct'', u ''max_discount_pct'']"

definition claim_value_max_depth :: nat where "claim_value_max_depth = 64"

definition claim_value_max_entries :: int where "claim_value_max_entries = 65536"

text \<open>\<open>f"{code}:{rest}"\<close>\<close>

definition tagged :: "string \<Rightarrow> pystr \<Rightarrow> pystr" where
  "tagged code rest = u code @ 58 # rest"

definition trimmed :: "pystr \<Rightarrow> pystr" where
  "trimmed t = rev (dropWhile blank_point (rev (dropWhile blank_point t)))"

text \<open>\<open>str(value)\<close>, of a list or a mapping as the library says\<close>

definition py_text :: "boundary_lib \<Rightarrow> pyval \<Rightarrow> pystr" where
  "py_text lib v =
     (case v of
        VStr s \<Rightarrow> s
      | VNone \<Rightarrow> u ''None''
      | VBool b \<Rightarrow> if b then u ''True'' else u ''False''
      | VInt n \<Rightarrow> int_text n
      | VFloat (Finite r) \<Rightarrow> repr_float r
      | _ \<Rightarrow> vb_str lib v)"

definition py_truthy :: "pyval \<Rightarrow> bool" where
  "py_truthy v =
     (case v of
        VNone \<Rightarrow> False
      | VBool b \<Rightarrow> b
      | VStr s \<Rightarrow> s \<noteq> []
      | VInt n \<Rightarrow> n \<noteq> 0
      | VFloat (Finite r) \<Rightarrow> r \<noteq> 0
      | VArr xs \<Rightarrow> xs \<noteq> []
      | VObj d \<Rightarrow> d \<noteq> []
      | _ \<Rightarrow> True)"

definition source_text :: "boundary_lib \<Rightarrow> pyval \<Rightarrow> pystr" where
  "source_text lib raw = (if py_truthy raw then trimmed (py_text lib raw) else [])"

section \<open>The walk over a claim's value\<close>

definition declared_provenance_source :: "pyval \<Rightarrow> pystr option" where
  "declared_provenance_source block =
     (case vget block ''source'' of
        VStr s \<Rightarrow>
          if trimmed s \<in> set hook_provenance_sources \<or> trimmed s \<in> set non_hook_provenance_sources
          then Some (trimmed s) else None
      | _ \<Rightarrow> None)"

text \<open>The children of a container by their key texts, mappings in the order of the keys.\<close>

definition container_entries :: "pyval \<Rightarrow> ((pystr \<times> pyval) list \<times> bool) option" where
  "container_entries node =
     (case node of
        VObj d \<Rightarrow> Some (sort_key fst d, True)
      | VArr xs \<Rightarrow> Some (map (\<lambda>(i, x). (decimal_digits (int i), x)) (enumerate 0 xs), False)
      | _ \<Rightarrow> None)"

definition entry_path :: "bool \<Rightarrow> pystr \<Rightarrow> pystr \<Rightarrow> pystr" where
  "entry_path is_mapping path key = (if is_mapping then path @ 46 # key else path @ 91 # key @ [93])"

definition names_authorisation :: "(pystr \<times> pyval) list \<Rightarrow> bool \<Rightarrow> bool" where
  "names_authorisation items is_mapping \<longleftrightarrow>
     is_mapping \<and> list_ex (\<lambda>p. trimmed (fst p) \<in> set discount_authorisation_claim_keys) items"

fun value_size :: "pyval \<Rightarrow> nat" where
  "value_size (VObj d) = Suc (sum_list (map (\<lambda>p. value_size (snd p)) d))"
| "value_size (VArr xs) = Suc (sum_list (map value_size xs))"
| "value_size v = 1"

lemma container_entries_size:
  "container_entries node = Some (items, m) \<Longrightarrow> Suc (sum_list (map (\<lambda>p. value_size (snd p)) items)) = value_size node"
proof (cases node)
  case (VObj d)
  assume "container_entries node = Some (items, m)"
  then have "items = sort_key fst d" using VObj by (simp add: container_entries_def)
  moreover have "mset (map (\<lambda>p. value_size (snd p)) (sort_key fst d)) = mset (map (\<lambda>p. value_size (snd p)) d)"
    by simp
  then have "sum_list (map (\<lambda>p. value_size (snd p)) (sort_key fst d)) = sum_list (map (\<lambda>p. value_size (snd p)) d)"
    using sum_mset_sum_list by metis
  ultimately show ?thesis using VObj by simp
next
  case (VArr xs)
  assume "container_entries node = Some (items, m)"
  then have "items = map (\<lambda>(i, x). (decimal_digits (int i), x)) (enumerate 0 xs)"
    using VArr by (simp add: container_entries_def)
  moreover have "map (\<lambda>p. value_size (snd p)) (map (\<lambda>(i, x). (decimal_digits (int i), x)) (enumerate n xs)) =
      map value_size xs" for n
    by (induction xs arbitrary: n) simp_all
  ultimately show ?thesis using VArr by simp
qed (simp_all add: container_entries_def)

record walk_result =
  wr_found :: "(pystr \<times> pystr) list"
  wr_mentions :: bool
  wr_truncated :: bool

type_synonym walk_stack = "(pyval \<times> pystr \<times> nat) list"

definition stack_size :: "walk_stack \<Rightarrow> nat" where
  "stack_size stack = sum_list (map (\<lambda>e. value_size (fst e)) stack)"

definition children_of :: "(pystr \<times> pyval) list \<Rightarrow> bool \<Rightarrow> pystr \<Rightarrow> nat \<Rightarrow> walk_stack" where
  "children_of items is_mapping path depth =
     map (\<lambda>p. (snd p, entry_path is_mapping path (fst p), Suc depth)) items"

lemma stack_size_simps [simp]:
  "stack_size ((node, path, depth) # stack) = value_size node + stack_size stack"
  "stack_size (s @ t) = stack_size s + stack_size t"
  "stack_size (children_of items m path depth) = sum_list (map (\<lambda>p. value_size (snd p)) items)"
  by (simp_all add: stack_size_def children_of_def comp_def)

lemma value_size_pos [simp]: "0 < value_size v"
  by (cases v) simp_all

definition note_source :: "pyval \<Rightarrow> pystr \<Rightarrow> walk_result \<Rightarrow> walk_result" where
  "note_source node path w =
     (case declared_provenance_source node of
        Some source \<Rightarrow> w\<lparr>wr_found := wr_found w @ [(path, source)]\<rparr>
      | None \<Rightarrow> w)"

text \<open>The loop of \<open>_walk_claim_value\<close>: the top of the stack is the head of the list.\<close>

function (sequential) walk_loop :: "int \<Rightarrow> walk_stack \<Rightarrow> walk_result \<Rightarrow> walk_result" where
  "walk_loop budget [] w = w"
| "walk_loop budget ((node, path, depth) # stack) w =
     (case container_entries node of
        None \<Rightarrow> walk_loop budget stack (note_source node path w)
      | Some (items, is_mapping) \<Rightarrow>
          if items \<noteq> [] \<and> (claim_value_max_depth < depth \<or> budget < int (length items))
          then walk_loop budget stack ((note_source node path w)\<lparr>wr_truncated := True\<rparr>)
          else walk_loop (budget - int (length items)) (children_of items is_mapping path depth @ stack)
                 ((note_source node path w)\<lparr>wr_mentions := wr_mentions w \<or> names_authorisation items is_mapping\<rparr>))"
  by pat_completeness auto
termination
  by (relation "measure (\<lambda>(budget, stack, w). stack_size stack)") (auto dest: container_entries_size)

definition walk_claim_value :: "pyval \<Rightarrow> pystr \<Rightarrow> walk_result" where
  "walk_claim_value v label =
     walk_loop claim_value_max_entries [(v, label @ u ''.value'', 0)]
       \<lparr>wr_found = [], wr_mentions = False, wr_truncated = False\<rparr>"

section \<open>The verdict on a claim\<close>

text \<open>A verdict is the reasons and whether the claim has to be verified.\<close>

definition authorisation_verdict ::
  "pyval \<Rightarrow> pystr \<Rightarrow> pystr \<Rightarrow> bool \<Rightarrow> bool \<Rightarrow> pystr list \<times> bool" where
  "authorisation_verdict claim path label addressable mentions =
     (let asserted = mentions \<or>
            (case vget claim ''key'' of
               VStr k \<Rightarrow> trimmed k \<in> set discount_authorisation_claim_keys
             | _ \<Rightarrow> False)
      in if path \<noteq> external_path \<or> \<not> asserted then ([], False)
         else if addressable then ([], True)
         else ([tagged ''unverified_discount_authorisation'' label], False))"

definition verdict_for_source :: "pystr \<Rightarrow> pystr \<Rightarrow> pystr \<Rightarrow> bool \<Rightarrow> pystr list \<times> bool" where
  "verdict_for_source source path label addressable =
     (if source \<in> set hook_provenance_sources then ([], False)
      else if source \<in> set non_hook_provenance_sources then
        if path = hosted_path then ([tagged ''hosted_non_hook_provenance'' (label @ 58 # source)], False)
        else if addressable then ([], True)
        else ([tagged ''unverifiable_claim_site'' (label @ 58 # source)], False)
      else ([tagged ''claim_provenance_unknown_source'' (label @ 58 # source)], False))"

definition source_verdict ::
  "boundary_lib \<Rightarrow> pyval \<Rightarrow> pystr \<Rightarrow> pystr \<Rightarrow> bool \<Rightarrow> walk_result \<Rightarrow> pystr list \<times> bool" where
  "source_verdict lib holder path label addressable w =
     (let provenance = vget holder ''provenance''; source = source_text lib (vget provenance ''source'') in
      if provenance = VNone then ([tagged ''claim_without_provenance'' label], False)
      else if source = [] then ([tagged ''claim_provenance_empty_source'' label], False)
      else
        let verdicts = verdict_for_source source path label addressable #
              map (\<lambda>(l, s). verdict_for_source s path l addressable) (wr_found w);
            reasons = concat (map fst verdicts); needs = list_ex snd verdicts
        in if wr_truncated w then (reasons @ [tagged ''claim_value_unwalkable'' label], False)
           else (reasons, needs))"

definition claim_label :: "pystr option \<Rightarrow> nat \<Rightarrow> pystr" where
  "claim_label site index =
     (case site of
        None \<Rightarrow> decimal_digits (int index)
      | Some s \<Rightarrow> s @ 91 # decimal_digits (int index) @ [93])"

text \<open>The reasons and the indexes of the claims to verify.\<close>

definition claim_verdict ::
  "boundary_lib \<Rightarrow> pystr \<Rightarrow> pystr option \<Rightarrow> nat \<times> pyval \<Rightarrow> pystr list \<times> nat list" where
  "claim_verdict lib path site entry =
     (let (index, claim) = entry; label = claim_label site index;
          w = walk_claim_value (vget claim ''value'') label;
          (reasons, needs) = source_verdict lib claim path label (site = None) w;
          (auth_reasons, needs_auth) = authorisation_verdict claim path label (site = None) (wr_mentions w)
      in (reasons @ auth_reasons, if needs \<or> needs_auth then [index] else []))"

definition claim_provenance_reasons ::
  "boundary_lib \<Rightarrow> pyval \<Rightarrow> pystr \<Rightarrow> pystr option \<Rightarrow> pystr list \<times> nat list" where
  "claim_provenance_reasons lib claims path site =
     (case claims of
        VNone \<Rightarrow> ([], [])
      | VArr xs \<Rightarrow>
          (let verdicts = map (claim_verdict lib path site) (enumerate 0 xs)
           in (concat (map fst verdicts), concat (map snd verdicts)))
      | _ \<Rightarrow> ([u ''schema_invalid''], []))"

definition offer_claim_reasons :: "boundary_lib \<Rightarrow> pyval \<Rightarrow> pystr \<Rightarrow> pystr list" where
  "offer_claim_reasons lib offer path =
     (if offer = VNone then []
      else
        fst (claim_provenance_reasons lib (vget offer ''commitments'') path (Some (u ''offer.commitments''))) @
        (let discount = vget offer ''discount''; site = u ''offer.discount'' in
         if discount = VNone then []
         else fst (source_verdict lib discount path site False (walk_claim_value (vget discount ''value'') site))))"

end
