(* ===== verification/BidBoundary.thy ===== *)
theory BidBoundary
  imports BidClaims
begin

text \<open>
  Prices, expiry, eligibility and the whole verdict on a bid (\<open>packages/contracts/src/boundary.py\<close>).

  An integer no double holds raises \<open>OverflowError\<close> where it is read as a number: \<open>Inl\<close> is the exception.
  The decimal constants of the code are the doubles nearest to them.
\<close>

section \<open>Numbers\<close>

definition cent :: rat where "cent = 5764607523034235 / 576460752303423488"

definition floor_fraction :: rat where "floor_fraction = 1152921504606847 / 1152921504606846976"

definition absolute_floor_max_fraction :: rat where
  "absolute_floor_max_fraction = 5764607523034235 / 288230376151711744"

lemma constants_nearest:
  "to_double (1 / 100) = Some cent" "to_double (1 / 1000) = Some floor_fraction"
  "to_double (2 / 100) = Some absolute_floor_max_fraction"
  by code_simp+

definition finite_number :: "pyval \<Rightarrow> string + rat option" where
  "finite_number v =
     (case v of
        VInt n \<Rightarrow> (case float_of_int n of Some r \<Rightarrow> Inr (Some r) | None \<Rightarrow> Inl ''OverflowError'')
      | VFloat (Finite r) \<Rightarrow> Inr (Some r)
      | _ \<Rightarrow> Inr None)"

definition js_truthy :: "pyval \<Rightarrow> string + bool" where
  "js_truthy v =
     (case v of
        VNone \<Rightarrow> Inr False
      | VBool b \<Rightarrow> Inr b
      | VInt n \<Rightarrow> map_sum id (\<lambda>r. r \<noteq> Some 0) (finite_number v)
      | VFloat (Finite r) \<Rightarrow> Inr (r \<noteq> 0)
      | VStr s \<Rightarrow> Inr (s \<noteq> [])
      | _ \<Rightarrow> Inr True)"

text \<open>\<open>_record\<close>: what has fields to read.\<close>

definition has_fields :: "pyval \<Rightarrow> bool" where
  "has_fields v = (case v of VObj _ \<Rightarrow> True | VTime _ _ \<Rightarrow> True | VOther \<Rightarrow> True | _ \<Rightarrow> False)"

definition price_floor :: "rat \<Rightarrow> rat" where
  "price_floor listed =
     (let absolute = (if listed \<ge> cent
                      then min cent (the (double_mul listed absolute_floor_max_fraction)) else 0)
      in max (the (double_mul listed floor_fraction)) absolute)"

section \<open>Prices\<close>

definition unreconcilable :: "string \<Rightarrow> pystr \<Rightarrow> pystr" where
  "unreconcilable site why = tagged ''price_unreconcilable'' (tagged site why)"

definition percentage_discount_types :: "pystr list" where
  "percentage_discount_types = [u ''percentage'', u ''percent'', u ''pct'']"

definition declared_depth :: "boundary_lib \<Rightarrow> pyval \<Rightarrow> string + rat option \<times> pystr list" where
  "declared_depth lib offer =
     (let discount = vget offer ''discount''; site = ''offer.discount'' in
      if discount = VNone then Inr (Some 0, [])
      else
        and_then (finite_number (vget discount ''value'')) (\<lambda>depth.
          case depth of
            None \<Rightarrow> Inr (None, [unreconcilable site (u ''depth_not_a_number'')])
          | Some r \<Rightarrow>
              if r = 0 then Inr (Some 0, [])
              else
                let spelling = (case vget discount ''type'' of
                      VStr kind \<Rightarrow> vb_lower lib (strip_text kind) | _ \<Rightarrow> u ''not_a_string'')
                in if spelling \<notin> set percentage_discount_types then Inr (None, [unreconcilable site spelling])
                   else if r < 0 \<or> r > 100 then Inr (None, [unreconcilable site (u ''depth_out_of_range'')])
                   else Inr (Some r, [])))"

text \<open>The list prices a list of claims carries, and whether one of them cannot be read.\<close>

fun carried_prices :: "pyval list \<Rightarrow> string + rat list \<times> bool" where
  "carried_prices [] = Inr ([], False)"
| "carried_prices (claim # claims) =
     (if (case vget claim ''key'' of VStr k \<Rightarrow> strip_text k = u ''list_price'' | _ \<Rightarrow> False)
      then
        and_then (finite_number (vget claim ''value'')) (\<lambda>listed.
        and_then (carried_prices claims) (\<lambda>(values, unreadable).
          case listed of
            Some r \<Rightarrow> if r < 0 then Inr (values, True) else Inr (r # values, unreadable)
          | None \<Rightarrow> Inr (values, True)))
      else carried_prices claims)"

definition claims_of :: "pyval \<Rightarrow> pyval list" where
  "claims_of v = (case v of VArr xs \<Rightarrow> xs | _ \<Rightarrow> [])"

definition carried_list_price :: "pyval \<Rightarrow> pyval \<Rightarrow> string + rat option \<times> pystr list" where
  "carried_list_price bid offer =
     and_then (carried_prices (claims_of (vget bid ''claims'') @ claims_of (vget offer ''commitments'')))
       (\<lambda>(values, unreadable).
         if unreadable then Inr (None, [unreconcilable ''offer.unit_price'' (u ''unreadable_list_price'')])
         else
           case remdups values of
             [] \<Rightarrow> Inr (None, [])
           | [r] \<Rightarrow> Inr (Some r, [])
           | _ \<Rightarrow> Inr (None, [unreconcilable ''offer.unit_price'' (u ''ambiguous_list_price'')]))"

text \<open>
  The caller's roster is what its \<open>get\<close> answers, \<open>None\<close> where it raises too; \<open>rows_under\<close> is a mapping
  whose keys are texts, and what is no mapping has no rows. \<open>roster_row\<close> is the row for the product of
  the offer.
\<close>

type_synonym price_roster = "pyval \<Rightarrow> pyval option"

definition rows_under :: "pyval \<Rightarrow> price_roster" where
  "rows_under list_prices key =
     (case (list_prices, key) of (VObj d, VStr ref) \<Rightarrow> dget d ref | _ \<Rightarrow> None)"

definition roster_row :: "pyval \<Rightarrow> price_roster \<Rightarrow> pyval option" where
  "roster_row offer list_prices =
     (case list_prices (vget offer ''product_ref'') of Some VNone \<Rightarrow> None | r \<Rightarrow> r)"

definition authorized_depth :: "pyval \<Rightarrow> price_roster \<Rightarrow> pyval \<Rightarrow> string + rat option \<times> pystr list" where
  "authorized_depth offer list_prices max_discount_pct =
     (let stated = (case roster_row offer list_prices of Some row \<Rightarrow> vget row ''max_discount_pct'' | None \<Rightarrow> VNone);
          raw = (if stated = VNone then max_discount_pct else stated); site = ''offer.discount'' in
      if raw = VNone then Inr (None, [unreconcilable site (u ''authorized_depth_unavailable'')])
      else
        and_then (finite_number raw) (\<lambda>cap.
          case cap of
            Some c \<Rightarrow> if c < 0 \<or> c > 100 then Inr (None, [unreconcilable site (u ''unreadable_authorized_depth'')])
                     else Inr (Some c, [])
          | None \<Rightarrow> Inr (None, [unreconcilable site (u ''unreadable_authorized_depth'')])))"

definition roster_list_price :: "pyval \<Rightarrow> price_roster \<Rightarrow> string + rat option \<times> pystr list" where
  "roster_list_price offer list_prices =
     (let site = ''offer.unit_price'' in
      case roster_row offer list_prices of
        None \<Rightarrow> Inr (None, [unreconcilable site (u ''list_price_unavailable'')])
      | Some row \<Rightarrow>
          and_then (finite_number row) (\<lambda>direct.
          and_then (case direct of Some r \<Rightarrow> Inr (Some r) | None \<Rightarrow> finite_number (vget row ''list_price''))
            (\<lambda>listed.
              case listed of
                Some r \<Rightarrow> if r < 0 then Inr (None, [unreconcilable site (u ''unreadable_roster_list_price'')])
                         else Inr (Some r, [])
              | None \<Rightarrow> Inr (None, [unreconcilable site (u ''unreadable_roster_list_price'')]))))"

definition amount_reasons :: "string \<Rightarrow> rat option \<Rightarrow> pystr list" where
  "amount_reasons site amount =
     (case amount of
        None \<Rightarrow> [unreconcilable site (u ''not_a_number'')]
      | Some r \<Rightarrow> if r < 0 then [unreconcilable site (u ''negative'')] else [])"

definition floor_reasons :: "rat \<Rightarrow> string \<Rightarrow> rat option \<Rightarrow> pystr list" where
  "floor_reasons rostered site priced =
     (case priced of
        None \<Rightarrow> []
      | Some r \<Rightarrow> if r = 0 then [unreconcilable site (u ''not_positive'')]
                 else if 0 < r \<and> r < price_floor rostered then [unreconcilable site (u ''below_price_floor'')]
                 else [])"

text \<open>
  \<open>price + PRICE_RECONCILIATION_TOLERANCE < listed * (100.0 - depth) / 100.0\<close>; a product beyond the
  largest double is infinite.
\<close>

definition under_depth :: "rat \<Rightarrow> rat \<Rightarrow> rat \<Rightarrow> bool" where
  "under_depth price listed depth \<longleftrightarrow>
     (let lhs = the (double_add price cent); keep = the (double_sub 100 depth) in
      case double_mul listed keep of
        None \<Rightarrow> True
      | Some r \<Rightarrow> lhs < the (double_div r 100))"

definition depth_in_force :: "rat \<Rightarrow> rat option \<Rightarrow> rat \<times> pystr list" where
  "depth_in_force depth cap =
     (if depth > 0 then
        (case cap of
           None \<Rightarrow> (0, [])
         | Some c \<Rightarrow> (min depth c, if depth > c then [tagged ''discount_over_authorized_depth'' (u ''offer.discount'')] else []))
      else (case cap of Some c \<Rightarrow> (c, []) | None \<Rightarrow> (depth, [])))"

text \<open>The relations between the prices, the depth and the list prices, once all of them are read.\<close>

type_synonym 'a noted = "'a option \<times> pystr list"

definition relation_reasons ::
  "rat \<Rightarrow> rat \<Rightarrow> rat option \<Rightarrow> rat noted \<Rightarrow> rat noted \<Rightarrow> rat noted \<Rightarrow> pystr list" where
  "relation_reasons depth unit total_price cap carried rostered =
     (let (authorized, over) = depth_in_force depth (fst cap);
          listed = (case fst rostered of Some r \<Rightarrow> Some r | None \<Rightarrow> fst carried)
      in (if depth > 0 then snd cap else []) @ over @ snd carried @ snd rostered @
         (case (fst rostered, fst carried) of
            (Some r, Some c) \<Rightarrow>
              if \<bar>the (double_sub r c)\<bar> > cent
              then [unreconcilable ''offer.unit_price'' (u ''list_price_contradicts_roster'')] else []
          | _ \<Rightarrow> []) @
         (case fst rostered of
            Some r \<Rightarrow>
              if r > 0 then floor_reasons r ''offer.unit_price'' (Some unit) @
                floor_reasons r ''offer.total_price'' total_price
              else []
          | None \<Rightarrow> []) @
         (case listed of
            Some l \<Rightarrow>
              if under_depth unit l authorized
              then [tagged ''price_under_declared_depth'' (u ''offer.unit_price'')] else []
          | None \<Rightarrow> []) @
         (case total_price of
            Some paid \<Rightarrow>
              if authorized > 0 \<and> paid \<ge> 0 \<and> under_depth paid unit authorized
              then [tagged ''price_under_declared_depth'' (u ''offer.total_price'')] else []
          | None \<Rightarrow> []))"

definition price_reasons :: "boundary_lib \<Rightarrow> pyval \<Rightarrow> pyval \<Rightarrow> price_roster \<Rightarrow> pyval \<Rightarrow> string + pystr list" where
  "price_reasons lib bid offer list_prices max_discount_pct =
     (if \<not> has_fields offer then Inr [unreconcilable ''offer'' (u ''illegible'')]
      else
        and_then (declared_depth lib offer) (\<lambda>(depth, depth_reasons).
        and_then (finite_number (vget offer ''unit_price'')) (\<lambda>unit_price.
        and_then (finite_number (vget offer ''total_price'')) (\<lambda>total_price.
          let first = depth_reasons @ amount_reasons ''offer.unit_price'' unit_price @
                amount_reasons ''offer.total_price'' total_price in
          case (depth, unit_price) of
            (Some d, Some unit) \<Rightarrow>
              if unit < 0 then Inr first
              else
                and_then (authorized_depth offer list_prices max_discount_pct) (\<lambda>cap.
                and_then (carried_list_price bid offer) (\<lambda>carried.
                and_then (roster_list_price offer list_prices) (\<lambda>rostered.
                  Inr (first @ relation_reasons d unit total_price cap carried rostered))))
          | _ \<Rightarrow> Inr first))))"

section \<open>Date-times, expiry and eligibility\<close>

text \<open>\<open>check(holder, prefix, fields)\<close> for one field.\<close>

definition format_reason :: "pystr list \<Rightarrow> pyval \<Rightarrow> pystr \<Rightarrow> string \<Rightarrow> pystr list" where
  "format_reason reported holder prefix field =
     (case vget holder field of
        VStr s \<Rightarrow>
          (let location = (if prefix = [] then u field else prefix @ 46 # u field) in
           if is_rfc3339_date_time s \<or> location \<in> set reported then []
           else [tagged ''schema_invalid'' location])
      | _ \<Rightarrow> [])"

definition claim_format_reasons :: "pystr list \<Rightarrow> pyval \<Rightarrow> pystr \<Rightarrow> pystr list" where
  "claim_format_reasons reported claims prefix =
     concat (map (\<lambda>(i, claim). format_reason reported (vget claim ''provenance'')
       (prefix @ 46 # decimal_digits (int i) @ u ''.provenance'') ''observed_at'')
       (enumerate 0 (claims_of claims)))"

definition date_time_format_reasons :: "bool \<Rightarrow> pystr list \<Rightarrow> pyval \<Rightarrow> pyval \<Rightarrow> pystr list" where
  "date_time_format_reasons signed reported bid offer =
     claim_format_reasons reported (vget bid ''claims'') (u ''claims'') @
     format_reason reported offer (u ''offer'') ''expires_at'' @
     claim_format_reasons reported (vget offer ''commitments'') (u ''offer.commitments'') @
     format_reason reported (vget (vget offer ''discount'') ''provenance'') (u ''offer.discount.provenance'') ''observed_at'' @
     (if signed then format_reason reported bid [] ''issued_at'' else [])"

definition expiry_reasons :: "boundary_lib \<Rightarrow> pyval \<Rightarrow> int \<Rightarrow> pystr list" where
  "expiry_reasons lib offer now =
     (let raw = vget offer ''expires_at'' in
      if offer = VNone \<or> raw = VNone \<or> (case raw of VStr s \<Rightarrow> strip_text s = [] | _ \<Rightarrow> False)
      then [u ''offer_expiry_missing'']
      else
        case parse_instant lib raw of
          None \<Rightarrow> [u ''offer_expiry_unparseable'']
        | Some t \<Rightarrow> if t \<le> now then [u ''offer_expired''] else [])"

text \<open>
  A snapshot is what its \<open>get\<close> answers: \<open>Inl\<close> for the \<open>TypeError\<close> of an unhashable key. \<open>None\<close> is what
  is no mapping.
\<close>

type_synonym trust_view = "(pyval \<Rightarrow> unit + pyval) option"

definition mapping_view :: "pyval \<Rightarrow> trust_view" where
  "mapping_view v =
     (case v of
        VObj d \<Rightarrow>
          Some (\<lambda>key. case key of
              VStr s \<Rightarrow> Inr (case dget d s of Some row \<Rightarrow> row | None \<Rightarrow> VNone)
            | VArr _ \<Rightarrow> Inl ()
            | VObj _ \<Rightarrow> Inl ()
            | _ \<Rightarrow> Inr VNone)
      | _ \<Rightarrow> None)"

definition eligibility_reasons :: "boundary_lib \<Rightarrow> pyval \<Rightarrow> trust_view \<Rightarrow> string + pystr list" where
  "eligibility_reasons lib store_id snapshot =
     (case snapshot of
        None \<Rightarrow> Inr [u ''trust_snapshot_unavailable'']
      | Some get \<Rightarrow>
          (case get store_id of
             Inl _ \<Rightarrow> Inr [tagged ''trust_snapshot_unavailable'' (vb_str lib store_id)]
           | Inr row \<Rightarrow>
               if \<not> has_fields row then Inr [tagged ''trust_snapshot_unavailable'' (py_text lib store_id)]
               else
                 map_sum id (\<lambda>b. if b then [tagged ''store_blacklisted'' (py_text lib store_id)] else [])
                   (js_truthy (vget row ''blacklisted''))))"

definition signing_envelope_reasons :: "pyval \<Rightarrow> pystr list" where
  "signing_envelope_reasons bid =
     map (\<lambda>field. tagged ''signing_envelope_incomplete'' (u field)) (missing_signing_fields bid) @
     (case vget bid ''signature'' of
        VStr s \<Rightarrow> if strip_text s = [] then [u ''signature_missing''] else []
      | _ \<Rightarrow> [u ''signature_missing''])"

section \<open>The verdict on a bid\<close>

record bid_verdict =
  bv_ok :: bool
  bv_path :: pystr
  bv_reasons :: "pystr list"
  bv_requires_verification :: bool
  bv_unverified :: "nat list"

fun joined_locations :: "pystr list \<Rightarrow> pystr" where
  "joined_locations [] = []"
| "joined_locations [l] = (if l = [] then u ''<root>'' else l)"
| "joined_locations (l # ls) = (if l = [] then u ''<root>'' else l) @ 59 # joined_locations ls"

definition schema_reasons :: "schema_answer \<Rightarrow> pystr list" where
  "schema_reasons answer =
     (case answer of
        SchemaOk \<Rightarrow> []
      | SchemaErrors locations \<Rightarrow> [tagged ''schema_invalid'' (joined_locations (take 8 locations))]
      | SchemaRaised \<Rightarrow> [u ''schema_invalid''])"

definition reported_locations :: "schema_answer \<Rightarrow> pystr list" where
  "reported_locations answer = (case answer of SchemaErrors locations \<Rightarrow> take 8 locations | _ \<Rightarrow> [])"

text \<open>\<open>now\<close> is the instant the code evaluates at.\<close>

definition validate_bid ::
  "boundary_lib \<Rightarrow> pystr \<Rightarrow> trust_view \<Rightarrow> int \<Rightarrow> bool \<Rightarrow> price_roster \<Rightarrow> pyval \<Rightarrow> pyval \<Rightarrow> string + bid_verdict" where
  "validate_bid lib path snapshot now signed list_prices max_discount_pct bid =
     (if path \<notin> {hosted_path, external_path}
      then Inr \<lparr>bv_ok = False, bv_path = path, bv_reasons = [tagged ''unknown_path'' path],
                bv_requires_verification = False, bv_unverified = []\<rparr>
      else
        let answer = vb_schema lib signed (case bid of VObj d \<Rightarrow> bid | _ \<Rightarrow> VObj []); offer = vget bid ''offer'';
            (claim_reasons, unverified) = claim_provenance_reasons lib (vget bid ''claims'') path None
        in
          and_then (price_reasons lib bid offer list_prices max_discount_pct) (\<lambda>prices.
          and_then (eligibility_reasons lib (vget bid ''store_id'') snapshot) (\<lambda>eligibility.
            let reasons = schema_reasons answer @
                  date_time_format_reasons signed (reported_locations answer) bid offer @
                  claim_reasons @ offer_claim_reasons lib offer path @ prices @ expiry_reasons lib offer now @
                  eligibility @ (if signed then signing_envelope_reasons bid else []);
                ok = (reasons = [])
            in Inr \<lparr>bv_ok = ok, bv_path = path, bv_reasons = reasons,
                    bv_requires_verification = (ok \<and> unverified \<noteq> []),
                    bv_unverified = (if ok then unverified else [])\<rparr>)))"

definition validate_external_submission ::
  "boundary_lib \<Rightarrow> trust_view \<Rightarrow> int \<Rightarrow> pyval \<Rightarrow> pyval \<Rightarrow> pyval \<Rightarrow> string + bid_verdict" where
  "validate_external_submission lib snapshot now list_prices max_discount_pct submission =
     validate_bid lib external_path snapshot now True (rows_under list_prices) max_discount_pct submission"

end
