(* ===== verification/Door.thy ===== *)
theory Door
  imports BidBoundary
begin

text \<open>
  The signed door for external bids: the replay memory
  (\<open>packages/store-agent/src/external/nonces.py\<close>), the gates of \<open>receive_bid\<close>
  (\<open>packages/store-agent/src/external/door.py\<close>), and the handler of
  \<open>POST /v1/auctions/{id}/bids\<close> in front of them (\<open>apps/exchange/src/external_bids/routes.py\<close>).

  A payload is what \<open>json.loads\<close> makes of the body, so reading it does not change it; \<open>now\<close> is the
  instant the door judges by. A text is a list of code points.
\<close>

section \<open>The replay memory\<close>

record nonce_store =
  ns_max :: nat
  ns_consumed :: "(pystr \<times> pystr, int option) dict"

definition max_tracked_nonces :: int where "max_tracked_nonces = 32768"

text \<open>\<open>None\<close> is the \<open>ValueError\<close> of a ceiling below 1.\<close>

definition new_nonce_store :: "int \<Rightarrow> nonce_store option" where
  "new_nonce_store max_entries =
     (if max_entries < 1 then None else Some \<lparr>ns_max = nat max_entries, ns_consumed = []\<rparr>)"

datatype spend = Spent | AlreadySpent | StoreFull

definition consume :: "pystr \<Rightarrow> pystr \<Rightarrow> int option \<Rightarrow> nonce_store \<Rightarrow> spend \<times> nonce_store" where
  "consume signer_id nonce retention s =
     (if (signer_id, nonce) \<in> set (dkeys (ns_consumed s)) then (AlreadySpent, s)
      else if length (ns_consumed s) \<ge> ns_max s then (StoreFull, s)
      else (Spent, s\<lparr>ns_consumed := dset (signer_id, nonce) retention (ns_consumed s)\<rparr>))"

definition nonce_seen :: "pystr \<Rightarrow> pystr \<Rightarrow> nonce_store \<Rightarrow> bool" where
  "nonce_seen signer_id nonce s \<longleftrightarrow> (signer_id, nonce) \<in> set (dkeys (ns_consumed s))"

definition closed_before :: "int \<Rightarrow> int option \<Rightarrow> bool" where
  "closed_before moment retention \<longleftrightarrow> (case retention of Some t \<Rightarrow> t < moment | None \<Rightarrow> False)"

definition purge_expired :: "int \<Rightarrow> nonce_store \<Rightarrow> nat \<times> nonce_store" where
  "purge_expired moment s =
     (length (filter (\<lambda>e. closed_before moment (snd e)) (ns_consumed s)),
      s\<lparr>ns_consumed := filter (\<lambda>e. \<not> closed_before moment (snd e)) (ns_consumed s)\<rparr>)"

section \<open>The parts of the door\<close>

record receipt =
  rc_accepted :: bool
  rc_verified :: bool
  rc_status :: pystr
  rc_reasons :: "pystr list"
  rc_signer_id :: "pystr option"
  rc_nonce :: "pystr option"
  rc_unverified :: "nat list"

definition text_field :: "pyval \<Rightarrow> string \<Rightarrow> pystr option" where
  "text_field v name = (case vget v name of VStr s \<Rightarrow> Some s | _ \<Rightarrow> None)"

definition refuse :: "pystr list \<Rightarrow> pyval \<Rightarrow> receipt" where
  "refuse reasons payload =
     \<lparr>rc_accepted = False, rc_verified = False, rc_status = u ''rejected'', rc_reasons = reasons,
      rc_signer_id = text_field payload ''signer_id'', rc_nonce = text_field payload ''nonce'',
      rc_unverified = []\<rparr>"

text \<open>The entries of a blacklist, \<open>None\<close> for one that cannot be read.\<close>

definition blocked_entries :: "pyval \<Rightarrow> pyval list option" where
  "blocked_entries blacklist =
     (case blacklist of
        VStr s \<Rightarrow> Some [VStr s]
      | VArr xs \<Rightarrow> Some xs
      | VObj d \<Rightarrow> Some (map (VStr \<circ> fst) d)
      | _ \<Rightarrow> None)"

definition door_blacklisted :: "pyval \<Rightarrow> pyval \<Rightarrow> bool" where
  "door_blacklisted payload blacklist \<longleftrightarrow>
     (if blacklist = VNone then False
      else
        case blocked_entries blacklist of
          None \<Rightarrow> True
        | Some entries \<Rightarrow>
            list_ex (\<lambda>e. case e of VStr _ \<Rightarrow> False | _ \<Rightarrow> True) entries \<or>
            list_ex (\<lambda>e. vget payload ''store_id'' = e \<or> vget payload ''signer_id'' = e) entries)"

definition snapshot_max_depth :: nat where "snapshot_max_depth = 32"

text \<open>Whether \<open>_plain\<close> copies a value; on plain JSON the copy is the value.\<close>

function copyable :: "nat \<Rightarrow> pyval \<Rightarrow> bool" where
  "copyable depth v =
     (case v of
        VStr _ \<Rightarrow> True
      | VObj d \<Rightarrow> depth < snapshot_max_depth \<and> list_all (\<lambda>x. copyable (Suc depth) x) (map snd d)
      | VArr xs \<Rightarrow> depth < snapshot_max_depth \<and> list_all (\<lambda>x. copyable (Suc depth) x) xs
      | _ \<Rightarrow> depth < snapshot_max_depth)"
  by pat_completeness auto
termination
proof (relation "measure (\<lambda>(depth, v). value_size v)")
  have elem: "value_size x \<le> sum_list (map value_size xs)" if "x \<in> set xs" for x xs
    using that by (induction xs) auto
  show "((Suc depth, x), (depth, v)) \<in> measure (\<lambda>(depth, v). value_size v)"
    if "v = VObj d" "x \<in> set (map snd d)" for depth v d x
    using that elem [of x "map snd d"] by (simp add: comp_def)
  show "((Suc depth, x), (depth, v)) \<in> measure (\<lambda>(depth, v). value_size v)"
    if "v = VArr xs" "x \<in> set xs" for depth v xs x
    using that elem [of x xs] by simp
qed simp

declare copyable.simps [simp del]

text \<open>\<open>issued_at + timedelta(seconds=window)\<close>, \<open>None\<close> where it overflows.\<close>

definition horizon :: "int \<Rightarrow> rat \<Rightarrow> int option" where
  "horizon issued_at window =
     (let d = micros_of_seconds window; t = issued_at + d in
      if d div 86400000000 \<le> 999999999 \<and> in_datetime_range t then Some t else None)"

definition nonce_retention :: "boundary_lib \<Rightarrow> pyval \<Rightarrow> int option \<Rightarrow> int \<Rightarrow> rat \<Rightarrow> int option" where
  "nonce_retention lib auction_deadline deadline issued_at window =
     (if deadline \<noteq> None then parse_instant lib auction_deadline else horizon issued_at window)"

text \<open>\<open>float(value)\<close>: a boolean is 0 or 1; \<open>float_text\<close> reads a text.\<close>

definition freshness_window :: "(pystr \<Rightarrow> rat option) \<Rightarrow> pyval \<Rightarrow> rat option" where
  "freshness_window float_text v =
     (case (case v of
              VBool b \<Rightarrow> Some (if b then 1 else 0)
            | VInt n \<Rightarrow> float_of_int n
            | VFloat (Finite r) \<Rightarrow> Some r
            | VStr s \<Rightarrow> float_text s
            | _ \<Rightarrow> None) of
        Some r \<Rightarrow> if r < 0 then None else Some r
      | None \<Rightarrow> None)"

definition resolved_view :: "pyval \<Rightarrow> pyval \<Rightarrow> trust_view" where
  "resolved_view trust_snapshot store_id =
     (let row = (case mapping_view trust_snapshot of
                   Some get \<Rightarrow> (case get store_id of Inr row \<Rightarrow> row | Inl _ \<Rightarrow> VNone)
                 | None \<Rightarrow> VNone)
      in Some (\<lambda>_. Inr row))"

text \<open>\<open>dict(submitted)\<close> with one key set\<close>

definition with_field :: "pyval \<Rightarrow> string \<Rightarrow> pyval \<Rightarrow> pyval" where
  "with_field v name x = (case v of VObj d \<Rightarrow> VObj (dset (u name) x d) | _ \<Rightarrow> v)"

definition work_item :: "pyval \<Rightarrow> pystr \<Rightarrow> pystr \<Rightarrow> nat list \<Rightarrow> pyval" where
  "work_item submission signature digest indexes =
     VObj [(u ''kind'', VStr (u ''external_bid_verification'')),
       (u ''auction_id'', vget submission ''auction_id''), (u ''store_id'', vget submission ''store_id''),
       (u ''signer_id'', vget submission ''signer_id''), (u ''key_id'', vget submission ''key_id''),
       (u ''issued_at'', vget submission ''issued_at''), (u ''nonce'', vget submission ''nonce''),
       (u ''payload_hash'', VStr digest), (u ''verified'', VBool False),
       (u ''verification_status'', VStr (u ''unverified'')),
       (u ''unverified_claim_indexes'', VArr (map (\<lambda>i. VInt (int i)) indexes)),
       (u ''submission'', with_field submission ''signature'' (VStr signature))]"

section \<open>The gates\<close>

text \<open>A queue takes an item or raises (\<open>False\<close>); no usable queue is \<open>None\<close>.\<close>

type_synonym 'q enqueue = "pyval \<Rightarrow> 'q \<Rightarrow> bool \<times> 'q"

record 'q door =
  do_nonces :: nonce_store
  do_queue :: 'q

text \<open>What the caller hands to \<open>receive_bid\<close> beside the submission.\<close>

record 'q door_terms =
  dt_signing :: signing_lib
  dt_boundary :: boundary_lib
  dt_float_text :: "pystr \<Rightarrow> rat option"
  dt_keyring :: pyval
  dt_enqueue :: "'q enqueue option"
  dt_has_nonces :: bool
  dt_deadline :: pyval
  dt_blacklist :: pyval
  dt_window :: pyval
  dt_trust_snapshot :: pyval
  dt_list_prices :: pyval
  dt_max_discount :: pyval

text \<open>
  The difference of two instants in seconds, as \<open>total_seconds()\<close> gives it. No two datetimes are so far
  apart that no double is near.
\<close>

definition seconds_between :: "int \<Rightarrow> int \<Rightarrow> rat" where
  "seconds_between later earlier =
     (let r = of_int (later - earlier) / 1000000 in case to_double r of Some s \<Rightarrow> s | None \<Rightarrow> r)"

text \<open>
  The gates before the replay memory: the reasons of a refusal, or what the last gates need: the
  digest, the retention of the nonce and the indexes of the unverified claims.
\<close>

definition judged ::
  "'q door_terms \<Rightarrow> int \<Rightarrow> pyval \<Rightarrow> pystr \<Rightarrow> pystr list + pystr \<times> int option \<times> nat list" where
  "judged terms now payload signature =
     (let lib = dt_boundary terms; sl = dt_signing terms in
      case canonical_signing_bytes sl payload of
        None \<Rightarrow> Inl [u ''signing_envelope_uncanonicalizable'']
      | Some message \<Rightarrow>
          if \<not> copyable 0 payload then Inl [u ''malformed_submission'']
          else
            (case (payload_hash sl payload, vget payload ''signer_id'', vget payload ''key_id'', vget payload ''nonce'') of
               (Some digest, VStr signer_id, VStr key_id, VStr nonce) \<Rightarrow>
                 (case keyring_secret (dt_keyring terms) signer_id key_id of
                    None \<Rightarrow> Inl [u ''unknown_signing_key'']
                  | Some secret \<Rightarrow>
                      if \<not> verify_signature sl payload signature secret then Inl [u ''signature_invalid'']
                      else
                        (case parse_instant lib (vget payload ''issued_at'') of
                           None \<Rightarrow> Inl [u ''issued_at_unparseable'']
                         | Some issued_at \<Rightarrow>
                             (case freshness_window (dt_float_text terms) (dt_window terms) of
                                None \<Rightarrow> Inl [u ''freshness_window_invalid'']
                              | Some window \<Rightarrow>
                                  let age = seconds_between now issued_at;
                                      deadline = parse_instant lib (dt_deadline terms) in
                                  if age > window then Inl [u ''issued_at_stale'']
                                  else if - age > window then Inl [u ''issued_at_future_dated'']
                                  else if dt_deadline terms \<noteq> VNone \<and> deadline = None
                                  then Inl [u ''auction_deadline_unparseable'']
                                  else if deadline \<noteq> None \<and> the deadline < now then Inl [u ''after_auction_deadline'']
                                  else if door_blacklisted payload (dt_blacklist terms) then Inl [u ''store_blacklisted'']
                                  else
                                    (case validate_external_submission lib
                                        (resolved_view (dt_trust_snapshot terms) (vget payload ''store_id'')) now
                                        (dt_list_prices terms) (dt_max_discount terms)
                                        (with_field payload ''signature'' (VStr signature)) of
                                       Inl e \<Rightarrow> Inl [u ''door_failed_closed'']
                                     | Inr verdict \<Rightarrow>
                                         if \<not> bv_ok verdict then Inl (bv_reasons verdict)
                                         else Inr (digest,
                                           nonce_retention lib (dt_deadline terms) deadline issued_at window,
                                           bv_unverified verdict)))))
             | _ \<Rightarrow> Inl [u ''signing_envelope_uncanonicalizable'']))"

text \<open>The last gates: the queue has to be usable before the nonce is spent, and takes the item after.\<close>

definition spent_for :: "pyval \<Rightarrow> int \<Rightarrow> int option \<Rightarrow> nonce_store \<Rightarrow> spend \<times> nonce_store" where
  "spent_for payload now retention s =
     consume (the (text_field payload ''signer_id'')) (the (text_field payload ''nonce'')) retention
       (snd (purge_expired now s))"

definition accepted_receipt :: "pyval \<Rightarrow> nat list \<Rightarrow> receipt" where
  "accepted_receipt payload indexes =
     \<lparr>rc_accepted = True, rc_verified = False, rc_status = u ''unverified'', rc_reasons = [],
      rc_signer_id = text_field payload ''signer_id'', rc_nonce = text_field payload ''nonce'',
      rc_unverified = indexes\<rparr>"

definition queued :: "'q enqueue \<Rightarrow> pyval \<Rightarrow> pyval \<Rightarrow> nat list \<Rightarrow> 'q door \<Rightarrow> receipt \<times> 'q door" where
  "queued enqueue item payload indexes d =
     (let (taken, q) = enqueue item (do_queue d) in
      (if taken then accepted_receipt payload indexes
       else refuse [u ''verification_queue_unavailable''] payload,
       d\<lparr>do_queue := q\<rparr>))"

definition admitted ::
  "'q door_terms \<Rightarrow> int \<Rightarrow> pyval \<Rightarrow> pystr \<Rightarrow> pystr \<times> int option \<times> nat list \<Rightarrow> 'q door \<Rightarrow> receipt \<times> 'q door"
where
  "admitted terms now payload signature judgement d =
     (let (digest, retention, indexes) = judgement in
      case dt_enqueue terms of
        None \<Rightarrow> (refuse [u ''verification_queue_unavailable''] payload, d)
      | Some enqueue \<Rightarrow>
          if \<not> dt_has_nonces terms then (refuse [u ''replay_memory_unavailable''] payload, d)
          else
            let (spent, s) = spent_for payload now retention (do_nonces d); d1 = d\<lparr>do_nonces := s\<rparr> in
              case spent of
                StoreFull \<Rightarrow> (refuse [u ''replay_memory_exhausted''] payload, d1)
              | AlreadySpent \<Rightarrow> (refuse [u ''replayed_nonce''] payload, d1)
              | Spent \<Rightarrow> queued enqueue (work_item payload signature digest indexes) payload indexes d1)"

text \<open>\<open>receive_bid\<close>\<close>

definition receive_bid ::
  "'q door_terms \<Rightarrow> int \<Rightarrow> pyval \<Rightarrow> pyval \<Rightarrow> 'q door \<Rightarrow> receipt \<times> 'q door" where
  "receive_bid terms now payload signature_value d =
     (case payload of
        VObj members \<Rightarrow>
          (case signature_value of
             VStr signature \<Rightarrow>
               if strip_text signature = [] then (refuse [u ''signature_missing''] payload, d)
               else
                 (case judged terms now payload signature of
                    Inl reasons \<Rightarrow> (refuse reasons payload, d)
                  | Inr judgement \<Rightarrow> admitted terms now payload signature judgement d)
           | _ \<Rightarrow> (refuse [u ''signature_missing''] payload, d))
      | _ \<Rightarrow> (refuse [u ''malformed_submission''] VNone, d))"

end
