(* ===== verification/BidRoute.thy ===== *)
theory BidRoute
  imports Door
begin

text \<open>
  \<open>POST /v1/auctions/{id}/bids\<close> (\<open>apps/exchange/src/external_bids/routes.py\<close>): the body, the checks about
  the request, the terms of the auction, the door, and the drain after an admission; the queue of
  admitted bids (\<open>verification_queue.py\<close>) and its consumer (\<open>draining.py\<close>).

  \<open>json.loads\<close> and \<open>json.dumps\<close>, the auctions the exchange holds, the trust snapshot and the grading of
  claims are fields of the records below. A request is served alone.
\<close>

section \<open>The queue of admitted bids\<close>

definition max_queued_work_items :: int where "max_queued_work_items = 10000"

text \<open>\<open>json.dumps(item, allow_nan=False, sort_keys=True)\<close> and \<open>json.loads\<close>; \<open>None\<close> is the exception.\<close>

record queue_lib =
  ql_dumps :: "pyval \<Rightarrow> pystr option"
  ql_loads :: "pystr \<Rightarrow> pyval option"

text \<open>The Redis list under the key, and whether Redis answers.\<close>

record work_queue =
  wq_entries :: "pystr list"
  wq_max :: int
  wq_reachable :: bool

definition new_work_queue :: "int \<Rightarrow> work_queue" where
  "new_work_queue max_items = \<lparr>wq_entries = [], wq_max = max_items, wq_reachable = True\<rparr>"

definition queue_enqueue :: "queue_lib \<Rightarrow> pyval \<Rightarrow> work_queue \<Rightarrow> bool \<times> work_queue" where
  "queue_enqueue lib item q =
     (case ql_dumps lib item of
        None \<Rightarrow> (False, q)
      | Some payload \<Rightarrow>
          if \<not> wq_reachable q then (False, q)
          else if int (length (wq_entries q)) \<ge> wq_max q then (False, q)
          else (True, q\<lparr>wq_entries := wq_entries q @ [payload]\<rparr>))"

text \<open>\<open>pop()\<close>: \<open>Inl\<close> is a Redis that does not answer.\<close>

definition queue_pop :: "queue_lib \<Rightarrow> work_queue \<Rightarrow> (unit + pyval option) \<times> work_queue" where
  "queue_pop lib q =
     (if \<not> wq_reachable q then (Inl (), q)
      else
        case wq_entries q of
          [] \<Rightarrow> (Inr None, q)
        | raw # rest \<Rightarrow>
            (Inr (case ql_loads lib raw of Some VNone \<Rightarrow> None | v \<Rightarrow> v), q\<lparr>wq_entries := rest\<rparr>))"

definition queue_depth :: "work_queue \<Rightarrow> int option" where
  "queue_depth q = (if wq_reachable q then Some (int (length (wq_entries q))) else None)"

section \<open>The consumer\<close>

definition drain_batch_size :: nat where "drain_batch_size = 8"

record graded_work =
  gw_claims :: pyval
  gw_store_id :: pystr
  gw_product_ref :: pyval
  gw_auction_id :: pystr
  gw_message :: pyval

text \<open>
  What a drain needs of the exchange: a recorder, the claim dimensions, whether the catalogue has a
  snapshot for a store and a product, and the grading, which writes to the ledger and may raise.
\<close>

record 'l grading =
  gr_recorder :: bool
  gr_dimensions :: bool
  gr_snapshot_for :: "pystr \<Rightarrow> pyval \<Rightarrow> bool"
  gr_attest :: "graded_work \<Rightarrow> 'l \<Rightarrow> bool \<times> 'l"

record drain_report =
  dr_verified :: nat
  dr_deferred :: nat
  dr_reason :: pystr

definition or_empty :: "pyval \<Rightarrow> pyval" where
  "or_empty v = (if py_truthy v then v else VObj [])"

text \<open>\<open>str(a or b or "")\<close>\<close>

definition text_of_either :: "boundary_lib \<Rightarrow> pyval \<Rightarrow> pyval \<Rightarrow> pystr" where
  "text_of_either lib a b =
     (if py_truthy a then py_text lib a else if py_truthy b then py_text lib b else [])"

definition item_store :: "boundary_lib \<Rightarrow> pyval \<Rightarrow> pystr" where
  "item_store lib item =
     text_of_either lib (vget item ''store_id'') (vget (or_empty (vget item ''submission'')) ''store_id'')"

definition item_product :: "pyval \<Rightarrow> pyval" where
  "item_product item = vget (or_empty (vget (or_empty (vget item ''submission'')) ''offer'')) ''product_ref''"

definition verify_work_item :: "boundary_lib \<Rightarrow> 'l grading \<Rightarrow> pyval \<Rightarrow> 'l \<Rightarrow> bool \<times> 'l" where
  "verify_work_item lib gr item ledger =
     (let submission = or_empty (vget item ''submission''); claims = vget submission ''claims'' in
      gr_attest gr
        \<lparr>gw_claims = (if py_truthy claims then claims else VArr []),
         gw_store_id = item_store lib item,
         gw_product_ref = item_product item,
         gw_auction_id = text_of_either lib (vget item ''auction_id'') (vget submission ''auction_id''),
         gw_message = vget submission ''message''\<rparr> ledger)"

definition requeue :: "queue_lib \<Rightarrow> pyval \<Rightarrow> work_queue \<Rightarrow> work_queue" where
  "requeue lib item q = snd (queue_enqueue lib item q)"

text \<open>The loop, with the items it may still take.\<close>

fun drain_loop ::
  "boundary_lib \<Rightarrow> queue_lib \<Rightarrow> 'l grading \<Rightarrow> nat \<Rightarrow> nat \<times> nat \<Rightarrow> work_queue \<Rightarrow> 'l \<Rightarrow> drain_report \<times> work_queue \<times> 'l"
where
  "drain_loop lib ql gr 0 (verified, deferred) q ledger =
     (\<lparr>dr_verified = verified, dr_deferred = deferred, dr_reason = []\<rparr>, q, ledger)"
| "drain_loop lib ql gr (Suc n) (verified, deferred) q ledger =
     (case queue_pop ql q of
        (Inl _, q1) \<Rightarrow>
          (\<lparr>dr_verified = verified, dr_deferred = deferred, dr_reason = u ''queue_unreadable''\<rparr>, q1, ledger)
      | (Inr None, q1) \<Rightarrow> (\<lparr>dr_verified = verified, dr_deferred = deferred, dr_reason = []\<rparr>, q1, ledger)
      | (Inr (Some item), q1) \<Rightarrow>
          if \<not> gr_snapshot_for gr (item_store lib item) (item_product item)
          then drain_loop lib ql gr n (verified, Suc deferred) (requeue ql item q1) ledger
          else
            (case verify_work_item lib gr item ledger of
               (True, ledger1) \<Rightarrow> drain_loop lib ql gr n (Suc verified, deferred) q1 ledger1
             | (False, ledger1) \<Rightarrow>
                 (\<lparr>dr_verified = verified, dr_deferred = Suc deferred, dr_reason = u ''verifier_failed''\<rparr>,
                  requeue ql item q1, ledger1)))"

definition nothing_drained :: "string \<Rightarrow> drain_report" where
  "nothing_drained reason = \<lparr>dr_verified = 0, dr_deferred = 0, dr_reason = u reason\<rparr>"

definition drain_verification_queue ::
  "boundary_lib \<Rightarrow> queue_lib \<Rightarrow> 'l grading \<Rightarrow> int \<Rightarrow> work_queue \<Rightarrow> 'l \<Rightarrow> drain_report \<times> work_queue \<times> 'l"
where
  "drain_verification_queue lib ql gr max_items q ledger =
     (if \<not> gr_recorder gr then (nothing_drained ''no_ledger_recorder'', q, ledger)
      else if \<not> gr_dimensions gr then (nothing_drained ''no_claim_dimension_routing'', q, ledger)
      else drain_loop lib ql gr (nat max_items) (0, 0) q ledger)"

section \<open>The body of a request\<close>

definition max_submission_bytes :: int where "max_submission_bytes = 262144"

text \<open>What \<open>json.loads\<close> makes of the bytes, a number it refuses and a recursion too deep apart.\<close>

datatype loaded = Loaded pyval | NotJson | NonFiniteNumber | NestsTooDeep

text \<open>The chunks of the stream; \<open>None\<close> is the client going away.\<close>

fun bounded_body :: "nat \<Rightarrow> int list option list \<Rightarrow> pystr + int list" where
  "bounded_body seen [] = Inr []"
| "bounded_body seen (None # chunks) = Inl (u ''malformed_submission:the_body_never_finished_arriving'')"
| "bounded_body seen (Some chunk # chunks) =
     (if int (seen + length chunk) > max_submission_bytes
      then Inl (u ''malformed_submission:body_exceeds_maximum_size'')
      else map_sum id (\<lambda>rest. chunk @ rest) (bounded_body (seen + length chunk) chunks))"

definition submission_of :: "(int list \<Rightarrow> loaded) \<Rightarrow> int list \<Rightarrow> pystr + pyval" where
  "submission_of loads raw =
     (case loads raw of
        Loaded (VObj d) \<Rightarrow> Inr (VObj d)
      | NonFiniteNumber \<Rightarrow> Inl (u ''malformed_submission:body_carries_a_non_finite_number'')
      | NestsTooDeep \<Rightarrow> Inl (u ''malformed_submission:body_nests_deeper_than_this_door_will_parse'')
      | _ \<Rightarrow> Inl (u ''malformed_submission:body_is_not_a_json_object''))"

definition payload_and_signature :: "boundary_lib \<Rightarrow> pyval \<Rightarrow> pystr \<Rightarrow> pyval \<times> pystr" where
  "payload_and_signature lib body header =
     (let payload = (case vget body ''payload'' of VObj d \<Rightarrow> VObj d | _ \<Rightarrow> body);
          signature = vget body ''signature''
      in (payload,
          if header \<noteq> [] then header else if signature = VNone then [] else py_text lib signature))"

section \<open>The checks about the request\<close>

definition max_identifier_length :: nat where "max_identifier_length = 128"

definition bounded_identifiers :: "string list" where
  "bounded_identifiers = [''signer_id'', ''key_id'', ''nonce'', ''store_id'']"

definition oversized_identifier :: "pyval \<Rightarrow> pystr \<Rightarrow> bool" where
  "oversized_identifier payload path_auction_id \<longleftrightarrow>
     length path_auction_id > max_identifier_length \<or>
     list_ex (\<lambda>field. case vget payload field of VStr s \<Rightarrow> length s > max_identifier_length | _ \<Rightarrow> False)
       bounded_identifiers"

definition path_mismatch :: "pyval \<Rightarrow> pystr \<Rightarrow> bool" where
  "path_mismatch payload path_auction_id \<longleftrightarrow>
     (case vget payload ''auction_id'' of VStr s \<Rightarrow> s \<noteq> path_auction_id | _ \<Rightarrow> False)"

text \<open>An auction the exchange holds: its roster and its deadline.\<close>

record held_auction =
  ha_roster :: "pyval list"
  ha_deadline :: pyval

definition priced_row :: "pyval \<Rightarrow> pyval" where
  "priced_row row =
     VObj [(u ''list_price'', vget row ''list_price''), (u ''max_discount_pct'', vget row ''max_discount_pct'')]"

text \<open>The rows of one store, by product; a later row of a product replaces an earlier one.\<close>

definition add_price :: "pyval \<Rightarrow> (pystr, pyval) dict \<Rightarrow> pyval \<Rightarrow> (pystr, pyval) dict" where
  "add_price store_id prices row =
     (case (row, store_id, vget row ''product_ref'') of
        (VObj members, VStr store, VStr ref) \<Rightarrow>
          if vget row ''store_id'' \<noteq> store_id \<or> ref = [] then prices else dset ref (priced_row row) prices
      | _ \<Rightarrow> prices)"

definition store_prices :: "pyval list \<Rightarrow> pyval \<Rightarrow> (pystr, pyval) dict" where
  "store_prices roster store_id = foldl (add_price store_id) [] roster"

definition auction_terms :: "held_auction option \<Rightarrow> pyval \<Rightarrow> pyval \<times> pyval" where
  "auction_terms auction store_id =
     (case auction of
        None \<Rightarrow> (VNone, VNone)
      | Some a \<Rightarrow>
          (ha_deadline a,
           let prices = store_prices (ha_roster a) store_id in if prices = [] then VNone else VObj prices))"

section \<open>The handler\<close>

text \<open>\<open>app.state\<close>, with the libraries. \<open>si_auction\<close> is the machine's \<open>get\<close>, \<open>None\<close> where it raises.\<close>

record 'l site =
  si_signing :: signing_lib
  si_boundary :: boundary_lib
  si_queue_lib :: queue_lib
  si_float_text :: "pystr \<Rightarrow> rat option"
  si_loads :: "int list \<Rightarrow> loaded"
  si_configured :: bool
  si_keyring :: pyval
  si_queue_bound :: bool
  si_freshness :: "pyfloat option"
  si_auction :: "pystr \<Rightarrow> held_auction option"
  si_trust_snapshot :: pyval
  si_grading :: "'l grading"

definition default_freshness_window :: pyfloat where "default_freshness_window = Finite 300"

definition freshness_of :: "'l site \<Rightarrow> pyval" where
  "freshness_of site = VFloat (case si_freshness site of Some w \<Rightarrow> w | None \<Rightarrow> default_freshness_window)"

definition terms_of :: "'l site \<Rightarrow> pyval \<Rightarrow> pystr \<Rightarrow> work_queue door_terms" where
  "terms_of site payload auction_id =
     (let (deadline, list_prices) = auction_terms (si_auction site auction_id) (vget payload ''store_id'') in
      \<lparr>dt_signing = si_signing site, dt_boundary = si_boundary site, dt_float_text = si_float_text site,
       dt_keyring = (if py_truthy (si_keyring site) then si_keyring site else VObj []),
       dt_enqueue = (if si_queue_bound site then Some (queue_enqueue (si_queue_lib site)) else None),
       dt_has_nonces = True, dt_deadline = deadline, dt_blacklist = VNone,
       dt_window = freshness_of site, dt_trust_snapshot = si_trust_snapshot site,
       dt_list_prices = list_prices, dt_max_discount = VNone\<rparr>)"

text \<open>A lone surrogate becomes a question mark in an answer.\<close>

definition renderable :: "pystr \<Rightarrow> pystr" where
  "renderable t = map (\<lambda>c. if surrogate c then 63 else c) t"

definition bid_ref_of :: "pyval \<Rightarrow> pystr option" where
  "bid_ref_of payload =
     (case filter (\<lambda>v. case v of VStr s \<Rightarrow> s \<noteq> [] | _ \<Rightarrow> False) [vget payload ''bid_ref'', vget payload ''bid_id''] of
        VStr s # _ \<Rightarrow> Some s
      | _ \<Rightarrow> None)"

text \<open>The 503, the 400 with its reasons, and the 202.\<close>

datatype bid_answer =
    Misconfigured
  | Rejected "pystr list" "nat list"
  | Admitted pystr "pystr option"

definition rejected :: "pystr list \<Rightarrow> nat list \<Rightarrow> bid_answer" where
  "rejected reasons indexes =
     Rejected (if reasons = [] then [u ''malformed_submission''] else map renderable reasons) indexes"

record bid_request =
  br_auction_id :: pystr
  br_chunks :: "int list option list"
  br_header :: "pystr option"
  br_now :: int

definition drain_after_admission ::
  "'l site \<Rightarrow> work_queue \<Rightarrow> 'l \<Rightarrow> work_queue \<times> 'l" where
  "drain_after_admission site q ledger =
     snd (drain_verification_queue (si_boundary site) (si_queue_lib site) (si_grading site)
       (int drain_batch_size) q ledger)"

definition judged_submission ::
  "'l site \<Rightarrow> int \<Rightarrow> pystr \<Rightarrow> pyval \<Rightarrow> pystr \<Rightarrow> work_queue door \<Rightarrow> 'l \<Rightarrow> bid_answer \<times> work_queue door \<times> 'l"
where
  "judged_submission site now auction_id payload signature d ledger =
     (if oversized_identifier payload auction_id
      then (rejected [u ''malformed_submission:identifier_exceeds_maximum_length''] [], d, ledger)
      else if path_mismatch payload auction_id
      then (rejected [u ''malformed_submission:auction_id_does_not_match_the_path''] [], d, ledger)
      else
        let (r, d1) = receive_bid (terms_of site payload auction_id) now payload (VStr signature) d in
          if \<not> rc_accepted r then (rejected (rc_reasons r) (rc_unverified r), d1, ledger)
          else
            let (q, ledger1) = drain_after_admission site (do_queue d1) ledger in
              (Admitted (renderable (rc_status r)) (map_option renderable (bid_ref_of payload)),
               d1\<lparr>do_queue := q\<rparr>, ledger1))"

text \<open>What the door judges: the payload and the signature of the request, or why there is none.\<close>

definition request_submission :: "'l site \<Rightarrow> bid_request \<Rightarrow> pystr + pyval \<times> pystr" where
  "request_submission site rq =
     (case bounded_body 0 (br_chunks rq) of
        Inl reason \<Rightarrow> Inl reason
      | Inr raw \<Rightarrow>
          map_sum id
            (\<lambda>body. payload_and_signature (si_boundary site) body (case br_header rq of Some h \<Rightarrow> h | None \<Rightarrow> []))
            (submission_of (si_loads site) raw))"

definition submit_external_bid ::
  "'l site \<Rightarrow> bid_request \<Rightarrow> work_queue door \<Rightarrow> 'l \<Rightarrow> bid_answer \<times> work_queue door \<times> 'l" where
  "submit_external_bid site rq d ledger =
     (if \<not> si_configured site then (Misconfigured, d, ledger)
      else
        case request_submission site rq of
          Inl reason \<Rightarrow> (rejected [reason] [], d, ledger)
        | Inr (payload, signature) \<Rightarrow>
            judged_submission site (br_now rq) (br_auction_id rq) payload signature d ledger)"

end
