(* ===== verification/DoorLaws.thy ===== *)
theory DoorLaws
  imports Door
begin

text \<open>
  The laws of the replay memory, as a locale interpreted on the store of \<open>Door\<close>, and what an accepted
  submission has passed.
\<close>

section \<open>The replay memory\<close>

definition nonce_store_ok :: "nonce_store \<Rightarrow> bool" where
  "nonce_store_ok s \<longleftrightarrow> distinct (dkeys (ns_consumed s)) \<and> length (ns_consumed s) \<le> ns_max s \<and> 0 < ns_max s"

definition held :: "nonce_store \<Rightarrow> pystr \<times> pystr \<Rightarrow> int option option" where
  "held s k = dget (ns_consumed s) k"

text \<open>
  What the door relies on: a nonce is spent once, and it is forgotten only by a purge at an instant
  after the one it is retained until.
\<close>

locale replay_memory =
  fixes spend_nonce :: "'k \<Rightarrow> int option \<Rightarrow> 's \<Rightarrow> spend \<times> 's"
    and purge :: "int \<Rightarrow> 's \<Rightarrow> 's"
    and kept :: "'s \<Rightarrow> 'k \<Rightarrow> int option option"
    and good :: "'s \<Rightarrow> bool"
  assumes spend_good: "good s \<Longrightarrow> good (snd (spend_nonce k r s))"
    and purge_good: "good s \<Longrightarrow> good (purge m s)"
    and spend_spent: "fst (spend_nonce k r s) = Spent \<Longrightarrow>
      kept s k = None \<and> kept (snd (spend_nonce k r s)) = (kept s)(k \<mapsto> r)"
    and spend_refused: "fst (spend_nonce k r s) \<noteq> Spent \<Longrightarrow> snd (spend_nonce k r s) = s"
    and purge_kept: "good s \<Longrightarrow> kept s k = Some r \<Longrightarrow> \<not> closed_before m r \<Longrightarrow> kept (purge m s) k = Some r"
begin

text \<open>A visit: the purge at its instant, then perhaps the spending of a nonce.\<close>

definition visit :: "int \<Rightarrow> ('k \<times> int option) option \<Rightarrow> 's \<Rightarrow> 's" where
  "visit m entry s =
     (case entry of None \<Rightarrow> s | Some (k, r) \<Rightarrow> snd (spend_nonce k r (purge m s)))"

lemma visit_good: "good s \<Longrightarrow> good (visit m entry s)"
  by (auto simp: visit_def spend_good purge_good split: option.split)

lemma spend_kept: "kept s k = Some r \<Longrightarrow> kept (snd (spend_nonce k' r' s)) k = Some r"
  using spend_spent [of k' r' s] spend_refused [of k' r' s] by (cases "fst (spend_nonce k' r' s) = Spent") auto

lemma visit_kept:
  "good s \<Longrightarrow> kept s k = Some r \<Longrightarrow> \<not> closed_before m r \<Longrightarrow> kept (visit m entry s) k = Some r"
  by (auto simp: visit_def spend_kept purge_kept split: option.split)

lemma kept_not_spent: "kept s k = Some r \<Longrightarrow> fst (spend_nonce k r' s) \<noteq> Spent"
  using spend_spent by fastforce

text \<open>A nonce held until after an instant is not spent again by a visit up to it.\<close>

lemma kept_not_spent_after_purge:
  "good s \<Longrightarrow> kept s k = Some r \<Longrightarrow> \<not> closed_before m r \<Longrightarrow> fst (spend_nonce k r' (purge m s)) \<noteq> Spent"
  using purge_kept kept_not_spent by metis

lemma visits_kept:
  assumes "good s" and "kept s k = Some r" and "\<forall>v \<in> set visits. \<not> closed_before (fst v) r"
  shows "kept (foldl (\<lambda>s (m, entry). visit m entry s) s visits) k = Some r"
  using assms by (induction visits arbitrary: s) (auto simp: visit_good visit_kept)

lemma visits_good: "good s \<Longrightarrow> good (foldl (\<lambda>s (m, entry). visit m entry s) s visits)"
  by (induction visits arbitrary: s) (auto simp: visit_good)

text \<open>Which of a sequence of visits spend their nonce.\<close>

definition spends_at :: "int \<times> ('k \<times> int option) option \<Rightarrow> 's \<Rightarrow> bool" where
  "spends_at v s \<longleftrightarrow>
     (case snd v of None \<Rightarrow> False | Some (k, r) \<Rightarrow> fst (spend_nonce k r (purge (fst v) s)) = Spent)"

primrec spends :: "(int \<times> ('k \<times> int option) option) list \<Rightarrow> 's \<Rightarrow> bool list" where
  "spends [] = (\<lambda>s. [])"
| "spends (v # vs) = (\<lambda>s. spends_at v s # spends vs (visit (fst v) (snd v) s))"

lemma held_not_spent:
  assumes "good s" and "kept s k = Some r" and "sorted (map fst vs)" and "i < length vs"
    and "snd (vs ! i) = Some (k, r')" and "\<not> closed_before (fst (vs ! i)) r"
  shows "\<not> spends vs s ! i"
  using assms
proof (induction vs arbitrary: s i)
  case (Cons v vs)
  have "fst v \<le> fst ((v # vs) ! i)" using Cons.prems(3,4) by (cases i) auto
  then have live: "\<not> closed_before (fst v) r"
    using Cons.prems(6) by (auto simp: closed_before_def split: option.splits)
  show ?case
  proof (cases i)
    case 0
    with Cons.prems(5) kept_not_spent_after_purge [OF Cons.prems(1,2) live, of r']
    show ?thesis by (simp add: spends_at_def)
  next
    case (Suc j)
    with Cons.IH [OF visit_good [OF Cons.prems(1)] visit_kept [OF Cons.prems(1,2) live], of j] Cons.prems
    show ?thesis by simp
  qed
qed simp

text \<open>No nonce is spent twice while it is retained.\<close>

lemma not_spent_twice:
  assumes "good s" and "sorted (map fst vs)" and "i < j" "j < length vs"
    and "snd (vs ! i) = Some (k, r)" "snd (vs ! j) = Some (k, r')"
    and "\<not> closed_before (fst (vs ! j)) r" and "spends vs s ! i"
  shows "\<not> spends vs s ! j"
  using assms
proof (induction vs arbitrary: s i j)
  case (Cons v vs)
  obtain j' where j: "j = Suc j'" using Cons.prems(3) by (cases j) auto
  show ?case
  proof (cases i)
    case 0
    with Cons.prems(5,8) have "fst (spend_nonce k r (purge (fst v) s)) = Spent" and v: "snd v = Some (k, r)"
      by (simp_all add: spends_at_def)
    then have "kept (visit (fst v) (snd v) s) k = Some r" using spend_spent by (simp add: visit_def)
    from held_not_spent [OF visit_good [OF Cons.prems(1)] this, of vs j'] Cons.prems j
    show ?thesis by simp
  next
    case (Suc i')
    with Cons.IH [OF visit_good [OF Cons.prems(1)], of i' j'] Cons.prems j show ?thesis by simp
  qed
qed simp

end

lemma purge_is: "ns_consumed (snd (purge_expired m s)) = filter (\<lambda>e. \<not> closed_before m (snd e)) (ns_consumed s)"
  and purge_max [simp]: "ns_max (snd (purge_expired m s)) = ns_max s"
  by (simp_all add: purge_expired_def)

lemma consume_max [simp]: "ns_max (snd (consume a b r s)) = ns_max s"
  by (simp add: consume_def)

lemma dget_filter_value:
  "distinct (dkeys d) \<Longrightarrow> dget d k = Some v \<Longrightarrow> P (k, v) \<Longrightarrow> dget (filter P d) k = Some v"
  by (simp add: map_of_eq_Some_iff distinct_dkeys_filter)

lemma consume_ok: "nonce_store_ok s \<Longrightarrow> nonce_store_ok (snd (consume a b r s))"
  by (auto simp: nonce_store_ok_def consume_def length_dset distinct_dset)

lemma purge_ok: "nonce_store_ok s \<Longrightarrow> nonce_store_ok (snd (purge_expired m s))"
  by (auto simp: nonce_store_ok_def purge_is distinct_dkeys_filter intro: order_trans [OF length_filter_le])

definition spend_key :: "pystr \<times> pystr \<Rightarrow> int option \<Rightarrow> nonce_store \<Rightarrow> spend \<times> nonce_store" where
  "spend_key k r s = consume (fst k) (snd k) r s"

interpretation nonces: replay_memory spend_key "\<lambda>m s. snd (purge_expired m s)" held nonce_store_ok
proof unfold_locales
  fix s k r m
  show "fst (spend_key k r s) = Spent \<Longrightarrow> held s k = None \<and> held (snd (spend_key k r s)) = (held s)(k \<mapsto> r)"
    by (auto simp: spend_key_def consume_def held_def dict_simps fun_eq_iff dget_None_iff split: if_splits)
  show "fst (spend_key k r s) \<noteq> Spent \<Longrightarrow> snd (spend_key k r s) = s"
    by (auto simp: spend_key_def consume_def split: if_splits)
  show "nonce_store_ok s \<Longrightarrow> held s k = Some r \<Longrightarrow> \<not> closed_before m r \<Longrightarrow>
      held (snd (purge_expired m s)) k = Some r"
    by (auto simp: held_def purge_is nonce_store_ok_def intro: dget_filter_value)
qed (auto simp: consume_ok purge_ok spend_key_def)

section \<open>What the gates let through\<close>

text \<open>The gates before the replay memory, as a list of facts.\<close>

lemma judgedE:
  assumes "judged terms now payload signature = Inr (digest, retention, indexes)"
  obtains message signer_id key_id nonce secret issued_at window verdict
  where "canonical_signing_bytes (dt_signing terms) payload = Some message"
    and "payload_hash (dt_signing terms) payload = Some digest"
    and "vget payload ''signer_id'' = VStr signer_id" "vget payload ''key_id'' = VStr key_id"
    and "vget payload ''nonce'' = VStr nonce"
    and "keyring_secret (dt_keyring terms) signer_id key_id = Some secret"
    and "verify_signature (dt_signing terms) payload signature secret"
    and "parse_instant (dt_boundary terms) (vget payload ''issued_at'') = Some issued_at"
    and "freshness_window (dt_float_text terms) (dt_window terms) = Some window"
    and "seconds_between now issued_at \<le> window" "- seconds_between now issued_at \<le> window"
    and "dt_deadline terms = VNone \<or> parse_instant (dt_boundary terms) (dt_deadline terms) \<noteq> None"
    and "\<not> closed_before now (parse_instant (dt_boundary terms) (dt_deadline terms))"
    and "\<not> door_blacklisted payload (dt_blacklist terms)"
    and "validate_external_submission (dt_boundary terms)
      (resolved_view (dt_trust_snapshot terms) (vget payload ''store_id'')) now (dt_list_prices terms)
      (dt_max_discount terms) (with_field payload ''signature'' (VStr signature)) = Inr verdict"
    and "bv_ok verdict" "bv_unverified verdict = indexes"
    and "retention = nonce_retention (dt_boundary terms) (dt_deadline terms)
      (parse_instant (dt_boundary terms) (dt_deadline terms)) issued_at window"
proof -
  from assms show thesis
    unfolding judged_def Let_def
    by (auto split: option.splits if_splits pyval.splits sum.splits prod.splits simp: closed_before_def not_less
        intro!: that)
qed

section \<open>What a delivery does\<close>

lemma refuse_simps [simp]:
  "\<not> rc_accepted (refuse reasons payload)" "\<not> rc_verified (refuse reasons payload)"
  "rc_reasons (refuse reasons payload) = reasons"
  by (simp_all add: refuse_def)

lemma queued_simps [simp]:
  "rc_accepted (fst (queued enqueue item payload indexes d)) = fst (enqueue item (do_queue d))"
  "fst (enqueue item (do_queue d)) \<Longrightarrow> fst (queued enqueue item payload indexes d) = accepted_receipt payload indexes"
  "snd (queued enqueue item payload indexes d) = d\<lparr>do_queue := snd (enqueue item (do_queue d))\<rparr>"
  by (auto simp: queued_def accepted_receipt_def split: prod.split)

text \<open>Past the signature check a delivery is what the last gates do with the judgement.\<close>

lemma receive_bid_cases:
  obtains (refused) reasons shown where "receive_bid terms now payload sv d = (refuse reasons shown, d)"
  | (judged) members signature judgement
      where "payload = VObj members" "sv = VStr signature" "judged terms now payload signature = Inr judgement"
        "receive_bid terms now payload sv d = admitted terms now payload signature judgement d"
proof (cases "\<exists>members signature. payload = VObj members \<and> sv = VStr signature \<and> strip_text signature \<noteq> []")
  case True
  then obtain members signature where p: "payload = VObj members" "sv = VStr signature" "strip_text signature \<noteq> []"
    by blast
  show thesis
  proof (cases "judged terms now payload signature")
    case (Inl reasons)
    with p refused [of reasons payload] show thesis by (simp add: receive_bid_def)
  next
    case (Inr judgement)
    with p judged [of members signature judgement] show thesis by (simp add: receive_bid_def)
  qed
next
  case False
  then have "\<exists>reasons shown. receive_bid terms now payload sv d = (refuse reasons shown, d)"
    by (cases payload; cases sv) (auto simp: receive_bid_def)
  with refused show thesis by blast
qed

lemma admitted_cases:
  obtains (refused) reasons where "admitted terms now payload signature (digest, retention, indexes) d = (refuse reasons payload, d)"
  | (unspent) reasons where "fst (spent_for payload now retention (do_nonces d)) \<noteq> Spent"
      "admitted terms now payload signature (digest, retention, indexes) d =
        (refuse reasons payload, d\<lparr>do_nonces := snd (spent_for payload now retention (do_nonces d))\<rparr>)"
  | (spent) enqueue where "dt_enqueue terms = Some enqueue" "dt_has_nonces terms"
      "fst (spent_for payload now retention (do_nonces d)) = Spent"
      "admitted terms now payload signature (digest, retention, indexes) d =
        queued enqueue (work_item payload signature digest indexes) payload indexes
          (d\<lparr>do_nonces := snd (spent_for payload now retention (do_nonces d))\<rparr>)"
  unfolding admitted_def
  by (cases "dt_enqueue terms"; cases "dt_has_nonces terms"; cases "spent_for payload now retention (do_nonces d)";
    cases "fst (spent_for payload now retention (do_nonces d))") auto

lemma receive_bid_judged:
  assumes "judged terms now payload signature = Inr judgement"
  shows "receive_bid terms now payload (VStr signature) d = admitted terms now payload signature judgement d"
proof -
  obtain digest retention indexes where j: "judgement = (digest, retention, indexes)" by (cases judgement)
  from assms [unfolded j] have "strip_text signature \<noteq> [] \<and> (\<exists>members. payload = VObj members)"
    by (rule judgedE) (auto simp: verify_signature_def canonical_signing_bytes_def split: pyval.splits)
  with assms show ?thesis by (auto simp: receive_bid_def)
qed

text \<open>An accepted delivery passed the gates, spent its nonce and is in the queue.\<close>

lemma acceptedE:
  assumes "rc_accepted (fst (receive_bid terms now payload sv d))"
  obtains members signature digest retention indexes enqueue
  where "payload = VObj members" "sv = VStr signature"
    and "judged terms now payload signature = Inr (digest, retention, indexes)"
    and "dt_enqueue terms = Some enqueue" "dt_has_nonces terms"
    and "fst (spent_for payload now retention (do_nonces d)) = Spent"
    and "fst (enqueue (work_item payload signature digest indexes) (do_queue d))"
    and "fst (receive_bid terms now payload sv d) = accepted_receipt payload indexes"
    and "snd (receive_bid terms now payload sv d) =
      d\<lparr>do_nonces := snd (spent_for payload now retention (do_nonces d)),
        do_queue := snd (enqueue (work_item payload signature digest indexes) (do_queue d))\<rparr>"
proof (cases rule: receive_bid_cases [of terms now payload sv d])
  case (refused reasons shown)
  with assms show thesis by simp
next
  case (judged members signature judgement)
  obtain digest retention indexes where j: "judgement = (digest, retention, indexes)" by (cases judgement)
  note is_admitted = judged(4) [unfolded j]
  show thesis
  proof (cases rule: admitted_cases [of terms now payload signature digest retention indexes d])
    case (spent enqueue)
    with assms is_admitted have "fst (enqueue (work_item payload signature digest indexes) (do_queue d))" by simp
    with spent is_admitted judged j that [of members signature digest retention indexes enqueue]
    show thesis by simp
  qed (use assms is_admitted in simp_all)
qed

text \<open>
  The replay memory after a delivery: untouched, or purged and asked to spend one nonce, which an
  accepted delivery spent.
\<close>

definition nonce_key :: "pyval \<Rightarrow> pystr \<times> pystr" where
  "nonce_key payload = (the (text_field payload ''signer_id''), the (text_field payload ''nonce''))"

lemma spent_for_key: "spent_for payload now retention s = spend_key (nonce_key payload) retention (snd (purge_expired now s))"
  by (simp add: spent_for_def spend_key_def nonce_key_def)

lemma nonces_after:
  obtains entry where "do_nonces (snd (receive_bid terms now payload sv d)) = nonces.visit now entry (do_nonces d)"
    and "rc_accepted (fst (receive_bid terms now payload sv d)) \<Longrightarrow> nonces.spends_at (now, entry) (do_nonces d) \<and>
      (\<exists>signature digest retention indexes.
        sv = VStr signature \<and> judged terms now payload signature = Inr (digest, retention, indexes) \<and>
        entry = Some (nonce_key payload, retention))"
proof (cases rule: receive_bid_cases [of terms now payload sv d])
  case (refused reasons shown)
  with that [of None] show thesis by (simp add: nonces.visit_def)
next
  case (judged members signature judgement)
  obtain digest retention indexes where j: "judgement = (digest, retention, indexes)" by (cases judgement)
  note asked = that [of "Some (nonce_key payload, retention)"]
  show thesis
  proof (cases rule: admitted_cases [of terms now payload signature digest retention indexes d])
    case (refused reasons)
    with that [of None] judged j show thesis by (simp add: nonces.visit_def)
  next
    case (unspent reasons)
    with asked judged j show thesis by (simp add: nonces.visit_def spent_for_key)
  next
    case (spent enqueue)
    with asked judged j show thesis by (simp add: nonces.visit_def nonces.spends_at_def spent_for_key)
  qed
qed

lemma do_nonces_ok:
  "nonce_store_ok (do_nonces d) \<Longrightarrow> nonce_store_ok (do_nonces (snd (receive_bid terms now payload sv d)))"
  using nonces_after [of terms now payload sv d] nonces.visit_good by metis

text \<open>A nonce that is held and live is refused as a replay.\<close>

lemma held_is_replay:
  assumes "nonce_store_ok (do_nonces d)" and "held (do_nonces d) (nonce_key payload) = Some r" "\<not> closed_before now r"
    and "judged terms now payload signature = Inr judgement"
    and "dt_enqueue terms \<noteq> None" "dt_has_nonces terms"
  shows "fst (receive_bid terms now payload (VStr signature) d) = refuse [u ''replayed_nonce''] payload"
proof -
  obtain digest retention indexes where j: "judgement = (digest, retention, indexes)" by (cases judgement)
  have "held (snd (purge_expired now (do_nonces d))) (nonce_key payload) = Some r"
    using nonces.purge_kept [OF assms(1-3)] .
  then have "nonce_key payload \<in> set (dkeys (ns_consumed (snd (purge_expired now (do_nonces d)))))"
    by (metis dget_None_iff held_def option.distinct(1))
  then have "fst (spent_for payload now retention (do_nonces d)) = AlreadySpent"
    by (simp add: spent_for_key spend_key_def consume_def)
  then show ?thesis
    using assms(5,6)
    by (auto simp: receive_bid_judged [OF assms(4)] j admitted_def Let_def split: prod.split)
qed

section \<open>Freshness\<close>

text \<open>
  With a window of whole seconds, an age the door reads as within the window is within it, although the
  door compares the rounded number of seconds.
\<close>

lemma seconds_beyond:
  assumes "0 \<le> w" and "w \<le> 1000000000" and "later - earlier > w * 1000000"
  shows "of_int w < seconds_between later earlier"
proof -
  let ?r = "of_int (later - earlier) / 1000000 :: rat"
  have "of_int (w * 1000000 + 1) \<le> (of_int (later - earlier) :: rat)"
    using assms(3) by (intro of_int_le_iff [THEN iffD2]) simp
  then have r: "of_int w + 1 / 1000000 \<le> ?r" by simp
  have w: "(0::rat) \<le> of_int w" "of_int w \<le> (1000000000::rat)" using assms(1,2) by (simp_all add: of_int_le_iff)
  from r w have pos: "?r > 0" by linarith
  show ?thesis
  proof (cases "nearest_double ?r")
    case None
    with pos r have "seconds_between later earlier = ?r" by (simp add: seconds_between_def to_double_def)
    with r show ?thesis by linarith
  next
    case (Some s)
    with pos have s: "seconds_between later earlier = s" by (simp add: seconds_between_def to_double_def)
    have "power_int_rat 2 (- 1022) \<le> (1 / 1000000 :: rat)" by (simp add: power_int_rat_def)
    with r w have "power_int_rat 2 (- 1022) \<le> ?r" by linarith
    from nearest_double_error [OF Some this] have "?r - ?r / 2 ^ 53 \<le> s" by linarith
    moreover have "of_int w < ?r - ?r / 2 ^ 53"
    proof -
      have "of_int w < (of_int w + 1 / 1000000) * (1 - 1 / 2 ^ 53 :: rat)" using w by (simp add: field_simps)
      also have "\<dots> \<le> ?r * (1 - 1 / 2 ^ 53)" using r by (rule mult_right_mono) simp
      finally show ?thesis by (simp add: algebra_simps)
    qed
    ultimately show ?thesis using s by linarith
  qed
qed

lemma micros_of_whole_seconds: "micros_of_seconds (of_int w) = w * 1000000"
  by (simp add: micros_of_seconds_def truncated_def double_mul_def to_double_def round_half_even_def)

lemma to_double_minus: "to_double (- r) = map_option uminus (to_double r)"
  by (auto simp: to_double_def option.map_comp comp_def option.map_ident)

lemma seconds_between_swap: "seconds_between earlier later = - seconds_between later earlier"
proof -
  define r :: rat where "r = of_int (later - earlier) / 1000000"
  have "of_int (earlier - later) / 1000000 = - r" by (simp add: r_def field_simps)
  then show ?thesis
    by (simp only: seconds_between_def Let_def to_double_minus r_def [symmetric]) (simp split: option.split)
qed

lemma fresh_exact:
  assumes "0 \<le> w" "w \<le> 1000000000" and "seconds_between now issued_at \<le> of_int w" "- seconds_between now issued_at \<le> of_int w"
  shows "\<bar>now - issued_at\<bar> \<le> w * 1000000"
  using seconds_beyond [OF assms(1,2), of now issued_at] seconds_beyond [OF assms(1,2), of issued_at now] assms(3,4)
  by (simp add: seconds_between_swap [of issued_at now] abs_le_iff) force

text \<open>The retention of an accepted nonce is not over when the same submission is judged again.\<close>

lemma retention_lasts:
  assumes window: "freshness_window (dt_float_text terms) (dt_window terms) = Some (of_int w)"
      "0 \<le> w" "w \<le> 1000000000"
    and judged: "judged terms now payload signature = Inr (digest, retention, indexes)"
  shows "\<not> closed_before now retention"
proof -
  from judged obtain issued_at window' where
    i: "parse_instant (dt_boundary terms) (vget payload ''issued_at'') = Some issued_at"
    and w': "freshness_window (dt_float_text terms) (dt_window terms) = Some window'"
    and fresh: "seconds_between now issued_at \<le> window'"
    and d: "dt_deadline terms = VNone \<or> parse_instant (dt_boundary terms) (dt_deadline terms) \<noteq> None"
      "\<not> closed_before now (parse_instant (dt_boundary terms) (dt_deadline terms))"
    and r: "retention = nonce_retention (dt_boundary terms) (dt_deadline terms)
      (parse_instant (dt_boundary terms) (dt_deadline terms)) issued_at window'"
    by (rule judgedE) blast
  have "now \<le> issued_at + w * 1000000"
    using seconds_beyond [OF window(2,3), of now issued_at] fresh w' window(1) by force
  then show ?thesis
    using d r w' window(1) by (auto simp: nonce_retention_def horizon_def closed_before_def micros_of_whole_seconds Let_def)
qed

text \<open>It depends on the deadline, the window and \<open>issued_at\<close> alone.\<close>

lemma retention_same:
  assumes "judged terms now payload signature = Inr (digest, retention, indexes)"
    and "judged terms' now' payload' signature' = Inr (digest', retention', indexes')"
    and "dt_deadline terms' = dt_deadline terms" "dt_boundary terms' = dt_boundary terms"
      "dt_window terms' = dt_window terms" "dt_float_text terms' = dt_float_text terms"
      "vget payload' ''issued_at'' = vget payload ''issued_at''"
  shows "retention' = retention"
  using assms(2) assms(1) by (elim judgedE) (simp add: assms(3-7))

lemma closed_before_mono: "\<not> closed_before later r \<Longrightarrow> m \<le> later \<Longrightarrow> \<not> closed_before m r"
  by (auto simp: closed_before_def split: option.splits)

end
