(* ===== verification/BoundaryLaws.thy ===== *)
theory BoundaryLaws
  imports BidBoundary
begin

text \<open>
  The bounded walk over a claim's value against the plain traversal it stands for, what a verdict that
  is ok says of the claims, and how far the price rules let a price fall.
\<close>

section \<open>The traversal\<close>

lemma container_entries_smaller:
  "container_entries node = Some (items, m) \<Longrightarrow> p \<in> set items \<Longrightarrow> value_size (snd p) < value_size node"
  using container_entries_size member_le_sum_list [of "value_size (snd p)" "map (\<lambda>p. value_size (snd p)) items"]
  by fastforce

text \<open>The sources declared anywhere in a value, each with its path, a container before its children.\<close>

function sources_within :: "pyval \<Rightarrow> pystr \<Rightarrow> (pystr \<times> pystr) list" where
  "sources_within node path =
     (case declared_provenance_source node of Some s \<Rightarrow> [(path, s)] | None \<Rightarrow> []) @
     (case container_entries node of
        None \<Rightarrow> []
      | Some (items, m) \<Rightarrow> concat (map (\<lambda>p. sources_within (snd p) (entry_path m path (fst p))) items))"
  by pat_completeness auto
termination
  by (relation "measure (\<lambda>(node, path). value_size node)") (auto dest: container_entries_smaller)

function mentions_within :: "pyval \<Rightarrow> bool" where
  "mentions_within node =
     (case container_entries node of
        None \<Rightarrow> False
      | Some (items, m) \<Rightarrow> names_authorisation items m \<or> list_ex (\<lambda>p. mentions_within (snd p)) items)"
  by pat_completeness auto
termination
  by (relation "measure value_size") (auto dest: container_entries_smaller)

text \<open>Whether a container that is not empty is nested too deep.\<close>

function nests_too_deep :: "pyval \<Rightarrow> nat \<Rightarrow> bool" where
  "nests_too_deep node depth =
     (case container_entries node of
        None \<Rightarrow> False
      | Some (items, m) \<Rightarrow>
          items \<noteq> [] \<and> (claim_value_max_depth < depth \<or> list_ex (\<lambda>p. nests_too_deep (snd p) (Suc depth)) items))"
  by pat_completeness auto
termination
  by (relation "measure (\<lambda>(node, depth). value_size node)") (auto dest: container_entries_smaller)

declare sources_within.simps [simp del] mentions_within.simps [simp del] nests_too_deep.simps [simp del]

text \<open>The entries of a value, of every container in it.\<close>

definition entries_within :: "pyval \<Rightarrow> nat" where
  "entries_within node = value_size node - 1"

lemma entries_of_leaf: "container_entries node = None \<Longrightarrow> entries_within node = 0"
  by (cases node) (simp_all add: container_entries_def entries_within_def)

lemma entries_of_container:
  assumes "container_entries node = Some (items, m)"
  shows "entries_within node = length items + sum_list (map (\<lambda>p. entries_within (snd p)) items)"
proof -
  have "sum_list (map (\<lambda>p. value_size (snd p)) items) =
      length items + sum_list (map (\<lambda>p. value_size (snd p) - 1) items)" for items :: "(pystr \<times> pyval) list"
  proof (induction items)
    case (Cons p items)
    then show ?case using value_size_pos [of "snd p"] by simp
  qed simp
  then show ?thesis using container_entries_size [OF assms] by (simp add: entries_within_def)
qed

section \<open>The walk is the traversal\<close>

definition stack_entries :: "walk_stack \<Rightarrow> nat" where
  "stack_entries stack = sum_list (map (\<lambda>e. entries_within (fst e)) stack)"

definition stack_sources :: "walk_stack \<Rightarrow> (pystr \<times> pystr) list" where
  "stack_sources stack = concat (map (\<lambda>(node, path, depth). sources_within node path) stack)"

definition stack_mentions :: "walk_stack \<Rightarrow> bool" where
  "stack_mentions stack \<longleftrightarrow> list_ex (\<lambda>e. mentions_within (fst e)) stack"

definition stack_too_deep :: "walk_stack \<Rightarrow> bool" where
  "stack_too_deep stack \<longleftrightarrow> list_ex (\<lambda>(node, path, depth). nests_too_deep node depth) stack"

lemma stack_append [simp]:
  "stack_entries (s @ t) = stack_entries s + stack_entries t"
  "stack_sources (s @ t) = stack_sources s @ stack_sources t"
  "stack_mentions (s @ t) \<longleftrightarrow> stack_mentions s \<or> stack_mentions t"
  "stack_too_deep (s @ t) \<longleftrightarrow> stack_too_deep s \<or> stack_too_deep t"
  "stack_entries ((node, path, depth) # t) = entries_within node + stack_entries t"
  "stack_sources ((node, path, depth) # t) = sources_within node path @ stack_sources t"
  "stack_mentions ((node, path, depth) # t) \<longleftrightarrow> mentions_within node \<or> stack_mentions t"
  "stack_too_deep ((node, path, depth) # t) \<longleftrightarrow> nests_too_deep node depth \<or> stack_too_deep t"
  "stack_entries [] = 0" "stack_sources [] = []" "\<not> stack_mentions []" "\<not> stack_too_deep []"
  by (simp_all add: stack_entries_def stack_sources_def stack_mentions_def stack_too_deep_def)

lemma stack_children:
  "stack_entries (children_of items m path depth) = sum_list (map (\<lambda>p. entries_within (snd p)) items)"
  "stack_sources (children_of items m path depth) =
     concat (map (\<lambda>p. sources_within (snd p) (entry_path m path (fst p))) items)"
  "stack_mentions (children_of items m path depth) \<longleftrightarrow> list_ex (\<lambda>p. mentions_within (snd p)) items"
  "stack_too_deep (children_of items m path depth) \<longleftrightarrow> list_ex (\<lambda>p. nests_too_deep (snd p) (Suc depth)) items"
  by (simp_all add: children_of_def stack_entries_def stack_sources_def stack_mentions_def stack_too_deep_def
      comp_def list_ex_iff)

lemma note_source_simps [simp]:
  "wr_truncated (note_source node path w) = wr_truncated w"
  "wr_mentions (note_source node path w) = wr_mentions w"
  "wr_found (note_source node path w) =
     wr_found w @ (case declared_provenance_source node of Some s \<Rightarrow> [(path, s)] | None \<Rightarrow> [])"
  by (simp_all add: note_source_def split: option.split)

lemma walk_loop_leaf:
  "container_entries node = None \<Longrightarrow>
     walk_loop budget ((node, path, depth) # stack) w = walk_loop budget stack (note_source node path w)"
  by simp

lemma walk_loop_cut:
  "container_entries node = Some (items, m) \<Longrightarrow> items \<noteq> [] \<and> (claim_value_max_depth < depth \<or> budget < int (length items)) \<Longrightarrow>
     walk_loop budget ((node, path, depth) # stack) w =
       walk_loop budget stack ((note_source node path w)\<lparr>wr_truncated := True\<rparr>)"
  by simp

lemma walk_loop_into:
  "container_entries node = Some (items, m) \<Longrightarrow> \<not> (items \<noteq> [] \<and> (claim_value_max_depth < depth \<or> budget < int (length items))) \<Longrightarrow>
     walk_loop budget ((node, path, depth) # stack) w =
       walk_loop (budget - int (length items)) (children_of items m path depth @ stack)
         ((note_source node path w)\<lparr>wr_mentions := wr_mentions w \<or> names_authorisation items m\<rparr>)"
  by auto

declare walk_loop.simps(2) [simp del]

lemma walk_loop_truncated:
  "0 \<le> budget \<Longrightarrow> wr_truncated (walk_loop budget stack w) \<longleftrightarrow>
     wr_truncated w \<or> stack_too_deep stack \<or> budget < int (stack_entries stack)"
proof (induction budget stack w rule: walk_loop.induct)
  case (2 budget node path depth stack w)
  show ?case
  proof (cases "container_entries node")
    case None
    with "2.IH"(1) "2.prems" show ?thesis by (simp add: walk_loop_leaf nests_too_deep.simps [of node] entries_of_leaf)
  next
    case (Some c)
    obtain items m where c: "container_entries node = Some (items, m)" using Some by (cases c) auto
    show ?thesis
    proof (cases "items \<noteq> [] \<and> (claim_value_max_depth < depth \<or> budget < int (length items))")
      case True
      have "nests_too_deep node depth \<or> budget < int (entries_within node)"
        using True by (auto simp: nests_too_deep.simps [of node] entries_of_container [OF c] c)
      with "2.IH"(2) [OF c refl True] "2.prems" show ?thesis by (auto simp: walk_loop_cut [OF c True])
    next
      case False
      have "nests_too_deep node depth \<longleftrightarrow> list_ex (\<lambda>p. nests_too_deep (snd p) (Suc depth)) items"
        using False by (auto simp: nests_too_deep.simps [of node] c)
      moreover have "0 \<le> budget - int (length items)" using False "2.prems" by auto
      ultimately show ?thesis using "2.IH"(3) [OF c refl False]
        by (simp add: walk_loop_into [OF c False] entries_of_container [OF c] stack_children diff_less_eq ac_simps)
    qed
  qed
qed simp

lemma walk_loop_found:
  "0 \<le> budget \<Longrightarrow> \<not> wr_truncated (walk_loop budget stack w) \<Longrightarrow>
     wr_found (walk_loop budget stack w) = wr_found w @ stack_sources stack \<and>
     wr_mentions (walk_loop budget stack w) = (wr_mentions w \<or> stack_mentions stack)"
proof (induction budget stack w rule: walk_loop.induct)
  case (2 budget node path depth stack w)
  show ?case
  proof (cases "container_entries node")
    case None
    with "2.IH"(1) "2.prems" show ?thesis
      by (simp add: walk_loop_leaf sources_within.simps [of node] mentions_within.simps [of node])
  next
    case (Some c)
    obtain items m where c: "container_entries node = Some (items, m)" using Some by (cases c) auto
    show ?thesis
    proof (cases "items \<noteq> [] \<and> (claim_value_max_depth < depth \<or> budget < int (length items))")
      case True
      with "2.prems" show ?thesis by (simp add: walk_loop_cut [OF c True] walk_loop_truncated)
    next
      case False
      note step = walk_loop_into [OF c False, of path stack w]
      have "0 \<le> budget - int (length items)" using False "2.prems"(1) by auto
      with "2.IH"(3) [OF c refl False] "2.prems"
      show ?thesis unfolding step
        by (simp add: sources_within.simps [of node] mentions_within.simps [of node] c stack_children disj_ac)
    qed
  qed
qed simp

lemma walk_truncated_iff:
  "wr_truncated (walk_claim_value v label) \<longleftrightarrow> nests_too_deep v 0 \<or> claim_value_max_entries < int (entries_within v)"
  by (simp add: walk_claim_value_def walk_loop_truncated claim_value_max_entries_def)

lemma walk_is_traversal:
  "\<not> wr_truncated (walk_claim_value v label) \<Longrightarrow>
     wr_found (walk_claim_value v label) = sources_within v (label @ u ''.value'') \<and>
     wr_mentions (walk_claim_value v label) = mentions_within v"
  using walk_loop_found [of claim_value_max_entries] by (simp add: walk_claim_value_def claim_value_max_entries_def)

lemma sources_of_any_path: "map snd (sources_within v path) = map snd (sources_within v path')"
proof (induction v path arbitrary: path' rule: sources_within.induct)
  case (1 node path)
  show ?case
  proof (cases "container_entries node")
    case None
    then show ?thesis by (simp add: sources_within.simps [of node] split: option.split)
  next
    case (Some c)
    obtain items m where c: "container_entries node = Some (items, m)" using Some by (cases c) auto
    have "map snd (sources_within (snd p) (entry_path m path (fst p))) =
        map snd (sources_within (snd p) (entry_path m path' (fst p)))" if "p \<in> set items" for p
      using "1.IH" [OF c refl that] .
    then show ?thesis
      by (simp add: sources_within.simps [of node] c map_concat comp_def cong: map_cong split: option.split)
  qed
qed

section \<open>The claims of a verdict that is ok\<close>

text \<open>
  A claim or a discount is vouched for when every source declared in it is one of the network's own
  hooks; \<open>asserts_authorisation\<close> is a claim to a discount the merchant authorised.
\<close>

definition own_source :: "boundary_lib \<Rightarrow> pyval \<Rightarrow> pystr" where
  "own_source lib c = source_text lib (vget (vget c ''provenance'') ''source'')"

definition all_sources :: "boundary_lib \<Rightarrow> pyval \<Rightarrow> pystr set" where
  "all_sources lib c = insert (own_source lib c) (set (map snd (sources_within (vget c ''value'') [])))"

definition asserts_authorisation :: "pyval \<Rightarrow> bool" where
  "asserts_authorisation c \<longleftrightarrow> mentions_within (vget c ''value'') \<or>
     (case vget c ''key'' of VStr k \<Rightarrow> trimmed k \<in> set discount_authorisation_claim_keys | _ \<Rightarrow> False)"

definition hook_sourced :: "boundary_lib \<Rightarrow> pyval \<Rightarrow> bool" where
  "hook_sourced lib c \<longleftrightarrow> all_sources lib c \<subseteq> set hook_provenance_sources"

lemma sources_disjoint: "set hook_provenance_sources \<inter> set non_hook_provenance_sources = {}"
  by code_simp

lemma verdict_for_source_ok:
  "fst (verdict_for_source s path label addressable) = [] \<longleftrightarrow>
     s \<in> set hook_provenance_sources \<or>
     s \<in> set non_hook_provenance_sources \<and> path \<noteq> hosted_path \<and> addressable"
  by (auto simp: verdict_for_source_def)

lemma verdict_for_source_needs:
  "snd (verdict_for_source s path label addressable) \<longleftrightarrow>
     s \<notin> set hook_provenance_sources \<and> s \<in> set non_hook_provenance_sources \<and> path \<noteq> hosted_path \<and> addressable"
  by (auto simp: verdict_for_source_def)

lemma source_verdict_ok:
  assumes "source_verdict lib c path label addressable (walk_claim_value (vget c ''value'') place) = ([], needs)"
  shows "\<not> wr_truncated (walk_claim_value (vget c ''value'') place)"
    and "needs \<longleftrightarrow> \<not> hook_sourced lib c"
    and "hook_sourced lib c \<or> path \<noteq> hosted_path \<and> addressable"
proof -
  let ?w = "walk_claim_value (vget c ''value'') place"
  show whole: "\<not> wr_truncated ?w"
    using assms by (auto simp: source_verdict_def Let_def split: if_splits)
  have found: "set (map snd (wr_found ?w)) = set (map snd (sources_within (vget c ''value'') []))"
    using walk_is_traversal [OF whole] sources_of_any_path by metis
  let ?vs = "verdict_for_source (own_source lib c) path label addressable #
    map (\<lambda>(l, s). verdict_for_source s path l addressable) (wr_found ?w)"
  have "concat (map fst ?vs) = []" and needs: "needs = list_ex snd ?vs"
    using assms whole by (auto simp: source_verdict_def own_source_def Let_def split: if_splits)
  then have "\<forall>s \<in> all_sources lib c. fst (verdict_for_source s path [] addressable) = []"
    unfolding all_sources_def found [symmetric] by (auto simp: verdict_for_source_ok)
  then have allowed: "\<forall>s \<in> all_sources lib c. s \<in> set hook_provenance_sources \<or>
      s \<in> set non_hook_provenance_sources \<and> path \<noteq> hosted_path \<and> addressable"
    by (simp add: verdict_for_source_ok)
  moreover have "needs \<longleftrightarrow> (\<exists>s \<in> all_sources lib c. snd (verdict_for_source s path [] addressable))"
    unfolding needs all_sources_def found [symmetric]
    by (auto simp: list_ex_iff verdict_for_source_needs case_prod_beta)
  ultimately show "needs \<longleftrightarrow> \<not> hook_sourced lib c" and "hook_sourced lib c \<or> path \<noteq> hosted_path \<and> addressable"
    using sources_disjoint by (auto simp: hook_sourced_def verdict_for_source_needs)
qed

text \<open>A claim of the bid itself, by its index.\<close>

lemma claim_verdict_ok:
  assumes "fst (claim_verdict lib path site (i, c)) = []"
  shows "snd (claim_verdict lib path site (i, c)) =
      (if \<not> hook_sourced lib c \<or> path = external_path \<and> asserts_authorisation c then [i] else [])"
    and "site = None \<and> path \<noteq> hosted_path \<or>
      hook_sourced lib c \<and> (path = external_path \<longrightarrow> \<not> asserts_authorisation c \<or> site = None)"
proof -
  let ?label = "claim_label site i"
  let ?w = "walk_claim_value (vget c ''value'') ?label"
  obtain needs where v: "source_verdict lib c path ?label (site = None) ?w = ([], needs)"
    using assms by (cases "source_verdict lib c path ?label (site = None) ?w") (auto simp: claim_verdict_def Let_def split: prod.splits)
  note ok = source_verdict_ok [OF v]
  have asserted: "wr_mentions ?w \<or> (case vget c ''key'' of VStr k \<Rightarrow> trimmed k \<in> set discount_authorisation_claim_keys | _ \<Rightarrow> False)
      \<longleftrightarrow> asserts_authorisation c"
    using walk_is_traversal [OF ok(1)] by (simp add: asserts_authorisation_def)
  have auth: "authorisation_verdict c path ?label (site = None) (wr_mentions ?w) =
      (if path \<noteq> external_path \<or> \<not> asserts_authorisation c then ([], False)
       else if site = None then ([], True)
       else ([tagged ''unverified_discount_authorisation'' ?label], False))"
    by (simp only: authorisation_verdict_def Let_def asserted)
  then have refused: "path = external_path \<Longrightarrow> asserts_authorisation c \<Longrightarrow> site = None"
    using assms v by (auto simp: claim_verdict_def Let_def split: if_splits)
  with ok(3) show "site = None \<and> path \<noteq> hosted_path \<or>
      hook_sourced lib c \<and> (path = external_path \<longrightarrow> \<not> asserts_authorisation c \<or> site = None)" by auto
  show "snd (claim_verdict lib path site (i, c)) =
      (if \<not> hook_sourced lib c \<or> path = external_path \<and> asserts_authorisation c then [i] else [])"
    using ok(2) refused by (auto simp: claim_verdict_def Let_def v auth)
qed

text \<open>All the claims of a list.\<close>

lemma claims_ok:
  assumes "fst (claim_provenance_reasons lib claims path site) = []"
  shows "claims = VNone \<or> (\<exists>xs. claims = VArr xs)"
    and "i < length (claims_of claims) \<Longrightarrow> fst (claim_verdict lib path site (i, claims_of claims ! i)) = []"
    and "set (snd (claim_provenance_reasons lib claims path site)) =
      {i. i < length (claims_of claims) \<and> (\<not> hook_sourced lib (claims_of claims ! i) \<or>
        path = external_path \<and> asserts_authorisation (claims_of claims ! i))}"
proof -
  show shape: "claims = VNone \<or> (\<exists>xs. claims = VArr xs)"
    using assms by (cases claims) (simp_all add: claim_provenance_reasons_def)
  show all: "fst (claim_verdict lib path site (i, claims_of claims ! i)) = []" if "i < length (claims_of claims)" for i
  proof -
    have "(i, claims_of claims ! i) \<in> set (enumerate 0 (claims_of claims))"
      using that by (simp add: in_set_enumerate_eq)
    then show ?thesis
      using assms shape that by (auto simp: claim_provenance_reasons_def claims_of_def)
  qed
  have "snd (claim_provenance_reasons lib claims path site) =
      concat (map (\<lambda>e. snd (claim_verdict lib path site e)) (enumerate 0 (claims_of claims)))"
    using shape by (auto simp: claim_provenance_reasons_def claims_of_def comp_def)
  also have "set \<dots> = (\<Union>i \<in> {0..<length (claims_of claims)}. set (snd (claim_verdict lib path site (i, claims_of claims ! i))))"
    by (force simp: in_set_enumerate_eq)
  finally show "set (snd (claim_provenance_reasons lib claims path site)) =
      {i. i < length (claims_of claims) \<and> (\<not> hook_sourced lib (claims_of claims ! i) \<or>
        path = external_path \<and> asserts_authorisation (claims_of claims ! i))}"
    using claim_verdict_ok(1) [OF all] by (auto split: if_splits)
qed

lemma offer_claims_ok:
  assumes "offer_claim_reasons lib offer path = []" and "offer \<noteq> VNone"
  shows "\<forall>c \<in> set (claims_of (vget offer ''commitments'')).
      hook_sourced lib c \<and> (path = external_path \<longrightarrow> \<not> asserts_authorisation c)"
    and "vget offer ''discount'' \<noteq> VNone \<Longrightarrow> hook_sourced lib (vget offer ''discount'')"
proof -
  have "fst (claim_provenance_reasons lib (vget offer ''commitments'') path (Some (u ''offer.commitments''))) = []"
    using assms by (simp add: offer_claim_reasons_def)
  from claims_ok(2) [OF this] show "\<forall>c \<in> set (claims_of (vget offer ''commitments'')).
      hook_sourced lib c \<and> (path = external_path \<longrightarrow> \<not> asserts_authorisation c)"
    using claim_verdict_ok(2) by (fastforce simp: in_set_conv_nth)
  assume "vget offer ''discount'' \<noteq> VNone"
  with assms have "fst (source_verdict lib (vget offer ''discount'') path (u ''offer.discount'') False
      (walk_claim_value (vget (vget offer ''discount'') ''value'') (u ''offer.discount''))) = []"
    by (simp add: offer_claim_reasons_def Let_def)
  then show "hook_sourced lib (vget offer ''discount'')"
    using source_verdict_ok(3) by (metis prod.collapse)
qed

section \<open>A verdict that is ok\<close>

lemma validate_bidE:
  assumes "validate_bid lib path snapshot now signed list_prices max_discount_pct bid = Inr v" and "bv_ok v"
  obtains "path \<in> {hosted_path, external_path}"
    and "fst (claim_provenance_reasons lib (vget bid ''claims'') path None) = []"
    and "offer_claim_reasons lib (vget bid ''offer'') path = []"
    and "price_reasons lib bid (vget bid ''offer'') list_prices max_discount_pct = Inr []"
    and "expiry_reasons lib (vget bid ''offer'') now = []"
    and "eligibility_reasons lib (vget bid ''store_id'') snapshot = Inr []"
    and "signed \<Longrightarrow> signing_envelope_reasons bid = []"
    and "bv_unverified v = snd (claim_provenance_reasons lib (vget bid ''claims'') path None)"
    and "bv_requires_verification v \<longleftrightarrow> bv_unverified v \<noteq> []"
  using assms
  by (auto simp: validate_bid_def Let_def and_then_def split: if_splits prod.splits sum.splits) 

section \<open>Prices\<close>

text \<open>The discount the caller authorised, whatever the bid declares; no word of the caller is none.\<close>

definition authorised_limit :: "rat option \<Rightarrow> rat" where
  "authorised_limit cap = (case cap of Some c \<Rightarrow> c | None \<Rightarrow> 0)"

lemma declared_depth_shape:
  "\<exists>a b c other. declared_depth lib offer =
     (if vget offer ''discount'' = VNone then Inr (Some 0, [])
      else
        and_then (finite_number (vget (vget offer ''discount'') ''value'')) (\<lambda>depth.
          case depth of
            None \<Rightarrow> Inr (None, [a])
          | Some r \<Rightarrow>
              if r = 0 then Inr (Some 0, [])
              else if other then Inr (None, [b]) else if r < 0 \<or> r > 100 then Inr (None, [c]) else Inr (Some r, [])))"
  unfolding declared_depth_def Let_def by (intro exI) (rule refl)

lemma declared_depth_range:
  "declared_depth lib offer = Inr (Some depth, reasons) \<Longrightarrow> 0 \<le> depth \<and> depth \<le> 100"
  "declared_depth lib offer = Inr (None, reasons) \<Longrightarrow> reasons \<noteq> []"
  using declared_depth_shape [of lib offer]
  by (auto simp: and_then_def split: if_splits option.splits sum.splits)

lemma authorized_depth_range:
  "authorized_depth offer list_prices m = Inr (Some cap, reasons) \<Longrightarrow> 0 \<le> cap \<and> cap \<le> 100"
  by (auto simp: authorized_depth_def Let_def and_then_Inr split: if_splits option.splits)

lemma authorized_depth_unread:
  "authorized_depth offer list_prices m = Inr (None, reasons) \<Longrightarrow> reasons \<noteq> []"
  by (auto simp: authorized_depth_def Let_def and_then_Inr split: if_splits option.splits)

lemma roster_list_price_range:
  "roster_list_price offer list_prices = Inr (Some listed, reasons) \<Longrightarrow> 0 \<le> listed"
  "roster_list_price offer list_prices = Inr (None, reasons) \<Longrightarrow> reasons \<noteq> []"
  by (auto simp: roster_list_price_def Let_def and_then_Inr split: if_splits option.splits)

lemma depth_in_force_limit:
  assumes "depth_in_force depth cap = (authorized, [])" and "0 \<le> depth" and "0 < depth \<longrightarrow> cap \<noteq> None"
  shows "authorized \<le> authorised_limit cap" and "0 < depth \<Longrightarrow> depth \<le> authorised_limit cap"
  using assms by (auto simp: depth_in_force_def authorised_limit_def split: if_splits option.splits)

lemma floor_reasons_ok:
  "floor_reasons listed site (Some r) = [] \<Longrightarrow> 0 \<le> r \<Longrightarrow> price_floor listed \<le> r"
  by (auto simp: floor_reasons_def split: if_splits)

lemma amount_reasons_ok: "amount_reasons site amount = [] \<longleftrightarrow> (\<exists>r. amount = Some r \<and> 0 \<le> r)"
  by (auto simp: amount_reasons_def split: option.splits)

lemma relation_reasons_ok:
  assumes "relation_reasons depth paid_unit total_price (cap, cap_reasons) carried (rostered, roster_reasons) = []"
  shows "0 < depth \<longrightarrow> cap_reasons = []" and "snd (depth_in_force depth cap) = []" and "roster_reasons = []"
    and "rostered = Some listed \<Longrightarrow> 0 < listed \<Longrightarrow> floor_reasons listed ''offer.unit_price'' (Some paid_unit) = []"
    and "rostered = Some listed \<Longrightarrow> 0 < listed \<Longrightarrow> floor_reasons listed ''offer.total_price'' total_price = []"
    and "rostered = Some listed \<Longrightarrow> \<not> under_depth paid_unit listed (fst (depth_in_force depth cap))"
  using assms by (auto simp: relation_reasons_def split: prod.splits if_splits)

text \<open>An offer the price rules have nothing against.\<close>

lemma price_reasonsE:
  assumes "price_reasons lib bid offer list_prices max_discount_pct = Inr []"
  obtains depth paid_unit paid_total listed cap cap_reasons carried
  where "finite_number (vget offer ''unit_price'') = Inr (Some paid_unit)" "0 \<le> paid_unit"
    and "finite_number (vget offer ''total_price'') = Inr (Some paid_total)" "0 \<le> paid_total"
    and "declared_depth lib offer = Inr (Some depth, [])"
    and "authorized_depth offer list_prices max_discount_pct = Inr (cap, cap_reasons)"
    and "roster_list_price offer list_prices = Inr (Some listed, [])"
    and "relation_reasons depth paid_unit (Some paid_total) (cap, cap_reasons) carried (Some listed, []) = []"
proof -
  from assms obtain d depth_reasons priced totalled first where
    d: "declared_depth lib offer = Inr (d, depth_reasons)"
    and unit: "finite_number (vget offer ''unit_price'') = Inr priced"
    and tot: "finite_number (vget offer ''total_price'') = Inr totalled"
    by (auto simp: price_reasons_def and_then_Inr split: if_splits)
  have shape: "has_fields offer" using assms by (auto simp: price_reasons_def split: if_splits)
  have first: "depth_reasons = []" "amount_reasons ''offer.unit_price'' priced = []"
      "amount_reasons ''offer.total_price'' totalled = []"
    using assms shape by (auto simp: price_reasons_def d unit tot and_then_Inr Let_def split: option.splits if_splits)
  from first(1) obtain depth where depth: "d = Some depth"
    using d declared_depth_range(2) by (cases d) auto
  from first(2,3) obtain paid_unit paid_total where
    paid: "priced = Some paid_unit" "0 \<le> paid_unit" "totalled = Some paid_total" "0 \<le> paid_total"
    by (auto simp: amount_reasons_ok)
  from assms shape first paid obtain cap cap_reasons carried rostered roster_reasons where
    cap: "authorized_depth offer list_prices max_discount_pct = Inr (cap, cap_reasons)"
    and roster: "roster_list_price offer list_prices = Inr (rostered, roster_reasons)"
    and relations: "relation_reasons depth paid_unit (Some paid_total) (cap, cap_reasons) carried (rostered, roster_reasons) = []"
    by (auto simp: price_reasons_def d unit tot depth and_then_Inr Let_def)
  have empty: "roster_reasons = []" using relation_reasons_ok(3) [OF relations] .
  then obtain listed where "rostered = Some listed"
    using roster roster_list_price_range(2) by (cases rostered) auto
  with that d unit tot depth first paid cap roster relations empty show thesis by simp
qed

text \<open>The discount a row of the roster allows; a row that says nothing readable allows none.\<close>

definition row_limit :: "pyval \<Rightarrow> rat" where
  "row_limit row =
     (case finite_number (vget row ''max_discount_pct'') of
        Inr (Some c) \<Rightarrow> if 0 \<le> c \<and> c \<le> 100 then c else 0
      | _ \<Rightarrow> 0)"

lemma authorised_row:
  assumes "authorized_depth offer list_prices VNone = Inr (cap, reasons)" and "roster_row offer list_prices = Some row"
  shows "authorised_limit cap = row_limit row"
proof (cases "vget row ''max_discount_pct'' = VNone")
  case True
  with assms have "cap = None" by (simp add: authorized_depth_def)
  with True show ?thesis by (simp add: authorised_limit_def row_limit_def finite_number_def)
next
  case False
  with assms(1) obtain read where "finite_number (vget row ''max_discount_pct'') = Inr read"
    and "cap = (case read of Some c \<Rightarrow> if c < 0 \<or> c > 100 then None else Some c | None \<Rightarrow> None)"
    by (cases "finite_number (vget row ''max_discount_pct'')")
      (auto simp: authorized_depth_def assms(2) Let_def split: option.splits if_splits)
  then show ?thesis by (auto simp: authorised_limit_def row_limit_def split: option.split)
qed

lemma roster_list_price_row:
  assumes "roster_list_price offer list_prices = Inr (Some listed, [])"
  obtains row where "roster_row offer list_prices = Some row"
    and "finite_number row = Inr (Some listed) \<or>
      finite_number row = Inr None \<and> finite_number (vget row ''list_price'') = Inr (Some listed)"
proof (cases "roster_row offer list_prices")
  case (Some row)
  with assms obtain direct where direct: "finite_number row = Inr direct"
    and rest: "and_then (case direct of Some r \<Rightarrow> Inr (Some r) | None \<Rightarrow> finite_number (vget row ''list_price''))
        (\<lambda>l. case l of
           Some r \<Rightarrow> if r < 0 then Inr (None, [unreconcilable ''offer.unit_price'' (u ''unreadable_roster_list_price'')])
                    else Inr (Some r, [])
         | None \<Rightarrow> Inr (None, [unreconcilable ''offer.unit_price'' (u ''unreadable_roster_list_price'')])) = Inr (Some listed, [])"
    by (simp add: roster_list_price_def Let_def and_then_Inr) blast
  show thesis
    by (rule that [OF Some], cases direct) (use direct rest in \<open>auto simp: and_then_Inr split: option.splits if_splits\<close>)
qed (use assms in \<open>simp add: roster_list_price_def\<close>)

section \<open>How far a price may fall\<close>

lemma below_a_million_million:
  assumes "0 \<le> r" and "r \<le> b" and "b \<le> 2 ^ 40" and "b / 2 ^ 53 + 1 / 2 ^ 1000 \<le> delta"
  shows "\<exists>d. to_double r = Some d \<and> 0 \<le> d \<and> \<bar>d - r\<bar> \<le> delta"
proof -
  have "(2::rat) ^ 40 \<le> 2 ^ 1000" by (rule power_increasing) simp_all
  with assms(3) have "b \<le> 2 ^ 1000" by (rule order_trans)
  with assms show ?thesis by (intro to_double_within)
qed

text \<open>The comparison of doubles, in exact numbers: a cent of tolerance and what rounding can add.\<close>

lemma under_depth_exact:
  assumes not_under: "\<not> under_depth price listed depth"
    and ranges: "0 \<le> price" "0 \<le> listed" "listed \<le> 1000000000" "0 \<le> depth" "depth \<le> 100"
  shows "listed * (100 - depth) / 100 - 11 / 1000 \<le> price"
proof (cases "listed \<le> price")
  case True
  have "listed * (100 - depth) / 100 \<le> listed" 
    using mult_left_mono [of "100 - depth" 100 listed] ranges by simp
  with True show ?thesis by simp
next
  case False
  have c: "0 \<le> cent" "cent \<le> 1 / 100 + 1 / 10 ^ 9" by (simp_all add: cent_def)
  obtain lhs where lhs: "to_double (price + cent) = Some lhs" "\<bar>lhs - (price + cent)\<bar> \<le> 1 / 10 ^ 6"
    using below_a_million_million [of "price + cent" "2 ^ 31" "1 / 10 ^ 6"] False ranges c by auto
  obtain keep where keep: "to_double (100 - depth) = Some keep" "0 \<le> keep" "\<bar>keep - (100 - depth)\<bar> \<le> 1 / 10 ^ 13"
    using below_a_million_million [of "100 - depth" 100 "1 / 10 ^ 13"] ranges by auto
  have "keep \<le> 101" using abs_le_D1 [OF keep(3)] ranges by simp
  have "listed * keep \<le> 1000000000 * 101" using ranges keep \<open>keep \<le> 101\<close> by (intro mult_mono) simp_all
  moreover have "0 \<le> listed * keep" using ranges keep by simp
  ultimately obtain kept where kept: "to_double (listed * keep) = Some kept" "0 \<le> kept" "\<bar>kept - listed * keep\<bar> \<le> 1 / 10 ^ 4"
    using below_a_million_million [of "listed * keep" "1000000000 * 101" "1 / 10 ^ 4"] by auto
  have "kept \<le> 1000000000 * 102" 
    using abs_le_D1 [OF kept(3)] \<open>listed * keep \<le> 1000000000 * 101\<close> by simp
  then obtain limit where limit: "to_double (kept / 100) = Some limit" "\<bar>limit - kept / 100\<bar> \<le> 1 / 10 ^ 6"
    using below_a_million_million [of "kept / 100" "1000000000 * 102 / 100" "1 / 10 ^ 6"] kept(2) by auto
  have "limit \<le> lhs"
    using not_under
    by (simp add: under_depth_def double_add_def double_sub_def double_mul_def double_div_def lhs keep kept limit)
  moreover have "listed * keep \<ge> listed * (100 - depth) - 1 / 10 ^ 4"
  proof -
    have "listed * ((100 - depth) - keep) \<le> 1000000000 * (1 / 10 ^ 13)"
      using abs_le_D2 [OF keep(3)] ranges
      by (intro order_trans [OF mult_left_mono [of _ "1 / 10 ^ 13"] mult_right_mono]) simp_all
    then show ?thesis by (simp add: algebra_simps)
  qed
  ultimately show ?thesis
    using abs_le_D1 [OF lhs(2)] abs_le_D2 [OF limit(2)] abs_le_D2 [OF kept(3)] c(2) by simp
qed

text \<open>
  An offer the price rules have nothing against is priced at the floor or above it, and at most 1.1 cents
  under the list price of the roster less the discount the caller authorised.
\<close>

lemma price_reasons_bound:
  assumes "price_reasons lib bid offer list_prices max_discount_pct = Inr []"
  obtains depth paid_unit paid_total listed cap cap_reasons
  where "finite_number (vget offer ''unit_price'') = Inr (Some paid_unit)"
    and "finite_number (vget offer ''total_price'') = Inr (Some paid_total)"
    and "declared_depth lib offer = Inr (Some depth, [])" "0 < depth \<longrightarrow> depth \<le> authorised_limit cap"
    and "authorized_depth offer list_prices max_discount_pct = Inr (cap, cap_reasons)"
    and "roster_list_price offer list_prices = Inr (Some listed, [])"
    and "0 < listed \<longrightarrow> price_floor listed \<le> paid_unit \<and> price_floor listed \<le> paid_total"
    and "listed \<le> 1000000000 \<longrightarrow> listed * (100 - authorised_limit cap) / 100 - 11 / 1000 \<le> paid_unit"
proof (rule price_reasonsE [OF assms])
  fix depth paid_unit paid_total listed cap cap_reasons carried
  assume unit: "finite_number (vget offer ''unit_price'') = Inr (Some paid_unit)" "0 \<le> paid_unit"
    and tot: "finite_number (vget offer ''total_price'') = Inr (Some paid_total)" "0 \<le> paid_total"
    and depth: "declared_depth lib offer = Inr (Some depth, [])"
    and cap: "authorized_depth offer list_prices max_discount_pct = Inr (cap, cap_reasons)"
    and roster: "roster_list_price offer list_prices = Inr (Some listed, [])"
    and none: "relation_reasons depth paid_unit (Some paid_total) (cap, cap_reasons) carried (Some listed, []) = []"
  note ok = relation_reasons_ok [OF none]
  obtain authorized where force: "depth_in_force depth cap = (authorized, [])"
    using ok(2) by (cases "depth_in_force depth cap") simp
  have d: "0 \<le> depth" "depth \<le> 100" using declared_depth_range(1) [OF depth] by simp_all
  have capped: "0 < depth \<longrightarrow> cap \<noteq> None" 
    using ok(1) cap authorized_depth_unread by (metis (no_types))
  note limit = depth_in_force_limit [OF force d(1) capped]
  have l: "0 \<le> listed" using roster_list_price_range(1) [OF roster] .
  have a: "0 \<le> authorized" "authorised_limit cap \<le> 100"
    using force d cap authorized_depth_range
    by (auto simp: depth_in_force_def authorised_limit_def min_def split: if_splits option.splits)
  have floors: "0 < listed \<longrightarrow> price_floor listed \<le> paid_unit \<and> price_floor listed \<le> paid_total"
    using ok(4,5) [OF refl] floor_reasons_ok unit(2) tot(2) by blast
  have "listed * (100 - authorised_limit cap) / 100 - 11 / 1000 \<le> paid_unit" if "listed \<le> 1000000000"
  proof -
    have "listed * (100 - authorised_limit cap) / 100 \<le> listed * (100 - authorized) / 100"
      using l limit(1) by (simp add: mult_left_mono divide_right_mono)
    moreover have "listed * (100 - authorized) / 100 - 11 / 1000 \<le> paid_unit"
      using ok(6) [OF refl] force that unit(2) l a limit(1) by (intro under_depth_exact) simp_all
    ultimately show ?thesis by simp
  qed
  with that unit tot depth cap roster floors limit(2) show thesis by blast
qed

end
