(* ===== verification/BidRouteLaws.thy ===== *)
theory BidRouteLaws
  imports BidRoute DoorLaws BoundaryLaws
begin

text \<open>
  What an admitted request says of the submission and of the auction, the replay memory over a
  sequence of requests, and what a drain does to the queue.
\<close>

section \<open>An admitted request\<close>

lemma rejected_is: "rejected reasons indexes \<noteq> Admitted status ref" "rejected reasons indexes \<noteq> Misconfigured"
  by (simp_all add: rejected_def)

lemma admittedE:
  assumes "fst (submit_external_bid site rq d ledger) = Admitted status ref"
  obtains payload signature
  where "request_submission site rq = Inr (payload, signature)"
    and "\<not> path_mismatch payload (br_auction_id rq)"
    and "rc_accepted (fst (receive_bid (terms_of site payload (br_auction_id rq)) (br_now rq) payload (VStr signature) d))"
  using assms
  by (auto simp: submit_external_bid_def judged_submission_def rejected_is split: sum.splits prod.splits if_splits)

text \<open>The terms of the door: without the auction there is no roster.\<close>

lemma terms_simps [simp]:
  "dt_signing (terms_of site payload auction_id) = si_signing site"
  "dt_boundary (terms_of site payload auction_id) = si_boundary site"
  "dt_float_text (terms_of site payload auction_id) = si_float_text site"
  "dt_window (terms_of site payload auction_id) = freshness_of site"
  "dt_deadline (terms_of site payload auction_id) = fst (auction_terms (si_auction site auction_id) (vget payload ''store_id''))"
  "dt_list_prices (terms_of site payload auction_id) =
     snd (auction_terms (si_auction site auction_id) (vget payload ''store_id''))"
  "dt_max_discount (terms_of site payload auction_id) = VNone"
  "dt_trust_snapshot (terms_of site payload auction_id) = si_trust_snapshot site"
  by (simp_all add: terms_of_def split: prod.splits)

lemma vget_with_field: "vget (with_field (VObj d) name x) other = (if u other = u name then x else vget (VObj d) other)"
  by (simp add: with_field_def vget_def dict_simps)

lemma no_roster_no_price:
  "roster_list_price offer (rows_under VNone) = Inr (listed, []) \<Longrightarrow> False"
  by (simp add: roster_list_price_def roster_row_def rows_under_def)

section \<open>The roster rows of one store\<close>

lemma add_price_row:
  "dget (add_price store_id prices r) ref = Some row \<Longrightarrow>
     dget prices ref = Some row \<or>
     vget r ''store_id'' = store_id \<and> vget r ''product_ref'' = VStr ref \<and> row = priced_row r"
  by (auto simp: add_price_def dict_simps split: pyval.splits if_splits)

lemma store_prices_row:
  assumes "dget (store_prices roster store_id) ref = Some row"
  shows "\<exists>r \<in> set roster. vget r ''store_id'' = store_id \<and> vget r ''product_ref'' = VStr ref \<and> row = priced_row r"
proof -
  have "dget (foldl (add_price store_id) prices roster) ref = Some row \<Longrightarrow>
      dget prices ref = Some row \<or>
      (\<exists>r \<in> set roster. vget r ''store_id'' = store_id \<and> vget r ''product_ref'' = VStr ref \<and> row = priced_row r)" for prices
    by (induction roster arbitrary: prices) (auto dest: add_price_row)
  from this [of "[]"] assms show ?thesis by (simp add: store_prices_def)
qed

text \<open>What the terms of a submission price is a row of the auction's roster for the submission's store.\<close>

lemma terms_price:
  assumes "roster_list_price offer (rows_under (snd (auction_terms auction store_id))) = Inr (Some listed, [])"
  obtains a r ref where "auction = Some a" "r \<in> set (ha_roster a)" "vget r ''store_id'' = store_id"
    and "vget offer ''product_ref'' = VStr ref" "vget r ''product_ref'' = VStr ref"
    and "roster_row offer (rows_under (snd (auction_terms auction store_id))) = Some (priced_row r)"
    and "finite_number (vget r ''list_price'') = Inr (Some listed)"
proof -
  from assms obtain row where row: "roster_row offer (rows_under (snd (auction_terms auction store_id))) = Some row"
    by (cases "roster_row offer (rows_under (snd (auction_terms auction store_id)))") (simp_all add: roster_list_price_def)
  then obtain a d ref where a: "auction = Some a" and d: "d = store_prices (ha_roster a) store_id"
    and ref: "vget offer ''product_ref'' = VStr ref" and "dget d ref = Some row"
    by (auto simp: roster_row_def rows_under_def auction_terms_def Let_def split: option.splits if_splits pyval.splits)
  then obtain r where r: "r \<in> set (ha_roster a)" "vget r ''store_id'' = store_id" "vget r ''product_ref'' = VStr ref"
    and priced: "row = priced_row r"
    using store_prices_row by blast
  have "finite_number (priced_row r) = Inr None" "vget (priced_row r) ''list_price'' = vget r ''list_price''"
    by (simp_all add: priced_row_def finite_number_def vget_def u_inj)
  then have "finite_number (vget r ''list_price'') = Inr (Some listed)"
    using assms row priced by (auto simp: roster_list_price_def Let_def and_then_Inr split: if_splits option.splits)
  with that a r ref row priced show thesis by blast
qed

section \<open>The prices of an admitted request\<close>

lemma accepted_verdict:
  assumes "rc_accepted (fst (receive_bid (terms_of site payload auction_id) now payload (VStr signature) d))"
  obtains verdict where
    "validate_external_submission (si_boundary site) (resolved_view (si_trust_snapshot site) (vget payload ''store_id''))
      now (snd (auction_terms (si_auction site auction_id) (vget payload ''store_id''))) VNone
      (with_field payload ''signature'' (VStr signature)) = Inr verdict"
    and "bv_ok verdict" and "rc_unverified (fst (receive_bid (terms_of site payload auction_id) now payload (VStr signature) d)) =
      bv_unverified verdict"
    and "\<And>name. name \<noteq> ''signature'' \<Longrightarrow> vget (with_field payload ''signature'' (VStr signature)) name = vget payload name"
proof (rule acceptedE [OF assms])
  fix members signature' digest retention indexes
  assume payload: "payload = VObj members" and sv: "VStr signature = VStr signature'"
    and judged: "judged (terms_of site payload auction_id) now payload signature' = Inr (digest, retention, indexes)"
    and receipt: "fst (receive_bid (terms_of site payload auction_id) now payload (VStr signature) d) =
      accepted_receipt payload indexes"
  have field: "vget (with_field payload ''signature'' (VStr signature)) name = vget payload name"
    if "name \<noteq> ''signature''" for name
    using that by (simp add: payload vget_with_field u_inj)
  from judged show thesis
    by (rule judgedE) (use sv receipt field that in \<open>simp add: accepted_receipt_def\<close>)
qed

lemma validate_external_prices:
  assumes "validate_external_submission lib snapshot now list_prices m bid = Inr v" and "bv_ok v"
  shows "price_reasons lib bid (vget bid ''offer'') (rows_under list_prices) m = Inr []"
  using assms unfolding validate_external_submission_def by (rule validate_bidE)

lemma accepted_prices:
  assumes "rc_accepted (fst (receive_bid (terms_of site payload auction_id) now payload (VStr signature) d))"
  shows "price_reasons (si_boundary site) (with_field payload ''signature'' (VStr signature)) (vget payload ''offer'')
      (rows_under (snd (auction_terms (si_auction site auction_id) (vget payload ''store_id'')))) VNone = Inr []"
proof (rule accepted_verdict [OF assms])
  fix verdict
  assume ok: "bv_ok verdict"
    and field: "\<And>name. name \<noteq> ''signature'' \<Longrightarrow>
      vget (with_field payload ''signature'' (VStr signature)) name = vget payload name"
    and valid: "validate_external_submission (si_boundary site) (resolved_view (si_trust_snapshot site) (vget payload ''store_id''))
      now (snd (auction_terms (si_auction site auction_id) (vget payload ''store_id''))) VNone
      (with_field payload ''signature'' (VStr signature)) = Inr verdict"
  show ?thesis using validate_external_prices [OF valid ok] by (simp add: field)
qed

lemma accepted_auction:
  assumes "rc_accepted (fst (receive_bid (terms_of site payload auction_id) now payload (VStr signature) d))"
  shows "si_auction site auction_id \<noteq> None"
  by (rule price_reasons_bound [OF accepted_prices [OF assms]], erule terms_price) simp

lemma admitted_judged:
  assumes "fst (submit_external_bid site rq d ledger) = Admitted status ref"
  obtains payload signature digest retention indexes a
  where "request_submission site rq = Inr (payload, signature)"
    and "\<not> path_mismatch payload (br_auction_id rq)"
    and "judged (terms_of site payload (br_auction_id rq)) (br_now rq) payload signature = Inr (digest, retention, indexes)"
    and "si_auction site (br_auction_id rq) = Some a"
    and "price_reasons (si_boundary site) (with_field payload ''signature'' (VStr signature)) (vget payload ''offer'')
      (rows_under (snd (auction_terms (Some a) (vget payload ''store_id'')))) VNone = Inr []"
proof (rule admittedE [OF assms])
  fix payload signature
  assume p: "request_submission site rq = Inr (payload, signature)" "\<not> path_mismatch payload (br_auction_id rq)"
    and accepted: "rc_accepted (fst (receive_bid (terms_of site payload (br_auction_id rq)) (br_now rq) payload (VStr signature) d))"
  obtain a where a: "si_auction site (br_auction_id rq) = Some a" using accepted_auction [OF accepted] by blast
  from accepted show thesis
    by (rule acceptedE) (use that p a accepted_prices [OF accepted] in simp)
qed

lemma admitted_status:
  assumes "fst (submit_external_bid site rq d ledger) = Admitted status ref"
  shows "status = u ''unverified''"
proof (rule admittedE [OF assms])
  fix payload signature
  assume p: "request_submission site rq = Inr (payload, signature)"
    and accepted: "rc_accepted (fst (receive_bid (terms_of site payload (br_auction_id rq)) (br_now rq) payload (VStr signature) d))"
  from accepted have "rc_status (fst (receive_bid (terms_of site payload (br_auction_id rq)) (br_now rq) payload (VStr signature) d)) =
      u ''unverified''"
    by (rule acceptedE) (simp add: accepted_receipt_def)
  moreover have "renderable (u ''unverified'') = u ''unverified''" by code_simp
  ultimately show ?thesis
    using assms p accepted
    by (auto simp: submit_external_bid_def judged_submission_def rejected_is split: prod.splits if_splits)
qed

lemma authorised_priced_row:
  assumes "authorized_depth offer list_prices VNone = Inr (cap, reasons)"
    and "roster_row offer list_prices = Some (priced_row row)"
  shows "authorised_limit cap = row_limit row"
  using authorised_row [OF assms] by (simp add: row_limit_def priced_row_def vget_def u_inj)

section \<open>A sequence of requests\<close>

definition is_admitted :: "bid_answer \<Rightarrow> bool" where
  "is_admitted a = (case a of Admitted _ _ \<Rightarrow> True | _ \<Rightarrow> False)"

fun serve_all ::
  "('l site \<times> bid_request) list \<Rightarrow> work_queue door \<Rightarrow> 'l \<Rightarrow> bid_answer list \<times> work_queue door \<times> 'l" where
  "serve_all [] d ledger = ([], d, ledger)"
| "serve_all (x # xs) d ledger =
     (let (a, d1, ledger1) = submit_external_bid (fst x) (snd x) d ledger;
          (as, d2, ledger2) = serve_all xs d1 ledger1
      in (a # as, d2, ledger2))"

text \<open>What an admitted request spent: the nonce of its submission, retained as the door judged.\<close>

definition spent_by :: "'l site \<Rightarrow> bid_request \<Rightarrow> int \<times> ((pystr \<times> pystr) \<times> int option) option \<Rightarrow> bool" where
  "spent_by site rq v \<longleftrightarrow>
     (\<exists>payload signature digest retention indexes.
        request_submission site rq = Inr (payload, signature) \<and>
        judged (terms_of site payload (br_auction_id rq)) (br_now rq) payload signature = Inr (digest, retention, indexes) \<and>
        si_auction site (br_auction_id rq) \<noteq> None \<and>
        snd v = Some (nonce_key payload, retention))"

lemma visit_None: "nonces.visit m None s = s"
  by (simp add: nonces.visit_def)

lemma request_visit:
  obtains entry where "do_nonces (fst (snd (submit_external_bid site rq d ledger))) = nonces.visit (br_now rq) entry (do_nonces d)"
    and "is_admitted (fst (submit_external_bid site rq d ledger)) \<Longrightarrow>
      nonces.spends_at (br_now rq, entry) (do_nonces d) \<and> spent_by site rq (br_now rq, entry)"
proof (cases "\<exists>payload signature. si_configured site \<and> request_submission site rq = Inr (payload, signature) \<and>
      \<not> oversized_identifier payload (br_auction_id rq) \<and> \<not> path_mismatch payload (br_auction_id rq)")
  case True
  then obtain payload signature where p: "si_configured site" "request_submission site rq = Inr (payload, signature)"
    "\<not> oversized_identifier payload (br_auction_id rq)" "\<not> path_mismatch payload (br_auction_id rq)"
    by blast
  let ?r = "receive_bid (terms_of site payload (br_auction_id rq)) (br_now rq) payload (VStr signature) d"
  have nonces: "do_nonces (fst (snd (submit_external_bid site rq d ledger))) = do_nonces (snd ?r)"
    and admitted: "is_admitted (fst (submit_external_bid site rq d ledger)) \<Longrightarrow> rc_accepted (fst ?r)"
    using p by (simp_all add: submit_external_bid_def judged_submission_def rejected_def is_admitted_def
      split: prod.splits if_splits)
  show thesis
  proof (rule nonces_after)
    fix entry
    assume visit: "do_nonces (snd ?r) = nonces.visit (br_now rq) entry (do_nonces d)"
      and spent: "rc_accepted (fst ?r) \<Longrightarrow> nonces.spends_at (br_now rq, entry) (do_nonces d) \<and>
        (\<exists>signature' digest retention indexes. VStr signature = VStr signature' \<and>
          judged (terms_of site payload (br_auction_id rq)) (br_now rq) payload signature' = Inr (digest, retention, indexes) \<and>
          entry = Some (nonce_key payload, retention))"
    have "spent_by site rq (br_now rq, entry)" if "rc_accepted (fst ?r)"
      using spent [OF that] accepted_auction [OF that] p(2) by (auto simp: spent_by_def)
    with visit spent nonces admitted show thesis by (intro that [of entry]) simp_all
  qed
next
  case False
  then have "\<not> is_admitted (fst (submit_external_bid site rq d ledger)) \<and>
      do_nonces (fst (snd (submit_external_bid site rq d ledger))) = do_nonces d"
    by (auto simp: submit_external_bid_def judged_submission_def rejected_def is_admitted_def split: sum.split)
  then show thesis by (intro that [of None]) (simp_all add: visit_None)
qed

lemma serve_all_Cons:
  "fst (serve_all (x # xs) d ledger) = fst (submit_external_bid (fst x) (snd x) d ledger) #
     fst (serve_all xs (fst (snd (submit_external_bid (fst x) (snd x) d ledger)))
       (snd (snd (submit_external_bid (fst x) (snd x) d ledger))))"
  "snd (serve_all (x # xs) d ledger) =
     snd (serve_all xs (fst (snd (submit_external_bid (fst x) (snd x) d ledger)))
       (snd (snd (submit_external_bid (fst x) (snd x) d ledger))))"
  by (simp_all split: prod.split)

declare serve_all.simps(2) [simp del]

text \<open>A sequence of requests is a sequence of visits to the replay memory.\<close>

lemma served_visits:
  "\<exists>vs. map fst vs = map (br_now \<circ> snd) xs \<and>
     do_nonces (fst (snd (serve_all xs d ledger))) = foldl (\<lambda>s (m, entry). nonces.visit m entry s) (do_nonces d) vs \<and>
     (\<forall>i < length xs. is_admitted (fst (serve_all xs d ledger) ! i) \<longrightarrow>
        nonces.spends vs (do_nonces d) ! i \<and> spent_by (fst (xs ! i)) (snd (xs ! i)) (vs ! i))"
proof (induction xs arbitrary: d ledger)
  case Nil
  show ?case by (intro exI [of _ "[]"]) simp
next
  case (Cons x xs)
  let ?after = "submit_external_bid (fst x) (snd x) d ledger"
  obtain entry where entry: "do_nonces (fst (snd ?after)) = nonces.visit (br_now (snd x)) entry (do_nonces d)"
    "is_admitted (fst ?after) \<Longrightarrow>
      nonces.spends_at (br_now (snd x), entry) (do_nonces d) \<and> spent_by (fst x) (snd x) (br_now (snd x), entry)"
    by (rule request_visit [of "fst x" "snd x" d ledger]) (rule that, assumption, blast)
  obtain vs where vs: "map fst vs = map (br_now \<circ> snd) xs"
    "do_nonces (fst (snd (serve_all xs (fst (snd ?after)) (snd (snd ?after))))) =
       foldl (\<lambda>s (m, entry). nonces.visit m entry s) (do_nonces (fst (snd ?after))) vs"
    "\<forall>i < length xs. is_admitted (fst (serve_all xs (fst (snd ?after)) (snd (snd ?after))) ! i) \<longrightarrow>
       nonces.spends vs (do_nonces (fst (snd ?after))) ! i \<and> spent_by (fst (xs ! i)) (snd (xs ! i)) (vs ! i)"
    using Cons.IH by blast
  show ?case
    using vs entry
    by (intro exI [of _ "(br_now (snd x), entry) # vs"]) (auto simp: serve_all_Cons nth_Cons split: nat.split)
qed

text \<open>Two requests with one submission for one auction, on sites that differ at most in what changes.\<close>

definition same_submission :: "'l site \<times> bid_request \<Rightarrow> 'l site \<times> bid_request \<Rightarrow> bool" where
  "same_submission x y \<longleftrightarrow>
     map_sum id fst (request_submission (fst y) (snd y)) = map_sum id fst (request_submission (fst x) (snd x)) \<and>
     br_auction_id (snd y) = br_auction_id (snd x) \<and>
     si_boundary (fst y) = si_boundary (fst x) \<and> si_float_text (fst y) = si_float_text (fst x) \<and>
     freshness_of (fst y) = freshness_of (fst x) \<and>
     (\<forall>a b. si_auction (fst x) (br_auction_id (snd x)) = Some a \<longrightarrow>
        si_auction (fst y) (br_auction_id (snd x)) = Some b \<longrightarrow> ha_deadline b = ha_deadline a)"

lemma spent_same:
  assumes "spent_by (fst x) (snd x) v" and "spent_by (fst y) (snd y) v'" and "same_submission x y"
    and window: "freshness_of (fst x) = VFloat (Finite (of_int w))" "0 \<le> w" "w \<le> 1000000000"
  obtains k r where "snd v = Some (k, r)" "snd v' = Some (k, r)" "\<not> closed_before (br_now (snd y)) r"
proof -
  from assms(1) obtain payload signature digest retention indexes where
    x: "request_submission (fst x) (snd x) = Inr (payload, signature)"
      "judged (terms_of (fst x) payload (br_auction_id (snd x))) (br_now (snd x)) payload signature = Inr (digest, retention, indexes)"
      "si_auction (fst x) (br_auction_id (snd x)) \<noteq> None" "snd v = Some (nonce_key payload, retention)"
    unfolding spent_by_def by blast
  from assms(2) obtain payload' signature' digest' retention' indexes' where
    y: "request_submission (fst y) (snd y) = Inr (payload', signature')"
      "judged (terms_of (fst y) payload' (br_auction_id (snd y))) (br_now (snd y)) payload' signature' = Inr (digest', retention', indexes')"
      "si_auction (fst y) (br_auction_id (snd y)) \<noteq> None" "snd v' = Some (nonce_key payload', retention')"
    unfolding spent_by_def by blast
  have same: "payload' = payload" "br_auction_id (snd y) = br_auction_id (snd x)"
    using assms(3) x(1) y(1) by (simp_all add: same_submission_def)
  have "dt_deadline (terms_of (fst y) payload' (br_auction_id (snd y))) = dt_deadline (terms_of (fst x) payload (br_auction_id (snd x)))"
    using assms(3) x(3) y(3) same by (auto simp: same_submission_def auction_terms_def)
  then have r: "retention' = retention"
    using retention_same [OF x(2) y(2)] assms(3) same by (simp add: same_submission_def)
  have "freshness_window (si_float_text (fst y)) (freshness_of (fst y)) = Some (of_int w)"
    using assms(3) window by (simp add: same_submission_def freshness_window_def)
  then have "\<not> closed_before (br_now (snd y)) retention'"
    using retention_lasts [OF _ window(2,3) y(2)] by simp
  with that x(4) y(4) r same show thesis by simp
qed

lemma admitted_once:
  assumes "nonce_store_ok (do_nonces d)" and "sorted (map (br_now \<circ> snd) xs)" and "i < j" "j < length xs"
    and "same_submission (xs ! i) (xs ! j)"
    and "freshness_of (fst (xs ! i)) = VFloat (Finite (of_int w))" "0 \<le> w" "w \<le> 1000000000"
    and "is_admitted (fst (serve_all xs d ledger) ! i)"
  shows "\<not> is_admitted (fst (serve_all xs d ledger) ! j)"
proof
  assume again: "is_admitted (fst (serve_all xs d ledger) ! j)"
  obtain vs where times: "map fst vs = map (br_now \<circ> snd) xs"
    and spent: "\<forall>i < length xs. is_admitted (fst (serve_all xs d ledger) ! i) \<longrightarrow>
        nonces.spends vs (do_nonces d) ! i \<and> spent_by (fst (xs ! i)) (snd (xs ! i)) (vs ! i)"
    using served_visits [of xs d ledger] by (elim exE conjE) (rule that)
  have len: "length vs = length xs" using arg_cong [OF times, of length] by simp
  have now: "fst (vs ! j) = br_now (snd (xs ! j))"
    using arg_cong [OF times, of "\<lambda>l. l ! j"] assms(4) len by simp
  have i: "nonces.spends vs (do_nonces d) ! i" "spent_by (fst (xs ! i)) (snd (xs ! i)) (vs ! i)"
    and j: "nonces.spends vs (do_nonces d) ! j" "spent_by (fst (xs ! j)) (snd (xs ! j)) (vs ! j)"
    using spent assms(3,4,9) again by simp_all
  obtain k r where "snd (vs ! i) = Some (k, r)" "snd (vs ! j) = Some (k, r)" "\<not> closed_before (br_now (snd (xs ! j))) r"
    by (rule spent_same [OF i(2) j(2) assms(5-8)])
  then have "\<not> nonces.spends vs (do_nonces d) ! j"
    using assms(2-4) len now i(1) by (intro nonces.not_spent_twice [OF assms(1)]) (simp_all add: times)
  with j(1) show False by blast
qed

section \<open>The drain\<close>

text \<open>An entry that reads back, and is written again as it was.\<close>

definition stored :: "queue_lib \<Rightarrow> pystr \<Rightarrow> bool" where
  "stored lib e \<longleftrightarrow> (\<exists>item. item \<noteq> VNone \<and> ql_loads lib e = Some item \<and> ql_dumps lib item = Some e)"

definition queue_ok :: "queue_lib \<Rightarrow> work_queue \<Rightarrow> bool" where
  "queue_ok lib q \<longleftrightarrow> wq_reachable q \<and> int (length (wq_entries q)) \<le> wq_max q \<and> (\<forall>e \<in> set (wq_entries q). stored lib e)"

text \<open>What a drain from \<open>q\<close> may leave: no entry lost but the verified ones, and no entry made up.\<close>

definition keeps_entries :: "work_queue \<Rightarrow> nat \<Rightarrow> work_queue \<Rightarrow> bool" where
  "keeps_entries q verified q' \<longleftrightarrow>
     mset (wq_entries q') \<subseteq># mset (wq_entries q) \<and>
     length (wq_entries q) = length (wq_entries q') + verified \<and>
     wq_max q' = wq_max q \<and> wq_reachable q' = wq_reachable q"

lemma keeps_entries_refl: "keeps_entries q 0 q"
  by (simp add: keeps_entries_def)

lemma keeps_entries_trans: "keeps_entries q m q1 \<Longrightarrow> keeps_entries q1 n q2 \<Longrightarrow> keeps_entries q (m + n) q2"
  by (auto simp: keeps_entries_def)

lemma keeps_entries_ok: "keeps_entries q n q' \<Longrightarrow> queue_ok lib q \<Longrightarrow> queue_ok lib q'"
  by (auto simp: keeps_entries_def queue_ok_def dest: mset_subset_eqD)

lemma popped:
  assumes "queue_ok lib q" and "wq_entries q = raw # rest"
  obtains item where "queue_pop lib q = (Inr (Some item), q\<lparr>wq_entries := rest\<rparr>)"
    and "keeps_entries q 1 (q\<lparr>wq_entries := rest\<rparr>)"
    and "keeps_entries q 0 (requeue lib item (q\<lparr>wq_entries := rest\<rparr>))"
proof -
  from assms obtain item where item: "item \<noteq> VNone" "ql_loads lib raw = Some item" "ql_dumps lib item = Some raw"
    by (auto simp: queue_ok_def stored_def)
  show thesis
  proof (rule that)
    show "queue_pop lib q = (Inr (Some item), q\<lparr>wq_entries := rest\<rparr>)"
      using assms item by (auto simp: queue_pop_def queue_ok_def split: pyval.split)
    show "keeps_entries q 1 (q\<lparr>wq_entries := rest\<rparr>)" using assms(2) by (simp add: keeps_entries_def)
    show "keeps_entries q 0 (requeue lib item (q\<lparr>wq_entries := rest\<rparr>))"
      using assms item by (simp add: keeps_entries_def requeue_def queue_enqueue_def queue_ok_def)
  qed
qed

lemma popped_empty: "queue_ok lib q \<Longrightarrow> wq_entries q = [] \<Longrightarrow> queue_pop lib q = (Inr None, q)"
  by (simp add: queue_pop_def queue_ok_def)

text \<open>A drain of at most \<open>n\<close> items from \<open>q\<close> with the counts it started from.\<close>

definition drained_well ::
  "work_queue \<Rightarrow> nat \<Rightarrow> nat \<Rightarrow> nat \<Rightarrow> drain_report \<times> work_queue \<times> 'l \<Rightarrow> bool" where
  "drained_well q n verified deferred result \<longleftrightarrow>
     (\<exists>m. dr_verified (fst result) = verified + m \<and>
        dr_verified (fst result) + dr_deferred (fst result) \<le> verified + deferred + n \<and>
        keeps_entries q m (fst (snd result)))"

lemma drained_well_stop:
  "keeps_entries q m q1 \<Longrightarrow> m + e1 \<le> e + n \<Longrightarrow>
     drained_well q n v e (\<lparr>dr_verified = v + m, dr_deferred = e1, dr_reason = why\<rparr>, q1, ledger)"
  by (auto simp: drained_well_def)

lemma drained_well_step:
  assumes "keeps_entries q k q1" and "drained_well q1 n (v + k) e1 result" and "k + e1 \<le> Suc e"
  shows "drained_well q (Suc n) v e result"
proof -
  from assms(2) obtain m where "dr_verified (fst result) = v + k + m"
    "dr_verified (fst result) + dr_deferred (fst result) \<le> v + k + e1 + n" "keeps_entries q1 m (fst (snd result))"
    by (auto simp: drained_well_def)
  with keeps_entries_trans [OF assms(1)] assms(3) show ?thesis
    unfolding drained_well_def by (intro exI [of _ "k + m"]) simp
qed

lemma drain_loop_well:
  "queue_ok ql q \<Longrightarrow> drained_well q n v e (drain_loop lib ql gr n (v, e) q ledger)"
proof (induction n arbitrary: v e q ledger)
  case 0
  show ?case using drained_well_stop [OF keeps_entries_refl, of e e 0 q v "[]" ledger] by simp
next
  case (Suc n)
  show ?case
  proof (cases "wq_entries q")
    case Nil
    then show ?thesis
      using popped_empty [OF Suc.prems] drained_well_stop [OF keeps_entries_refl, of e e "Suc n" q v "[]" ledger] by simp
  next
    case (Cons raw rest)
    let ?rest = "q\<lparr>wq_entries := rest\<rparr>"
    obtain item where pop: "queue_pop ql q = (Inr (Some item), ?rest)"
      and gone: "keeps_entries q 1 ?rest" and kept: "keeps_entries q 0 (requeue ql item ?rest)"
      by (rule popped [OF Suc.prems Cons])
    obtain ok ledger1 where graded: "verify_work_item lib gr item ledger = (ok, ledger1)" by fastforce
    note deferred = drained_well_step [OF kept, of n v "Suc e" _ e]
      and verified = drained_well_step [OF gone, of n v e _ e]
    show ?thesis
      using deferred [of "drain_loop lib ql gr n (v, Suc e) (requeue ql item ?rest) ledger"]
        verified [of "drain_loop lib ql gr n (Suc v, e) ?rest ledger1"]
        Suc.IH [OF keeps_entries_ok [OF kept Suc.prems], of v "Suc e" ledger]
        Suc.IH [OF keeps_entries_ok [OF gone Suc.prems], of "Suc v" e ledger1]
        drained_well_stop [OF kept, of "Suc e" e "Suc n" v "u ''verifier_failed''" ledger1]
      by (cases ok) (simp_all add: pop graded)
  qed
qed

end
