(* ===== verification/DoorProps.thy ===== *)
theory DoorProps
  imports BidRouteLaws
begin

text \<open>
  The properties of the door for external bids: what an admitted bid proves about its seller, its auction
  and its price, that it is admitted once, what its claims may say, and what the queue keeps.
\<close>

section \<open>A sample for the witnesses\<close>

definition trial_offer :: pyval where
  "trial_offer = VObj [(u ''product_ref'', VStr (u ''p'')), (u ''unit_price'', VInt 80), (u ''total_price'', VInt 80),
     (u ''expires_at'', VStr (u ''2026-01-02T00:00:00Z''))]"

definition trial_claims :: pyval where
  "trial_claims = VArr [VObj [(u ''key'', VStr (u ''c'')),
     (u ''provenance'', VObj [(u ''source'', VStr (u ''seller_asserted''))])]]"

definition trial_payload :: pyval where
  "trial_payload = VObj [(u ''auction_id'', VStr (u ''a'')), (u ''signer_id'', VStr (u ''g'')),
     (u ''key_id'', VStr (u ''k'')), (u ''store_id'', VStr (u ''s'')),
     (u ''issued_at'', VStr (u ''2026-01-01T00:00:00Z'')), (u ''nonce'', VStr (u ''n'')),
     (u ''schema_version'', VStr (u ''1'')), (u ''claims'', trial_claims), (u ''offer'', trial_offer)]"

definition trial_lib :: boundary_lib where
  "trial_lib = \<lparr>vb_schema = \<lambda>_ _. SchemaOk, vb_fromisoformat = \<lambda>s. Some (if s ! 9 = 49 then 0 else 86400000000),
     vb_str = \<lambda>_. [], vb_lower = id\<rparr>"

definition trial_signing :: signing_lib where
  "trial_signing = \<lparr>sl_sha256 = \<lambda>bs. decimal_digits (int (length bs)),
     sl_hmac = \<lambda>k m. decimal_digits (int (length k + length m))\<rparr>"

definition trial_queue_lib :: queue_lib where
  "trial_queue_lib = \<lparr>ql_dumps = \<lambda>v. Some (u ''w''), ql_loads = \<lambda>_. Some (VObj [])\<rparr>"

text \<open>A grading that counts what it graded and knows no store.\<close>

definition trial_grading :: "nat grading" where
  "trial_grading = \<lparr>gr_recorder = True, gr_dimensions = True, gr_snapshot_for = \<lambda>_ _. False,
     gr_attest = \<lambda>_ n. (True, Suc n)\<rparr>"

definition trial_row :: pyval where
  "trial_row = VObj [(u ''store_id'', VStr (u ''s'')), (u ''product_ref'', VStr (u ''p'')),
     (u ''list_price'', VInt 100), (u ''max_discount_pct'', VInt 20)]"

definition trial_site :: "nat site" where
  "trial_site = \<lparr>si_signing = trial_signing, si_boundary = trial_lib, si_queue_lib = trial_queue_lib,
     si_float_text = \<lambda>_. None, si_loads = \<lambda>_. Loaded trial_payload, si_configured = True,
     si_keyring = VObj [(u ''g'', VObj [(u ''k'', VStr (u ''x''))])], si_queue_bound = True,
     si_freshness = None, si_auction = \<lambda>_. Some \<lparr>ha_roster = [trial_row], ha_deadline = VInt 100\<rparr>,
     si_trust_snapshot = VObj [(u ''s'', VObj [(u ''blacklisted'', VBool False)])],
     si_grading = trial_grading\<rparr>"

definition trial_request :: bid_request where
  "trial_request = \<lparr>br_auction_id = u ''a'', br_chunks = [], br_header = Some (u ''159''), br_now = 0\<rparr>"

definition trial_door :: "int \<Rightarrow> work_queue door" where
  "trial_door room = \<lparr>do_nonces = \<lparr>ns_max = 2, ns_consumed = []\<rparr>, do_queue = new_work_queue room\<rparr>"

lemmas trial_defs = trial_site_def trial_request_def trial_door_def trial_row_def trial_grading_def
  trial_queue_lib_def trial_signing_def trial_lib_def

text \<open>Each part of the judgement evaluated alone.\<close>

lemma trial_signed: "sign_bid trial_signing trial_payload (u ''x'') = Some (u ''159'')"
  by code_simp

lemma trial_digest: "payload_hash trial_signing trial_payload = Some (u ''sha256:216'')"
  by code_simp

lemma trial_fields:
  "vget trial_payload ''signer_id'' = VStr (u ''g'')" "vget trial_payload ''key_id'' = VStr (u ''k'')"
  "vget trial_payload ''nonce'' = VStr (u ''n'')" "vget trial_payload ''store_id'' = VStr (u ''s'')"
  "vget trial_payload ''issued_at'' = VStr (u ''2026-01-01T00:00:00Z'')"
  by code_simp+

definition trial_prices :: pyval where
  "trial_prices = VObj [(u ''p'', priced_row trial_row)]"

lemma trial_terms: "auction_terms (si_auction trial_site (u ''a'')) (VStr (u ''s'')) = (VInt 100, trial_prices)"
  by code_simp

lemma trial_numbers:
  "\<not> 80 < price_floor 100" "under_depth 80 100 20 = False" "under_depth 80 80 20 = False"
  by code_simp+

lemma trial_reads:
  "has_fields trial_offer" "declared_depth trial_lib trial_offer = Inr (Some 0, [])"
  "finite_number (vget trial_offer ''unit_price'') = Inr (Some 80)"
  "finite_number (vget trial_offer ''total_price'') = Inr (Some 80)"
  "authorized_depth trial_offer (rows_under trial_prices) VNone = Inr (Some 20, [])"
  "roster_list_price trial_offer (rows_under trial_prices) = Inr (Some 100, [])"
  by code_simp+

definition trial_submitted :: pyval where
  "trial_submitted = with_field trial_payload ''signature'' (VStr (u ''159''))"

lemma trial_carried: "carried_list_price trial_submitted trial_offer = Inr (None, [])"
  by code_simp

lemma trial_priced: "price_reasons trial_lib trial_submitted trial_offer (rows_under trial_prices) VNone = Inr []"
  by (simp add: price_reasons_def trial_reads trial_carried trial_numbers relation_reasons_def amount_reasons_def
    depth_in_force_def floor_reasons_def Let_def)

lemma trial_verdict:
  "validate_external_submission trial_lib (resolved_view (si_trust_snapshot trial_site) (VStr (u ''s''))) 0 trial_prices VNone
     trial_submitted =
   Inr \<lparr>bv_ok = True, bv_path = external_path, bv_reasons = [], bv_requires_verification = True, bv_unverified = [0]\<rparr>"
proof -
  have "claim_provenance_reasons trial_lib (vget trial_submitted ''claims'') external_path None = ([], [0])"
    and "offer_claim_reasons trial_lib trial_offer external_path = []"
    and "date_time_format_reasons True [] trial_submitted trial_offer = []"
    and "expiry_reasons trial_lib trial_offer 0 = []"
    and "eligibility_reasons trial_lib (vget trial_submitted ''store_id'')
      (resolved_view (si_trust_snapshot trial_site) (VStr (u ''s''))) = Inr []"
    and "signing_envelope_reasons trial_submitted = []"
    and "vget trial_submitted ''offer'' = trial_offer"
    by code_simp+
  moreover have "vb_schema trial_lib True v = SchemaOk" for v by (simp add: trial_lib_def)
  ultimately show ?thesis
    by (simp add: validate_external_submission_def validate_bid_def trial_priced schema_reasons_def
      reported_locations_def Let_def)
qed

lemma trial_door_terms:
  "dt_signing (terms_of trial_site trial_payload (u ''a'')) = trial_signing"
  "dt_boundary (terms_of trial_site trial_payload (u ''a'')) = trial_lib"
  "dt_float_text (terms_of trial_site trial_payload (u ''a'')) = (\<lambda>_. None)"
  "dt_window (terms_of trial_site trial_payload (u ''a'')) = VFloat (Finite 300)"
  "dt_keyring (terms_of trial_site trial_payload (u ''a'')) = VObj [(u ''g'', VObj [(u ''k'', VStr (u ''x''))])]"
  "dt_deadline (terms_of trial_site trial_payload (u ''a'')) = VInt 100"
  "dt_list_prices (terms_of trial_site trial_payload (u ''a'')) = trial_prices"
  "dt_blacklist (terms_of trial_site trial_payload (u ''a'')) = VNone"
  "dt_enqueue (terms_of trial_site trial_payload (u ''a'')) = Some (queue_enqueue trial_queue_lib)"
  "dt_has_nonces (terms_of trial_site trial_payload (u ''a''))"
  "dt_max_discount (terms_of trial_site trial_payload (u ''a'')) = VNone"
  "dt_trust_snapshot (terms_of trial_site trial_payload (u ''a'')) = si_trust_snapshot trial_site"
  by (simp_all add: terms_of_def trial_fields trial_terms freshness_of_def Let_def del: terms_simps)
    (simp_all add: trial_site_def py_truthy_def default_freshness_window_def)

lemma trial_judged:
  "judged (terms_of trial_site trial_payload (u ''a'')) 0 trial_payload (u ''159'') =
     Inr (u ''sha256:216'', Some 100000000, [0])"
proof -
  obtain message where m: "canonical_signing_bytes trial_signing trial_payload = Some message"
    using trial_signed by (auto simp: sign_bid_def)
  have "strip_text (u ''159'') \<noteq> []" by code_simp
  then have verified: "verify_signature trial_signing trial_payload (u ''159'') (u ''x'')"
    using trial_signed by (simp add: verify_signature_def)
  have "copyable 0 trial_payload" "parse_instant trial_lib (VStr (u ''2026-01-01T00:00:00Z'')) = Some 0"
    "parse_instant trial_lib (VInt 100) = Some 100000000" "seconds_between 0 0 = 0"
    "freshness_window (\<lambda>_. None) (VFloat (Finite 300)) = Some 300"
    "keyring_secret (VObj [(u ''g'', VObj [(u ''k'', VStr (u ''x''))])]) (u ''g'') (u ''k'') = Some (u ''x'')"
    "\<not> door_blacklisted trial_payload VNone"
    by code_simp+
  with m verified trial_verdict show ?thesis
    by (simp add: judged_def trial_fields trial_digest trial_door_terms nonce_retention_def Let_def
      trial_submitted_def [symmetric] del: terms_simps)
qed

lemma trial_submission: "request_submission trial_site trial_request = Inr (trial_payload, u ''159'')"
  by code_simp

lemma trial_checks: "\<not> oversized_identifier trial_payload (u ''a'')" "\<not> path_mismatch trial_payload (u ''a'')"
  by code_simp+

lemma trial_served:
  "submit_external_bid trial_site trial_request d ledger =
     judged_submission trial_site 0 (u ''a'') trial_payload (u ''159'') d ledger"
  using trial_submission by (simp add: submit_external_bid_def) (simp add: trial_request_def trial_site_def)

lemma trial_received:
  "receive_bid (terms_of trial_site trial_payload (u ''a'')) 0 trial_payload (VStr (u ''159'')) d =
     admitted (terms_of trial_site trial_payload (u ''a'')) 0 trial_payload (u ''159'')
       (u ''sha256:216'', Some 100000000, [0]) d"
  by (rule receive_bid_judged [OF trial_judged])

lemma trial_queued:
  "submit_external_bid trial_site trial_request (trial_door 3) 0 =
     (Admitted (u ''unverified'') None,
      \<lparr>do_nonces = \<lparr>ns_max = 2, ns_consumed = [((u ''g'', u ''n''), Some 100000000)]\<rparr>,
        do_queue = \<lparr>wq_entries = [u ''w''], wq_max = 3, wq_reachable = True\<rparr>\<rparr>, 0)"
proof -
  let ?spent = "\<lparr>ns_max = 2, ns_consumed = [((u ''g'', u ''n''), Some 100000000)]\<rparr>"
  have "spent_for trial_payload 0 (Some 100000000) (do_nonces (trial_door 3)) = (Spent, ?spent)"
    by code_simp
  moreover have "queued (queue_enqueue trial_queue_lib) item trial_payload [0] ((trial_door 3)\<lparr>do_nonces := ?spent\<rparr>) =
      (accepted_receipt trial_payload [0], \<lparr>do_nonces = ?spent, do_queue = \<lparr>wq_entries = [u ''w''], wq_max = 3, wq_reachable = True\<rparr>\<rparr>)" for item
    by (simp add: queued_def queue_enqueue_def trial_queue_lib_def trial_door_def new_work_queue_def)
  moreover have "drain_after_admission trial_site \<lparr>wq_entries = [u ''w''], wq_max = 3, wq_reachable = True\<rparr> 0 =
      (\<lparr>wq_entries = [u ''w''], wq_max = 3, wq_reachable = True\<rparr>, 0)"
    by code_simp
  moreover have "bid_ref_of trial_payload = None" "renderable (u ''unverified'') = u ''unverified''" by code_simp+
  ultimately show ?thesis
    by (simp add: trial_served judged_submission_def trial_checks trial_received admitted_def trial_door_terms
      accepted_receipt_def del: terms_simps)
qed

section \<open>Who sent an admitted bid, and when\<close>

text \<open>
  C8. A bid is admitted only if its signature is the HMAC, under the secret the exchange holds for the
  signer and the key it names, of the bytes of its own fields; it names no other auction than the one of
  the address; the exchange holds that auction and its deadline has not passed; and, with a window of
  whole seconds, it was issued within the window of the instant it is judged at. Nothing about it is
  verified yet.
\<close>

theorem admitted_bid_is_signed_and_fresh:
  assumes "fst (submit_external_bid site rq d ledger) = Admitted status ref"
  shows "\<exists>payload signature signer key secret message issued_at a.
      request_submission site rq = Inr (payload, signature) \<and>
      vget payload ''signer_id'' = VStr signer \<and> vget payload ''key_id'' = VStr key \<and>
      keyring_secret (si_keyring site) signer key = Some secret \<and>
      canonical_signing_bytes (si_signing site) payload = Some message \<and>
      utf8 signature = utf8 (sl_hmac (si_signing site) (utf8 secret) message) \<and>
      (\<forall>s. vget payload ''auction_id'' = VStr s \<longrightarrow> s = br_auction_id rq) \<and>
      si_auction site (br_auction_id rq) = Some a \<and>
      \<not> closed_before (br_now rq) (parse_instant (si_boundary site) (ha_deadline a)) \<and>
      parse_instant (si_boundary site) (vget payload ''issued_at'') = Some issued_at \<and>
      (\<forall>w. freshness_of site = VFloat (Finite (of_int w)) \<longrightarrow> 0 \<le> w \<longrightarrow> w \<le> 1000000000 \<longrightarrow>
         \<bar>br_now rq - issued_at\<bar> \<le> w * 1000000) \<and>
      status = u ''unverified''"
proof (rule admitted_judged [OF assms])
  fix payload signature digest retention indexes a
  let ?terms = "terms_of site payload (br_auction_id rq)"
  assume p: "request_submission site rq = Inr (payload, signature)" "\<not> path_mismatch payload (br_auction_id rq)"
    and judged: "judged ?terms (br_now rq) payload signature = Inr (digest, retention, indexes)"
    and a: "si_auction site (br_auction_id rq) = Some a"
  have auction_id: "\<forall>s. vget payload ''auction_id'' = VStr s \<longrightarrow> s = br_auction_id rq"
    using p(2) by (auto simp: path_mismatch_def)
  show ?thesis
  proof (rule judgedE [OF judged])
    fix message signer key nonce secret issued_at window verdict
    assume m: "canonical_signing_bytes (dt_signing ?terms) payload = Some message"
      and fields: "vget payload ''signer_id'' = VStr signer" "vget payload ''key_id'' = VStr key"
      and k: "keyring_secret (dt_keyring ?terms) signer key = Some secret"
      and v: "verify_signature (dt_signing ?terms) payload signature secret"
      and issued: "parse_instant (dt_boundary ?terms) (vget payload ''issued_at'') = Some issued_at"
      and w: "freshness_window (dt_float_text ?terms) (dt_window ?terms) = Some window"
        "seconds_between (br_now rq) issued_at \<le> window" "- seconds_between (br_now rq) issued_at \<le> window"
      and open_: "\<not> closed_before (br_now rq) (parse_instant (dt_boundary ?terms) (dt_deadline ?terms))"
    have "keyring_secret (si_keyring site) signer key = Some secret"
      using k by (auto simp: terms_of_def keyring_secret_def split: prod.splits if_splits)
    moreover have "utf8 signature = utf8 (sl_hmac (si_signing site) (utf8 secret) message)"
      using v m by (simp add: verify_signature_def sign_bid_def)
    moreover have "\<bar>br_now rq - issued_at\<bar> \<le> n * 1000000"
      if "freshness_of site = VFloat (Finite (of_int n))" "0 \<le> n" "n \<le> 1000000000" for n
      using w that by (intro fresh_exact) (simp_all add: freshness_window_def)
    ultimately show ?thesis
      using p a m fields issued open_ auction_id admitted_status [OF assms] by (auto simp: auction_terms_def)
  qed
qed

theorem admitted_bid_is_signed_and_fresh_witness:
  "\<exists>message. canonical_signing_bytes (si_signing trial_site) trial_payload = Some message \<and>
     utf8 (u ''159'') = utf8 (sl_hmac (si_signing trial_site) (utf8 (u ''x'')) message)"
proof -
  have "fst (submit_external_bid trial_site trial_request (trial_door 3) 0) = Admitted (u ''unverified'') None"
    by (simp add: trial_queued)
  note proved = admitted_bid_is_signed_and_fresh [OF this]
  have "keyring_secret (si_keyring trial_site) (u ''g'') (u ''k'') = Some (u ''x'')" by code_simp
  with proved show ?thesis by (auto simp: trial_submission trial_fields)
qed

section \<open>What it costs\<close>

text \<open>
  C11. An admitted bid is judged by the exchange's own roster: its product is on the roster of the auction
  for the store of the bid, both its prices are at or above the price floor of that row's list price, and
  its unit price is at most 1.1 cents (the tolerance of a cent and what rounding adds) under the list price
  less the discount that row allows, whatever discount the bid declares and whatever its claims say.
\<close>

theorem admitted_bid_respects_the_roster:
  assumes "fst (submit_external_bid site rq d ledger) = Admitted status ref"
  shows "\<exists>payload signature a row listed unit whole.
      request_submission site rq = Inr (payload, signature) \<and>
      si_auction site (br_auction_id rq) = Some a \<and> row \<in> set (ha_roster a) \<and>
      vget row ''store_id'' = vget payload ''store_id'' \<and>
      vget row ''product_ref'' = vget (vget payload ''offer'') ''product_ref'' \<and>
      finite_number (vget row ''list_price'') = Inr (Some listed) \<and>
      finite_number (vget (vget payload ''offer'') ''unit_price'') = Inr (Some unit) \<and>
      finite_number (vget (vget payload ''offer'') ''total_price'') = Inr (Some whole) \<and>
      (0 < listed \<longrightarrow> price_floor listed \<le> unit \<and> price_floor listed \<le> whole) \<and>
      (listed \<le> 1000000000 \<longrightarrow> listed * (100 - row_limit row) / 100 - 11 / 1000 \<le> unit)"
proof (rule admitted_judged [OF assms])
  fix payload signature a
  assume p: "request_submission site rq = Inr (payload, signature)" "si_auction site (br_auction_id rq) = Some a"
    and prices: "price_reasons (si_boundary site) (with_field payload ''signature'' (VStr signature)) (vget payload ''offer'')
      (rows_under (snd (auction_terms (Some a) (vget payload ''store_id'')))) VNone = Inr []"
  let ?prices = "rows_under (snd (auction_terms (Some a) (vget payload ''store_id'')))" and ?offer = "vget payload ''offer''"
  show ?thesis
  proof (rule price_reasons_bound [OF prices])
    fix depth unit whole listed cap cap_reasons
    assume read: "finite_number (vget ?offer ''unit_price'') = Inr (Some unit)"
        "finite_number (vget ?offer ''total_price'') = Inr (Some whole)"
      and cap: "authorized_depth ?offer ?prices VNone = Inr (cap, cap_reasons)"
      and roster: "roster_list_price ?offer ?prices = Inr (Some listed, [])"
      and bounds: "0 < listed \<longrightarrow> price_floor listed \<le> unit \<and> price_floor listed \<le> whole"
        "listed \<le> 1000000000 \<longrightarrow> listed * (100 - authorised_limit cap) / 100 - 11 / 1000 \<le> unit"
    show ?thesis
    proof (rule terms_price [OF roster])
      fix a' row ref
      assume row: "Some a = Some a'" "row \<in> set (ha_roster a')" "vget row ''store_id'' = vget payload ''store_id''"
          "vget ?offer ''product_ref'' = VStr ref" "vget row ''product_ref'' = VStr ref"
          "roster_row ?offer ?prices = Some (priced_row row)" "finite_number (vget row ''list_price'') = Inr (Some listed)"
      have "authorised_limit cap = row_limit row" by (rule authorised_priced_row [OF cap row(6)])
      with p read bounds row show ?thesis by (intro exI [of _ payload] exI [of _ signature] exI [of _ a] exI [of _ row]
          exI [of _ listed] exI [of _ unit] exI [of _ whole]) simp
    qed
  qed
qed

theorem admitted_bid_respects_the_roster_witness:
  "\<exists>a row. si_auction trial_site (br_auction_id trial_request) = Some a \<and> row \<in> set (ha_roster a) \<and>
     vget row ''store_id'' = VStr (u ''s'')"
proof -
  have "fst (submit_external_bid trial_site trial_request (trial_door 3) 0) = Admitted (u ''unverified'') None"
    by (simp add: trial_queued)
  note proved = admitted_bid_respects_the_roster [OF this]
  then show ?thesis by (auto simp: trial_submission trial_fields)
qed

section \<open>How often\<close>

text \<open>
  C9. However requests follow each other, one submission is admitted at most once. The clock does not
  run backwards, the window of freshness is a whole number of seconds (at most a thousand million), and an
  auction keeps its deadline while the exchange holds it. It may forget the auction in between: what it
  does not hold has no roster, and admits nothing.
\<close>

theorem submission_admitted_once:
  assumes "nonce_store_ok (do_nonces d)" and "sorted (map (br_now \<circ> snd) xs)"
    and "i < j" "j < length xs" and "same_submission (xs ! i) (xs ! j)"
    and "freshness_of (fst (xs ! i)) = VFloat (Finite (of_int w))" "0 \<le> w" "w \<le> 1000000000"
  shows "\<not> (is_admitted (fst (serve_all xs d ledger) ! i) \<and> is_admitted (fst (serve_all xs d ledger) ! j))"
  using admitted_once [OF assms] by blast

theorem submission_admitted_once_witness:
  "is_admitted (fst (serve_all [(trial_site, trial_request), (trial_site, trial_request)] (trial_door 3) 0) ! 0) \<and>
   \<not> is_admitted (fst (serve_all [(trial_site, trial_request), (trial_site, trial_request)] (trial_door 3) 0) ! 1)"
proof -
  let ?xs = "[(trial_site, trial_request), (trial_site, trial_request)]"
  have first: "is_admitted (fst (serve_all ?xs (trial_door 3) 0) ! 0)"
    by (simp add: serve_all_Cons trial_queued is_admitted_def)
  have "freshness_of (fst (?xs ! 0)) = VFloat (Finite (of_int 300))"
    by (simp add: freshness_of_def trial_site_def) (simp add: default_freshness_window_def)
  moreover have "nonce_store_ok (do_nonces (trial_door 3))" by (simp add: nonce_store_ok_def trial_door_def)
  moreover have "same_submission (?xs ! 0) (?xs ! 1)" by (simp add: same_submission_def)
  ultimately show ?thesis
    using submission_admitted_once [of "trial_door 3" ?xs 0 1 300 0] first by simp
qed

text \<open>
  C35. Over any sequence of requests the replay memory holds at most as many nonces as it was built for,
  each once, and forgets none that is retained until a later instant than every request of the sequence.
\<close>

theorem replay_memory_bounded_and_faithful:
  assumes "nonce_store_ok (do_nonces d)" and "do_nonces (fst (snd (serve_all xs d ledger))) = s"
  shows "length (ns_consumed s) \<le> ns_max s \<and> distinct (dkeys (ns_consumed s)) \<and>
    (\<forall>k r. dget (ns_consumed (do_nonces d)) k = Some r \<longrightarrow> (\<forall>x \<in> set xs. \<not> closed_before (br_now (snd x)) r) \<longrightarrow>
       dget (ns_consumed s) k = Some r)"
proof -
  obtain vs where times: "map fst vs = map (br_now \<circ> snd) xs"
    and s: "s = foldl (\<lambda>s (m, entry). nonces.visit m entry s) (do_nonces d) vs"
    using served_visits [of xs d ledger] unfolding assms(2) by (elim exE conjE) (rule that)
  have "fst ` set vs = (\<lambda>x. br_now (snd x)) ` set xs"
    using arg_cong [OF times, of set] by simp
  then have all: "(\<forall>v \<in> set vs. P (fst v)) \<longleftrightarrow> (\<forall>x \<in> set xs. P (br_now (snd x)))" for P
    using ball_simps(9) [of fst "set vs" P] ball_simps(9) [of "\<lambda>x. br_now (snd x)" "set xs" P] by simp
  have "nonce_store_ok s" using nonces.visits_good [OF assms(1)] by (simp add: s)
  moreover have "dget (ns_consumed s) k = Some r"
    if "dget (ns_consumed (do_nonces d)) k = Some r" "\<forall>x \<in> set xs. \<not> closed_before (br_now (snd x)) r" for k r
    using nonces.visits_kept [OF assms(1), of k r vs] that all [of "\<lambda>m. \<not> closed_before m r"] by (simp add: s held_def)
  ultimately show ?thesis by (auto simp: nonce_store_ok_def)
qed

theorem replay_memory_bounded_and_faithful_witness:
  "length (ns_consumed (do_nonces (fst (snd (serve_all [(trial_site, trial_request)] (trial_door 3) 0))))) \<le> 2"
proof -
  have "nonce_store_ok (do_nonces (trial_door 3))" by (simp add: nonce_store_ok_def trial_door_def)
  from replay_memory_bounded_and_faithful [OF this refl, of "[(trial_site, trial_request)]" "0::nat"]
  show ?thesis by (simp add: serve_all_Cons trial_queued)
qed

section \<open>What its claims may say\<close>

text \<open>
  C23. A submission the boundary lets through says nothing on its own word without it being noted: the
  claims to verify are exactly those with a source, own or nested in the value, that is not one of the
  network's hooks, or that claim an authorised discount; every commitment and the discount of the offer
  come from hooks alone.
\<close>

theorem self_asserted_claims_are_noted:
  assumes "validate_external_submission lib snapshot now list_prices m bid = Inr v" and "bv_ok v"
  shows "set (bv_unverified v) = {i. i < length (claims_of (vget bid ''claims'')) \<and>
      (\<not> hook_sourced lib (claims_of (vget bid ''claims'') ! i) \<or> asserts_authorisation (claims_of (vget bid ''claims'') ! i))} \<and>
    (\<forall>c \<in> set (claims_of (vget (vget bid ''offer'') ''commitments'')). hook_sourced lib c \<and> \<not> asserts_authorisation c) \<and>
    (vget (vget bid ''offer'') ''discount'' \<noteq> VNone \<longrightarrow> hook_sourced lib (vget (vget bid ''offer'') ''discount''))"
  using assms unfolding validate_external_submission_def
proof (rule validate_bidE)
  assume claims: "fst (claim_provenance_reasons lib (vget bid ''claims'') external_path None) = []"
    and offer: "offer_claim_reasons lib (vget bid ''offer'') external_path = []"
    and prices: "price_reasons lib bid (vget bid ''offer'') (rows_under list_prices) m = Inr []"
    and noted: "bv_unverified v = snd (claim_provenance_reasons lib (vget bid ''claims'') external_path None)"
  have "vget bid ''offer'' \<noteq> VNone"
    using prices by (auto simp: price_reasons_def has_fields_def)
  then show ?thesis
    using claims_ok(3) [OF claims] offer_claims_ok [OF offer] by (simp add: noted)
qed

theorem self_asserted_claims_are_noted_witness:
  "\<not> hook_sourced trial_lib (claims_of trial_claims ! 0)"
proof -
  have "vget trial_submitted ''claims'' = trial_claims" "\<not> asserts_authorisation (claims_of trial_claims ! 0)"
    by (code_simp, simp add: asserts_authorisation_def trial_claims_def claims_of_def, code_simp)
  with self_asserted_claims_are_noted [OF trial_verdict] show ?thesis by auto
qed

text \<open>
  C24. The walk over a claim's value, with its own stack and its two limits, ends on every value. Within the
  limits it finds what the plain traversal finds, in the same order; beyond them it says so.
\<close>

theorem claim_walk_is_the_traversal:
  "if nests_too_deep v 0 \<or> claim_value_max_entries < int (entries_within v)
   then wr_truncated (walk_claim_value v label)
   else walk_claim_value v label =
     \<lparr>wr_found = sources_within v (label @ u ''.value''), wr_mentions = mentions_within v, wr_truncated = False\<rparr>"
  using walk_truncated_iff [of v label] walk_is_traversal [of v label] by auto

section \<open>What the queue keeps\<close>

text \<open>
  C25. When the queue is full or Redis does not answer, the bid is refused and its nonce stays spent: the same
  submission is refused as a replay from then on, also when the queue has room again.
\<close>

theorem full_queue_spends_the_nonce:
  assumes "judged terms now payload signature = Inr (digest, retention, indexes)"
    and "dt_enqueue terms = Some (queue_enqueue ql)" "dt_has_nonces terms"
    and "fst (spent_for payload now retention (do_nonces d)) = Spent" "nonce_store_ok (do_nonces d)"
    and "\<not> wq_reachable (do_queue d) \<or> wq_max (do_queue d) \<le> int (length (wq_entries (do_queue d)))"
    and "receive_bid terms now payload (VStr signature) d = (r, d1)"
    and "judged terms' later payload signature' = Inr judgement'" "\<not> closed_before later retention"
    and "dt_enqueue terms' \<noteq> None" "dt_has_nonces terms'"
  shows "r = refuse [u ''verification_queue_unavailable''] payload \<and> do_queue d1 = do_queue d \<and>
    fst (receive_bid terms' later payload (VStr signature') (d1\<lparr>do_queue := q\<rparr>)) = refuse [u ''replayed_nonce''] payload"
proof -
  have "queue_enqueue ql item (do_queue d) = (False, do_queue d)" for item
    using assms(6) by (auto simp: queue_enqueue_def split: option.split)
  then have "queued (queue_enqueue ql) item payload indexes (d\<lparr>do_nonces := s\<rparr>) =
      (refuse [u ''verification_queue_unavailable''] payload, d\<lparr>do_nonces := s\<rparr>)" for item s
    by (simp add: queued_def)
  moreover obtain s where s: "spent_for payload now retention (do_nonces d) = (Spent, s)"
    using assms(4) by (cases "spent_for payload now retention (do_nonces d)") simp
  ultimately have first: "r = refuse [u ''verification_queue_unavailable''] payload" "d1 = d\<lparr>do_nonces := s\<rparr>"
    using assms(7) by (simp_all add: receive_bid_judged [OF assms(1)] admitted_def assms(2,3))
  have "held s (nonce_key payload) = Some retention"
    using nonces.spend_spent [of "nonce_key payload" retention "snd (purge_expired now (do_nonces d))"] s
    by (simp add: spent_for_key)
  moreover have "nonce_store_ok s"
    using nonces.spend_good [OF nonces.purge_good [OF assms(5)], of "nonce_key payload" retention now] s
    by (simp add: spent_for_key)
  ultimately have "fst (receive_bid terms' later payload (VStr signature') (d1\<lparr>do_queue := q\<rparr>)) = refuse [u ''replayed_nonce''] payload"
    using first(2) assms(8-11) by (intro held_is_replay) simp_all
  with first show ?thesis by simp
qed

theorem full_queue_spends_the_nonce_witness:
  "\<exists>r d1. receive_bid (terms_of trial_site trial_payload (u ''a'')) 0 trial_payload (VStr (u ''159'')) (trial_door 0) = (r, d1) \<and>
     r = refuse [u ''verification_queue_unavailable''] trial_payload \<and>
     fst (receive_bid (terms_of trial_site trial_payload (u ''a'')) 0 trial_payload (VStr (u ''159''))
       (d1\<lparr>do_queue := new_work_queue 3\<rparr>)) = refuse [u ''replayed_nonce''] trial_payload"
proof -
  obtain r d1 where served: "receive_bid (terms_of trial_site trial_payload (u ''a'')) 0 trial_payload (VStr (u ''159'')) (trial_door 0) = (r, d1)"
    by fastforce
  have "fst (spent_for trial_payload 0 (Some 100000000) (do_nonces (trial_door 0))) = Spent" by code_simp
  moreover have "nonce_store_ok (do_nonces (trial_door 0))" "wq_max (do_queue (trial_door 0)) \<le> int (length (wq_entries (do_queue (trial_door 0))))"
    by (simp_all add: nonce_store_ok_def trial_door_def new_work_queue_def)
  moreover have "\<not> closed_before 0 (Some 100000000)" by (simp add: closed_before_def)
  ultimately show ?thesis
    using full_queue_spends_the_nonce [OF trial_judged trial_door_terms(9,10) _ _ _ served trial_judged, of "new_work_queue 3"]
      served trial_door_terms(9,10) by simp
qed

text \<open>
  A drain loses no admitted bid: every entry that leaves the queue was graded, nothing else is put in, and
  at most as many entries are taken as asked. The queue answers, is within its ceiling, and holds entries
  that read back as they were written.
\<close>

theorem drain_keeps_what_it_does_not_grade:
  assumes "queue_ok ql q" and "drain_verification_queue lib ql gr max_items q ledger = (report, q1, ledger1)"
  shows "mset (wq_entries q1) \<subseteq># mset (wq_entries q) \<and>
    length (wq_entries q) = length (wq_entries q1) + dr_verified report \<and>
    dr_verified report + dr_deferred report \<le> nat max_items \<and> queue_ok ql q1"
proof (cases "gr_recorder gr \<and> gr_dimensions gr")
  case True
  then have "drain_loop lib ql gr (nat max_items) (0, 0) q ledger = (report, q1, ledger1)"
    using assms(2) by (simp add: drain_verification_queue_def)
  with drain_loop_well [OF assms(1), of "nat max_items" 0 0 lib gr ledger]
  have "keeps_entries q (dr_verified report) q1 \<and> dr_verified report + dr_deferred report \<le> nat max_items"
    by (auto simp: drained_well_def)
  with keeps_entries_ok [OF _ assms(1)] show ?thesis by (auto simp: keeps_entries_def)
next
  case False
  then show ?thesis
    using assms by (auto simp: drain_verification_queue_def nothing_drained_def split: if_splits)
qed

theorem drain_keeps_what_it_does_not_grade_witness:
  "dr_verified (fst (drain_verification_queue trial_lib trial_queue_lib trial_grading 8
     \<lparr>wq_entries = [u ''w''], wq_max = 3, wq_reachable = True\<rparr> 0)) \<le> 1"
proof -
  let ?q = "\<lparr>wq_entries = [u ''w''], wq_max = 3, wq_reachable = True\<rparr>"
  obtain report q1 ledger1 where drained:
    "drain_verification_queue trial_lib trial_queue_lib trial_grading 8 ?q 0 = (report, q1, ledger1)"
    by (metis prod_cases3)
  have "queue_ok trial_queue_lib ?q" by (simp add: queue_ok_def stored_def trial_queue_lib_def)
  from drain_keeps_what_it_does_not_grade [OF this drained] show ?thesis by (simp add: drained)
qed

end
