(* ===== verification/AuctionProps.thy ===== *)
theory AuctionProps
  imports AuctionMachineLaws
begin

text \<open>
  The properties of the auction store and of the state machine on it: the bounds, what a save and
  a reservation guarantee, whom eviction spares, the legal histories, the terminal states, the
  ledger events of a transition, and the retry after a failed save.
\<close>

section \<open>The store\<close>

lemma mem_load_live:
  assumes "within_ttl s" and "dget (ms_records s) k = Some q"
    and "dget (ms_written_at s) k = Some (ms_clock s i)"
  shows "mem_load k s = (Some q, s\<lparr>ms_reads := Suc (ms_reads s)\<rparr>)"
  using assms by (auto simp: mem_load_def read_clock_def written_at_def within_ttl_def not_le)

lemma trim_reservations_room:
  "length (ms_reservations s) \<le> ms_capacity s * reservation_names_per_auction \<Longrightarrow> trim_reservations s = s"
  by (simp add: trim_reservations.simps [of s])

lemma mem_reserve_free:
  assumes "dget (ms_reservations s) (a, n) = None"
    and "length (ms_reservations s) < ms_capacity s * reservation_names_per_auction"
  shows "mem_reserve a n tok s = (None, s\<lparr>ms_reads := Suc (ms_reads s),
     ms_reservations := ms_reservations s @ [((a, n), (ms_clock s (ms_reads s), tok))]\<rparr>)"
proof -
  have "(a, n) \<notin> set (dkeys (ms_reservations s))"
    using assms(1) by (simp only: dget_None_iff not_False_eq_True)
  then have "dset (a, n) x (ms_reservations s) = ms_reservations s @ [((a, n), x)]" for x
    by (rule dset_absent)
  with assms show ?thesis
    by (simp add: mem_reserve_def place_reservation_def read_clock_def Let_def trim_reservations_room)
qed

lemma mem_release_own:
  assumes "dget d (a, n) = None" and "ms_reservations s = d @ [((a, n), (t, tok))]"
  shows "mem_release a n tok s = s\<lparr>ms_reservations := d\<rparr>"
proof -
  have "(a, n) \<notin> set (dkeys d)"
    using assms(1) by (simp only: dget_None_iff not_False_eq_True)
  then have "dpop (a, n) (d @ [((a, n), (t, tok))]) = d"
    by (simp add: AList.delete_eq filter_id_conv) force
  moreover have "dget (d @ [((a, n), (t, tok))]) (a, n) = Some (t, tok)"
    using assms(1) by (simp add: map_add_def)
  ultimately show ?thesis
    by (simp add: mem_release_def assms(2))
qed

text \<open>
  The in-memory store never outgrows its bounds: whatever sequence of loads, saves,
  reservations and releases is made on a new store, it holds at most \<open>capacity\<close> records, at most
  five reservations per record slot and at most \<open>capacity\<close> tombstones, one write time for each
  record, and never a tombstone for a record it still holds.
\<close>

theorem store_stays_bounded:
  "mem_inv (fold store_step calls (new_mem_store capacity ttl clock))"
  by (rule store_run.run_inv [OF mem_inv_new])

text \<open>
  A saved record is there for the next reader: while no two clock readings are a TTL apart and
  the record either replaces its own earlier version or finds a free slot, loading its id right
  after the save answers exactly the record saved, whatever the save reaped on the way.
\<close>

theorem saved_record_is_loaded:
  assumes "mem_inv s" and "within_ttl s"
    and "ar_auction_id r \<in> set (dkeys (ms_records s)) \<or> length (ms_records s) < ms_capacity s"
  shows "fst (mem_load (ar_auction_id r) (mem_save r s)) = Some r"
  using assms by (intro mem_save_then_load) (auto simp: mem_inv_def)

definition sample_clock :: "nat \<Rightarrow> rat" where
  "sample_clock n = (if n = 0 then 0 else 1)"

definition sample_record :: auction_record where
  "sample_record = new_auction ''a1'' ''i1'' ''c1'' [\<lparr>re_store_id = Some ''s1'', re_fields = []\<rparr>] None"

lemma within_ttl_sample: "within_ttl (new_mem_store 2 900 sample_clock)"
  by (simp add: within_ttl_def new_mem_store_def sample_clock_def)

theorem saved_record_is_loaded_witness:
  "fst (mem_load ''a1'' (mem_save sample_record (new_mem_store 2 900 sample_clock))) = Some sample_record"
  using saved_record_is_loaded [OF mem_inv_new within_ttl_sample, of sample_record]
  by (simp add: new_mem_store_def sample_record_def new_auction_def)

text \<open>
  A reservation is won at most once: after a caller is told it won a name for an auction, the
  next caller of the same name, whatever token it brings, is refused and told the winner's token,
  as long as the reservation table is not at its ceiling and no reading is a TTL later.
\<close>

theorem reservation_won_once:
  assumes "within_ttl s"
    and "length (ms_reservations s) < ms_capacity s * reservation_names_per_auction"
    and "mem_reserve a n tok s = (None, t)"
  shows "fst (mem_reserve a n tok' t) = Some tok"
  using assms by (rule mem_reserve_exclusive)

theorem reservation_won_once_witness:
  "fst (mem_reserve ''a1'' ''accept'' ''bid-b''
     (snd (mem_reserve ''a1'' ''accept'' ''bid-a'' (new_mem_store 2 900 sample_clock)))) = Some ''bid-a''"
proof -
  let ?s = "new_mem_store 2 900 sample_clock"
  have "mem_reserve ''a1'' ''accept'' ''bid-a'' ?s =
      (None, snd (mem_reserve ''a1'' ''accept'' ''bid-a'' ?s))"
    by (simp add: mem_reserve_free new_mem_store_def reservation_names_per_auction_def)
  moreover have "length (ms_reservations ?s) < ms_capacity ?s * reservation_names_per_auction"
    by (simp add: new_mem_store_def reservation_names_per_auction_def)
  ultimately show ?thesis
    by (rule reservation_won_once [OF within_ttl_sample, rotated])
qed

text \<open>
  Eviction spares the auction a merchant is minting for: when the store is over its cap and
  some record is not under a live acceptance claim, one eviction step drops an unclaimed record,
  so every record under a live claim is still held afterwards, with its reservations.
\<close>

theorem eviction_spares_claimed:
  assumes "k' \<in> set (dkeys (ms_records s))" and "\<not> claimed s k' moment"
    and "claimed s k moment"
  shows "dget (ms_records (evict_one moment s)) k = dget (ms_records s) k \<and>
    dget (ms_reservations (evict_one moment s)) (k, n) = dget (ms_reservations s) (k, n)"
proof -
  have "\<not> claimed s (evict_victim moment s) moment"
    unfolding evict_victim_def using assms(1,2) by (rule first_or_head_sat)
  with assms(3) have "evict_victim moment s \<noteq> k" by auto
  then have "dget (filter (\<lambda>p. fst (fst p) \<noteq> evict_victim moment s) (ms_reservations s)) (k, n) =
      dget (ms_reservations s) (k, n)"
    by (simp add: dget_filter_key [where P = "\<lambda>x. fst x \<noteq> evict_victim moment s"])
  with \<open>evict_victim moment s \<noteq> k\<close> show ?thesis
    by (simp add: evict_one_def Let_def dict_simps)
qed

definition sample_full_store :: mem_store where
  "sample_full_store =
     (new_mem_store 1 900 sample_clock)
       \<lparr>ms_records := [(''a1'', sample_record), (''a2'', sample_record\<lparr>ar_auction_id := ''a2''\<rparr>)],
        ms_written_at := [(''a1'', 0), (''a2'', 1)],
        ms_reservations := [((''a1'', ''accept''), (0, ''bid-a''))]\<rparr>"

theorem eviction_spares_claimed_witness:
  "dget (ms_records (evict_one 1 sample_full_store)) ''a1'' = Some sample_record"
  using eviction_spares_claimed [of "''a2''" sample_full_store 1 "''a1''"]
  by (simp add: sample_full_store_def new_mem_store_def claimed_def acceptance_reservation_name_def)

section \<open>The state machine\<close>

text \<open>A run of the machine on the in-memory store: any reads, creations and moves.\<close>

datatype machine_call =
    CallGet string
  | CallCreate string string string "roster_entry list" "rat option"
  | CallMove string auction_state "rat option" "string option"

fun machine_step :: "machine_call \<Rightarrow> mem_store \<Rightarrow> mem_store" where
  "machine_step (CallGet a) s = snd (machine_get mem_ops a s)"
| "machine_step (CallCreate a i c ro d) s = snd (machine_create mem_ops a i c ro d s)"
| "machine_step (CallMove a target now ref) s = snd (store_transition mem_ops a target now ref s)"

lemma machine_step_lawful: "mem.all_lawful s \<Longrightarrow> mem.all_lawful (machine_step call s)"
proof (cases call)
  case (CallGet a)
  assume "mem.all_lawful s"
  then show ?thesis
    using mem.get_state [of s a] by (auto simp: mem.all_lawful_def CallGet)
qed (simp_all add: mem.create_lawful mem.transition_lawful)

interpretation machine_run: invariant_machine machine_step mem.all_lawful
  by unfold_locales (rule machine_step_lawful)

lemma all_lawful_new: "mem.all_lawful (new_mem_store capacity ttl clock)"
  using mem_inv_new [of capacity ttl clock]
  by (simp add: mem.all_lawful_def mem_held_def new_mem_store_def)

text \<open>
  C13. Every auction record the store ever holds has lived a legal life: after any sequence of
  creations, moves and reads, successful or refused, its history is a walk along the transition
  table from \<open>Created\<close> to its present state, never visits a state twice, has at most three steps,
  and an accepted bid is recorded only in the state \<open>Accepted\<close>.
\<close>

theorem auction_histories_lawful:
  assumes "r \<in> mem_held (fold machine_step calls (new_mem_store capacity ttl clock))"
  shows "walk Created (ar_history r) (ar_state r) \<and> distinct (Created # map fst (ar_history r)) \<and>
    length (ar_history r) \<le> 3 \<and> (ar_accepted_bid_ref r \<noteq> None \<longrightarrow> ar_state r = Accepted)"
proof -
  have "lawful r"
    using machine_run.run_inv [OF all_lawful_new] assms by (auto simp: mem.all_lawful_def)
  then have w: "walk Created (ar_history r) (ar_state r)"
    and "ar_accepted_bid_ref r \<noteq> None \<longrightarrow> ar_state r = Accepted"
    by (auto simp: lawful_def)
  moreover have "length (ar_history r) \<le> 3"
    using walk_rank [OF w] by (cases "ar_state r") auto
  ultimately show ?thesis
    using walk_distinct [OF w] by blast
qed

definition sample_life :: "machine_call list" where
  "sample_life =
     [CallCreate ''a1'' ''i1'' ''c1'' [] None, CallMove ''a1'' Open (Some 1) None,
      CallMove ''a1'' Accepted (Some 2) (Some ''bid-a''), CallMove ''a1'' Closed (Some 3) None,
      CallMove ''a1'' Accepted (Some 4) (Some ''bid-a''),
      CallMove ''a1'' Accepted (Some 5) (Some ''bid-b'')]"

definition sample_life_record :: auction_record where
  "sample_life_record =
     (new_auction ''a1'' ''i1'' ''c1'' [] None)
       \<lparr>ar_state := Accepted, ar_accepted_bid_ref := Some ''bid-a'', ar_opened_at := Some 1,
        ar_closed_at := Some 3, ar_history := [(Open, Some 1), (Closed, Some 3), (Accepted, Some 4)]\<rparr>"

lemma sample_life_holds:
  "ms_records (fold machine_step sample_life (new_mem_store 2 900 sample_clock)) =
     [(''a1'', sample_life_record)]"
  by code_simp

theorem auction_histories_lawful_witness:
  "sample_life_record \<in> mem_held (fold machine_step sample_life (new_mem_store 2 900 sample_clock)) \<and>
   walk Created (ar_history sample_life_record) (ar_state sample_life_record)"
proof -
  have "sample_life_record \<in> mem_held (fold machine_step sample_life (new_mem_store 2 900 sample_clock))"
    by (simp add: mem_held_def sample_life_holds)
  from this auction_histories_lawful [OF this] show ?thesis by blast
qed

text \<open>
  A transition that succeeds moved along the table: the record returned is the stored record of
  that auction with the target state, the matching timestamp or bid reference and one more history
  entry, and its former state allowed the target.
\<close>

theorem transition_moves_along_the_table:
  assumes "mem_inv s" and "store_transition mem_ops a target now ref s = (Inr r, s')"
  shows "\<exists>q. q \<in> mem_held s \<and> ar_auction_id q = a \<and> target \<in> set (transitions (ar_state q)) \<and>
    r = moved target now ref q"
  using mem.transition_result [OF assms] by blast

theorem transition_moves_along_the_table_witness:
  "\<exists>q. q \<in> mem_held (fold machine_step (take 1 sample_life) (new_mem_store 2 900 sample_clock)) \<and>
     ar_auction_id q = ''a1'' \<and> Open \<in> set (transitions (ar_state q))"
proof -
  let ?s = "fold machine_step (take 1 sample_life) (new_mem_store 2 900 sample_clock)"
  have run: "fst (store_transition mem_ops ''a1'' Open (Some 1) None ?s) =
      Inr (moved Open (Some 1) None (new_auction ''a1'' ''i1'' ''c1'' [] None))"
    by code_simp
  have "mem_inv ?s"
    using machine_run.run_inv [OF all_lawful_new] by (simp add: mem.all_lawful_def)
  from transition_moves_along_the_table [OF this prod_eqI [of _ "(_, _)", simplified, OF run refl]]
  show ?thesis by blast
qed

text \<open>
  The terminal states are terminal: a transition of an auction that is accepted or expired is
  refused as illegal whatever its target, and leaves every record and reservation as it was.
\<close>

theorem terminal_states_refuse:
  assumes "fst (mem_load a s) = Some q" and "ar_state q = Accepted \<or> ar_state q = Expired"
  shows "store_transition mem_ops a target now ref s =
    (Inl (NotLegal (ar_state q) target), s\<lparr>ms_reads := Suc (ms_reads s)\<rparr>)"
proof -
  have "snd (mem_load a s) = s\<lparr>ms_reads := Suc (ms_reads s)\<rparr>"
    using assms(1) by (auto simp: mem_load_def read_clock_def Let_def split: option.splits if_splits)
  with assms show ?thesis
    by (auto simp: store_transition_def machine_get_def)
qed

definition sample_accepted :: mem_store where
  "sample_accepted =
     (new_mem_store 2 900 sample_clock)
       \<lparr>ms_records := [(''a1'', sample_record\<lparr>ar_state := Accepted\<rparr>)], ms_written_at := [(''a1'', 0)]\<rparr>"

theorem terminal_states_refuse_witness:
  "fst (store_transition mem_ops ''a1'' Accepted (Some 5) (Some ''bid-b'') sample_accepted) =
     Inl (NotLegal Accepted Accepted)"
proof -
  have "fst (mem_load ''a1'' sample_accepted) = Some (sample_record\<lparr>ar_state := Accepted\<rparr>)"
    by (simp add: sample_accepted_def new_mem_store_def mem_load_def read_clock_def written_at_def
        sample_clock_def)
  from terminal_states_refuse [OF this] show ?thesis by simp
qed

section \<open>The events\<close>

lemma transition_kind_known:
  "target \<in> set (transitions st) \<Longrightarrow> the (transition_kind target) \<in> set ledger_event_kinds"
  by (cases st) (auto simp: ledger_event_kinds_def)

lemma dkeys_dupdate: "set (dkeys (dupdate d e)) = set (dkeys d) \<union> set (dkeys e)"
proof (induction e arbitrary: d)
  case (Cons p e)
  obtain a b where p: "p = (a, b)" by (cases p)
  have "dupdate d (p # e) = dupdate (dset a b d) e"
    by (simp add: dupdate_def p)
  with Cons.IH [of "dset a b d"] show ?case
    by (simp add: p dict_simps del: set_map)
qed (simp add: dupdate_def)

text \<open>The four calls that move an auction, as one.\<close>

datatype lifecycle_call =
    LOpen "rat option"
  | LClose "rat option" string "int option" payload
  | LExpire "rat option"
  | LAccept string "rat option" "string option" "payload option" "string option"

fun lifecycle ::
  "'st auction_store_ops \<Rightarrow> 'k emitter \<Rightarrow> string \<times> string \<Rightarrow> string \<Rightarrow> lifecycle_call \<Rightarrow>
   ('st, 'k) machine \<Rightarrow> (auction_error + auction_record) \<times> ('st, 'k) machine" where
  "lifecycle ops emit stamp a (LOpen now) m = machine_open ops emit stamp a now m"
| "lifecycle ops emit stamp a (LClose now reason listed outcome) m =
     machine_close ops emit stamp a now reason listed outcome m"
| "lifecycle ops emit stamp a (LExpire now) m = machine_expire ops emit stamp a now m"
| "lifecycle ops emit stamp a (LAccept ref now token offer sid) m =
     machine_accept ops emit stamp a ref now token offer sid m"

fun call_target :: "lifecycle_call \<Rightarrow> auction_state" where
  "call_target (LOpen _) = Open"
| "call_target (LClose _ _ _ _) = Closed"
| "call_target (LExpire _) = Expired"
| "call_target (LAccept _ _ _ _ _) = Accepted"

fun call_payload :: "lifecycle_call \<Rightarrow> payload" where
  "call_payload (LOpen _) = []"
| "call_payload (LClose _ reason listed outcome) = close_payload reason listed outcome"
| "call_payload (LExpire _) = [(''reason'', JStr ''expired''), (''shortlist_size'', JNull)]"
| "call_payload (LAccept ref _ token offer _) = accept_payload ref token offer"

lemma lifecycle_transition:
  "\<exists>now ref sid. lifecycle ops emit stamp a call m =
     machine_transition ops emit stamp a (call_target call) now (call_payload call) ref sid m"
  by (cases call) (auto simp: machine_open_def machine_close_def machine_expire_def machine_accept_def)

lemma published_shapes:
  "dget ledger_payload_shapes ''auction_opened'' = Some [''intent_id'', ''cluster_id'', ''roster_size'']"
  "dget ledger_payload_shapes ''auction_closed'' = Some [''shortlist_size'', ''reason'']"
  "dget ledger_payload_shapes ''accepted'' = Some [''bid_ref'', ''checkout_token'', ''offer'']"
  by (simp_all add: ledger_payload_shapes_def)

lemma call_payload_valid:
  "validate_ledger_payload (the (transition_kind (call_target call)))
     (transition_payload (call_target call) r (call_payload call)) = []"
proof (cases call)
  case (LOpen now)
  have "''auction_opened'' \<in> set ledger_event_kinds" and "''auction_opened'' \<notin> set joinable_kinds"
    by (simp_all add: ledger_event_kinds_def joinable_kinds_def)
  from validate_plain_kind [OF this] show ?thesis
    by (simp add: LOpen published_shapes transition_payload_def dkeys_dupdate del: set_map)
next
  case (LClose now reason listed outcome)
  have "''auction_closed'' \<in> set ledger_event_kinds" and "''auction_closed'' \<notin> set joinable_kinds"
    by (simp_all add: ledger_event_kinds_def joinable_kinds_def)
  from validate_plain_kind [OF this] show ?thesis
    by (simp add: LClose published_shapes transition_payload_def close_payload_def dkeys_dupdate del: set_map)
next
  case (LExpire now)
  have "''auction_closed'' \<in> set ledger_event_kinds" and "''auction_closed'' \<notin> set joinable_kinds"
    by (simp_all add: ledger_event_kinds_def joinable_kinds_def)
  from validate_plain_kind [OF this] show ?thesis
    by (simp add: LExpire published_shapes transition_payload_def dkeys_dupdate del: set_map)
next
  case (LAccept ref now token offer sid)
  have "''accepted'' \<in> set ledger_event_kinds" and "''accepted'' \<notin> set joinable_kinds"
    by (simp_all add: ledger_event_kinds_def joinable_kinds_def)
  from validate_plain_kind [OF this] show ?thesis
    by (simp add: LAccept published_shapes transition_payload_def accept_payload_def dkeys_dupdate del: set_map)
qed

text \<open>
  The ledger records exactly what happened: opening, closing, expiring or accepting an auction
  on the in-memory store either fails, and then the ledger is untouched, or succeeds, and then
  exactly one event was written, of the kind of the state reached, for that auction, with a body
  the published contract accepts.
\<close>

theorem one_valid_event_per_transition:
  assumes "lifecycle mem_ops ring_sink_emit stamp a call m = (res, m')"
  shows "(case res of
      Inl e \<Rightarrow> mc_ledger m' = mc_ledger m
    | Inr r \<Rightarrow> \<exists>ev. mc_ledger m' = (mc_ledger m)\<lparr>rec_sink := ring_emit ev (rec_sink (mc_ledger m))\<rparr> \<and>
        transition_kind (ar_state r) = Some (le_kind ev) \<and> le_auction_id ev = Some a \<and>
        validate_ledger_payload (le_kind ev) (le_payload ev) = [])"
proof -
  obtain now ref sid where "machine_transition mem_ops ring_sink_emit stamp a (call_target call) now
      (call_payload call) ref sid m = (res, m')"
    using assms lifecycle_transition [of mem_ops ring_sink_emit stamp a call m] by auto
  moreover have "transition_kind (call_target call) \<noteq> None" by (cases call) auto
  moreover have "r = moved (call_target call) now ref q \<Longrightarrow> ar_state r = call_target call" for r q
    by simp
  ultimately show ?thesis
    using call_payload_valid [of call]
    by (auto simp: machine_transition_def recorder_record_def build_event_def ring_sink_emit_def
        store_transition_def move_body_def Let_def release_and_raise_def
        split: prod.splits sum.splits option.splits if_splits)
qed

theorem one_valid_event_per_transition_witness:
  "\<exists>ev. mc_ledger (snd (lifecycle mem_ops ring_sink_emit (''e1'', ''t1'') ''a1'' (LOpen (Some 1))
       \<lparr>mc_store = fold machine_step (take 1 sample_life) (new_mem_store 2 900 sample_clock),
        mc_ledger = \<lparr>rec_sink = new_ring (Some 4), rec_failures = []\<rparr>\<rparr>)) =
     \<lparr>rec_sink = ring_emit ev (new_ring (Some 4)), rec_failures = []\<rparr> \<and> le_kind ev = ''auction_opened''"
proof -
  let ?m = "\<lparr>mc_store = fold machine_step (take 1 sample_life) (new_mem_store 2 900 sample_clock),
      mc_ledger = \<lparr>rec_sink = new_ring (Some 4), rec_failures = []\<rparr>\<rparr>"
  have "fst (lifecycle mem_ops ring_sink_emit (''e1'', ''t1'') ''a1'' (LOpen (Some 1)) ?m) =
      Inr (moved Open (Some 1) None (new_auction ''a1'' ''i1'' ''c1'' [] None))"
    by code_simp
  with one_valid_event_per_transition [OF prod.collapse [symmetric],
      of "(''e1'', ''t1'')" "''a1''" "LOpen (Some 1)" ?m]
  show ?thesis by auto
qed

end
