(* ===== verification/AuctionFaults.thy ===== *)
theory AuctionFaults
  imports AuctionProps
begin

text \<open>
  What the auction machine does when its store misbehaves: a save that raises, and a save into a
  store whose other records are all under an acceptance claim.
\<close>

text \<open>The in-memory store with a save that raises \<open>e\<close>, as a lost connection would.\<close>

definition failing_save_ops :: "string \<Rightarrow> mem_store auction_store_ops" where
  "failing_save_ops e = mem_ops\<lparr>op_save := \<lambda>r s. (Inl e, s)\<rparr>"

lemma failing_save_simps [simp]:
  "op_load (failing_save_ops e) = op_load mem_ops"
  "op_reserve (failing_save_ops e) = op_reserve mem_ops"
  "op_release (failing_save_ops e) = op_release mem_ops"
  "op_save (failing_save_ops e) r s = (Inl e, s)"
  by (simp_all add: failing_save_ops_def)

text \<open>An auction that sits in the store, live, with its present state not yet left.\<close>

definition at_rest :: "mem_store \<Rightarrow> string \<Rightarrow> auction_record \<Rightarrow> bool" where
  "at_rest s a q \<longleftrightarrow> within_ttl s \<and> dget (ms_records s) a = Some q \<and>
     (\<exists>i. dget (ms_written_at s) a = Some (ms_clock s i)) \<and>
     dget (ms_reservations s) (a, exit_reservation (ar_state q)) = None \<and>
     length (ms_reservations s) < ms_capacity s * reservation_names_per_auction"

lemma at_rest_reads [simp]: "at_rest (s\<lparr>ms_reads := n\<rparr>) a q = at_rest s a q"
  by (simp add: at_rest_def within_ttl_def)

lemma at_rest_load: "at_rest s a q \<Longrightarrow> mem_load a s = (Some q, s\<lparr>ms_reads := Suc (ms_reads s)\<rparr>)"
  by (auto simp: at_rest_def intro: mem_load_live)

lemma at_rest_load_reserved:
  "at_rest s a q \<Longrightarrow> mem_load a (s\<lparr>ms_reads := n, ms_reservations := d\<rparr>) =
     (Some q, s\<lparr>ms_reads := Suc n, ms_reservations := d\<rparr>)"
  using mem_load_live [of "s\<lparr>ms_reads := n, ms_reservations := d\<rparr>" a q]
  by (auto simp: at_rest_def within_ttl_def)

lemma at_rest_reserve:
  assumes "at_rest s a q"
  shows "mem_reserve a (exit_reservation (ar_state q)) tok (s\<lparr>ms_reads := n\<rparr>) =
    (None, s\<lparr>ms_reads := Suc n, ms_reservations := ms_reservations s @
       [((a, exit_reservation (ar_state q)), (ms_clock s n, tok))]\<rparr>)"
  using mem_reserve_free [of "s\<lparr>ms_reads := n\<rparr>" a "exit_reservation (ar_state q)" tok] assms
  by (simp add: at_rest_def)

text \<open>
  A save that raises does not wedge the auction: the transition reports the store's own
  exception and gives its reservation back, so that the store is exactly as before but for the
  clock readings, and the auction is still at rest for a retry.
\<close>

theorem failed_save_releases_the_move:
  assumes "at_rest s a q" and "target \<in> set (transitions (ar_state q))"
  shows "\<exists>n. store_transition (failing_save_ops e) a target now ref s =
     (Inl (StoreRaised e), s\<lparr>ms_reads := n\<rparr>) \<and> at_rest (s\<lparr>ms_reads := n\<rparr>) a q"
proof -
  let ?n = "exit_reservation (ar_state q)"
  have "mem_release a ?n tok (s\<lparr>ms_reads := m, ms_reservations := ms_reservations s @ [((a, ?n), (t, tok))]\<rparr>) =
      s\<lparr>ms_reads := m, ms_reservations := ms_reservations s\<rparr>" for m t tok
    using mem_release_own [of "ms_reservations s" a ?n] assms(1) by (simp add: at_rest_def)
  then show ?thesis
    using assms
    by (simp add: store_transition_def machine_get_def at_rest_load at_rest_reserve Let_def
        move_body_def at_rest_load_reserved release_and_raise_def) blast
qed

text \<open>
  The retry then goes through: a live auction whose present state was not left yet moves to
  any state the table allows, and the store holds the moved record afterwards.
\<close>

theorem resting_auction_can_move:
  assumes "at_rest s a q" and "mem_inv s" and "target \<in> set (transitions (ar_state q))"
  shows "fst (store_transition mem_ops a target now ref s) = Inr (moved target now ref q) \<and>
    fst (mem_load a (snd (store_transition mem_ops a target now ref s))) = Some (moved target now ref q)"
proof -
  let ?n = "exit_reservation (ar_state q)"
  let ?t = "s\<lparr>ms_reads := Suc (Suc (Suc (ms_reads s))), ms_reservations := ms_reservations s @
       [((a, ?n), (ms_clock s (Suc (ms_reads s)), state_name target))]\<rparr>"
  have tr: "store_transition mem_ops a target now ref s =
      (Inr (moved target now ref q), mem_save (moved target now ref q) ?t)"
    using assms(1,3)
    by (simp add: store_transition_def machine_get_def at_rest_load at_rest_reserve Let_def
        move_body_def at_rest_load_reserved)
  have id: "ar_auction_id q = a"
    using mem_load_found [OF assms(2), of a q] assms(1) by (simp add: at_rest_load)
  have "a \<in> set (dkeys (ms_records s))"
    using assms(1) dget_in_set [of "ms_records s" a q] by (force simp: at_rest_def)
  moreover have "within_ttl ?t"
    using assms(1) by (simp add: at_rest_def within_ttl_def)
  ultimately have "fst (mem_load a (mem_save (moved target now ref q) ?t)) = Some (moved target now ref q)"
    using mem_save_then_load [of ?t "moved target now ref q"] assms(2) id
    by (simp add: mem_inv_def del: set_map)
  with tr show ?thesis by simp
qed

definition sample_resting :: mem_store where
  "sample_resting =
     (new_mem_store 2 900 sample_clock)
       \<lparr>ms_records := [(''a1'', sample_record)], ms_written_at := [(''a1'', 0)]\<rparr>"

lemma sample_at_rest: "at_rest sample_resting ''a1'' sample_record"
  using within_ttl_sample
  by (auto simp: at_rest_def sample_resting_def within_ttl_def new_mem_store_def sample_clock_def
      reservation_names_per_auction_def intro: exI [of _ 0])

lemma sample_resting_inv: "mem_inv sample_resting"
  by (simp add: sample_resting_def new_mem_store_def mem_inv_def mem_wf_def sample_record_def
      new_auction_def)

lemma sample_record_state: "ar_state sample_record = Created"
  by (simp add: sample_record_def new_auction_def)

theorem failed_save_releases_the_move_witness:
  "\<exists>n. store_transition (failing_save_ops ''lost'') ''a1'' Open (Some 1) None sample_resting =
     (Inl (StoreRaised ''lost''), sample_resting\<lparr>ms_reads := n\<rparr>)"
  using failed_save_releases_the_move [OF sample_at_rest, of Open "''lost''" "Some 1" None]
  by (auto simp: sample_record_state)

theorem resting_auction_can_move_witness:
  "fst (store_transition mem_ops ''a1'' Open (Some 1) None sample_resting) =
     Inr (moved Open (Some 1) None sample_record)"
  using resting_auction_can_move [OF sample_at_rest sample_resting_inv, of Open "Some 1" None]
  by (simp add: sample_record_state)

section \<open>A full store of claimed auctions\<close>

lemma evict_aged_fresh_head:
  "ms_records u = (k, r) # ps \<Longrightarrow> \<not> aged_out u k m \<Longrightarrow> evict_aged m u = u"
  by (simp add: evict_aged.simps [of m u])

text \<open>
  A full store whose auctions are all under live acceptance claims evicts the newest write
  rather than the oldest: saving a new auction into it succeeds and the auction saved is the one
  dropped, so that the very next load of it finds nothing and names the cap as the cause.
\<close>

theorem full_claimed_store_drops_the_new_auction:
  assumes "ms_records s \<noteq> []" and "length (ms_records s) = ms_capacity s"
    and "\<not> aged_out s (fst (hd (ms_records s))) (ms_clock s (Suc (ms_reads s)))"
    and "list_all (\<lambda>k. claimed s k (ms_clock s (Suc (ms_reads s)))) (dkeys (ms_records s))"
    and "ar_auction_id r \<notin> set (dkeys (ms_records s))"
    and "dget (ms_reservations s) (ar_auction_id r, acceptance_reservation_name) = None"
    and "ms_clock s (Suc (ms_reads s)) - ms_clock s (ms_reads s) < ms_ttl s"
  shows "ms_records (mem_save r s) = ms_records s"
proof -
  let ?k = "ar_auction_id r" and ?m = "ms_clock s (Suc (ms_reads s))"
  let ?s1 = "s\<lparr>ms_records := ms_records s @ [(?k, r)],
      ms_written_at := dset ?k (ms_clock s (ms_reads s)) (ms_written_at s),
      ms_gone := dpop ?k (ms_gone s), ms_reads := Suc (Suc (ms_reads s))\<rparr>"
  obtain k0 r0 ps where hd: "ms_records s = (k0, r0) # ps"
    using assms(1) by (cases "ms_records s") auto
  with assms(5) have ne: "k0 \<noteq> ?k" by auto
  have start: "dset ?k r (dpop ?k (ms_records s)) = ms_records s @ [(?k, r)]"
    using assms(5) by (simp add: dpop_absent dset_absent del: set_map)
  have "\<not> aged_out ?s1 k0 ?m"
    using assms(3) hd ne by (simp add: aged_out_def written_at_def dict_simps)
  moreover have "ms_records ?s1 = (k0, r0) # (ps @ [(?k, r)])"
    by (simp add: hd)
  ultimately have aged: "evict_aged ?m ?s1 = ?s1"
    by (rule evict_aged_fresh_head [rotated])
  have cl: "claimed ?s1 k ?m = claimed s k ?m" for k
    by (simp add: claimed_def split: option.split)
  have "filter (\<lambda>k. \<not> claimed ?s1 k ?m) (dkeys (ms_records s)) = []"
    using assms(4) by (auto simp: cl filter_empty_conv list_all_iff)
  moreover have "\<not> claimed s ?k ?m"
    using assms(6) by (simp add: claimed_def)
  ultimately have victim: "evict_victim ?m ?s1 = ?k"
    by (simp add: evict_victim_def first_or_head_def cl)
  have "dpop ?k (ms_records s @ [(?k, r)]) = ms_records s"
    using assms(5) by (simp add: AList.delete_eq filter_id_conv) force
  then have one: "ms_records (evict_one ?m ?s1) = ms_records s"
    by (simp add: evict_one_records victim)
  have "evict_over ?m ?s1 = evict_one ?m ?s1"
    using assms(2) one
    by (simp add: evict_over.simps [of ?m ?s1] evict_over.simps [of ?m "evict_one ?m ?s1"])
  with one show ?thesis
    by (simp add: mem_save_def evict_def read_clock_def Let_def start aged)
qed

definition sample_claimed_store :: mem_store where
  "sample_claimed_store =
     (new_mem_store 1 900 sample_clock)
       \<lparr>ms_records := [(''a1'', sample_record)], ms_written_at := [(''a1'', 0)],
        ms_reservations := [((''a1'', ''accept''), (0, ''bid-a''))]\<rparr>"

theorem full_claimed_store_drops_the_new_auction_witness:
  "dget (ms_records (mem_save (sample_record\<lparr>ar_auction_id := ''a2''\<rparr>) sample_claimed_store)) ''a2'' = None"
  using full_claimed_store_drops_the_new_auction
    [of sample_claimed_store "sample_record\<lparr>ar_auction_id := ''a2''\<rparr>"]
  by (simp add: sample_claimed_store_def new_mem_store_def aged_out_def written_at_def claimed_def
      acceptance_reservation_name_def sample_clock_def)

end
