(* ===== verification/Vault.thy ===== *)
theory Vault
  imports Prelude
begin

text \<open>
  The pseudonym vault (\<open>apps/buyer/svc/src/vault/store.py\<close> and \<open>pseudonyms.py\<close>): the history of
  every pseudonym a buyer was ever given, and the loop that draws a new one.

  A moment is an \<^typ>\<open>int\<close> (microseconds). The two random sources, \<open>uuid.uuid4\<close> in the store and
  the generator of the vault, are streams with the count of what was drawn. \<open>now\<close> is what the
  vault's clock returns when it is read. The store is used through the \<open>PseudonymStore\<close> protocol,
  the record \<open>pseudonym_store_ops\<close>; the locale \<open>pseudonym_store\<close> states its laws, and the
  in-memory store is its model.
\<close>

section \<open>The store\<close>

datatype vault_error =
    BadBuyerKey
  | BadCandidate
  | PseudonymReissued
  | PseudonymExhausted
  | BadAttempts
  | VaultStoreRaised string

record pseudonym_record =
  pr_history_id :: string
  pr_email :: string
  pr_pseudonym :: string
  pr_issued_at :: int
  pr_retired_at :: "int option"

definition pr_active :: "pseudonym_record \<Rightarrow> bool" where
  "pr_active r \<longleftrightarrow> pr_retired_at r = None"

record pseudonym_store_state =
  ps_rows :: "pseudonym_record list"
  ps_by_pseudonym :: "(string, pseudonym_record) dict"
  ps_uuid :: "nat \<Rightarrow> string"
  ps_uuids :: nat

definition new_pseudonym_store :: "(nat \<Rightarrow> string) \<Rightarrow> pseudonym_store_state" where
  "new_pseudonym_store uuid =
     \<lparr>ps_rows = [], ps_by_pseudonym = [], ps_uuid = uuid, ps_uuids = 0\<rparr>"

definition ps_is_known :: "string \<Rightarrow> pseudonym_store_state \<Rightarrow> bool" where
  "ps_is_known p s \<longleftrightarrow> p \<in> set (dkeys (ps_by_pseudonym s))"

definition closes :: "string \<Rightarrow> pseudonym_record \<Rightarrow> bool" where
  "closes email r \<longleftrightarrow> pr_email r = email \<and> pr_active r"

definition closed :: "int \<Rightarrow> pseudonym_record \<Rightarrow> pseudonym_record" where
  "closed t r = r\<lparr>pr_retired_at := Some (max t (pr_issued_at r))\<rparr>"

text \<open>The loop over the rows: the rows afterwards and the list \<open>retired\<close>.\<close>

fun close_rows :: "string \<Rightarrow> int \<Rightarrow> pseudonym_record list \<Rightarrow>
    pseudonym_record list \<times> pseudonym_record list" where
  "close_rows email t [] = ([], [])"
| "close_rows email t (r # rs) =
     (let (rows, retired) = close_rows email t rs
      in if closes email r then (closed t r # rows, closed t r # retired) else (r # rows, retired))"

definition ps_record :: "string \<Rightarrow> string \<Rightarrow> int \<Rightarrow> pseudonym_store_state \<Rightarrow>
    (vault_error + pseudonym_record) \<times> pseudonym_store_state" where
  "ps_record email pseudonym issued_at s =
     (if pseudonym \<in> set (dkeys (ps_by_pseudonym s)) then (Inl PseudonymReissued, s)
      else
        let (rows, retired) = close_rows email issued_at (ps_rows s);
            index = dupdate (ps_by_pseudonym s) (map (\<lambda>c. (pr_pseudonym c, c)) retired);
            row = \<lparr>pr_history_id = ps_uuid s (ps_uuids s), pr_email = email,
                   pr_pseudonym = pseudonym, pr_issued_at = issued_at, pr_retired_at = None\<rparr>
        in (Inr row,
            s\<lparr>ps_rows := rows @ [row], ps_by_pseudonym := dset pseudonym row index,
              ps_uuids := Suc (ps_uuids s)\<rparr>))"

definition ps_history :: "string \<Rightarrow> pseudonym_store_state \<Rightarrow> pseudonym_record list" where
  "ps_history email s = filter (\<lambda>r. pr_email r = email) (ps_rows s)"

definition ps_resolve :: "string \<Rightarrow> pseudonym_store_state \<Rightarrow> string option" where
  "ps_resolve p s = (case dget (ps_by_pseudonym s) p of None \<Rightarrow> None | Some row \<Rightarrow> Some (pr_email row))"

section \<open>The vault\<close>

record 's pseudonym_store_ops =
  op_is_known :: "string \<Rightarrow> 's \<Rightarrow> bool"
  op_record :: "string \<Rightarrow> string \<Rightarrow> int \<Rightarrow> 's \<Rightarrow> (vault_error + pseudonym_record) \<times> 's"
  op_history :: "string \<Rightarrow> 's \<Rightarrow> pseudonym_record list"
  op_resolve :: "string \<Rightarrow> 's \<Rightarrow> string option"

definition ps_ops :: "pseudonym_store_state pseudonym_store_ops" where
  "ps_ops = \<lparr>op_is_known = ps_is_known, op_record = ps_record, op_history = ps_history,
     op_resolve = ps_resolve\<rparr>"

record 's pseudonym_vault =
  pv_store :: 's
  pv_generate :: "nat \<Rightarrow> string"
  pv_draws :: nat
  pv_attempts :: nat

definition default_attempts :: int where
  "default_attempts = 8"

definition pseudonym_prefix :: string where
  "pseudonym_prefix = ''psn-''"

text \<open>\<open>PseudonymVault.__init__\<close>: fewer than one attempt is refused.\<close>

definition new_pseudonym_vault :: "'s \<Rightarrow> (nat \<Rightarrow> string) \<Rightarrow> int \<Rightarrow> vault_error + 's pseudonym_vault" where
  "new_pseudonym_vault store generator attempts =
     (if attempts < 1 then Inl BadAttempts
      else Inr \<lparr>pv_store = store, pv_generate = generator, pv_draws = 0, pv_attempts = nat attempts\<rparr>)"

definition normalise_buyer_key :: "string \<Rightarrow> vault_error + string" where
  "normalise_buyer_key key =
     (if strip key = [] then Inl BadBuyerKey else Inr (casefold (strip key)))"

text \<open>The body of \<open>for _ in range(self._attempts)\<close>, with the number of rounds left.\<close>

fun draw_pseudonym :: "'s pseudonym_store_ops \<Rightarrow> string \<Rightarrow> int \<Rightarrow> nat \<Rightarrow> 's pseudonym_vault \<Rightarrow>
    (vault_error + string) \<times> 's pseudonym_vault" where
  "draw_pseudonym ops email issued_at 0 v = (Inl PseudonymExhausted, v)"
| "draw_pseudonym ops email issued_at (Suc rounds) v =
     (let drawn = pv_generate v (pv_draws v);
          v1 = v\<lparr>pv_draws := Suc (pv_draws v)\<rparr>
      in if strip drawn = [] then (Inl BadCandidate, v1)
         else
           let candidate = strip drawn in
           if op_is_known ops candidate (pv_store v1)
           then draw_pseudonym ops email issued_at rounds v1
           else case op_record ops email candidate issued_at (pv_store v1) of
               (Inl PseudonymReissued, s) \<Rightarrow>
                 draw_pseudonym ops email issued_at rounds (v1\<lparr>pv_store := s\<rparr>)
             | (Inl e, s) \<Rightarrow> (Inl e, v1\<lparr>pv_store := s\<rparr>)
             | (Inr row, s) \<Rightarrow> (Inr candidate, v1\<lparr>pv_store := s\<rparr>))"

definition issue :: "'s pseudonym_store_ops \<Rightarrow> string \<Rightarrow> int \<Rightarrow> 's pseudonym_vault \<Rightarrow>
    (vault_error + string) \<times> 's pseudonym_vault" where
  "issue ops buyer_key now v =
     (case normalise_buyer_key buyer_key of
        Inl e \<Rightarrow> (Inl e, v)
      | Inr email \<Rightarrow> draw_pseudonym ops email now (pv_attempts v) v)"

definition vault_history :: "'s pseudonym_store_ops \<Rightarrow> string \<Rightarrow> 's pseudonym_vault \<Rightarrow>
    vault_error + pseudonym_record list" where
  "vault_history ops buyer_key v =
     (case normalise_buyer_key buyer_key of
        Inl e \<Rightarrow> Inl e
      | Inr email \<Rightarrow> Inr (op_history ops email (pv_store v)))"

definition vault_active :: "'s pseudonym_store_ops \<Rightarrow> string \<Rightarrow> 's pseudonym_vault \<Rightarrow>
    vault_error + string option" where
  "vault_active ops buyer_key v =
     (case vault_history ops buyer_key v of
        Inl e \<Rightarrow> Inl e
      | Inr rows \<Rightarrow> Inr (case find pr_active (rev rows) of None \<Rightarrow> None | Some r \<Rightarrow> Some (pr_pseudonym r)))"

definition vault_resolve :: "'s pseudonym_store_ops \<Rightarrow> string \<Rightarrow> 's pseudonym_vault \<Rightarrow> string option" where
  "vault_resolve ops p v = op_resolve ops p (pv_store v)"

end
