(* ===== verification/VaultLaws.thy ===== *)
theory VaultLaws
  imports Vault "HOL-Library.Sublist"
begin

text \<open>
  What the vault relies on (\<open>locale pseudonym_store\<close>), what it then guarantees over any sequence of
  issues, and the in-memory store as the model of the locale.
\<close>

section \<open>The contract of a pseudonym store\<close>

definition retire :: "int \<Rightarrow> pseudonym_record \<Rightarrow> pseudonym_record" where
  "retire t r = (if pr_active r then closed t r else r)"

lemma retire_keeps [simp]:
  "pr_history_id (retire t r) = pr_history_id r" "pr_email (retire t r) = pr_email r"
  "pr_pseudonym (retire t r) = pr_pseudonym r" "pr_issued_at (retire t r) = pr_issued_at r"
  "\<not> pr_active (retire t r)"
  by (auto simp: retire_def closed_def pr_active_def)

locale pseudonym_store =
  fixes ops :: "'s pseudonym_store_ops" and ok :: "'s \<Rightarrow> bool"
  assumes record_known:
      "ok s \<Longrightarrow> op_is_known ops p s \<Longrightarrow> op_record ops e p t s = (Inl PseudonymReissued, s)"
    and record_fresh: "ok s \<Longrightarrow> \<not> op_is_known ops p s \<Longrightarrow> \<exists>row. fst (op_record ops e p t s) = Inr row"
    and record_ok: "ok s \<Longrightarrow> ok (snd (op_record ops e p t s))"
    and record_row: "ok s \<Longrightarrow> op_record ops e p t s = (Inr row, s') \<Longrightarrow>
      pr_email row = e \<and> pr_pseudonym row = p \<and> pr_issued_at row = t \<and> pr_active row"
    and record_knows: "ok s \<Longrightarrow> op_record ops e p t s = (Inr row, s') \<Longrightarrow>
      op_is_known ops q s' \<longleftrightarrow> q = p \<or> op_is_known ops q s"
    and record_resolve: "ok s \<Longrightarrow> op_record ops e p t s = (Inr row, s') \<Longrightarrow>
      op_resolve ops q s' = (if q = p then Some e else op_resolve ops q s)"
    and record_history: "ok s \<Longrightarrow> op_record ops e p t s = (Inr row, s') \<Longrightarrow>
      op_history ops x s' =
        (if x = e then map (retire t) (op_history ops x s) @ [row] else op_history ops x s)"

text \<open>One call of \<open>issue\<close>: the buyer key and the moment the clock gave.\<close>

definition vault_step :: "'s pseudonym_store_ops \<Rightarrow> string \<times> int \<Rightarrow> 's pseudonym_vault \<Rightarrow> 's pseudonym_vault" where
  "vault_step ops x v = snd (issue ops (fst x) (snd x) v)"

text \<open>What a row says for good: everything but when it was retired.\<close>

definition issued_part :: "pseudonym_record \<Rightarrow> string \<times> string \<times> string \<times> int" where
  "issued_part r = (pr_history_id r, pr_email r, pr_pseudonym r, pr_issued_at r)"

lemma issued_part_retire [simp]: "issued_part (retire t r) = issued_part r"
  by (simp add: issued_part_def)

definition vault_grows :: "'s pseudonym_store_ops \<Rightarrow> 's pseudonym_vault \<Rightarrow> 's pseudonym_vault \<Rightarrow> bool" where
  "vault_grows ops v w \<longleftrightarrow>
     (\<forall>p. op_is_known ops p (pv_store v) \<longrightarrow>
        op_is_known ops p (pv_store w) \<and> vault_resolve ops p w = vault_resolve ops p v) \<and>
     (\<forall>e. prefix (map issued_part (op_history ops e (pv_store v)))
        (map issued_part (op_history ops e (pv_store w))))"

text \<open>In every buyer's history only the newest row may still be active.\<close>

definition one_active :: "'s pseudonym_store_ops \<Rightarrow> 's \<Rightarrow> bool" where
  "one_active ops s \<longleftrightarrow> (\<forall>e. list_all (\<lambda>r. \<not> pr_active r) (butlast (op_history ops e s)))"

text \<open>The drawn candidates of the next \<open>n\<close> rounds.\<close>

definition next_draws :: "nat \<Rightarrow> 's pseudonym_vault \<Rightarrow> string list" where
  "next_draws n v = map (\<lambda>i. strip (pv_generate v i)) [pv_draws v ..< pv_draws v + n]"

lemma next_draws_Suc:
  "next_draws (Suc n) v =
     strip (pv_generate v (pv_draws v)) # next_draws n (v\<lparr>pv_draws := Suc (pv_draws v)\<rparr>)"
  by (simp add: next_draws_def upt_conv_Cons del: upt_Suc)

context pseudonym_store
begin

definition usable :: "string \<Rightarrow> 's pseudonym_vault \<Rightarrow> bool" where
  "usable c v \<longleftrightarrow> c = [] \<or> \<not> op_is_known ops c (pv_store v)"

lemma usable_draws [simp]: "usable c (v\<lparr>pv_draws := n\<rparr>) = usable c v"
  by (simp add: usable_def)

lemma draw_decides:
  "ok (pv_store v) \<Longrightarrow> fst (draw_pseudonym ops e t n v) =
     (case find (\<lambda>c. usable c v) (next_draws n v) of
        None \<Rightarrow> Inl PseudonymExhausted
      | Some c \<Rightarrow> if c = [] then Inl BadCandidate else Inr c)"
proof (induction n arbitrary: v)
  case 0
  then show ?case by (simp add: next_draws_def)
next
  case (Suc n)
  let ?c = "strip (pv_generate v (pv_draws v))"
  show ?case
  proof (cases "?c \<noteq> [] \<and> op_is_known ops ?c (pv_store v)")
    case True
    then show ?thesis
      using Suc by (auto simp: next_draws_Suc usable_def Let_def)
  next
    case False
    then show ?thesis
      using Suc.prems record_fresh [of "pv_store v" ?c e t]
      by (auto simp: next_draws_Suc usable_def Let_def split: prod.split)
  qed
qed

lemma draw_keeps:
  "pv_generate (snd (draw_pseudonym ops e t n v)) = pv_generate v"
  "pv_attempts (snd (draw_pseudonym ops e t n v)) = pv_attempts v"
  by (induction n arbitrary: v)
    (auto simp: Let_def split: prod.split sum.split vault_error.split)

lemma draw_store:
  "ok (pv_store v) \<Longrightarrow>
     (case fst (draw_pseudonym ops e t n v) of
        Inl _ \<Rightarrow> pv_store (snd (draw_pseudonym ops e t n v)) = pv_store v
      | Inr p \<Rightarrow> \<not> op_is_known ops p (pv_store v) \<and>
          (\<exists>row. op_record ops e p t (pv_store v) =
             (Inr row, pv_store (snd (draw_pseudonym ops e t n v)))))"
proof (induction n arbitrary: v)
  case 0
  then show ?case by simp
next
  case (Suc n)
  let ?c = "strip (pv_generate v (pv_draws v))" and ?v = "v\<lparr>pv_draws := Suc (pv_draws v)\<rparr>"
  show ?case
  proof (cases "?c \<noteq> [] \<and> op_is_known ops ?c (pv_store v)")
    case True
    then show ?thesis
      using Suc.IH [of ?v] Suc.prems by (auto simp: Let_def split: sum.splits)
  next
    case False
    then show ?thesis
      using Suc.prems record_fresh [of "pv_store v" ?c e t]
      by (auto simp: Let_def split: prod.split)
  qed
qed

lemma issue_cases:
  assumes "ok (pv_store v)"
  obtains (refused) err where "fst (issue ops key t v) = Inl err"
      "pv_store (snd (issue ops key t v)) = pv_store v"
  | (issued) p row where "fst (issue ops key t v) = Inr p" "strip key \<noteq> []"
      "\<not> op_is_known ops p (pv_store v)"
      "op_record ops (casefold (strip key)) p t (pv_store v) =
         (Inr row, pv_store (snd (issue ops key t v)))"
proof (cases "strip key = []")
  case True
  then show ?thesis
    by (intro refused [of BadBuyerKey]) (simp_all add: issue_def normalise_buyer_key_def)
next
  case False
  let ?e = "casefold (strip key)"
  have eq: "issue ops key t v = draw_pseudonym ops ?e t (pv_attempts v) v"
    using False by (simp add: issue_def normalise_buyer_key_def)
  show ?thesis
  proof (cases "fst (draw_pseudonym ops ?e t (pv_attempts v) v)")
    case (Inl err)
    then show ?thesis
      using draw_store [OF assms, of ?e t "pv_attempts v"] by (intro refused [of err]) (auto simp: eq)
  next
    case (Inr p)
    then show ?thesis
      using draw_store [OF assms, of ?e t "pv_attempts v"] False by (auto simp: eq intro: issued [of p])
  qed
qed

lemma record_ok': "ok s \<Longrightarrow> op_record ops e p t s = (res, s') \<Longrightarrow> ok s'"
  using record_ok [of s e p t] by simp

lemma step_ok: "ok (pv_store v) \<Longrightarrow> ok (pv_store (vault_step ops x v))"
  by (cases rule: issue_cases [of v "fst x" "snd x"]) (auto simp: vault_step_def dest: record_ok')

lemma step_one_active:
  assumes "ok (pv_store v)" and "one_active ops (pv_store v)"
  shows "one_active ops (pv_store (vault_step ops x v))"
  using assms(1)
proof (cases rule: issue_cases [of v "fst x" "snd x"])
  case (refused err)
  then show ?thesis using assms(2) by (simp add: vault_step_def)
next
  case (issued p row)
  then show ?thesis
    using assms(2) record_history [OF assms(1) issued(4)]
    by (auto simp: one_active_def vault_step_def list_all_iff)
qed

lemma step_grows:
  assumes "ok (pv_store v)"
  shows "vault_grows ops v (vault_step ops x v)"
  using assms
proof (cases rule: issue_cases [of v "fst x" "snd x"])
  case (refused err)
  then show ?thesis by (simp add: vault_grows_def vault_step_def vault_resolve_def)
next
  case (issued p row)
  show ?thesis
    unfolding vault_grows_def vault_step_def vault_resolve_def
    using record_history [OF assms issued(4)] record_knows [OF assms issued(4)]
      record_resolve [OF assms issued(4)] issued(3)
    by (auto simp: comp_def)
qed

end

sublocale pseudonym_store \<subseteq> vault_run: monotone_machine
    "vault_step ops" "\<lambda>v. ok (pv_store v) \<and> one_active ops (pv_store v)" "vault_grows ops"
proof
  fix s x
  show "ok (pv_store s) \<and> one_active ops (pv_store s) \<Longrightarrow>
      ok (pv_store (vault_step ops x s)) \<and> one_active ops (pv_store (vault_step ops x s))"
    by (simp add: step_ok step_one_active)
  show "ok (pv_store s) \<and> one_active ops (pv_store s) \<Longrightarrow> vault_grows ops s (vault_step ops x s)"
    by (simp add: step_grows)
next
  fix s t u
  show "vault_grows ops s s" by (simp add: vault_grows_def)
  show "vault_grows ops s t \<Longrightarrow> vault_grows ops t u \<Longrightarrow> vault_grows ops s u"
    by (auto simp: vault_grows_def intro: prefix_order.trans)
qed

context pseudonym_store
begin

lemma issued_is_known:
  assumes "ok (pv_store v)" and "issue ops key t v = (Inr p, v')"
  shows "op_is_known ops p (pv_store v')" and "\<not> op_is_known ops p (pv_store v)"
    and "vault_resolve ops p v' = Some (casefold (strip key))" and "strip key \<noteq> []"
  using assms record_knows record_resolve
  by (cases rule: issue_cases [of v key t]; fastforce simp: vault_resolve_def)+

lemma never_reissued:
  assumes "ok (pv_store v)" and "one_active ops (pv_store v)" and "issue ops key t v = (Inr p, v')"
  shows "fst (issue ops key' t' (fold (vault_step ops) xs v')) \<noteq> Inr p"
proof -
  have st: "ok (pv_store v') \<and> one_active ops (pv_store v')"
    using step_ok [OF assms(1), of "(key, t)"] step_one_active [OF assms(1,2), of "(key, t)"] assms(3)
    by (simp add: vault_step_def)
  let ?w = "fold (vault_step ops) xs v'"
  have "op_is_known ops p (pv_store ?w)"
    using vault_run.run_le [OF st, of xs] issued_is_known(1) [OF assms(1,3)]
    by (auto simp: vault_grows_def)
  moreover have "ok (pv_store ?w)"
    using vault_run.run_inv [OF st, of xs] by simp
  ultimately show ?thesis
    using issued_is_known(2) [of ?w key' t'] by (metis prod.collapse)
qed

lemma issued_is_active:
  assumes "ok (pv_store v)" and "issue ops key t v = (Inr p, v')"
  shows "vault_active ops key v' = Inr (Some p)"
  using assms(1)
proof (cases rule: issue_cases [of v key t])
  case (refused err)
  then show ?thesis using assms(2) by simp
next
  case (issued q row)
  then show ?thesis
    using record_history [OF assms(1) issued(4)] record_row [OF assms(1) issued(4)] assms(2)
    by (simp add: vault_active_def vault_history_def normalise_buyer_key_def)
qed

end

section \<open>The in-memory store\<close>

definition close_row :: "string \<Rightarrow> int \<Rightarrow> pseudonym_record \<Rightarrow> pseudonym_record" where
  "close_row email t r = (if closes email r then closed t r else r)"

lemma close_rows_eq:
  "close_rows email t rs = (map (close_row email t) rs, map (closed t) (filter (closes email) rs))"
  by (induction rs) (auto simp: close_row_def)

lemma close_row_keeps [simp]:
  "pr_email (close_row e t r) = pr_email r" "pr_pseudonym (close_row e t r) = pr_pseudonym r"
  by (simp_all add: close_row_def closed_def)

lemma close_row_own: "pr_email r = e \<Longrightarrow> close_row e t r = retire t r"
  by (simp add: close_row_def retire_def closes_def)

lemma close_row_other: "pr_email r \<noteq> e \<Longrightarrow> close_row e t r = r"
  by (simp add: close_row_def closes_def)

text \<open>The index is exact: it maps every pseudonym of a row to that row and nothing else.\<close>

definition indexed :: "(string, pseudonym_record) dict \<Rightarrow> pseudonym_record list \<Rightarrow> bool" where
  "indexed d rows \<longleftrightarrow> (\<forall>p r. dget d p = Some r \<longleftrightarrow> r \<in> set rows \<and> pr_pseudonym r = p)"

definition ps_inv :: "pseudonym_store_state \<Rightarrow> bool" where
  "ps_inv s \<longleftrightarrow> indexed (ps_by_pseudonym s) (ps_rows s) \<and> distinct (map pr_pseudonym (ps_rows s))"

lemma indexed_get: "indexed d rows \<Longrightarrow> r \<in> set rows \<Longrightarrow> dget d (pr_pseudonym r) = Some r"
  by (simp add: indexed_def)

lemma indexed_row: "indexed d rows \<Longrightarrow> dget d p = Some r \<Longrightarrow> r \<in> set rows \<and> pr_pseudonym r = p"
  by (simp add: indexed_def)

lemma indexed_keys: "indexed d rows \<Longrightarrow> p \<in> set (dkeys d) \<longleftrightarrow> p \<in> pr_pseudonym ` set rows"
proof -
  assume ix: "indexed d rows"
  have "p \<in> set (dkeys d) \<longleftrightarrow> (\<exists>r. dget d p = Some r)"
    using dget_None_iff [of d p] by auto
  also have "\<dots> \<longleftrightarrow> p \<in> pr_pseudonym ` set rows"
    using indexed_row [OF ix] indexed_get [OF ix] by blast
  finally show ?thesis .
qed

lemma find_pseudonym:
  "distinct (map pr_pseudonym rows) \<Longrightarrow>
     dget (map (\<lambda>c. (pr_pseudonym c, c)) rows) p = Some r \<longleftrightarrow> r \<in> set rows \<and> pr_pseudonym r = p"
  by (subst map_of_eq_Some_iff) (auto simp: comp_def)

lemma indexed_close:
  assumes "indexed d rows" and "distinct (map pr_pseudonym rows)"
  shows "indexed (dupdate d (map (\<lambda>c. (pr_pseudonym c, c)) (snd (close_rows e t rows))))
    (map (close_row e t) rows)"
proof -
  let ?cs = "map (closed t) (filter (closes e) rows)"
  have names: "map pr_pseudonym ?cs = map pr_pseudonym (filter (closes e) rows)"
    by (simp add: closed_def comp_def)
  have dist: "distinct (map pr_pseudonym ?cs)"
    unfolding names using assms(2) by (rule distinct_map_filter)
  have keys: "distinct (dkeys (map (\<lambda>c. (pr_pseudonym c, c)) ?cs))"
    using dist by (simp add: comp_def)
  have rev: "dget (rev (map (\<lambda>c. (pr_pseudonym c, c)) ?cs)) = dget (map (\<lambda>c. (pr_pseudonym c, c)) ?cs)"
    by (rule iffD2 [OF map_of_inject_set]) (use keys in \<open>simp_all add: rev_map [symmetric] del: map_map\<close>)
  show ?thesis
    unfolding indexed_def
  proof (intro allI)
    fix p r
    let ?m = "dget (map (\<lambda>c. (pr_pseudonym c, c)) ?cs) p"
    have get: "dget (dupdate d (map (\<lambda>c. (pr_pseudonym c, c)) (snd (close_rows e t rows)))) p =
        (case ?m of Some v \<Rightarrow> Some v | None \<Rightarrow> dget d p)"
      using rev by (simp add: dget_dupdate close_rows_eq del: map_map)
    have inj: "x = y" if "x \<in> set rows" "y \<in> set rows" "pr_pseudonym x = pr_pseudonym y" for x y
      using assms(2) that by (simp add: distinct_map inj_on_def)
    show "dget (dupdate d (map (\<lambda>c. (pr_pseudonym c, c)) (snd (close_rows e t rows)))) p = Some r \<longleftrightarrow>
        r \<in> set (map (close_row e t) rows) \<and> pr_pseudonym r = p"
    proof (cases "\<exists>x\<in>set rows. pr_pseudonym x = p \<and> closes e x")
      case True
      then obtain x where x: "x \<in> set rows" "pr_pseudonym x = p" "closes e x" by blast
      have "?m = Some (closed t x)"
        unfolding find_pseudonym [OF dist] using x by (auto simp: closed_def)
      then show ?thesis
        using x by (auto simp: get close_row_def closed_def dest: inj)
    next
      case False
      then have none: "?m = None"
        by (auto simp: map_of_eq_None_iff closed_def)
      have "r \<in> set (map (close_row e t) rows) \<and> pr_pseudonym r = p \<longleftrightarrow> r \<in> set rows \<and> pr_pseudonym r = p"
      proof
        assume "r \<in> set (map (close_row e t) rows) \<and> pr_pseudonym r = p"
        then obtain x where x: "x \<in> set rows" "r = close_row e t x" "pr_pseudonym x = p" by auto
        with False have "\<not> closes e x" by blast
        with x show "r \<in> set rows \<and> pr_pseudonym r = p" by (simp add: close_row_def)
      next
        assume r: "r \<in> set rows \<and> pr_pseudonym r = p"
        with False have "\<not> closes e r" by blast
        then have "close_row e t r = r" by (simp add: close_row_def)
        with r show "r \<in> set (map (close_row e t) rows) \<and> pr_pseudonym r = p" by force
      qed
      moreover have "dget d p = Some r \<longleftrightarrow> r \<in> set rows \<and> pr_pseudonym r = p"
        using assms(1) by (simp add: indexed_def)
      ultimately show ?thesis by (simp only: get none option.case)
    qed
  qed
qed

lemma indexed_snoc:
  assumes "indexed d rows" and "pr_pseudonym row \<notin> pr_pseudonym ` set rows"
  shows "indexed (dset (pr_pseudonym row) row d) (rows @ [row])"
  unfolding indexed_def
proof (intro allI)
  fix p r
  show "dget (dset (pr_pseudonym row) row d) p = Some r \<longleftrightarrow>
      r \<in> set (rows @ [row]) \<and> pr_pseudonym r = p"
  proof (cases "p = pr_pseudonym row")
    case True
    then have "pr_pseudonym r = p \<Longrightarrow> r \<notin> set rows"
      using assms(2) by (metis imageI)
    with True show ?thesis by (auto simp: dict_simps)
  next
    case False
    then show ?thesis using assms(1) by (auto simp: dict_simps indexed_def)
  qed
qed

lemma ps_record_inv: "ps_inv s \<Longrightarrow> ps_inv (snd (ps_record e p t s))"
proof -
  assume inv: "ps_inv s"
  define rows where "rows = map (close_row e t) (ps_rows s)"
  define d where "d = dupdate (ps_by_pseudonym s)
    (map (\<lambda>c. (pr_pseudonym c, c)) (snd (close_rows e t (ps_rows s))))"
  have ix: "indexed d rows"
    using inv indexed_close by (simp add: ps_inv_def d_def rows_def)
  have names: "map pr_pseudonym rows = map pr_pseudonym (ps_rows s)"
    by (simp add: rows_def comp_def)
  define row where "row = \<lparr>pr_history_id = ps_uuid s (ps_uuids s), pr_email = e, pr_pseudonym = p,
    pr_issued_at = t, pr_retired_at = None\<rparr>"
  show "ps_inv (snd (ps_record e p t s))"
  proof (cases "p \<in> set (dkeys (ps_by_pseudonym s))")
    case True
    then show ?thesis using inv by (simp add: ps_record_def del: set_map)
  next
    case False
    then have new: "p \<notin> pr_pseudonym ` set (ps_rows s)"
      using inv indexed_keys [of "ps_by_pseudonym s" "ps_rows s" p] by (simp add: ps_inv_def del: set_map)
    then have "p \<notin> pr_pseudonym ` set rows"
      by (metis names list.set_map)
    then have "indexed (dset p row d) (rows @ [row])"
      using indexed_snoc [OF ix, of row] by (simp add: row_def)
    moreover have "distinct (map pr_pseudonym (rows @ [row]))"
      using inv new by (simp add: names ps_inv_def row_def)
    moreover have "snd (ps_record e p t s) =
        s\<lparr>ps_rows := rows @ [row], ps_by_pseudonym := dset p row d, ps_uuids := Suc (ps_uuids s)\<rparr>"
      using False by (simp add: ps_record_def Let_def close_rows_eq rows_def d_def row_def del: set_map)
    ultimately show ?thesis by (simp add: ps_inv_def)
  qed
qed

lemma ps_record_fresh:
  "p \<notin> set (dkeys (ps_by_pseudonym s)) \<Longrightarrow> \<exists>row. fst (ps_record e p t s) = Inr row"
  by (simp add: ps_record_def Let_def split: prod.split del: set_map)

lemma ps_record_rows:
  assumes "ps_record e p t s = (Inr row, s')"
  shows "ps_rows s' = map (close_row e t) (ps_rows s) @ [row]"
    and "row = \<lparr>pr_history_id = ps_uuid s (ps_uuids s), pr_email = e, pr_pseudonym = p,
      pr_issued_at = t, pr_retired_at = None\<rparr>"
  using assms by (auto simp: ps_record_def close_rows_eq Let_def split: if_splits)

lemma ps_known_iff: "ps_inv s \<Longrightarrow> ps_is_known p s \<longleftrightarrow> p \<in> pr_pseudonym ` set (ps_rows s)"
  using indexed_keys by (simp add: ps_is_known_def ps_inv_def del: set_map)

lemma ps_resolve_iff:
  assumes "ps_inv s"
  shows "ps_resolve p s = Some e \<longleftrightarrow> (\<exists>r\<in>set (ps_rows s). pr_pseudonym r = p \<and> pr_email r = e)"
proof -
  have ix: "indexed (ps_by_pseudonym s) (ps_rows s)"
    using assms by (simp add: ps_inv_def)
  have "ps_resolve p s = Some e \<longleftrightarrow> (\<exists>r. dget (ps_by_pseudonym s) p = Some r \<and> pr_email r = e)"
    by (auto simp: ps_resolve_def split: option.split)
  also have "\<dots> \<longleftrightarrow> (\<exists>r\<in>set (ps_rows s). pr_pseudonym r = p \<and> pr_email r = e)"
    using indexed_row [OF ix] indexed_get [OF ix] by blast
  finally show ?thesis .
qed

lemma ps_resolve_eqI:
  "ps_inv s \<Longrightarrow> ps_inv s' \<Longrightarrow> (\<And>e. (\<exists>r\<in>set (ps_rows s). pr_pseudonym r = p \<and> pr_email r = e) =
     (\<exists>r\<in>set (ps_rows s'). pr_pseudonym r = p \<and> pr_email r = e)) \<Longrightarrow> ps_resolve p s = ps_resolve p s'"
  using ps_resolve_iff by (metis not_Some_eq)

interpretation ps: pseudonym_store ps_ops ps_inv
proof
  fix s e p t row s' q x
  assume inv: "ps_inv s"
  show "op_is_known ps_ops p s \<Longrightarrow> op_record ps_ops e p t s = (Inl PseudonymReissued, s)"
    by (simp add: ps_ops_def ps_is_known_def ps_record_def del: set_map)
  show "\<not> op_is_known ps_ops p s \<Longrightarrow> \<exists>row. fst (op_record ps_ops e p t s) = Inr row"
    using ps_record_fresh by (simp add: ps_ops_def ps_is_known_def del: set_map)
  show inv': "ps_inv (snd (op_record ps_ops e p t s))"
    using ps_record_inv [OF inv] by (simp add: ps_ops_def)
  assume rec: "op_record ps_ops e p t s = (Inr row, s')"
  then have rec': "ps_record e p t s = (Inr row, s')" by (simp add: ps_ops_def)
  note rows = ps_record_rows [OF rec']
  have inv': "ps_inv s'" using ps_record_inv [OF inv, of e p t] rec' by simp
  have new: "p \<notin> pr_pseudonym ` set (ps_rows s)"
    using inv' by (simp add: ps_inv_def rows comp_def)
  show "pr_email row = e \<and> pr_pseudonym row = p \<and> pr_issued_at row = t \<and> pr_active row"
    by (simp add: rows(2) pr_active_def)
  show "op_is_known ps_ops q s' = (q = p \<or> op_is_known ps_ops q s)"
    by (simp add: ps_ops_def ps_known_iff inv inv' rows(1) image_image) (simp add: rows(2))
  show "op_resolve ps_ops q s' = (if q = p then Some e else op_resolve ps_ops q s)"
  proof (cases "q = p")
    case True
    then show ?thesis
      by (simp add: ps_ops_def ps_resolve_iff [OF inv']) (simp add: rows)
  next
    case False
    then show ?thesis
      by (auto simp: ps_ops_def intro!: ps_resolve_eqI [OF inv' inv]) (auto simp: rows)
  qed
  show "op_history ps_ops x s' =
      (if x = e then map (retire t) (op_history ps_ops x s) @ [row] else op_history ps_ops x s)"
    by (auto simp: ps_ops_def ps_history_def rows filter_map comp_def close_row_own
        intro!: map_idI close_row_other)
qed

lemma new_pseudonym_store_inv: "ps_inv (new_pseudonym_store uuid)"
  by (simp add: ps_inv_def indexed_def new_pseudonym_store_def)

lemma new_pseudonym_store_one_active: "one_active ps_ops (new_pseudonym_store uuid)"
  by (simp add: one_active_def ps_ops_def ps_history_def new_pseudonym_store_def)

end
