(* ===== verification/Sessions.thy ===== *)
theory Sessions
  imports VaultLaws
begin

text \<open>
  The buyer sessions (\<open>apps/buyer/svc/src/auth/sessions.py\<close>): who may be the subject of a session
  (\<open>SessionStore.admit\<close>) and the in-memory store of open sessions.

  The store keeps a reference to the vault it is bound to, not a copy of it, so a model store
  keeps a reference \<^typ>\<open>'r\<close> and every operation that consults it takes \<open>look\<close>, what the vault
  behind a reference answers at that moment. A registry without \<open>active\<close> has \<open>rg_active = None\<close>.
  The ids of \<open>secrets.token_urlsafe\<close> are a stream with the count of what was drawn; \<open>now\<close> is what the
  store's clock returns.
\<close>

datatype session_error =
    NotAPseudonym
  | UnissuedPseudonym
  | RetiredPseudonym
  | SessionsExhausted
  | UnknownSession
  | SessionExpired
  | RegistryRaised vault_error
  | SessionStoreRaised string

text \<open>\<open>isinstance(exc, SessionError)\<close>\<close>

fun is_session_error :: "session_error \<Rightarrow> bool" where
  "is_session_error (RegistryRaised _) = False"
| "is_session_error (SessionStoreRaised _) = False"
| "is_session_error _ = True"

record registry =
  rg_resolve :: "string \<Rightarrow> string option"
  rg_active :: "(string \<Rightarrow> vault_error + string option) option"

definition vault_registry :: "'s pseudonym_store_ops \<Rightarrow> 's pseudonym_vault \<Rightarrow> registry" where
  "vault_registry ops v =
     \<lparr>rg_resolve = (\<lambda>p. vault_resolve ops p v), rg_active = Some (\<lambda>k. vault_active ops k v)\<rparr>"

record session =
  se_session_id :: string
  se_pseudonym :: string
  se_issued_at :: int
  se_expires_at :: int

definition session_expired :: "int \<Rightarrow> session \<Rightarrow> bool" where
  "session_expired now s \<longleftrightarrow> now \<ge> se_expires_at s"

record 'r session_store =
  ss_ttl :: int
  ss_max_sessions :: int
  ss_sessions :: "(string, session) dict"
  ss_vault :: "'r option"
  ss_ids :: "nat \<Rightarrow> string"
  ss_drawn :: nat

definition default_session_ttl :: int where
  "default_session_ttl = 12 * 3600 * 1000000"

definition default_max_sessions :: int where
  "default_max_sessions = 50000"

definition new_session_store :: "int \<Rightarrow> int \<Rightarrow> 'r option \<Rightarrow> (nat \<Rightarrow> string) \<Rightarrow> 'r session_store" where
  "new_session_store ttl max_sessions vault ids =
     \<lparr>ss_ttl = ttl, ss_max_sessions = max_sessions, ss_sessions = [], ss_vault = vault,
      ss_ids = ids, ss_drawn = 0\<rparr>"

definition bind_vault :: "'r option \<Rightarrow> 'r session_store \<Rightarrow> 'r session_store" where
  "bind_vault vault s = (if vault = None \<or> ss_vault s \<noteq> None then s else s\<lparr>ss_vault := vault\<rparr>)"

definition admit :: "registry option \<Rightarrow> string \<Rightarrow> session_error option" where
  "admit vault pseudonym =
     (if \<not> starts_with pseudonym pseudonym_prefix then Some NotAPseudonym
      else case vault of
          None \<Rightarrow> None
        | Some reg \<Rightarrow>
            (case rg_resolve reg pseudonym of
               None \<Rightarrow> Some UnissuedPseudonym
             | Some buyer_key \<Rightarrow>
                 (case rg_active reg of
                    None \<Rightarrow> None
                  | Some current \<Rightarrow>
                      (case current buyer_key of
                         Inl e \<Rightarrow> Some (RegistryRaised e)
                       | Inr p \<Rightarrow> if p \<noteq> Some pseudonym then Some RetiredPseudonym else None))))"

definition forget_expired :: "int \<Rightarrow> 'r session_store \<Rightarrow> 'r session_store" where
  "forget_expired now s =
     (let dead = map fst (filter (\<lambda>p. session_expired now (snd p)) (ss_sessions s))
      in s\<lparr>ss_sessions := foldl (\<lambda>d session_id. dpop session_id d) (ss_sessions s) dead\<rparr>)"

definition session_open :: "('r \<Rightarrow> registry) \<Rightarrow> string \<Rightarrow> int option \<Rightarrow> int \<Rightarrow> 'r session_store \<Rightarrow>
    (session_error + session) \<times> 'r session_store" where
  "session_open look pseudonym ttl issued_at s =
     (case admit (case ss_vault s of None \<Rightarrow> None | Some r \<Rightarrow> Some (look r)) pseudonym of
        Some e \<Rightarrow> (Inl e, s)
      | None \<Rightarrow>
          let s1 = forget_expired issued_at s in
          if int (length (ss_sessions s1)) \<ge> ss_max_sessions s1 then (Inl SessionsExhausted, s1)
          else
            let session = \<lparr>se_session_id = ss_ids s1 (ss_drawn s1), se_pseudonym = pseudonym,
                  se_issued_at = issued_at,
                  se_expires_at = issued_at + (case ttl of Some t \<Rightarrow> t | None \<Rightarrow> ss_ttl s1)\<rparr>
            in (Inr session,
                s1\<lparr>ss_sessions := dset (se_session_id session) session (ss_sessions s1),
                   ss_drawn := Suc (ss_drawn s1)\<rparr>))"

definition session_get :: "string \<Rightarrow> int \<Rightarrow> 'r session_store \<Rightarrow>
    (session_error + session) \<times> 'r session_store" where
  "session_get session_id now s =
     (case dget (ss_sessions s) session_id of
        None \<Rightarrow> (Inl UnknownSession, s)
      | Some session \<Rightarrow>
          if session_expired now session
          then (Inl SessionExpired, s\<lparr>ss_sessions := dpop session_id (ss_sessions s)\<rparr>)
          else (Inr session, s))"

definition session_close :: "string \<Rightarrow> 'r session_store \<Rightarrow> 'r session_store" where
  "session_close session_id s = s\<lparr>ss_sessions := dpop session_id (ss_sessions s)\<rparr>"

section \<open>What the store keeps\<close>

lemma dget_pop_all:
  "dget (foldl (\<lambda>d k. dpop k d) d ks) x = (if x \<in> set ks then None else dget d x)"
  by (induction ks arbitrary: d) (auto simp: dict_simps)

lemma distinct_pop_all: "distinct (dkeys d) \<Longrightarrow> distinct (dkeys (foldl (\<lambda>d k. dpop k d) d ks))"
  by (induction ks arbitrary: d) (auto intro: distinct_dpop)

lemma length_pop_all: "length (foldl (\<lambda>d k. dpop k d) d ks) \<le> length d"
  by (induction ks arbitrary: d) (auto intro: order.trans length_dpop_le)

definition session_inv :: "'r session_store \<Rightarrow> bool" where
  "session_inv s \<longleftrightarrow> distinct (dkeys (ss_sessions s)) \<and>
     (\<forall>k x. dget (ss_sessions s) k = Some x \<longrightarrow>
        se_session_id x = k \<and> starts_with (se_pseudonym x) pseudonym_prefix) \<and>
     int (length (ss_sessions s)) \<le> max 0 (ss_max_sessions s)"

lemma forget_expired_get:
  assumes "distinct (dkeys (ss_sessions s))"
  shows "dget (ss_sessions (forget_expired now s)) k =
    (case dget (ss_sessions s) k of
       None \<Rightarrow> None
     | Some x \<Rightarrow> if session_expired now x then None else Some x)"
proof -
  have dead: "k \<in> set (map fst (filter (\<lambda>p. session_expired now (snd p)) (ss_sessions s))) \<longleftrightarrow>
      (\<exists>x. dget (ss_sessions s) k = Some x \<and> session_expired now x)"
    using map_of_eq_Some_iff [OF assms, of k] by force
  show ?thesis
    by (simp add: forget_expired_def Let_def dget_pop_all dead del: set_map)
      (auto split: option.split)
qed

lemma forget_expired_keeps [simp]:
  "ss_max_sessions (forget_expired now s) = ss_max_sessions s"
  "ss_ttl (forget_expired now s) = ss_ttl s" "ss_vault (forget_expired now s) = ss_vault s"
  "ss_ids (forget_expired now s) = ss_ids s" "ss_drawn (forget_expired now s) = ss_drawn s"
  by (simp_all add: forget_expired_def Let_def)

lemma forget_expired_inv: "session_inv s \<Longrightarrow> session_inv (forget_expired now s)"
proof -
  assume inv: "session_inv s"
  then have d: "distinct (dkeys (ss_sessions s))" by (simp add: session_inv_def)
  have "distinct (dkeys (ss_sessions (forget_expired now s)))"
    using distinct_pop_all [OF d] by (simp add: forget_expired_def Let_def)
  moreover have "length (ss_sessions (forget_expired now s)) \<le> length (ss_sessions s)"
    by (simp add: forget_expired_def Let_def length_pop_all)
  ultimately show ?thesis
    using inv forget_expired_get [OF d, of now] by (auto simp: session_inv_def split: option.splits if_splits)
qed

lemma admit_None:
  "admit vault p = None \<Longrightarrow> starts_with p pseudonym_prefix"
  by (simp add: admit_def split: if_splits)

lemma session_open_inv: "session_inv s \<Longrightarrow> session_inv (snd (session_open look p ttl now s))"
proof -
  assume inv: "session_inv s"
  define s1 where "s1 = forget_expired now s"
  have inv1: "session_inv s1" unfolding s1_def by (rule forget_expired_inv [OF inv])
  have add: "session_inv (s1\<lparr>ss_sessions := dset k x (ss_sessions s1), ss_drawn := n\<rparr>)"
    if "se_session_id x = k" and "int (length (ss_sessions s1)) < ss_max_sessions s1"
      and "starts_with (se_pseudonym x) pseudonym_prefix" for k x n
    using inv1 that length_dset_le [of k x "ss_sessions s1"]
    by (auto simp: session_inv_def distinct_dset dict_simps)
  show ?thesis
    using inv inv1 by (auto simp: session_open_def s1_def [symmetric] Let_def not_le intro!: add
        dest: admit_None split: option.splits)
qed

lemma session_pop_inv: "session_inv s \<Longrightarrow> session_inv (s\<lparr>ss_sessions := dpop k (ss_sessions s)\<rparr>)"
  using length_dpop_le [of k "ss_sessions s"] by (auto simp: session_inv_def distinct_dpop dict_simps)

lemma session_get_inv: "session_inv s \<Longrightarrow> session_inv (snd (session_get k now s))"
  by (auto simp: session_get_def session_pop_inv split: option.split)

lemma session_close_inv: "session_inv s \<Longrightarrow> session_inv (session_close k s)"
  by (simp add: session_close_def session_pop_inv)

lemma new_session_store_inv: "session_inv (new_session_store ttl n vault ids)"
  by (simp add: new_session_store_def session_inv_def)

text \<open>One call on the store. An opening carries what the bound vault answers at that moment.\<close>

datatype 'r session_call =
    OpenSession "'r \<Rightarrow> registry" string "int option" int
  | GetSession string int
  | CloseSession string

fun session_step :: "'r session_call \<Rightarrow> 'r session_store \<Rightarrow> 'r session_store" where
  "session_step (OpenSession look p ttl now) s = snd (session_open look p ttl now s)"
| "session_step (GetSession k now) s = snd (session_get k now s)"
| "session_step (CloseSession k) s = session_close k s"

lemma session_step_inv: "session_inv s \<Longrightarrow> session_inv (session_step x s)"
  by (cases x) (simp_all add: session_open_inv session_get_inv session_close_inv)

interpretation sessions: invariant_machine session_step session_inv
  by unfold_locales (rule session_step_inv)

end
