(* ===== verification/VaultProps.thy ===== *)
theory VaultProps
  imports VaultLaws
begin

text \<open>
  The properties of the pseudonym vault over its in-memory store: a pseudonym is issued once, a buyer
  holds at most one, what was issued stays on record, and the drawing loop returns the first
  candidate the store has never seen.
\<close>

definition started_vault :: "(nat \<Rightarrow> string) \<Rightarrow> (nat \<Rightarrow> string) \<Rightarrow> int \<Rightarrow>
    pseudonym_store_state pseudonym_vault \<Rightarrow> bool" where
  "started_vault uuid gen n v \<longleftrightarrow> new_pseudonym_vault (new_pseudonym_store uuid) gen n = Inr v"

lemma started_vault_inv:
  "started_vault uuid gen n v \<Longrightarrow> ps_inv (pv_store v) \<and> one_active ps_ops (pv_store v)"
  by (auto simp: started_vault_def new_pseudonym_vault_def new_pseudonym_store_inv
      new_pseudonym_store_one_active split: if_splits)

lemmas vault_run_inv = ps.vault_run.run_inv [OF started_vault_inv]

lemma one_active_count: "one_active ps_ops s \<Longrightarrow> length (filter pr_active (ps_history e s)) \<le> 1"
proof -
  assume "one_active ps_ops s"
  then have old: "\<forall>r\<in>set (butlast (ps_history e s)). \<not> pr_active r"
    by (simp add: one_active_def ps_ops_def list_all_iff)
  show ?thesis
  proof (cases "ps_history e s" rule: rev_cases)
    case (snoc rs r)
    with old have "filter pr_active rs = []" by (simp add: filter_empty_conv)
    then show ?thesis using snoc by simp
  qed simp
qed

text \<open>
  C15. A pseudonym the vault once issued is never issued again: whatever issues came before it and
  whatever issues follow, to the same buyer or another, none of them returns it a second time.
\<close>

theorem pseudonym_never_reissued:
  assumes "started_vault uuid gen n v"
    and "issue ps_ops key t (fold (vault_step ps_ops) xs v) = (Inr p, v')"
  shows "fst (issue ps_ops key' t' (fold (vault_step ps_ops) ys v')) \<noteq> Inr p"
  using ps.never_reissued [OF conjunct1 conjunct2, OF vault_run_inv vault_run_inv, OF assms(1,1,2)] .

text \<open>
  After any sequence of issues every buyer has at most one active pseudonym, and the one a
  further issue returns is then the buyer's active one, under every spelling of the address with the
  same normal form, and resolves to that buyer.
\<close>

theorem one_active_pseudonym_per_buyer:
  assumes "started_vault uuid gen n v"
    and "issue ps_ops key t (fold (vault_step ps_ops) xs v) = (Inr p, v')"
    and "normalise_buyer_key key' = normalise_buyer_key key"
  shows "vault_active ps_ops key' v' = Inr (Some p) \<and>
    vault_resolve ps_ops p v' = Some (casefold (strip key)) \<and>
    (\<forall>e. length (filter pr_active (ps_history e (pv_store v'))) \<le> 1)"
proof -
  let ?w = "fold (vault_step ps_ops) xs v"
  have inv: "ps_inv (pv_store ?w)" and one: "one_active ps_ops (pv_store ?w)"
    using vault_run_inv [OF assms(1), of xs] by auto
  have "vault_active ps_ops key' v' = vault_active ps_ops key v'"
    by (simp add: vault_active_def vault_history_def assms(3))
  moreover have "v' = vault_step ps_ops (key, t) ?w"
    by (simp add: vault_step_def assms(2))
  ultimately show ?thesis
    using ps.issued_is_active [OF inv assms(2)] ps.issued_is_known(3) [OF inv assms(2)]
      ps.step_one_active [OF inv one, of "(key, t)"] one_active_count by auto
qed

text \<open>
  What was issued stays on record: along any sequence of issues every buyer's history only
  grows at its end (a row changes in nothing but its retirement), and a pseudonym that resolved to
  a buyer resolves to the same buyer for good.
\<close>

theorem vault_history_is_append_only:
  assumes "started_vault uuid gen n v0" and "v = fold (vault_step ps_ops) xs v0"
    and "w = fold (vault_step ps_ops) ys v"
  shows "prefix (map issued_part (ps_history e (pv_store v))) (map issued_part (ps_history e (pv_store w))) \<and>
    (ps_is_known p (pv_store v) \<longrightarrow> vault_resolve ps_ops p w = vault_resolve ps_ops p v)"
  using ps.vault_run.run_le [OF vault_run_inv [OF assms(1), of xs], of ys] assms(2,3)
  by (auto simp: vault_grows_def ps_ops_def)

text \<open>
  The drawing loop returns the first usable candidate: an issue to a real address yields the
  first of the next \<open>attempts\<close> draws the store has never seen, refuses a blank draw that comes before
  any such, and reports exhaustion exactly when all of them are already in the history.
\<close>

theorem issue_returns_the_first_unknown_draw:
  assumes "started_vault uuid gen n v0" and "v = fold (vault_step ps_ops) xs v0" and "strip key \<noteq> []"
  shows "fst (issue ps_ops key t v) =
    (case find (\<lambda>c. c = [] \<or> \<not> ps_is_known c (pv_store v)) (next_draws (pv_attempts v) v) of
       None \<Rightarrow> Inl PseudonymExhausted
     | Some c \<Rightarrow> if c = [] then Inl BadCandidate else Inr c)"
proof -
  have "ps_inv (pv_store v)"
    using vault_run_inv [OF assms(1), of xs] assms(2) by simp
  then show ?thesis
    using ps.draw_decides [of v "casefold (strip key)" t "pv_attempts v"] assms(3)
    by (simp add: issue_def normalise_buyer_key_def ps.usable_def) (simp add: ps_ops_def)
qed

section \<open>Witnesses\<close>

text \<open>A generator that repeats itself, so that the second issue has to draw twice.\<close>

definition sample_draws :: "nat \<Rightarrow> string" where
  "sample_draws i = (if i < 2 then ''psn-a'' else if i = 2 then ''psn-b'' else ''psn-c'')"

definition sample_vault :: "pseudonym_store_state pseudonym_vault" where
  "sample_vault =
     \<lparr>pv_store = new_pseudonym_store (\<lambda>i. ''id''), pv_generate = sample_draws, pv_draws = 0,
      pv_attempts = 8\<rparr>"

lemma sample_vault_started: "started_vault (\<lambda>i. ''id'') sample_draws default_attempts sample_vault"
  by (simp add: started_vault_def new_pseudonym_vault_def default_attempts_def sample_vault_def)

definition sample_first_issue :: "pseudonym_store_state pseudonym_vault" where
  "sample_first_issue = snd (issue ps_ops ''A@x'' 5 sample_vault)"

lemma sample_first: "issue ps_ops ''A@x'' 5 (fold (vault_step ps_ops) [] sample_vault) = (Inr ''psn-a'', sample_first_issue)"
proof -
  have "fst (issue ps_ops ''A@x'' 5 sample_vault) = Inr ''psn-a''"
    by code_simp
  then show ?thesis
    by (simp add: sample_first_issue_def) (metis prod.collapse)
qed

theorem pseudonym_never_reissued_witness:
  "fst (issue ps_ops ''B@x'' 6 (fold (vault_step ps_ops) [(''a@x'', 7)] sample_first_issue)) \<noteq> Inr ''psn-a''"
  by (rule pseudonym_never_reissued [OF sample_vault_started sample_first])

theorem one_active_pseudonym_per_buyer_witness:
  "vault_active ps_ops '' a@X '' sample_first_issue = Inr (Some ''psn-a'')"
  by (rule one_active_pseudonym_per_buyer [OF sample_vault_started sample_first, THEN conjunct1]) code_simp

theorem vault_history_is_append_only_witness:
  "vault_resolve ps_ops ''psn-a'' (fold (vault_step ps_ops) [(''a@x'', 9)] (fold (vault_step ps_ops) [(''a@x'', 5)] sample_vault)) =
     vault_resolve ps_ops ''psn-a'' (fold (vault_step ps_ops) [(''a@x'', 5)] sample_vault)"
  by (rule vault_history_is_append_only [OF sample_vault_started refl refl, THEN conjunct2, rule_format])
    code_simp

theorem issue_returns_the_first_unknown_draw_witness:
  "fst (issue ps_ops ''a@x'' 9 (fold (vault_step ps_ops) [(''a@x'', 5)] sample_vault)) = Inr ''psn-b''"
proof (subst issue_returns_the_first_unknown_draw [OF sample_vault_started refl])
  show "strip ''a@x'' \<noteq> []" by code_simp
  show "(case find (\<lambda>c. c = [] \<or> \<not> ps_is_known c (pv_store (fold (vault_step ps_ops) [(''a@x'', 5)] sample_vault)))
      (next_draws (pv_attempts (fold (vault_step ps_ops) [(''a@x'', 5)] sample_vault))
        (fold (vault_step ps_ops) [(''a@x'', 5)] sample_vault)) of
       None \<Rightarrow> Inl PseudonymExhausted
     | Some c \<Rightarrow> if c = [] then Inl BadCandidate else Inr c) = Inr ''psn-b''"
    by code_simp
qed

end
