(* ===== verification/SessionProps.thy ===== *)
theory SessionProps
  imports Sessions VaultProps
begin

text \<open>
  The properties of the buyer sessions: the ceiling, how long a session lives, and that a buyer who
  was rotated onto another pseudonym can open no session under the old one.
\<close>

text \<open>
  Over any sequence of openings, lookups and closings the store never holds more sessions than
  its ceiling, keeps every session under its own id, and holds no session whose subject lacks the
  vault's prefix, so that no e-mail address is ever the subject of a session.
\<close>

theorem sessions_stay_bounded_and_pseudonymous:
  "let s = fold session_step calls (new_session_store ttl n vault ids) in
     int (length (ss_sessions s)) \<le> max 0 (ss_max_sessions s) \<and>
     list_all (\<lambda>(k, x). se_session_id x = k \<and> starts_with (se_pseudonym x) pseudonym_prefix) (ss_sessions s)"
proof -
  let ?s = "fold session_step calls (new_session_store ttl n vault ids)"
  have inv: "session_inv ?s"
    by (rule sessions.run_inv [OF new_session_store_inv])
  then have "dget (ss_sessions ?s) k = Some x" if "(k, x) \<in> set (ss_sessions ?s)" for k x
    using that by (simp add: session_inv_def)
  with inv show ?thesis
    by (auto simp: Let_def list_all_iff session_inv_def)
qed

section \<open>The life of a session\<close>

text \<open>A call that neither closes the session \<open>k\<close> nor reads the clock at or after \<open>t\<close> to its harm.\<close>

fun spares :: "string \<Rightarrow> int \<Rightarrow> 'r session_call \<Rightarrow> bool" where
  "spares k t (OpenSession look p ttl now) = (now < t)"
| "spares k t (GetSession k' now) = (k' = k \<longrightarrow> now < t)"
| "spares k t (CloseSession k') = (k' \<noteq> k)"

definition holds_session :: "(nat \<Rightarrow> string) \<Rightarrow> nat \<Rightarrow> session \<Rightarrow> 'r session_store \<Rightarrow> bool" where
  "holds_session ids i x s \<longleftrightarrow> ss_ids s = ids \<and> i < ss_drawn s \<and> se_session_id x = ids i \<and>
     dget (ss_sessions s) (ids i) = Some x \<and> distinct (dkeys (ss_sessions s))"

lemma forget_expired_distinct:
  "distinct (dkeys (ss_sessions s)) \<Longrightarrow> distinct (dkeys (ss_sessions (forget_expired now s)))"
  using distinct_pop_all [of "ss_sessions s"] by (simp add: forget_expired_def Let_def)

lemma holds_forget:
  "holds_session ids i x s \<Longrightarrow> now < se_expires_at x \<Longrightarrow> holds_session ids i x (forget_expired now s)"
  by (auto simp: holds_session_def forget_expired_get forget_expired_distinct session_expired_def)

lemma holds_pop:
  "holds_session ids i x s \<Longrightarrow> k \<noteq> ids i \<Longrightarrow>
     holds_session ids i x (s\<lparr>ss_sessions := dpop k (ss_sessions s)\<rparr>)"
  by (simp add: holds_session_def dget_dpop distinct_dpop del: map_of_eq_Some_iff)

lemma holds_step:
  assumes "inj ids" and "holds_session ids i x s" and "spares (ids i) (se_expires_at x) call"
  shows "holds_session ids i x (session_step call s)"
proof (cases call)
  case (OpenSession look p ttl now)
  define s1 where "s1 = forget_expired now s"
  have h1: "holds_session ids i x s1"
    unfolding s1_def using holds_forget [OF assms(2)] assms(3) OpenSession by simp
  have "ids (ss_drawn s1) \<noteq> ids i"
    using h1 injD [OF assms(1), of "ss_drawn s1" i] by (auto simp: holds_session_def)
  then have "holds_session ids i x (s1\<lparr>ss_sessions := dset (ids (ss_drawn s1)) y (ss_sessions s1),
      ss_drawn := Suc (ss_drawn s1)\<rparr>)" for y
    using h1 by (auto simp: holds_session_def dict_simps distinct_dset)
  moreover have "ss_ids s1 = ids" using h1 by (simp add: holds_session_def)
  ultimately show ?thesis
    using h1 assms(2) by (simp add: OpenSession session_open_def s1_def [symmetric] Let_def split: option.split)
next
  case (GetSession k now)
  then show ?thesis
    using holds_pop [OF assms(2), of k]
    by (cases "k = ids i") (use assms(2,3) in \<open>auto simp: session_get_def session_expired_def
        holds_session_def simp del: map_of_eq_Some_iff split: option.split\<close>)
next
  case (CloseSession k)
  then show ?thesis
    using assms(3) holds_pop [OF assms(2), of k] by (simp add: session_close_def)
qed

lemma holds_run:
  "inj ids \<Longrightarrow> holds_session ids i x s \<Longrightarrow> list_all (spares (ids i) (se_expires_at x)) calls \<Longrightarrow>
     holds_session ids i x (fold session_step calls s)"
  by (induction calls arbitrary: s) (auto intro: holds_step)

lemma session_open_holds:
  assumes "session_open look p ttl now s = (Inr x, s')" and "distinct (dkeys (ss_sessions s))"
  shows "holds_session (ss_ids s) (ss_drawn s) x s'"
  using assms
  by (auto simp: session_open_def Let_def holds_session_def dict_simps distinct_dset
      forget_expired_distinct split: option.splits if_splits)

text \<open>
  A session lives exactly as long as it was granted: whatever else is opened, read or closed
  while its time runs, a lookup before its expiry returns the session as it was opened, and a
  lookup from its expiry on reports it expired.
\<close>

theorem session_lives_until_it_expires:
  assumes "inj ids" and "s = fold session_step before (new_session_store ttl n vault ids)"
    and "session_open look p life now s = (Inr x, s')"
    and "list_all (spares (se_session_id x) (se_expires_at x)) calls"
  shows "fst (session_get (se_session_id x) later (fold session_step calls s')) =
    (if later < se_expires_at x then Inr x else Inl SessionExpired)"
proof -
  have inv: "session_inv s"
    unfolding assms(2) by (rule sessions.run_inv [OF new_session_store_inv])
  have keep: "ss_ids (fold session_step xs t) = ss_ids t" for xs and t :: "'a session_store"
  proof (induction xs arbitrary: t)
    case (Cons y xs)
    then show ?case
      by (cases y) (auto simp: session_open_def session_get_def session_close_def Let_def
          split: option.split)
  qed simp
  then have ids: "ss_ids s = ids" by (simp add: assms(2) new_session_store_def)
  have h: "holds_session ids (ss_drawn s) x s'"
    using session_open_holds [OF assms(3)] inv ids by (simp add: session_inv_def)
  then have id: "se_session_id x = ids (ss_drawn s)" by (simp add: holds_session_def)
  then show ?thesis
    using holds_run [OF assms(1) h, of calls] assms(4)
    by (auto simp: holds_session_def session_get_def session_expired_def)
qed

section \<open>Rotation\<close>

lemma vault_active_last:
  assumes "one_active ps_ops (pv_store v)" and "vault_active ps_ops e v = Inr (Some p)"
    and "normalise_buyer_key e = Inr k"
  shows "ps_history k (pv_store v) \<noteq> [] \<and> pr_pseudonym (last (ps_history k (pv_store v))) = p"
proof -
  let ?h = "ps_history k (pv_store v)"
  have old: "\<forall>r\<in>set (butlast ?h). \<not> pr_active r"
    using assms(1) by (simp add: one_active_def ps_ops_def list_all_iff)
  obtain r where r: "find pr_active (rev ?h) = Some r" "pr_pseudonym r = p"
    using assms(2,3) by (auto simp: vault_active_def vault_history_def ps_ops_def split: option.splits)
  then have "pr_active r" "r \<in> set ?h" using find_in_set by fastforce+
  show ?thesis
  proof (cases ?h rule: rev_cases)
    case (snoc rs y)
    then have "rev ?h = y # rev rs" by simp
    moreover have "find pr_active (rev rs) = None"
      using old snoc by (auto simp: find_None_iff)
    ultimately have "r = y"
      using r(1) by (simp split: if_splits)
    with snoc r(2) show ?thesis by simp
  qed (use r in simp)
qed

lemma history_distinct: "ps_inv s \<Longrightarrow> distinct (map pr_pseudonym (ps_history k s))"
  by (simp add: ps_inv_def ps_history_def distinct_map_filter)

text \<open>The pseudonym of a row of the buyer's history that at least \<open>n\<close> rows follow.\<close>

definition older :: "nat \<Rightarrow> string \<Rightarrow> string \<Rightarrow> pseudonym_store_state pseudonym_vault \<Rightarrow> bool" where
  "older n k p v \<longleftrightarrow>
     (\<exists>i. i + n < length (ps_history k (pv_store v)) \<and> pr_pseudonym (ps_history k (pv_store v) ! i) = p)"

lemma older_grows:
  assumes "older n k p v" and "vault_grows ps_ops v w"
  shows "older n k p w"
proof -
  let ?h = "ps_history k (pv_store v)" and ?g = "ps_history k (pv_store w)"
  obtain i where i: "i + n < length ?h" "pr_pseudonym (?h ! i) = p"
    using assms(1) by (auto simp: older_def)
  have "prefix (map issued_part ?h) (map issued_part ?g)"
    using assms(2) by (simp add: vault_grows_def ps_ops_def)
  then obtain zs where zs: "map issued_part ?g = map issued_part ?h @ zs"
    by (auto simp: prefix_def)
  then have len: "length ?h \<le> length ?g"
    by (metis length_append length_map le_add1)
  have "map issued_part ?g ! i = map issued_part ?h ! i"
    using i(1) by (simp add: zs nth_append)
  then have "issued_part (?g ! i) = issued_part (?h ! i)"
    using i(1) len by simp
  then have "pr_pseudonym (?g ! i) = p"
    using i(2) by (simp add: issued_part_def)
  then show ?thesis
    using i(1) len by (auto simp: older_def intro!: exI [of _ i])
qed

lemma older_not_active:
  assumes "older 1 k p v" and "ps_inv (pv_store v)" and "one_active ps_ops (pv_store v)"
    and "normalise_buyer_key e = Inr k"
  shows "vault_active ps_ops e v \<noteq> Inr (Some p)"
proof
  let ?h = "ps_history k (pv_store v)"
  assume "vault_active ps_ops e v = Inr (Some p)"
  then have last: "pr_pseudonym (last ?h) = p" "?h \<noteq> []"
    using vault_active_last [OF assms(3) _ assms(4)] by auto
  obtain i where i: "Suc i < length ?h" "pr_pseudonym (?h ! i) = p"
    using assms(1) by (auto simp: older_def)
  have "map pr_pseudonym ?h ! i = map pr_pseudonym ?h ! (length ?h - 1)"
    using i last by (simp add: last_conv_nth)
  moreover have "length ?h - 1 < length ?h"
    using last(2) by simp
  ultimately show False
    using nth_eq_iff_index_eq [OF history_distinct [OF assms(2), of k], of i "length ?h - 1"] i by simp
qed

lemma issue_history:
  assumes "ps_inv (pv_store v)" and "issue ps_ops key t v = (Inr p, v')"
  obtains row where "pr_pseudonym row = p"
    and "ps_history (casefold (strip key)) (pv_store v') =
      map (retire t) (ps_history (casefold (strip key)) (pv_store v)) @ [row]"
  using assms(1)
proof (cases rule: ps.issue_cases [of v key t])
  case (refused err)
  then show ?thesis using assms(2) by simp
next
  case (issued q row)
  show ?thesis
  proof (rule that)
    show "pr_pseudonym row = p"
      using ps.record_row [OF assms(1) issued(4)] issued(1) assms(2) by simp
    show "ps_history (casefold (strip key)) (pv_store v') =
        map (retire t) (ps_history (casefold (strip key)) (pv_store v)) @ [row]"
      using ps.record_history [OF assms(1) issued(4), of "casefold (strip key)"] assms(2)
      by (simp add: ps_ops_def)
  qed
qed

lemma issued_older:
  assumes "ps_inv (pv_store v)" and "issue ps_ops key t v = (Inr p, v')"
  shows "older 0 (casefold (strip key)) p v'"
  by (rule issue_history [OF assms])
    (auto simp: older_def nth_append intro!: exI [of _ "length (ps_history (casefold (strip key)) (pv_store v))"])

lemma reissue_older:
  assumes "ps_inv (pv_store v)" and "issue ps_ops key t v = (Inr q, v')"
    and "older n (casefold (strip key)) p v"
  shows "older (Suc n) (casefold (strip key)) p v'"
proof (rule issue_history [OF assms(1,2)])
  fix row
  assume h: "ps_history (casefold (strip key)) (pv_store v') =
      map (retire t) (ps_history (casefold (strip key)) (pv_store v)) @ [row]"
  obtain i where "i + n < length (ps_history (casefold (strip key)) (pv_store v))"
    "pr_pseudonym (ps_history (casefold (strip key)) (pv_store v) ! i) = p"
    using assms(3) by (auto simp: older_def)
  then show ?thesis
    by (auto simp: older_def h nth_append intro!: exI [of _ i])
qed

text \<open>
  C39. Rotation ends a subject for good: once a buyer was issued another pseudonym, the one they held
  before opens no session any more in a store bound to that vault, whatever the vault issues
  meanwhile; and the store is left as it was.
\<close>

theorem rotated_pseudonym_opens_no_session:
  assumes "started_vault uuid gen n v0"
    and "issue ps_ops key t (fold (vault_step ps_ops) xs v0) = (Inr p, v1)"
    and "issue ps_ops key' t' (fold (vault_step ps_ops) ys v1) = (Inr q, v2)"
    and "normalise_buyer_key key' = normalise_buyer_key key"
    and "starts_with p pseudonym_prefix"
    and "ss_vault s = Some r" and "look r = vault_registry ps_ops (fold (vault_step ps_ops) zs v2)"
  shows "session_open look p ttl now s = (Inl RetiredPseudonym, s)"
proof -
  let ?k = "casefold (strip key)" and ?v = "fold (vault_step ps_ops) xs v0"
  let ?w = "fold (vault_step ps_ops) ys v1" and ?u = "fold (vault_step ps_ops) zs v2"
  have inv: "ps_inv (pv_store ?v) \<and> one_active ps_ops (pv_store ?v)"
    by (rule vault_run_inv [OF assms(1)])
  have v1: "v1 = vault_step ps_ops (key, t) ?v" and v2: "v2 = vault_step ps_ops (key', t') ?w"
    by (simp_all add: vault_step_def assms(2,3))
  have inv1: "ps_inv (pv_store v1) \<and> one_active ps_ops (pv_store v1)"
    unfolding v1 using inv by (rule ps.vault_run.step_inv)
  have invw: "ps_inv (pv_store ?w) \<and> one_active ps_ops (pv_store ?w)"
    using inv1 by (rule ps.vault_run.run_inv)
  have inv2: "ps_inv (pv_store v2) \<and> one_active ps_ops (pv_store v2)"
    unfolding v2 using invw by (rule ps.vault_run.step_inv)
  have invu: "ps_inv (pv_store ?u) \<and> one_active ps_ops (pv_store ?u)"
    using inv2 by (rule ps.vault_run.run_inv)
  have ne: "strip key \<noteq> []"
    using ps.issued_is_known(4) [OF conjunct1 [OF inv] assms(2)] .
  then have k': "casefold (strip key') = ?k"
    using assms(4) by (auto simp: normalise_buyer_key_def split: if_splits)
  have "older 0 ?k p v1"
    using issued_older inv assms(2) by blast
  then have "older 0 ?k p ?w"
    using ps.vault_run.run_le [OF inv1] by (rule older_grows)
  then have "older 1 ?k p v2"
    using reissue_older [OF conjunct1 [OF invw] assms(3), of 0 p] k' by simp
  then have old: "older 1 ?k p ?u"
    using ps.vault_run.run_le [OF inv2] by (rule older_grows)
  have known: "ps_is_known p (pv_store v1)" and res1: "vault_resolve ps_ops p v1 = Some ?k"
    using ps.issued_is_known(1,3) [OF conjunct1 [OF inv] assms(2)] by (simp_all add: ps_ops_def)
  have "vault_grows ps_ops v1 v2"
    using ps.vault_run.le_trans [OF ps.vault_run.run_le [OF inv1, of ys]
        ps.vault_run.step_le [OF invw, of "(key', t')"]] v2 by simp
  then have "vault_grows ps_ops v1 ?u"
    using ps.vault_run.run_le [OF inv2, of zs] by (rule ps.vault_run.le_trans)
  then have res: "vault_resolve ps_ops p ?u = Some ?k"
    using known res1 by (auto simp: vault_grows_def ps_ops_def)
  have key: "normalise_buyer_key ?k = Inr ?k"
    using ne by (simp add: normalise_buyer_key_def strip_casefold) (simp add: casefold_def)
  have "vault_active ps_ops ?k ?u \<noteq> Inr (Some p)"
    using older_not_active [OF old _ _ key] invu by blast
  moreover have "\<exists>a. vault_active ps_ops ?k ?u = Inr a"
    by (simp add: vault_active_def vault_history_def key)
  ultimately have "admit (Some (look r)) p = Some RetiredPseudonym"
    using res assms(5,7) by (auto simp: admit_def vault_registry_def)
  then show ?thesis
    by (simp add: session_open_def assms(6))
qed

section \<open>Witnesses\<close>

definition sample_ids :: "nat \<Rightarrow> string" where
  "sample_ids i = replicate i (CHR ''x'')"

lemma inj_sample_ids: "inj sample_ids"
  by (rule injI) (metis sample_ids_def length_replicate)

definition sample_sessions :: "unit session_store" where
  "sample_sessions = new_session_store 100 3 None sample_ids"

definition sample_session :: session where
  "sample_session = \<lparr>se_session_id = [], se_pseudonym = ''psn-a'', se_issued_at = 5, se_expires_at = 25\<rparr>"

definition sample_registry :: registry where
  "sample_registry = \<lparr>rg_resolve = (\<lambda>p. None), rg_active = None\<rparr>"

theorem session_lives_until_it_expires_witness:
  "fst (session_get (se_session_id sample_session) 30
     (fold session_step [OpenSession (\<lambda>_. sample_registry) ''psn-b'' None 24]
       (snd (session_open (\<lambda>_. sample_registry) ''psn-a'' (Some 20) 5 sample_sessions)))) = Inl SessionExpired"
proof -
  have opened: "session_open (\<lambda>_. sample_registry) ''psn-a'' (Some 20) 5 sample_sessions =
      (Inr sample_session, snd (session_open (\<lambda>_. sample_registry) ''psn-a'' (Some 20) 5 sample_sessions))"
    by (simp add: session_open_def admit_def pseudonym_prefix_def sample_sessions_def new_session_store_def
        Let_def forget_expired_def sample_session_def sample_ids_def)
  have start: "sample_sessions = fold session_step [] (new_session_store 100 3 None sample_ids)"
    by (simp add: sample_sessions_def)
  show ?thesis
    by (subst session_lives_until_it_expires [OF inj_sample_ids start opened])
      (simp_all add: sample_session_def)
qed

definition sample_second_issue :: "pseudonym_store_state pseudonym_vault" where
  "sample_second_issue = snd (issue ps_ops ''a@x'' 6 sample_first_issue)"

lemma sample_second:
  "issue ps_ops ''a@x'' 6 (fold (vault_step ps_ops) [] sample_first_issue) = (Inr ''psn-b'', sample_second_issue)"
proof -
  have "fst (issue ps_ops ''a@x'' 6 sample_first_issue) = Inr ''psn-b''"
    by code_simp
  then show ?thesis
    by (simp add: sample_second_issue_def) (metis prod.collapse)
qed

theorem rotated_pseudonym_opens_no_session_witness:
  "fst (session_open (\<lambda>_. vault_registry ps_ops (fold (vault_step ps_ops) [] sample_second_issue)) ''psn-a'' None 7
     (new_session_store 100 3 (Some ()) sample_ids)) = Inl RetiredPseudonym"
proof (subst rotated_pseudonym_opens_no_session
    [OF sample_vault_started sample_first sample_second, of _ "()" _ "[]"])
  show "normalise_buyer_key ''a@x'' = normalise_buyer_key ''A@x''"
    by code_simp
qed (simp_all add: new_session_store_def pseudonym_prefix_def)

end
