(* ===== verification/MagicLink.thy ===== *)
theory MagicLink
  imports Sessions
begin

text \<open>
  The magic-link login (\<open>apps/buyer/svc/src/auth/magic_link.py\<close>): the pending links, the account
  directory, and the two operations \<open>request_login\<close> and \<open>redeem\<close>.

  \<open>token_fingerprint\<close> is the SHA-256 hex digest of the token; the digest is the parameter \<open>fp\<close> of
  the operations. \<open>secrets.token_urlsafe\<close> is a stream with the count of what was drawn. The session
  store is used through the \<open>SessionStore\<close> base class, the record \<open>session_store_ops\<close>, so that a
  store that raises is an instance. \<open>redeem\<close> is the composition of the parts the code has: the
  spending of the link under the lock (\<open>spend_link\<close>), the work outside it (\<open>enter\<close>), and the
  handler that may give the link back under the lock (\<open>restore_link\<close>).
\<close>

datatype magic_link_error =
    MagicLinkUnknown
  | MagicLinkExpired
  | MagicLinkAlreadyUsed
  | MagicLinkThrottled

datatype login_error =
    LinkError magic_link_error
  | VaultFailed vault_error
  | SessionFailed session_error
  | DeliveryFailed string
  | AssertionFailed

record pending_link =
  pl_email :: string
  pl_expires_at :: int
  pl_used_at :: "int option"
  pl_sequence :: int

type_synonym account = "(string, json) dict"

record ('s, 'ss) magic_link_auth =
  ml_vault :: "'s pseudonym_vault"
  ml_sessions :: 'ss
  ml_accounts :: "(string, account) dict"
  ml_link_ttl :: int
  ml_session_ttl :: int
  ml_max_pending :: int
  ml_pending :: "(string, pending_link) dict"
  ml_sequence :: int
  ml_tokens :: "nat \<Rightarrow> string"
  ml_drawn :: nat

record 'ss session_store_ops =
  op_open :: "(unit \<Rightarrow> registry) \<Rightarrow> string \<Rightarrow> int option \<Rightarrow> int \<Rightarrow> 'ss \<Rightarrow> (session_error + session) \<times> 'ss"
  op_get :: "string \<Rightarrow> int \<Rightarrow> 'ss \<Rightarrow> (session_error + session) \<times> 'ss"
  op_close :: "string \<Rightarrow> 'ss \<Rightarrow> 'ss"

definition mem_session_ops :: "unit session_store session_store_ops" where
  "mem_session_ops = \<lparr>op_open = session_open, op_get = session_get, op_close = session_close\<rparr>"

definition default_link_ttl :: int where
  "default_link_ttl = 15 * 60 * 1000000"

definition default_max_pending :: int where
  "default_max_pending = 10000"

text \<open>
  \<open>MagicLinkAuth\<close> with its default fields; \<open>__post_init__\<close> binds the session store to the vault, whose
  reference is \<open>()\<close> (there is one vault).
\<close>

definition new_magic_link_auth :: "'s pseudonym_vault \<Rightarrow> unit session_store \<Rightarrow> int \<Rightarrow> int \<Rightarrow> int \<Rightarrow>
    (nat \<Rightarrow> string) \<Rightarrow> ('s, unit session_store) magic_link_auth" where
  "new_magic_link_auth vault sessions link_ttl session_ttl max_pending tokens =
     \<lparr>ml_vault = vault, ml_sessions = bind_vault (Some ()) sessions, ml_accounts = [],
      ml_link_ttl = link_ttl, ml_session_ttl = session_ttl, ml_max_pending = max_pending,
      ml_pending = [], ml_sequence = 0, ml_tokens = tokens, ml_drawn = 0\<rparr>"

section \<open>The account directory\<close>

definition account_get :: "string \<Rightarrow> (string, account) dict \<Rightarrow> vault_error + account option" where
  "account_get email accounts =
     (case normalise_buyer_key email of Inl e \<Rightarrow> Inl e | Inr key \<Rightarrow> Inr (dget accounts key))"

definition account_upsert :: "string \<Rightarrow> account \<Rightarrow> (string, account) dict \<Rightarrow>
    (vault_error + account) \<times> (string, account) dict" where
  "account_upsert email account accounts =
     (case normalise_buyer_key email of
        Inl e \<Rightarrow> (Inl e, accounts)
      | Inr key \<Rightarrow>
          let record = dsetdefault ''orders'' (JArr []) (dsetdefault ''email'' (JStr key) account)
          in (Inr record, dset key record accounts))"

section \<open>Asking for a link\<close>

definition stale :: "int \<Rightarrow> string option \<Rightarrow> pending_link \<Rightarrow> bool" where
  "stale now superseded link \<longleftrightarrow>
     now \<ge> pl_expires_at link \<or>
     (superseded \<noteq> None \<and> Some (pl_email link) = superseded \<and> pl_used_at link = None)"

definition forget_stale :: "int \<Rightarrow> string option \<Rightarrow> (string, pending_link) dict \<Rightarrow>
    (string, pending_link) dict" where
  "forget_stale now superseded pending =
     (let dead = map fst (filter (\<lambda>p. stale now superseded (snd p)) pending)
      in foldl (\<lambda>d k. dpop k d) pending dead)"

text \<open>The locked section of \<open>request_login\<close>, for the fingerprint of the token that was drawn.\<close>

definition place_link :: "string \<Rightarrow> string \<Rightarrow> int \<Rightarrow> int \<Rightarrow> ('s, 'ss) magic_link_auth \<Rightarrow>
    (magic_link_error + unit) \<times> ('s, 'ss) magic_link_auth" where
  "place_link fingerprint key now expires_at a =
     (let a1 = a\<lparr>ml_pending := forget_stale now (Some key) (ml_pending a)\<rparr>
      in if int (length (ml_pending a1)) \<ge> ml_max_pending a1 then (Inl MagicLinkThrottled, a1)
         else
           let order = ml_sequence a1 + 1;
               link = \<lparr>pl_email = key, pl_expires_at = expires_at, pl_used_at = None, pl_sequence = order\<rparr>
           in (Inr (), a1\<lparr>ml_pending := dset fingerprint link (ml_pending a1), ml_sequence := order\<rparr>))"

text \<open>
  \<open>request_login\<close>. \<open>deliver\<close> is the injected delivery, \<open>Some e\<close> when it raises; it runs outside the
  lock, when the link is already pending.
\<close>

definition request_login :: "(string \<Rightarrow> string) \<Rightarrow> (string \<Rightarrow> string \<Rightarrow> int \<Rightarrow> string option) \<Rightarrow> string \<Rightarrow>
    int \<Rightarrow> ('s, 'ss) magic_link_auth \<Rightarrow> (login_error + int) \<times> ('s, 'ss) magic_link_auth" where
  "request_login fp deliver email now a =
     (case normalise_buyer_key email of
        Inl e \<Rightarrow> (Inl (VaultFailed e), a)
      | Inr key \<Rightarrow>
          let token = ml_tokens a (ml_drawn a);
              expires_at = now + ml_link_ttl a
          in (case place_link (fp token) key now expires_at (a\<lparr>ml_drawn := Suc (ml_drawn a)\<rparr>) of
                (Inl e, a1) \<Rightarrow> (Inl (LinkError e), a1)
              | (Inr _, a1) \<Rightarrow>
                  (case deliver key token expires_at of
                     Some e \<Rightarrow> (Inl (DeliveryFailed e), a1)
                   | None \<Rightarrow> (Inr expires_at, a1))))"

section \<open>Spending a link\<close>

text \<open>\<open>_superseded\<close>: another pending link of the same buyer was issued at the same time or later.\<close>

definition link_superseded :: "string \<Rightarrow> pending_link \<Rightarrow> string \<Rightarrow> (string, pending_link) dict \<Rightarrow> bool" where
  "link_superseded fingerprint spent email pending \<longleftrightarrow>
     list_ex (\<lambda>(k, other). k \<noteq> fingerprint \<and> pl_email other = email \<and> pl_sequence other \<ge> pl_sequence spent)
       pending"

text \<open>The first locked section of \<open>redeem\<close>: the address of the link that was spent.\<close>

definition spend_link :: "string \<Rightarrow> int \<Rightarrow> (string, pending_link) dict \<Rightarrow>
    (magic_link_error + string) \<times> (string, pending_link) dict" where
  "spend_link fingerprint now pending =
     (case dget pending fingerprint of
        None \<Rightarrow> (Inl MagicLinkUnknown, pending)
      | Some link \<Rightarrow>
          if pl_used_at link \<noteq> None then (Inl MagicLinkAlreadyUsed, pending)
          else if now \<ge> pl_expires_at link then (Inl MagicLinkExpired, pending)
          else (Inr (pl_email link), dset fingerprint (link\<lparr>pl_used_at := Some now\<rparr>) pending))"

text \<open>The second one, in the handler: the link is given back unless it was superseded meanwhile.\<close>

definition restore_link :: "string \<Rightarrow> string \<Rightarrow> int \<Rightarrow> (string, pending_link) dict \<Rightarrow>
    (string, pending_link) dict" where
  "restore_link fingerprint email now pending =
     (case dget pending fingerprint of
        None \<Rightarrow> pending
      | Some spent \<Rightarrow>
          if pl_used_at spent = Some now \<and> \<not> link_superseded fingerprint spent email pending
          then dset fingerprint (spent\<lparr>pl_used_at := None\<rparr>) pending
          else pending)"

text \<open>\<open>sessions.open\<close> on a store bound to the vault of the same object.\<close>

definition open_session :: "'s pseudonym_store_ops \<Rightarrow> 'ss session_store_ops \<Rightarrow> string \<Rightarrow> int \<Rightarrow>
    ('s, 'ss) magic_link_auth \<Rightarrow> (session_error + session) \<times> ('s, 'ss) magic_link_auth" where
  "open_session vops sops pseudonym now a =
     (let (res, ss) = op_open sops (\<lambda>_. vault_registry vops (ml_vault a)) pseudonym
            (Some (ml_session_ttl a)) now (ml_sessions a)
      in (res, a\<lparr>ml_sessions := ss\<rparr>))"

definition issue_pseudonym :: "'s pseudonym_store_ops \<Rightarrow> string \<Rightarrow> int \<Rightarrow> ('s, 'ss) magic_link_auth \<Rightarrow>
    (vault_error + string) \<times> ('s, 'ss) magic_link_auth" where
  "issue_pseudonym vops email now a =
     (let (res, v) = issue vops email now (ml_vault a) in (res, a\<lparr>ml_vault := v\<rparr>))"

definition ensure_account :: "string \<Rightarrow> ('s, 'ss) magic_link_auth \<Rightarrow>
    (vault_error + unit) \<times> ('s, 'ss) magic_link_auth" where
  "ensure_account email a =
     (case account_get email (ml_accounts a) of
        Inl e \<Rightarrow> (Inl e, a)
      | Inr (Some _) \<Rightarrow> (Inr (), a)
      | Inr None \<Rightarrow>
          (case account_upsert email [(''email'', JStr email)] (ml_accounts a) of
             (Inl e, accounts) \<Rightarrow> (Inl e, a\<lparr>ml_accounts := accounts\<rparr>)
           | (Inr _, accounts) \<Rightarrow> (Inr (), a\<lparr>ml_accounts := accounts\<rparr>)))"

text \<open>
  The vault and the session store read clocks of their own: what each returns when it is read for
  the first and for the second round.
\<close>

record login_clocks =
  lc_issue :: "bool \<Rightarrow> int"
  lc_open :: "bool \<Rightarrow> int"

text \<open>
  \<open>for final in (False, True)\<close>, over the list of rounds left: the result, whether \<open>entered_open\<close>
  was set when the loop was left, and the state.
\<close>

fun open_rounds :: "'s pseudonym_store_ops \<Rightarrow> 'ss session_store_ops \<Rightarrow> string \<Rightarrow> login_clocks \<Rightarrow> bool list \<Rightarrow>
    string \<Rightarrow> ('s, 'ss) magic_link_auth \<Rightarrow> ((login_error + session) \<times> bool) \<times> ('s, 'ss) magic_link_auth" where
  "open_rounds vops sops email clk [] pseudonym a = ((Inl AssertionFailed, False), a)"
| "open_rounds vops sops email clk (final # rounds) pseudonym a =
     (case open_session vops sops pseudonym (lc_open clk final) a of
        (Inr session, a1) \<Rightarrow> ((Inr session, True), a1)
      | (Inl e, a1) \<Rightarrow>
          if e \<noteq> RetiredPseudonym \<or> final then ((Inl (SessionFailed e), True), a1)
          else (case issue_pseudonym vops email (lc_issue clk True) a1 of
              (Inl e, a2) \<Rightarrow> ((Inl (VaultFailed e), False), a2)
            | (Inr pseudonym', a2) \<Rightarrow> open_rounds vops sops email clk rounds pseudonym' a2))"

text \<open>The body of the \<open>try\<close>.\<close>

definition enter :: "'s pseudonym_store_ops \<Rightarrow> 'ss session_store_ops \<Rightarrow> string \<Rightarrow> login_clocks \<Rightarrow>
    ('s, 'ss) magic_link_auth \<Rightarrow> ((login_error + session) \<times> bool) \<times> ('s, 'ss) magic_link_auth" where
  "enter vops sops email clk a =
     (case ensure_account email a of
        (Inl e, a1) \<Rightarrow> ((Inl (VaultFailed e), False), a1)
      | (Inr _, a1) \<Rightarrow>
          (case issue_pseudonym vops email (lc_issue clk False) a1 of
             (Inl e, a2) \<Rightarrow> ((Inl (VaultFailed e), False), a2)
           | (Inr pseudonym, a2) \<Rightarrow> open_rounds vops sops email clk [False, True] pseudonym a2))"

fun is_login_session_error :: "login_error \<Rightarrow> bool" where
  "is_login_session_error (SessionFailed e) = is_session_error e"
| "is_login_session_error _ = False"

definition redeem :: "'s pseudonym_store_ops \<Rightarrow> 'ss session_store_ops \<Rightarrow> (string \<Rightarrow> string) \<Rightarrow> string \<Rightarrow> int \<Rightarrow>
    login_clocks \<Rightarrow> ('s, 'ss) magic_link_auth \<Rightarrow> (login_error + session) \<times> ('s, 'ss) magic_link_auth" where
  "redeem vops sops fp token now clk a =
     (if token = [] then (Inl (LinkError MagicLinkUnknown), a)
      else
        let fingerprint = fp token in
        case spend_link fingerprint now (ml_pending a) of
          (Inl e, pending) \<Rightarrow> (Inl (LinkError e), a\<lparr>ml_pending := pending\<rparr>)
        | (Inr email, pending) \<Rightarrow>
            (case enter vops sops email clk (a\<lparr>ml_pending := pending\<rparr>) of
               ((Inr session, _), a1) \<Rightarrow> (Inr session, a1)
             | ((Inl e, entered_open), a1) \<Rightarrow>
                 if entered_open \<and> \<not> is_login_session_error e then (Inl e, a1)
                 else (Inl e, a1\<lparr>ml_pending := restore_link fingerprint email now (ml_pending a1)\<rparr>)))"

definition login_session :: "'ss session_store_ops \<Rightarrow> string \<Rightarrow> int \<Rightarrow> ('s, 'ss) magic_link_auth \<Rightarrow>
    (session_error + session) \<times> ('s, 'ss) magic_link_auth" where
  "login_session sops session_id now a =
     (let (res, ss) = op_get sops session_id now (ml_sessions a) in (res, a\<lparr>ml_sessions := ss\<rparr>))"

definition logout :: "'ss session_store_ops \<Rightarrow> string \<Rightarrow> ('s, 'ss) magic_link_auth \<Rightarrow> ('s, 'ss) magic_link_auth" where
  "logout sops session_id a = a\<lparr>ml_sessions := op_close sops session_id (ml_sessions a)\<rparr>"

end
