(* ===== verification/MagicLinkLaws.thy ===== *)
theory MagicLinkLaws
  imports MagicLink SessionProps
begin

text \<open>
  The pending links under concurrency. The locked sections of \<open>request_login\<close> and \<open>redeem\<close>
  (\<open>place_link\<close>, \<open>spend_link\<close>, \<open>restore_link\<close>) are atomic; everything between them may interleave
  with other requests. \<open>login_step\<close> is that interleaving, with the sessions each redemption opens;
  \<open>login_inv\<close> is the invariant of the links and \<open>log_inv\<close> that of the sessions opened.
\<close>

section \<open>What the locked sections keep\<close>

lemma forget_stale_get:
  assumes "distinct (dkeys d)"
  shows "dget (forget_stale now e d) k =
    (case dget d k of None \<Rightarrow> None | Some x \<Rightarrow> if stale now e x then None else Some x)"
proof -
  have dead: "k \<in> set (map fst (filter (\<lambda>p. stale now e (snd p)) d)) \<longleftrightarrow>
      (\<exists>x. dget d k = Some x \<and> stale now e x)"
    using map_of_eq_Some_iff [OF assms, of k] by force
  show ?thesis
    by (simp add: forget_stale_def Let_def dget_pop_all dead del: set_map) (auto split: option.split)
qed

lemma forget_stale_distinct: "distinct (dkeys d) \<Longrightarrow> distinct (dkeys (forget_stale now e d))"
  using distinct_pop_all [of d] by (simp add: forget_stale_def Let_def)

lemma forget_stale_length: "length (forget_stale now e d) \<le> length d"
  by (simp add: forget_stale_def Let_def length_pop_all)

text \<open>Of two pending links of one buyer, the unspent one was issued later.\<close>

definition unspent_newest :: "(string, pending_link) dict \<Rightarrow> bool" where
  "unspent_newest d \<longleftrightarrow>
     (\<forall>k l x y. dget d k = Some x \<and> dget d l = Some y \<and> k \<noteq> l \<and> pl_email x = pl_email y \<and>
        pl_used_at x = None \<longrightarrow> pl_sequence y < pl_sequence x)"

lemma unspent_newestD:
  "unspent_newest d \<Longrightarrow> dget d k = Some x \<Longrightarrow> dget d l = Some y \<Longrightarrow> k \<noteq> l \<Longrightarrow>
     pl_email x = pl_email y \<Longrightarrow> pl_used_at x = None \<Longrightarrow> pl_sequence y < pl_sequence x"
  by (simp add: unspent_newest_def)

definition links_inv :: "int \<Rightarrow> int \<Rightarrow> (string, pending_link) dict \<Rightarrow> bool" where
  "links_inv m n d \<longleftrightarrow> distinct (dkeys d) \<and> unspent_newest d \<and>
     (\<forall>k x. dget d k = Some x \<longrightarrow> pl_sequence x \<le> n) \<and> int (length d) \<le> max 0 m"

lemma links_inv_forget:
  assumes "links_inv m n d"
  shows "links_inv m n (forget_stale now e d)"
proof -
  have dist: "distinct (dkeys d)" using assms by (simp add: links_inv_def)
  have sub: "dget (forget_stale now e d) k = Some x \<Longrightarrow> dget d k = Some x" for k x
    by (simp add: forget_stale_get [OF dist] split: option.splits if_splits)
  have "unspent_newest (forget_stale now e d)"
    using assms sub unfolding links_inv_def unspent_newest_def by blast
  moreover have "int (length (forget_stale now e d)) \<le> max 0 m"
    using assms forget_stale_length [of now e d] by (simp add: links_inv_def)
  ultimately show ?thesis
    using assms sub forget_stale_distinct [OF dist] unfolding links_inv_def by blast
qed

lemma links_inv_place:
  assumes "links_inv (ml_max_pending a) (ml_sequence a) (ml_pending a)"
    and "place_link fingerprint key now expires a = (res, a')"
  shows "links_inv (ml_max_pending a') (ml_sequence a') (ml_pending a')"
proof -
  define d where "d = forget_stale now (Some key) (ml_pending a)"
  have d: "links_inv (ml_max_pending a) (ml_sequence a) d"
    unfolding d_def by (rule links_inv_forget [OF assms(1)])
  have spent: "pl_used_at x \<noteq> None" if "dget d k = Some x" and "pl_email x = key" for k x
    using that assms(1)
    by (auto simp: d_def forget_stale_get links_inv_def stale_def split: option.splits if_splits)
  define link where "link = \<lparr>pl_email = key, pl_expires_at = expires, pl_used_at = None,
    pl_sequence = ml_sequence a + 1\<rparr>"
  have "unspent_newest (dset fingerprint link d)"
    unfolding unspent_newest_def
  proof (intro allI impI)
    fix k l x y
    assume h: "dget (dset fingerprint link d) k = Some x \<and> dget (dset fingerprint link d) l = Some y \<and>
      k \<noteq> l \<and> pl_email x = pl_email y \<and> pl_used_at x = None"
    show "pl_sequence y < pl_sequence x"
    proof (cases "k = fingerprint")
      case True
      with h have "dget d l = Some y" "x = link" by (auto simp: dict_simps)
      then show ?thesis using d by (force simp: links_inv_def link_def)
    next
      case False
      with h have x: "dget d k = Some x" by (simp add: dict_simps)
      with h spent have "pl_email x \<noteq> key" by blast
      with h have "l \<noteq> fingerprint" by (auto simp: link_def dict_simps)
      with h x d show ?thesis by (auto simp: links_inv_def dict_simps dest: unspent_newestD)
    qed
  qed
  moreover have "int (length (dset fingerprint link d)) \<le> max 0 (ml_max_pending a)"
    if "\<not> int (length d) \<ge> ml_max_pending a"
    using that length_dset_le [of fingerprint link d] by linarith
  moreover have "pl_sequence x \<le> ml_sequence a + 1" if "dget (dset fingerprint link d) k = Some x" for k x
    using that d by (cases "k = fingerprint") (force simp: dict_simps link_def links_inv_def)+
  ultimately have "links_inv (ml_max_pending a) (ml_sequence a + 1) (dset fingerprint link d)"
    if "\<not> int (length d) \<ge> ml_max_pending a"
    using that d unfolding links_inv_def by (simp add: distinct_dset)
  then show ?thesis
    using assms(2) d
    by (auto simp: place_link_def Let_def d_def [symmetric] link_def [symmetric] split: if_splits)
qed

lemma links_inv_use:
  assumes "links_inv m n d" and "dget d k = Some x"
  shows "links_inv m n (dset k (x\<lparr>pl_used_at := Some t\<rparr>) d)"
proof -
  have len: "length (dset k (x\<lparr>pl_used_at := Some t\<rparr>) d) = length d"
    using assms(2) dget_None_iff [of d k] by (simp add: length_dset del: set_map)
  have "unspent_newest (dset k (x\<lparr>pl_used_at := Some t\<rparr>) d)"
    unfolding unspent_newest_def
  proof (intro allI impI)
    fix i j y z
    let ?d = "dset k (x\<lparr>pl_used_at := Some t\<rparr>) d"
    assume h: "dget ?d i = Some y \<and> dget ?d j = Some z \<and> i \<noteq> j \<and> pl_email y = pl_email z \<and> pl_used_at y = None"
    then have y: "dget d i = Some y" by (auto simp: dict_simps split: if_splits)
    obtain w where "dget d j = Some w" "pl_email w = pl_email z" "pl_sequence w = pl_sequence z"
      using h assms(2) by (cases "j = k") (auto simp: dict_simps)
    then show "pl_sequence z < pl_sequence y"
      using unspent_newestD [of d i y j w] assms(1) y h by (simp add: links_inv_def)
  qed
  then show ?thesis
    using assms unfolding links_inv_def len by (auto simp: dict_simps distinct_dset)
qed

lemma links_inv_spend:
  "links_inv m n d \<Longrightarrow> spend_link k now d = (res, d') \<Longrightarrow> links_inv m n d'"
  by (auto simp: spend_link_def links_inv_use split: option.splits if_splits)

lemma not_superseded:
  assumes "\<not> link_superseded k x e d" and "dget d l = Some y" and "l \<noteq> k" and "pl_email y = e"
  shows "pl_sequence y < pl_sequence x"
  using assms dget_in_set [OF assms(2)] by (force simp: link_superseded_def list_ex_iff)

lemma links_inv_restore:
  assumes "links_inv m n d" and "\<forall>x. dget d k = Some x \<longrightarrow> pl_email x = e"
  shows "links_inv m n (restore_link k e now d)"
proof (cases "\<exists>x. dget d k = Some x \<and> pl_used_at x = Some now \<and> \<not> link_superseded k x e d")
  case False
  then have "restore_link k e now d = d"
    by (auto simp: restore_link_def split: option.splits)
  with assms(1) show ?thesis by simp
next
  case True
  then obtain x where x: "dget d k = Some x" "pl_used_at x = Some now" "\<not> link_superseded k x e d"
    by blast
  let ?d = "dset k (x\<lparr>pl_used_at := None\<rparr>) d"
  have e: "pl_email x = e" using assms(2) x(1) by blast
  have len: "length ?d = length d"
    using x(1) dget_None_iff [of d k] by (simp add: length_dset del: set_map)
  have "unspent_newest ?d"
    unfolding unspent_newest_def
  proof (intro allI impI)
    fix i j y z
    assume h: "dget ?d i = Some y \<and> dget ?d j = Some z \<and> i \<noteq> j \<and> pl_email y = pl_email z \<and> pl_used_at y = None"
    show "pl_sequence z < pl_sequence y"
    proof (cases "i = k")
      case True
      with h have "dget d j = Some z" "j \<noteq> k" "pl_email z = e" "pl_sequence y = pl_sequence x"
        using e by (auto simp: dict_simps)
      then show ?thesis using not_superseded [OF x(3)] by simp
    next
      case False
      with h have y: "dget d i = Some y" by (simp add: dict_simps)
      show ?thesis
      proof (cases "j = k")
        case True
        with h y x e have "pl_email y = pl_email x" by (auto simp: dict_simps)
        then have "pl_sequence x < pl_sequence y"
          using unspent_newestD [of d i y k x] assms(1) y x(1) False h by (simp add: links_inv_def)
        then show ?thesis using h True by (auto simp: dict_simps)
      next
        case jk: False
        then show ?thesis
          using unspent_newestD [of d i y j z] assms(1) y h by (simp add: links_inv_def dict_simps)
      qed
    qed
  qed
  moreover have "restore_link k e now d = ?d"
    using x by (simp add: restore_link_def)
  ultimately show ?thesis
    using assms(1) x(1) unfolding links_inv_def len by (auto simp: dict_simps distinct_dset len)
qed

section \<open>Interleaved logins\<close>

text \<open>
  What \<open>redeem\<close> relies on in a session store, over a count \<open>opened\<close> of the sessions it ever opened:
  an opening that returns opened one, one that is refused with a \<open>SessionError\<close> opened none, one that
  fails with any other exception may have opened one (the docstring of \<open>redeem\<close> states this
  contract); reading and closing open none. \<open>mem_counts_sessions\<close> shows it of the code's store.
\<close>

definition counts_sessions :: "'ss session_store_ops \<Rightarrow> ('ss \<Rightarrow> nat) \<Rightarrow> bool" where
  "counts_sessions sops opened \<longleftrightarrow>
     (\<forall>look p ttl now ss s ss'. op_open sops look p ttl now ss = (Inr s, ss') \<longrightarrow>
        opened ss' = Suc (opened ss)) \<and>
     (\<forall>look p ttl now ss e ss'. op_open sops look p ttl now ss = (Inl e, ss') \<longrightarrow>
        opened ss' = opened ss \<or> \<not> is_session_error e \<and> opened ss' = Suc (opened ss)) \<and>
     (\<forall>k now ss. opened (snd (op_get sops k now ss)) = opened ss) \<and>
     (\<forall>k ss. opened (op_close sops k ss) = opened ss)"

lemma mem_counts_sessions: "counts_sessions mem_session_ops ss_drawn"
  by (auto simp: counts_sessions_def mem_session_ops_def session_open_def session_get_def
      session_close_def forget_expired_def Let_def split: option.splits if_splits)

text \<open>
  A redemption in flight: the fingerprint it spent, for whom and when, whether it is in its final
  round, and where it stands. \<open>Working\<close> is outside the session store (\<open>entered_open\<close> is false),
  \<open>TurnedAway\<close> has the \<open>SessionError\<close> it will raise, \<open>SessionOpened\<close> returned its session,
  \<open>StoreFailed\<close> left with an exception of the store's own, and \<open>Lost\<close> is one whose handler ran.
\<close>

datatype outcome = Working | TurnedAway | SessionOpened session | StoreFailed | Lost

fun after_open :: "bool \<Rightarrow> session_error + session \<Rightarrow> outcome" where
  "after_open final (Inr s) = SessionOpened s"
| "after_open final (Inl e) =
     (if \<not> is_session_error e then StoreFailed
      else if e = RetiredPseudonym \<and> \<not> final then Working else TurnedAway)"

record flight =
  fl_fingerprint :: string
  fl_email :: string
  fl_now :: int
  fl_final :: bool
  fl_outcome :: outcome

definition new_flight :: "string \<Rightarrow> string \<Rightarrow> int \<Rightarrow> flight" where
  "new_flight fingerprint email now =
     \<lparr>fl_fingerprint = fingerprint, fl_email = email, fl_now = now, fl_final = False, fl_outcome = Working\<rparr>"

text \<open>
  \<open>ln_opened\<close> records, for every session the store opened, the fingerprint of the link whose
  redemption opened it; \<open>opened\<close> is how it is seen in the store.
\<close>

record ('s, 'ss) login_net =
  ln_auth :: "('s, 'ss) magic_link_auth"
  ln_flights :: "flight list"
  ln_issued :: "string list"
  ln_opened :: "string list"

inductive login_step :: "'s pseudonym_store_ops \<Rightarrow> 'ss session_store_ops \<Rightarrow> ('ss \<Rightarrow> nat) \<Rightarrow>
    ('s, 'ss) login_net \<Rightarrow> ('s, 'ss) login_net \<Rightarrow> bool"
  for vops :: "'s pseudonym_store_ops" and sops :: "'ss session_store_ops" and opened :: "'ss \<Rightarrow> nat" where
  request: "fingerprint \<notin> set (ln_issued n) \<Longrightarrow>
    place_link fingerprint key now expires (ln_auth n) = (res, a) \<Longrightarrow>
    login_step vops sops opened n (n\<lparr>ln_auth := a, ln_issued := fingerprint # ln_issued n\<rparr>)"
| spend: "spend_link fingerprint now (ml_pending (ln_auth n)) = (Inr email, pending) \<Longrightarrow>
    login_step vops sops opened n (n\<lparr>ln_auth := (ln_auth n)\<lparr>ml_pending := pending\<rparr>,
      ln_flights := ln_flights n @ [new_flight fingerprint email now]\<rparr>)"
| enter_store: "i < length (ln_flights n) \<Longrightarrow> f = ln_flights n ! i \<Longrightarrow> fl_outcome f = Working \<Longrightarrow>
    open_session vops sops pseudonym now (ln_auth n) = (res, a) \<Longrightarrow>
    login_step vops sops opened n (n\<lparr>ln_auth := a,
      ln_flights := (ln_flights n)[i := f\<lparr>fl_final := True, fl_outcome := after_open (fl_final f) res\<rparr>],
      ln_opened := replicate (opened (ml_sessions a) - opened (ml_sessions (ln_auth n))) (fl_fingerprint f) @
        ln_opened n\<rparr>)"
| fail: "i < length (ln_flights n) \<Longrightarrow> f = ln_flights n ! i \<Longrightarrow> fl_outcome f \<in> {Working, TurnedAway} \<Longrightarrow>
    login_step vops sops opened n (n\<lparr>ln_auth := (ln_auth n)\<lparr>ml_pending :=
        restore_link (fl_fingerprint f) (fl_email f) (fl_now f) (ml_pending (ln_auth n))\<rparr>,
      ln_flights := (ln_flights n)[i := f\<lparr>fl_outcome := Lost\<rparr>]\<rparr>)"
| elsewhere: "ml_pending a = ml_pending (ln_auth n) \<Longrightarrow> ml_sequence a = ml_sequence (ln_auth n) \<Longrightarrow>
    ml_max_pending a = ml_max_pending (ln_auth n) \<Longrightarrow>
    opened (ml_sessions a) = opened (ml_sessions (ln_auth n)) \<Longrightarrow>
    login_step vops sops opened n (n\<lparr>ln_auth := a\<rparr>)"

text \<open>The redemptions of one link that were not undone, and those after which a session may exist.\<close>

definition holders :: "string \<Rightarrow> flight list \<Rightarrow> flight list" where
  "holders k fs = filter (\<lambda>f. fl_fingerprint f = k \<and> fl_outcome f \<noteq> Lost) fs"

fun may_have_opened :: "outcome \<Rightarrow> bool" where
  "may_have_opened (SessionOpened s) = True"
| "may_have_opened StoreFailed = True"
| "may_have_opened _ = False"

definition openers :: "string \<Rightarrow> flight list \<Rightarrow> flight list" where
  "openers k fs = filter (\<lambda>f. fl_fingerprint f = k \<and> may_have_opened (fl_outcome f)) fs"

lemma openers_are_holders: "length (openers k fs) \<le> length (holders k fs)"
  by (induction fs) (auto simp: openers_def holders_def)

definition spent :: "(string, pending_link) dict \<Rightarrow> string \<Rightarrow> bool" where
  "spent d k \<longleftrightarrow> (\<forall>x. dget d k = Some x \<longrightarrow> pl_used_at x \<noteq> None)"

definition races_ok :: "(string, pending_link) dict \<Rightarrow> flight list \<Rightarrow> bool" where
  "races_ok d fs \<longleftrightarrow> (\<forall>k. length (holders k fs) \<le> 1 \<and> (holders k fs \<noteq> [] \<longrightarrow> spent d k))"

definition flights_ok :: "(string, pending_link) dict \<Rightarrow> string list \<Rightarrow> flight list \<Rightarrow> bool" where
  "flights_ok d issued fs \<longleftrightarrow>
     (\<forall>f\<in>set fs. fl_fingerprint f \<in> set issued \<and>
        (\<forall>x. dget d (fl_fingerprint f) = Some x \<longrightarrow> pl_email x = fl_email f))"

definition login_inv :: "('s, 'ss) login_net \<Rightarrow> bool" where
  "login_inv n \<longleftrightarrow>
     links_inv (ml_max_pending (ln_auth n)) (ml_sequence (ln_auth n)) (ml_pending (ln_auth n)) \<and>
     set (dkeys (ml_pending (ln_auth n))) \<subseteq> set (ln_issued n) \<and>
     flights_ok (ml_pending (ln_auth n)) (ln_issued n) (ln_flights n) \<and>
     races_ok (ml_pending (ln_auth n)) (ln_flights n)"

lemma holders_update:
  "i < length fs \<Longrightarrow> P (fs ! i) = P g \<Longrightarrow> length (filter P (fs[i := g])) = length (filter P fs)"
proof (induction fs arbitrary: i)
  case (Cons f fs)
  then show ?case by (cases i) auto
qed simp

lemma holders_drop:
  "i < length fs \<Longrightarrow> P (fs ! i) \<Longrightarrow> \<not> P g \<Longrightarrow> Suc (length (filter P (fs[i := g]))) = length (filter P fs)"
proof (induction fs arbitrary: i)
  case (Cons f fs)
  then show ?case by (cases i) auto
qed simp

lemma place_link_pending:
  assumes "distinct (dkeys (ml_pending a))" and "place_link fingerprint key now expires a = (res, a')"
  shows "k \<noteq> fingerprint \<Longrightarrow> dget (ml_pending a') k = Some x \<Longrightarrow> dget (ml_pending a) k = Some x"
    and "set (dkeys (ml_pending a')) \<subseteq> insert fingerprint (set (dkeys (ml_pending a)))"
proof -
  define d where "d = forget_stale now (Some key) (ml_pending a)"
  have sub: "dget d k = Some x \<Longrightarrow> dget (ml_pending a) k = Some x" for k x
    by (simp add: d_def forget_stale_get [OF assms(1)] split: option.splits if_splits)
  have p: "ml_pending a' = d \<or> (\<exists>link. ml_pending a' = dset fingerprint link d)"
    using assms(2) by (auto simp: place_link_def Let_def d_def split: if_splits)
  then show "k \<noteq> fingerprint \<Longrightarrow> dget (ml_pending a') k = Some x \<Longrightarrow> dget (ml_pending a) k = Some x"
    using sub by (auto simp: dict_simps)
  have "set (dkeys d) \<subseteq> set (dkeys (ml_pending a))"
  proof
    fix k assume "k \<in> set (dkeys d)"
    then obtain x where "dget d k = Some x" using dget_None_iff [of d k] by auto
    then show "k \<in> set (dkeys (ml_pending a))"
      using sub dget_None_iff [of "ml_pending a" k] by fastforce
  qed
  then show "set (dkeys (ml_pending a')) \<subseteq> insert fingerprint (set (dkeys (ml_pending a)))"
    using p by (auto simp: dict_simps simp del: set_map)
qed

lemma login_inv_request:
  assumes "login_inv n" and "fingerprint \<notin> set (ln_issued n)"
    and "place_link fingerprint key now expires (ln_auth n) = (res, a)"
  shows "login_inv (n\<lparr>ln_auth := a, ln_issued := fingerprint # ln_issued n\<rparr>)"
proof -
  let ?d = "ml_pending (ln_auth n)"
  have inv: "links_inv (ml_max_pending (ln_auth n)) (ml_sequence (ln_auth n)) ?d"
    "set (dkeys ?d) \<subseteq> set (ln_issued n)" "flights_ok ?d (ln_issued n) (ln_flights n)"
    "races_ok ?d (ln_flights n)"
    using assms(1) by (simp_all add: login_inv_def)
  have dist: "distinct (dkeys ?d)"
    using inv(1) by (simp add: links_inv_def)
  note place = place_link_pending [OF dist assms(3)]
  have fresh: "fl_fingerprint f \<noteq> fingerprint" if "f \<in> set (ln_flights n)" for f
    using inv(3) assms(2) that by (auto simp: flights_ok_def)
  have none: "holders fingerprint (ln_flights n) = []"
    using fresh by (auto simp: holders_def filter_empty_conv)
  have "races_ok (ml_pending a) (ln_flights n)"
    unfolding races_ok_def
  proof
    fix k
    have "spent (ml_pending a) k" if "holders k (ln_flights n) \<noteq> []"
    proof -
      have "k \<noteq> fingerprint" using that none by auto
      moreover have "spent ?d k" using that inv(4) by (simp add: races_ok_def)
      ultimately show ?thesis using place(1) by (simp add: spent_def)
    qed
    then show "length (holders k (ln_flights n)) \<le> 1 \<and>
        (holders k (ln_flights n) \<noteq> [] \<longrightarrow> spent (ml_pending a) k)"
      using inv(4) by (simp add: races_ok_def)
  qed
  moreover have "flights_ok (ml_pending a) (fingerprint # ln_issued n) (ln_flights n)"
    using inv(3) place(1) [OF fresh] unfolding flights_ok_def by (metis list.set_intros(2))
  moreover have "links_inv (ml_max_pending a) (ml_sequence a) (ml_pending a)"
    using links_inv_place [OF inv(1) assms(3)] .
  moreover have "set (dkeys (ml_pending a)) \<subseteq> set (fingerprint # ln_issued n)"
    using place(2) inv(2) by (auto simp del: set_map)
  ultimately show ?thesis
    by (simp add: login_inv_def del: set_map)
qed

lemma races_ok_spend:
  assumes "races_ok d fs" and "dget d k = Some x" and "pl_used_at x = None"
    and "fl_fingerprint g = k" and "fl_outcome g = Working" and "pl_used_at y \<noteq> None"
  shows "races_ok (dset k y d) (fs @ [g])"
proof -
  have free: "holders k fs = []"
    using assms(1-3) by (auto simp: races_ok_def spent_def)
  have "length (holders l (fs @ [g])) \<le> 1 \<and> (holders l (fs @ [g]) \<noteq> [] \<longrightarrow> spent (dset k y d) l)" for l
  proof (cases "l = k")
    case True
    then show ?thesis
      using free assms(4-6) by (simp add: holders_def spent_def dict_simps)
  next
    case False
    then have "holders l (fs @ [g]) = holders l fs"
      using assms(4) by (simp add: holders_def)
    then show ?thesis
      using False assms(1) by (simp add: races_ok_def spent_def dict_simps)
  qed
  then show ?thesis by (simp add: races_ok_def)
qed

lemma flights_ok_set:
  assumes "flights_ok d issued fs" and "dget d k = Some x" and "pl_email y = pl_email x"
  shows "flights_ok (dset k y d) issued fs"
  using assms by (auto simp: flights_ok_def dict_simps)

lemma login_inv_spend:
  assumes "login_inv n" and "spend_link k now (ml_pending (ln_auth n)) = (Inr email, pending)"
  shows "login_inv (n\<lparr>ln_auth := (ln_auth n)\<lparr>ml_pending := pending\<rparr>, ln_flights := ln_flights n @
    [new_flight k email now]\<rparr>)"
proof -
  let ?d = "ml_pending (ln_auth n)"
  let ?g = "new_flight k email now"
  have inv: "links_inv (ml_max_pending (ln_auth n)) (ml_sequence (ln_auth n)) ?d"
    "set (dkeys ?d) \<subseteq> set (ln_issued n)" "flights_ok ?d (ln_issued n) (ln_flights n)"
    "races_ok ?d (ln_flights n)"
    using assms(1) by (simp_all add: login_inv_def)
  obtain x where x: "dget ?d k = Some x" "pl_used_at x = None" "email = pl_email x"
    and p: "pending = dset k (x\<lparr>pl_used_at := Some now\<rparr>) ?d"
    using assms(2) by (auto simp: spend_link_def split: option.splits if_splits)
  have k: "k \<in> set (dkeys ?d)"
    using x(1) dget_None_iff [of ?d k] by (auto simp del: set_map)
  have "races_ok pending (ln_flights n @ [?g])"
    unfolding p by (rule races_ok_spend [OF inv(4) x(1,2)]) (simp_all add: new_flight_def)
  moreover have "flights_ok pending (ln_issued n) (ln_flights n @ [?g])"
    using flights_ok_set [OF inv(3) x(1), of "x\<lparr>pl_used_at := Some now\<rparr>"] x(3) k inv(2)
    by (auto simp: p flights_ok_def new_flight_def dict_simps simp del: set_map)
  moreover have "links_inv (ml_max_pending (ln_auth n)) (ml_sequence (ln_auth n)) pending"
    using links_inv_spend [OF inv(1) assms(2)] .
  moreover have "set (dkeys pending) \<subseteq> set (ln_issued n)"
    using inv(2) k by (auto simp: p dict_simps simp del: set_map)
  ultimately show ?thesis
    by (simp add: login_inv_def del: set_map)
qed

lemma races_ok_finish:
  assumes "races_ok d fs" and "i < length fs" and "fl_fingerprint g = fl_fingerprint (fs ! i)"
    and "fl_outcome (fs ! i) \<noteq> Lost" and "fl_outcome g \<noteq> Lost"
  shows "races_ok d (fs[i := g])"
proof -
  have len: "length (holders k (fs[i := g])) = length (holders k fs)" for k
    unfolding holders_def by (rule holders_update [OF assms(2)]) (simp add: assms(3-5))
  then have "holders k (fs[i := g]) = [] \<longleftrightarrow> holders k fs = []" for k
    by (metis length_0_conv)
  then show ?thesis using assms(1) by (simp add: races_ok_def len)
qed

lemma flights_ok_update:
  assumes "flights_ok d issued fs" and "i < length fs"
    and "fl_fingerprint g = fl_fingerprint (fs ! i)" and "fl_email g = fl_email (fs ! i)"
  shows "flights_ok d issued (fs[i := g])"
proof -
  have "fs ! i \<in> set fs" using assms(2) by simp
  then show ?thesis
    using assms(1,3,4) set_update_subset_insert [of fs i g] by (fastforce simp: flights_ok_def)
qed

lemma races_ok_fail:
  assumes "races_ok d fs" and "i < length fs" and "fl_fingerprint (fs ! i) = k"
    and "fl_outcome (fs ! i) \<noteq> Lost" and "fl_fingerprint g = k" and "fl_outcome g = Lost"
    and "\<And>l. l \<noteq> k \<Longrightarrow> dget d' l = dget d l"
  shows "races_ok d' (fs[i := g])"
  unfolding races_ok_def
proof
  fix l
  show "length (holders l (fs[i := g])) \<le> 1 \<and> (holders l (fs[i := g]) \<noteq> [] \<longrightarrow> spent d' l)"
  proof (cases "l = k")
    case True
    have "Suc (length (holders l (fs[i := g]))) = length (holders l fs)"
      unfolding holders_def by (rule holders_drop [OF assms(2)]) (use True assms in auto)
    moreover have "length (holders l fs) \<le> 1" using assms(1) by (simp add: races_ok_def)
    ultimately show ?thesis by (cases "holders l (fs[i := g])") auto
  next
    case False
    have len: "length (holders l (fs[i := g])) = length (holders l fs)"
      unfolding holders_def by (rule holders_update [OF assms(2)]) (use False assms in auto)
    then have "holders l (fs[i := g]) = [] \<longleftrightarrow> holders l fs = []"
      by (metis length_0_conv)
    with len show ?thesis
      using assms(1) assms(7) [OF False] by (simp add: races_ok_def spent_def)
  qed
qed

lemma restore_link_get:
  "l \<noteq> k \<Longrightarrow> dget (restore_link k e now d) l = dget d l"
  by (simp add: restore_link_def dict_simps split: option.split)

lemma restore_link_keys: "set (dkeys (restore_link k e now d)) = set (dkeys d)"
proof (cases "dget d k")
  case (Some x)
  then have "k \<in> set (dkeys d)" using dget_None_iff [of d k] by (auto simp del: set_map)
  then show ?thesis by (auto simp: restore_link_def dict_simps simp del: set_map split: option.split)
qed (simp add: restore_link_def)

lemma flights_ok_restore: "flights_ok d issued fs \<Longrightarrow> flights_ok (restore_link k e now d) issued fs"
  by (auto simp: restore_link_def flights_ok_set split: option.split)

lemma open_session_rest:
  assumes "open_session vops sops p now a = (res, a')"
  shows "ml_pending a' = ml_pending a" "ml_sequence a' = ml_sequence a" "ml_max_pending a' = ml_max_pending a"
  using assms by (auto simp: open_session_def split: prod.splits)

lemma after_open_not_lost: "after_open final res \<noteq> Lost"
  by (cases "(final, res)" rule: after_open.cases) auto

lemma login_inv_step: "login_step vops sops opened n m \<Longrightarrow> login_inv n \<Longrightarrow> login_inv m"
proof (induction rule: login_step.induct)
  case (request fingerprint n key now expires res a)
  then show ?case by (intro login_inv_request)
next
  case (spend fingerprint now n email pending)
  then show ?case by (intro login_inv_spend)
next
  case (enter_store i n f pseudonym now res a)
  let ?g = "f\<lparr>fl_final := True, fl_outcome := after_open (fl_final f) res\<rparr>"
  note rest = open_session_rest [OF enter_store(4)]
  have "races_ok (ml_pending (ln_auth n)) ((ln_flights n)[i := ?g])"
    by (rule races_ok_finish) (use enter_store in \<open>simp_all add: login_inv_def after_open_not_lost\<close>)
  moreover have "flights_ok (ml_pending (ln_auth n)) (ln_issued n) ((ln_flights n)[i := ?g])"
    by (rule flights_ok_update) (use enter_store in \<open>simp_all add: login_inv_def\<close>)
  ultimately show ?case
    using enter_store(5) by (simp add: login_inv_def rest)
next
  case (fail i n f)
  let ?d = "ml_pending (ln_auth n)" and ?fs = "(ln_flights n)[i := f\<lparr>fl_outcome := Lost\<rparr>]"
  let ?d' = "restore_link (fl_fingerprint f) (fl_email f) (fl_now f) ?d"
  have inv: "links_inv (ml_max_pending (ln_auth n)) (ml_sequence (ln_auth n)) ?d"
    "set (dkeys ?d) \<subseteq> set (ln_issued n)" "flights_ok ?d (ln_issued n) (ln_flights n)"
    "races_ok ?d (ln_flights n)"
    using fail by (simp_all add: login_inv_def)
  have f: "f \<in> set (ln_flights n)" using fail by simp
  have "links_inv (ml_max_pending (ln_auth n)) (ml_sequence (ln_auth n)) ?d'"
    by (rule links_inv_restore [OF inv(1)]) (use inv(3) f in \<open>simp add: flights_ok_def\<close>)
  moreover have "flights_ok ?d' (ln_issued n) ?fs"
    by (rule flights_ok_update [OF flights_ok_restore [OF inv(3)]]) (use fail in simp_all)
  moreover have "races_ok ?d' ?fs"
    by (rule races_ok_fail [OF inv(4), of i "fl_fingerprint f"])
      (use fail restore_link_get in \<open>auto simp del: map_of_eq_Some_iff\<close>)
  ultimately show ?case
    using inv(2) by (simp add: login_inv_def restore_link_keys del: set_map)
next
  case (elsewhere a n)
  then show ?case by (simp add: login_inv_def)
qed

section \<open>The sessions opened\<close>

definition log_inv :: "('ss \<Rightarrow> nat) \<Rightarrow> nat \<Rightarrow> ('s, 'ss) login_net \<Rightarrow> bool" where
  "log_inv opened before n \<longleftrightarrow>
     opened (ml_sessions (ln_auth n)) = before + length (ln_opened n) \<and>
     (\<forall>k. count_list (ln_opened n) k \<le> length (openers k (ln_flights n)))"

lemma holders_gain:
  "i < length fs \<Longrightarrow> \<not> P (fs ! i) \<Longrightarrow>
     length (filter P (fs[i := g])) = length (filter P fs) + (if P g then 1 else 0)"
proof (induction fs arbitrary: i)
  case (Cons f fs)
  then show ?case by (cases i) auto
qed simp

lemma count_list_replicate: "count_list (replicate m x) k = (if x = k then m else 0)"
  by (induction m) auto

lemma open_session_counts:
  assumes "counts_sessions sops opened" and "open_session vops sops p now a = (res, a')"
  shows "opened (ml_sessions a') = opened (ml_sessions a) \<or>
    opened (ml_sessions a') = Suc (opened (ml_sessions a)) \<and> may_have_opened (after_open final res)"
proof -
  obtain ss where o: "op_open sops (\<lambda>_. vault_registry vops (ml_vault a)) p (Some (ml_session_ttl a)) now
      (ml_sessions a) = (res, ss)" and a': "ml_sessions a' = ss"
    using assms(2) by (auto simp: open_session_def split: prod.splits)
  show ?thesis
  proof (cases res)
    case (Inl e)
    then have "opened ss = opened (ml_sessions a) \<or>
        \<not> is_session_error e \<and> opened ss = Suc (opened (ml_sessions a))"
      using assms(1) o unfolding counts_sessions_def by blast
    then show ?thesis by (auto simp: a' Inl)
  next
    case (Inr s)
    then have "opened ss = Suc (opened (ml_sessions a))"
      using assms(1) o unfolding counts_sessions_def by blast
    then show ?thesis by (simp add: a' Inr)
  qed
qed

lemma place_link_sessions: "place_link k key now expires a = (res, a') \<Longrightarrow> ml_sessions a' = ml_sessions a"
  by (auto simp: place_link_def Let_def split: if_splits)

lemma log_inv_step:
  assumes "login_step vops sops opened n m" and "counts_sessions sops opened" and "log_inv opened before n"
  shows "log_inv opened before m"
  using assms(1)
proof cases
  case (request fingerprint key now expires res a)
  then show ?thesis
    using assms(3) place_link_sessions [OF request(3)] by (simp add: log_inv_def)
next
  case (spend fingerprint now email pending)
  then show ?thesis
    using assms(3) by (simp add: log_inv_def openers_def new_flight_def)
next
  case (enter_store i f pseudonym now res a)
  let ?g = "f\<lparr>fl_final := True, fl_outcome := after_open (fl_final f) res\<rparr>"
  define d where "d = opened (ml_sessions a) - opened (ml_sessions (ln_auth n))"
  have counts: "opened (ml_sessions a) = opened (ml_sessions (ln_auth n)) \<or>
      opened (ml_sessions a) = Suc (opened (ml_sessions (ln_auth n))) \<and> may_have_opened (fl_outcome ?g)"
    using open_session_counts [OF assms(2) enter_store(5), of "fl_final f"] by simp
  have grown: "length (openers k ((ln_flights n)[i := ?g])) =
      length (openers k (ln_flights n)) + (if fl_fingerprint f = k \<and> may_have_opened (fl_outcome ?g) then 1 else 0)" for k
    unfolding openers_def by (subst holders_gain [OF enter_store(2)]) (use enter_store(3,4) in auto)
  have one: "d \<le> (if may_have_opened (fl_outcome ?g) then 1 else 0)"
    and all: "opened (ml_sessions a) = opened (ml_sessions (ln_auth n)) + d"
    using counts by (auto simp: d_def)
  have "count_list (replicate d (fl_fingerprint f) @ ln_opened n) k \<le> length (openers k ((ln_flights n)[i := ?g]))" for k
  proof -
    have "count_list (ln_opened n) k \<le> length (openers k (ln_flights n))"
      using assms(3) by (simp add: log_inv_def)
    then show ?thesis
      using one by (cases "fl_fingerprint f = k") (simp_all add: count_list_replicate grown split: if_splits)
  qed
  then show ?thesis
    using assms(3) all by (simp add: log_inv_def enter_store(1) d_def [symmetric])
next
  case (fail i f)
  let ?g = "f\<lparr>fl_outcome := Lost\<rparr>"
  have "length (openers k ((ln_flights n)[i := ?g])) = length (openers k (ln_flights n))" for k
    unfolding openers_def by (subst holders_gain [OF fail(2)]) (use fail(3,4) in auto)
  then show ?thesis
    using assms(3) by (simp add: log_inv_def fail(1))
next
  case (elsewhere a)
  then show ?thesis using assms(3) by (simp add: log_inv_def)
qed

end
