(* ===== verification/MagicLinkProps.thy ===== *)
theory MagicLinkProps
  imports MagicLinkLaws
begin

text \<open>
  The properties of the magic-link login: a link opens one session however redemptions interleave, a
  buyer has one unspent link, the operations of the code are runs of the interleaving, what a login
  gives, and what a failed one leaves behind.
\<close>

definition login_start :: "('s, 'ss) magic_link_auth \<Rightarrow> ('s, 'ss) login_net" where
  "login_start a = \<lparr>ln_auth = a\<lparr>ml_pending := []\<rparr>, ln_flights = [], ln_issued = [], ln_opened = []\<rparr>"

lemma login_start_inv: "login_inv (login_start a)"
  by (simp add: login_start_def login_inv_def links_inv_def unspent_newest_def flights_ok_def
      races_ok_def holders_def)

lemma login_start_log: "log_inv opened (opened (ml_sessions a)) (login_start a)"
  by (simp add: login_start_def log_inv_def)

lemma login_reach: "(login_step vops sops opened)\<^sup>*\<^sup>* n m \<Longrightarrow> login_inv n \<Longrightarrow> login_inv m"
  by (induction rule: rtranclp_induct) (auto intro: login_inv_step)

lemma log_reach:
  "(login_step vops sops opened)\<^sup>*\<^sup>* n m \<Longrightarrow> counts_sessions sops opened \<Longrightarrow>
     log_inv opened before n \<Longrightarrow> log_inv opened before m"
  by (induction rule: rtranclp_induct) (auto intro: log_inv_step)

text \<open>
  C14. However requests, redemptions, session calls and failures interleave, and whether the
  session store refuses, fails before it wrote or fails after it wrote, the redemptions of one link
  open at most one session: every session the store opened since the start is in the log
  \<open>ln_opened\<close> under the link that opened it, and no link is there twice. Of the redemptions that ever
  spent the link at most one was not undone, and while one is at work or a session was opened for
  the link, a further redemption of it is refused. The store is any one for which
  \<open>counts_sessions\<close> holds, the contract \<open>redeem\<close> relies on.
\<close>

theorem magic_link_opens_one_session:
  assumes "counts_sessions sops opened" and "(login_step vops sops opened)\<^sup>*\<^sup>* (login_start a) n"
  shows "count_list (ln_opened n) k \<le> 1 \<and>
    opened (ml_sessions (ln_auth n)) = opened (ml_sessions a) + length (ln_opened n) \<and>
    length (holders k (ln_flights n)) \<le> 1 \<and>
    (holders k (ln_flights n) \<noteq> [] \<or> k \<in> set (ln_opened n) \<longrightarrow>
      fst (spend_link k now (ml_pending (ln_auth n))) \<in> {Inl MagicLinkUnknown, Inl MagicLinkAlreadyUsed})"
proof -
  have r: "races_ok (ml_pending (ln_auth n)) (ln_flights n)"
    using login_reach [OF assms(2) login_start_inv] by (simp add: login_inv_def)
  have l: "opened (ml_sessions (ln_auth n)) = opened (ml_sessions a) + length (ln_opened n)"
    "count_list (ln_opened n) k \<le> length (openers k (ln_flights n))"
    using log_reach [OF assms(2,1) login_start_log] by (simp_all add: log_inv_def)
  have one: "length (holders k (ln_flights n)) \<le> 1"
    using r by (simp add: races_ok_def)
  have held: "holders k (ln_flights n) \<noteq> []" if "k \<in> set (ln_opened n)"
  proof
    assume "holders k (ln_flights n) = []"
    then have "count_list (ln_opened n) k = 0"
      using l(2) openers_are_holders [of k "ln_flights n"] by simp
    with that show False by (simp add: count_list_0_iff)
  qed
  have "fst (spend_link k now (ml_pending (ln_auth n))) \<in> {Inl MagicLinkUnknown, Inl MagicLinkAlreadyUsed}"
    if "holders k (ln_flights n) \<noteq> []"
    using r that by (auto simp: races_ok_def spent_def spend_link_def split: option.split)
  then show ?thesis
    using l one held openers_are_holders [of k "ln_flights n"] by auto
qed

text \<open>
  In every reachable state a buyer has at most one unspent link, the one issued last of those
  still pending, no matter how many were asked for and which redemptions were undone; and the
  pending links never exceed their ceiling.
\<close>

theorem one_unspent_link_per_buyer:
  assumes "(login_step vops sops opened)\<^sup>*\<^sup>* (login_start a) n"
    and "dget (ml_pending (ln_auth n)) k = Some x" and "pl_used_at x = None"
    and "dget (ml_pending (ln_auth n)) l = Some y" and "pl_email y = pl_email x" and "l \<noteq> k"
  shows "pl_used_at y \<noteq> None \<and> pl_sequence y < pl_sequence x \<and>
    int (length (ml_pending (ln_auth n))) \<le> max 0 (ml_max_pending (ln_auth n))"
proof -
  have inv: "links_inv (ml_max_pending (ln_auth n)) (ml_sequence (ln_auth n)) (ml_pending (ln_auth n))"
    using login_reach [OF assms(1) login_start_inv] by (simp add: login_inv_def)
  have "unspent_newest (ml_pending (ln_auth n))" using inv by (simp add: links_inv_def)
  from unspent_newestD [OF this assms(2,4)] unspent_newestD [OF this assms(4,2)] inv assms(3,5,6)
  show ?thesis by (fastforce simp: links_inv_def)
qed

section \<open>The operations as interleavings\<close>

lemma open_rounds_elsewhere:
  "ml_pending (snd (open_rounds vops sops email clk rounds p a)) = ml_pending a \<and>
   ml_sequence (snd (open_rounds vops sops email clk rounds p a)) = ml_sequence a \<and>
   ml_max_pending (snd (open_rounds vops sops email clk rounds p a)) = ml_max_pending a"
proof (induction rounds arbitrary: p a)
  case (Cons final rounds)
  obtain res a1 where o: "open_session vops sops p (lc_open clk final) a = (res, a1)"
    by (cases "open_session vops sops p (lc_open clk final) a")
  obtain res2 a2 where i: "issue_pseudonym vops email (lc_issue clk True) a1 = (res2, a2)"
    by (cases "issue_pseudonym vops email (lc_issue clk True) a1")
  show ?case
    using Cons.IH [of _ a2] o i
    by (auto simp: open_session_def issue_pseudonym_def Let_def split: prod.splits sum.splits)
qed simp

lemma enter_elsewhere:
  "ml_pending (snd (enter vops sops email clk a)) = ml_pending a \<and>
   ml_sequence (snd (enter vops sops email clk a)) = ml_sequence a \<and>
   ml_max_pending (snd (enter vops sops email clk a)) = ml_max_pending a"
proof -
  obtain r1 a1 where e: "ensure_account email a = (r1, a1)" by (cases "ensure_account email a")
  have a1: "ml_pending a1 = ml_pending a \<and> ml_sequence a1 = ml_sequence a \<and> ml_max_pending a1 = ml_max_pending a"
    using e by (auto simp: ensure_account_def split: sum.splits option.splits prod.splits)
  obtain r2 a2 where i: "issue_pseudonym vops email (lc_issue clk False) a1 = (r2, a2)"
    by (cases "issue_pseudonym vops email (lc_issue clk False) a1")
  have a2: "ml_pending a2 = ml_pending a1 \<and> ml_sequence a2 = ml_sequence a1 \<and> ml_max_pending a2 = ml_max_pending a1"
    using i by (auto simp: issue_pseudonym_def Let_def split: prod.splits)
  show ?thesis
    using a1 a2 open_rounds_elsewhere [of vops sops email clk "[False, True]" _ a2]
    by (cases r1; cases r2) (auto simp: enter_def e i)
qed

lemma request_login_is_a_run:
  assumes "fp (ml_tokens (ln_auth n) (ml_drawn (ln_auth n))) \<notin> set (ln_issued n)"
  shows "\<exists>m. (login_step vops sops opened)\<^sup>*\<^sup>* n m \<and>
    ln_auth m = snd (request_login fp deliver email now (ln_auth n))"
proof (cases "normalise_buyer_key email")
  case (Inl e)
  then show ?thesis by (intro exI [of _ n]) (simp add: request_login_def)
next
  case (Inr key)
  let ?step = "login_step vops sops opened"
  let ?k = "fp (ml_tokens (ln_auth n) (ml_drawn (ln_auth n)))"
  let ?n1 = "n\<lparr>ln_auth := (ln_auth n)\<lparr>ml_drawn := Suc (ml_drawn (ln_auth n))\<rparr>\<rparr>"
  obtain res a where p: "place_link ?k key now (now + ml_link_ttl (ln_auth n)) (ln_auth ?n1) = (res, a)"
    by (metis prod.collapse)
  have "?step n ?n1" by (rule login_step.elsewhere) simp_all
  moreover have "?step ?n1 (?n1\<lparr>ln_auth := a, ln_issued := ?k # ln_issued ?n1\<rparr>)"
    by (rule login_step.request [OF _ p]) (use assms in simp)
  ultimately have "?step\<^sup>*\<^sup>* n (?n1\<lparr>ln_auth := a, ln_issued := ?k # ln_issued ?n1\<rparr>)"
    by (meson converse_rtranclp_into_rtranclp rtranclp.rtrancl_refl)
  moreover have "snd (request_login fp deliver email now (ln_auth n)) = a"
    using p Inr by (auto simp: request_login_def Let_def split: sum.split option.split)
  ultimately show ?thesis by (intro exI conjI) (assumption, simp)
qed

lemma session_calls_are_steps:
  assumes "counts_sessions sops opened"
  shows "login_step vops sops opened n (n\<lparr>ln_auth := snd (login_session sops k now (ln_auth n))\<rparr>)"
    and "login_step vops sops opened n (n\<lparr>ln_auth := logout sops k (ln_auth n)\<rparr>)"
  using assms by (auto simp: counts_sessions_def login_session_def logout_def split: prod.split
      intro!: login_step.elsewhere) (metis snd_conv)

text \<open>How the body of the \<open>try\<close> leaves the flight, by its result and \<open>entered_open\<close>.\<close>

fun left_as :: "login_error + session \<Rightarrow> bool \<Rightarrow> outcome \<Rightarrow> bool" where
  "left_as (Inr s) entered_open out \<longleftrightarrow> out = SessionOpened s"
| "left_as (Inl e) entered_open out \<longleftrightarrow>
     (if entered_open \<and> \<not> is_login_session_error e then out = StoreFailed else out \<in> {Working, TurnedAway})"

text \<open>The flight \<open>f\<close>, the last one of \<open>n\<close>, is carried by a run to where the body leaves it.\<close>

definition carried :: "(('s, 'ss) login_net \<Rightarrow> ('s, 'ss) login_net \<Rightarrow> bool) \<Rightarrow> ('s, 'ss) login_net \<Rightarrow>
    flight list \<Rightarrow> flight \<Rightarrow> login_error + session \<Rightarrow> bool \<Rightarrow> ('s, 'ss) magic_link_auth \<Rightarrow> bool" where
  "carried step n fs f res entered_open a' \<longleftrightarrow>
     (\<exists>m g. step\<^sup>*\<^sup>* n m \<and> ln_auth m = a' \<and> ln_flights m = fs @ [g] \<and>
        fl_fingerprint g = fl_fingerprint f \<and> fl_email g = fl_email f \<and> fl_now g = fl_now f \<and>
        ln_issued m = ln_issued n \<and> left_as res entered_open (fl_outcome g))"

lemma carried_here:
  "ln_auth n = a' \<Longrightarrow> ln_flights n = fs @ [f] \<Longrightarrow> left_as res entered_open (fl_outcome f) \<Longrightarrow>
     carried step n fs f res entered_open a'"
  unfolding carried_def by (intro exI [of _ n] exI [of _ f]) simp

lemma carried_step:
  assumes "step n n'" and "ln_issued n' = ln_issued n" and "fl_fingerprint f' = fl_fingerprint f"
    and "fl_email f' = fl_email f" and "fl_now f' = fl_now f"
    and "carried step n' fs f' res entered_open a'"
  shows "carried step n fs f res entered_open a'"
  using assms converse_rtranclp_into_rtranclp [of step n n'] unfolding carried_def by force

lemma enter_store_run:
  assumes "ln_flights n = fs @ [f]" and "fl_outcome f = Working"
    and "open_session vops sops p now (ln_auth n) = (r, a)"
  obtains m g where "login_step vops sops opened n m" and "ln_auth m = a" and "ln_flights m = fs @ [g]"
    and "ln_issued m = ln_issued n" and "fl_fingerprint g = fl_fingerprint f" and "fl_email g = fl_email f"
    and "fl_now g = fl_now f" and "fl_final g" and "fl_outcome g = after_open (fl_final f) r"
proof -
  have "length fs < length (ln_flights n)" "f = ln_flights n ! length fs"
    by (simp_all add: assms(1))
  from login_step.enter_store [OF this assms(2,3), of opened] that
  show ?thesis by (simp add: assms(1))
qed

lemma elsewhere_run:
  assumes "ml_pending a = ml_pending (ln_auth n)" and "ml_sequence a = ml_sequence (ln_auth n)"
    and "ml_max_pending a = ml_max_pending (ln_auth n)" and "ml_sessions a = ml_sessions (ln_auth n)"
  obtains m where "login_step vops sops opened n m" and "ln_auth m = a" and "ln_flights m = ln_flights n"
    and "ln_issued m = ln_issued n"
  using login_step.elsewhere [OF assms(1-3), of opened vops sops] assms(4) that by simp

lemma issue_pseudonym_rest:
  assumes "issue_pseudonym vops email now a = (res, a')"
  shows "ml_pending a' = ml_pending a" "ml_sequence a' = ml_sequence a"
    "ml_max_pending a' = ml_max_pending a" "ml_sessions a' = ml_sessions a"
  using assms by (auto simp: issue_pseudonym_def split: prod.splits)

lemma open_rounds_run:
  assumes "ln_flights n = fs @ [f]" and "fl_outcome f = Working"
    and "rounds = (if fl_final f then [True] else [False, True])"
    and "open_rounds vops sops email clk rounds p (ln_auth n) = ((res, entered_open), a')"
  shows "carried (login_step vops sops opened) n fs f res entered_open a'"
  using assms
proof (induction rounds arbitrary: n f p)
  case Nil
  then show ?case by (simp split: if_splits)
next
  case (Cons final rounds)
  let ?step = "login_step vops sops opened"
  have final: "final = fl_final f" and rounds: "rounds = (if fl_final f then [] else [True])"
    using Cons.prems(3) by (simp_all split: if_splits)
  obtain r a1 where o: "open_session vops sops p (lc_open clk final) (ln_auth n) = (r, a1)"
    by (cases "open_session vops sops p (lc_open clk final) (ln_auth n)")
  obtain n1 g where n1: "?step n n1" "ln_auth n1 = a1" "ln_flights n1 = fs @ [g]" "ln_issued n1 = ln_issued n"
    and g: "fl_fingerprint g = fl_fingerprint f" "fl_email g = fl_email f" "fl_now g = fl_now f"
      "fl_final g" "fl_outcome g = after_open final r"
    unfolding final by (rule enter_store_run [OF Cons.prems(1,2) o])
  have "carried ?step n1 fs g res entered_open a'"
  proof (cases "r = Inl RetiredPseudonym \<and> \<not> final")
    case False
    then have "left_as res entered_open (fl_outcome g)" "ln_auth n1 = a'"
      using Cons.prems(4) o n1(2) g(5) by (cases r; auto split: if_splits)+
    then show ?thesis by (intro carried_here n1(3))
  next
    case True
    obtain r2 a2 where i: "issue_pseudonym vops email (lc_issue clk True) a1 = (r2, a2)"
      by (cases "issue_pseudonym vops email (lc_issue clk True) a1")
    obtain n2 where n2: "?step n1 n2" "ln_auth n2 = a2" "ln_flights n2 = ln_flights n1" "ln_issued n2 = ln_issued n1"
      using elsewhere_run [of a2 n1] issue_pseudonym_rest [OF i] n1(2) by metis
    have working: "fl_outcome g = Working" using g(5) True by simp
    have "carried ?step n2 fs g res entered_open a'"
    proof (cases r2)
      case (Inl e)
      then have "left_as res entered_open (fl_outcome g)" "ln_auth n2 = a'"
        using Cons.prems(4) o True i n2(2) working by auto
      then show ?thesis by (intro carried_here) (simp_all add: n1(3) n2(3))
    next
      case (Inr q)
      then have next_round: "open_rounds vops sops email clk rounds q (ln_auth n2) = ((res, entered_open), a')"
        using Cons.prems(4) o True i n2(2) by simp
      have "rounds = (if fl_final g then [True] else [False, True])"
        using rounds True final g(4) by simp
      then show ?thesis
        using Cons.IH [OF _ working _ next_round] n1(3) n2(3) by simp
    qed
    then show ?thesis
      using carried_step [where step = ?step, OF n2(1,4)] by simp
  qed
  then show ?case
    by (rule carried_step [where step = ?step, OF n1(1,4) g(1-3)])
qed

lemma ensure_account_rest:
  assumes "ensure_account email a = (res, a')"
  shows "ml_pending a' = ml_pending a" "ml_sequence a' = ml_sequence a"
    "ml_max_pending a' = ml_max_pending a" "ml_sessions a' = ml_sessions a"
  using assms by (auto simp: ensure_account_def split: sum.splits option.splits prod.splits)

lemma enter_run:
  assumes "ln_flights n = fs @ [f]" and "fl_outcome f = Working" and "\<not> fl_final f"
    and "enter vops sops email clk (ln_auth n) = ((res, entered_open), a')"
  shows "carried (login_step vops sops opened) n fs f res entered_open a'"
proof -
  let ?step = "login_step vops sops opened"
  obtain r1 a1 where e: "ensure_account email (ln_auth n) = (r1, a1)"
    by (cases "ensure_account email (ln_auth n)")
  obtain r2 a2 where i: "issue_pseudonym vops email (lc_issue clk False) a1 = (r2, a2)"
    by (cases "issue_pseudonym vops email (lc_issue clk False) a1")
  obtain n1 where n1: "?step n n1" "ln_auth n1 = a1" "ln_flights n1 = ln_flights n" "ln_issued n1 = ln_issued n"
    using elsewhere_run [of a1 n] ensure_account_rest [OF e] by metis
  obtain n2 where n2: "?step n1 n2" "ln_auth n2 = a2" "ln_flights n2 = ln_flights n1" "ln_issued n2 = ln_issued n1"
    using elsewhere_run [of a2 n1] issue_pseudonym_rest [OF i] n1(2) by metis
  note via1 = carried_step [where step = ?step, OF n1(1,4) refl refl refl]
    and via2 = carried_step [where step = ?step, OF n2(1,4) refl refl refl]
  consider (account) x where "r1 = Inl x" | (vault) u x where "r1 = Inr u" "r2 = Inl x"
    | (store) u p where "r1 = Inr u" "r2 = Inr p"
    by (metis obj_sumE)
  then show ?thesis
  proof cases
    case account
    with assms(4) e have "left_as res entered_open (fl_outcome f)" "ln_auth n1 = a'"
      by (auto simp: enter_def assms(2) n1(2))
    then show ?thesis by (intro via1 carried_here) (simp_all add: n1(3) assms(1))
  next
    case vault
    with assms(4) e i have "left_as res entered_open (fl_outcome f)" "ln_auth n2 = a'"
      by (auto simp: enter_def assms(2) n2(2))
    then show ?thesis by (intro via1 via2 carried_here) (simp_all add: n1(3) n2(3) assms(1))
  next
    case store
    then have "open_rounds vops sops email clk [False, True] p (ln_auth n2) = ((res, entered_open), a')"
      using assms(4) e i n2(2) by (simp add: enter_def del: open_rounds.simps)
    from open_rounds_run [OF _ assms(2) _ this] have "carried ?step n2 fs f res entered_open a'"
      by (simp add: n1(3) n2(3) assms(1,3))
    then show ?thesis by (rule via1 [OF via2])
  qed
qed

lemma spend_enter_run:
  assumes "spend_link k now (ml_pending (ln_auth n)) = (Inr email, pending)"
    and "enter vops sops email clk ((ln_auth n)\<lparr>ml_pending := pending\<rparr>) = ((res, entered_open), a')"
  shows "carried (login_step vops sops opened) n (ln_flights n) (new_flight k email now) res entered_open a'"
proof -
  let ?n1 = "n\<lparr>ln_auth := (ln_auth n)\<lparr>ml_pending := pending\<rparr>, ln_flights := ln_flights n @ [new_flight k email now]\<rparr>"
  have "carried (login_step vops sops opened) ?n1 (ln_flights n) (new_flight k email now) res entered_open a'"
    by (rule enter_run) (use assms(2) in \<open>simp_all add: new_flight_def\<close>)
  then show ?thesis
    by (rule carried_step [where step = "login_step vops sops opened", OF login_step.spend [OF assms(1)], rotated -1])
      simp_all
qed

lemma redeem_opened:
  assumes "fst (redeem vops sops fp token now clk a) = Inr s"
  obtains email pending entered a1 where "spend_link (fp token) now (ml_pending a) = (Inr email, pending)"
    and "enter vops sops email clk (a\<lparr>ml_pending := pending\<rparr>) = ((Inr s, entered), a1)"
    and "redeem vops sops fp token now clk a = (Inr s, a1)"
  using assms by (auto simp: redeem_def Let_def split: if_splits prod.splits sum.splits)

lemma enter_link_error: "fst (fst (enter vops sops email clk a)) \<noteq> Inl (LinkError e)"
proof -
  have "fst (fst (open_rounds vops sops email clk rounds p a)) \<noteq> Inl (LinkError e)" for rounds p a
    by (induction rounds arbitrary: p a) (auto split: prod.split sum.split)
  then show ?thesis by (simp add: enter_def del: open_rounds.simps split: prod.split sum.split)
qed

lemma redeem_refused:
  assumes "fst (redeem vops sops fp token now clk a) = Inl (LinkError e)"
  shows "snd (redeem vops sops fp token now clk a) = a"
proof (cases "token = [] \<or> (\<exists>x. fst (spend_link (fp token) now (ml_pending a)) = Inl x)")
  case True
  moreover have "spend_link k now d = (Inl x, d') \<Longrightarrow> d' = d" for k now d x d'
    by (auto simp: spend_link_def split: option.splits if_splits)
  ultimately show ?thesis by (auto simp: redeem_def Let_def split: prod.split)
next
  case False
  then obtain email pending where sp: "spend_link (fp token) now (ml_pending a) = (Inr email, pending)"
    by (metis obj_sumE prod.collapse)
  show ?thesis
    using assms False sp enter_link_error [of vops sops email clk "a\<lparr>ml_pending := pending\<rparr>" e]
    by (auto simp: redeem_def Let_def split: prod.splits sum.splits if_splits)
qed

lemma redeem_failed:
  assumes "\<nexists>x. e = LinkError x" and "fst (redeem vops sops fp token now clk a) = Inl e"
  obtains email pending entered a1 where "spend_link (fp token) now (ml_pending a) = (Inr email, pending)"
    and "enter vops sops email clk (a\<lparr>ml_pending := pending\<rparr>) = ((Inl e, entered), a1)"
    and "redeem vops sops fp token now clk a =
      (Inl e, if entered \<and> \<not> is_login_session_error e then a1
         else a1\<lparr>ml_pending := restore_link (fp token) email now (ml_pending a1)\<rparr>)"
  using assms by (auto simp: redeem_def Let_def split: if_splits prod.splits sum.splits)

text \<open>The handler: a redemption that raised is undone, unless the store failed on its own.\<close>

lemma fail_run:
  assumes "ln_flights n = fs @ [f]" and "fl_outcome f \<in> {Working, TurnedAway}"
  obtains m where "login_step vops sops opened n m" and "ln_issued m = ln_issued n"
    and "ln_auth m = (ln_auth n)\<lparr>ml_pending :=
      restore_link (fl_fingerprint f) (fl_email f) (fl_now f) (ml_pending (ln_auth n))\<rparr>"
    and "ln_flights m = fs @ [f\<lparr>fl_outcome := Lost\<rparr>]"
proof -
  have "length fs < length (ln_flights n)" "f = ln_flights n ! length fs"
    by (simp_all add: assms(1))
  from login_step.fail [OF this assms(2), of vops sops opened] that
  show ?thesis by (simp add: assms(1))
qed

lemma failed_run:
  assumes "spend_link k now (ml_pending (ln_auth n)) = (Inr email, pending)"
    and "enter vops sops email clk ((ln_auth n)\<lparr>ml_pending := pending\<rparr>) = ((Inl e, entered), a1)"
  shows "\<exists>m f. (login_step vops sops opened)\<^sup>*\<^sup>* n m \<and> ln_issued m = ln_issued n \<and>
    ln_auth m = (if entered \<and> \<not> is_login_session_error e then a1
      else a1\<lparr>ml_pending := restore_link k email now (ml_pending a1)\<rparr>) \<and>
    ln_flights m = ln_flights n @ [f] \<and> fl_fingerprint f = k \<and> fl_now f = now \<and>
    fl_outcome f = (if entered \<and> \<not> is_login_session_error e then StoreFailed else Lost)"
proof -
  let ?step = "login_step vops sops opened"
  obtain m g where m: "?step\<^sup>*\<^sup>* n m" "ln_auth m = a1" "ln_flights m = ln_flights n @ [g]" "ln_issued m = ln_issued n"
    and g: "fl_fingerprint g = k" "fl_email g = email" "fl_now g = now" "left_as (Inl e) entered (fl_outcome g)"
    using spend_enter_run [OF assms, where opened = opened]
    by (auto simp: carried_def new_flight_def simp del: left_as.simps)
  show ?thesis
  proof (cases "entered \<and> \<not> is_login_session_error e")
    case True
    then have "fl_outcome g = StoreFailed" using g(4) by simp
    then show ?thesis using True m g(1,3) by (intro exI [of _ m] exI [of _ g]) simp
  next
    case False
    then have "fl_outcome g \<in> {Working, TurnedAway}" using g(4) by auto
    from fail_run [OF m(3) this] obtain m' where m': "?step m m'" "ln_issued m' = ln_issued m"
        "ln_auth m' = a1\<lparr>ml_pending := restore_link k email now (ml_pending a1)\<rparr>"
        "ln_flights m' = ln_flights n @ [g\<lparr>fl_outcome := Lost\<rparr>]"
      unfolding g(1-3) m(2) by metis
    have "?step\<^sup>*\<^sup>* n m'" using m(1) m'(1) by (rule rtranclp.rtrancl_into_rtrancl)
    then show ?thesis
      using False m'(2-4) m(4) g(1,3) by (intro exI [of _ m'] exI [of _ "g\<lparr>fl_outcome := Lost\<rparr>"]) auto
  qed
qed

lemma open_rounds_entered:
  "open_rounds vops sops email clk rounds p a = ((Inl e, entered), a') \<Longrightarrow>
     entered \<longleftrightarrow> (\<exists>x. e = SessionFailed x)"
  by (induction rounds arbitrary: p a) (auto split: prod.splits sum.splits if_splits)

lemma enter_entered:
  "enter vops sops email clk a = ((Inl e, entered), a') \<Longrightarrow> entered \<longleftrightarrow> (\<exists>x. e = SessionFailed x)"
  by (auto simp: enter_def simp del: open_rounds.simps dest: open_rounds_entered
      split: prod.splits sum.splits)

lemma enter_store_failure:
  "enter vops sops email clk a = ((Inl e, entered), a') \<Longrightarrow>
     entered \<and> \<not> is_login_session_error e \<longleftrightarrow> (\<exists>x. e = SessionFailed x \<and> \<not> is_session_error x)"
  by (drule enter_entered) auto

text \<open>
  C33. \<open>redeem\<close> is a run of the interleaving, and what it answers is what became of the redemption
  it started: if it answers a session, the run spent this link in one new flight and the store
  opened that session for it; if it refuses the link, no flight was started; if it fails after the
  link was spent, the new flight was undone by the handler (the link given back), except exactly
  when the session store failed with an exception of its own, after which the link stays spent. No
  other flight is touched and no link is issued on the way, so C14 holds of what redemptions of the
  code reach.
\<close>

theorem redeem_is_a_run_of_the_interleaving:
  "\<exists>m. (login_step vops sops opened)\<^sup>*\<^sup>* n m \<and> ln_issued m = ln_issued n \<and>
     ln_auth m = snd (redeem vops sops fp token now clk (ln_auth n)) \<and>
     (case fst (redeem vops sops fp token now clk (ln_auth n)) of
        Inl (LinkError e) \<Rightarrow> ln_flights m = ln_flights n
      | Inl e \<Rightarrow> (\<exists>f. ln_flights m = ln_flights n @ [f] \<and> fl_fingerprint f = fp token \<and> fl_now f = now \<and>
          fl_outcome f = (if \<exists>x. e = SessionFailed x \<and> \<not> is_session_error x then StoreFailed else Lost))
      | Inr s \<Rightarrow> (\<exists>f. ln_flights m = ln_flights n @ [f] \<and> fl_fingerprint f = fp token \<and> fl_now f = now \<and>
          fl_outcome f = SessionOpened s))"
proof (cases "fst (redeem vops sops fp token now clk (ln_auth n))")
  case (Inr s)
  then obtain email pending entered a1 where
      sp: "spend_link (fp token) now (ml_pending (ln_auth n)) = (Inr email, pending)"
      and en: "enter vops sops email clk ((ln_auth n)\<lparr>ml_pending := pending\<rparr>) = ((Inr s, entered), a1)"
      and red: "redeem vops sops fp token now clk (ln_auth n) = (Inr s, a1)"
    by (rule redeem_opened)
  obtain m g where "(login_step vops sops opened)\<^sup>*\<^sup>* n m" "ln_auth m = a1" "ln_flights m = ln_flights n @ [g]"
      "fl_fingerprint g = fp token" "fl_now g = now" "ln_issued m = ln_issued n" "fl_outcome g = SessionOpened s"
    using spend_enter_run [OF sp en, where opened = opened] by (auto simp: carried_def new_flight_def)
  then show ?thesis by (intro exI [of _ m]) (simp add: red)
next
  case (Inl e)
  show ?thesis
  proof (cases "\<exists>x. e = LinkError x")
    case True
    then show ?thesis
      using Inl by (intro exI [of _ n]) (auto dest: redeem_refused)
  next
    case False
    obtain email pending entered a1 where
        sp: "spend_link (fp token) now (ml_pending (ln_auth n)) = (Inr email, pending)"
        and en: "enter vops sops email clk ((ln_auth n)\<lparr>ml_pending := pending\<rparr>) = ((Inl e, entered), a1)"
        and red: "redeem vops sops fp token now clk (ln_auth n) =
          (Inl e, if entered \<and> \<not> is_login_session_error e then a1
             else a1\<lparr>ml_pending := restore_link (fp token) email now (ml_pending a1)\<rparr>)"
      by (rule redeem_failed [OF False Inl])
    show ?thesis
      using failed_run [OF sp en, of opened] False
      by (auto simp: red enter_store_failure [OF en] split: login_error.split)
  qed
qed

section \<open>What a login gives, and what a failed one leaves\<close>

lemma open_rounds_opened:
  assumes "open_rounds ps_ops mem_session_ops email clk rounds p a = ((Inr s, opened), a')"
    and "ss_vault (ml_sessions a) = Some ()" and "ps_inv (pv_store (ml_vault a))"
    and "vault_resolve ps_ops p (ml_vault a) = Some (casefold (strip email))"
  shows "vault_resolve ps_ops (se_pseudonym s) (ml_vault a') = Some (casefold (strip email)) \<and>
    vault_active ps_ops (casefold (strip email)) (ml_vault a') = Inr (Some (se_pseudonym s)) \<and>
    dget (ss_sessions (ml_sessions a')) (se_session_id s) = Some s"
  using assms
proof (induction rounds arbitrary: p a)
  case (Cons final rounds)
  obtain res ss where o: "session_open (\<lambda>_. vault_registry ps_ops (ml_vault a)) p (Some (ml_session_ttl a))
      (lc_open clk final) (ml_sessions a) = (res, ss)"
    by (metis prod.collapse)
  then have os: "open_session ps_ops mem_session_ops p (lc_open clk final) a = (res, a\<lparr>ml_sessions := ss\<rparr>)"
    by (simp add: open_session_def mem_session_ops_def)
  show ?case
  proof (cases res)
    case (Inr x)
    with Cons.prems(1) os have x: "s = x" "a' = a\<lparr>ml_sessions := ss\<rparr>" by auto
    have "admit (Some (vault_registry ps_ops (ml_vault a))) p = None"
      using o Inr Cons.prems(2) by (simp add: session_open_def split: option.splits)
    then have "vault_active ps_ops (casefold (strip email)) (ml_vault a) = Inr (Some p)"
      using Cons.prems(4) by (auto simp: admit_def vault_registry_def split: if_splits sum.splits)
    moreover have "se_pseudonym x = p \<and> dget (ss_sessions ss) (se_session_id x) = Some x"
      using o Inr by (auto simp: session_open_def Let_def dict_simps split: option.splits if_splits)
    ultimately show ?thesis
      using x Cons.prems(4) by simp
  next
    case (Inl e)
    obtain r2 v where i: "issue ps_ops email (lc_issue clk True) (ml_vault a) = (r2, v)"
      by (metis prod.collapse)
    then have ip: "issue_pseudonym ps_ops email (lc_issue clk True) (a\<lparr>ml_sessions := ss\<rparr>) =
        (r2, a\<lparr>ml_sessions := ss, ml_vault := v\<rparr>)"
      by (simp add: issue_pseudonym_def)
    have next_round: "e = RetiredPseudonym" "\<not> final" "\<exists>q. r2 = Inr q"
      using Cons.prems(1) Inl os ip by (auto split: if_splits sum.splits)
    then obtain q where q: "r2 = Inr q" by blast
    have "ss_vault ss = Some ()"
      using o Cons.prems(2) by (auto simp: session_open_def Let_def split: option.splits if_splits)
    moreover have "ps_inv (pv_store v)"
      using ps.step_ok [OF Cons.prems(3), of "(email, lc_issue clk True)"] i by (simp add: vault_step_def)
    moreover have "vault_resolve ps_ops q v = Some (casefold (strip email))"
      using ps.issued_is_known(3) [OF Cons.prems(3)] i q by simp
    ultimately show ?thesis
      using Cons.IH [of q "a\<lparr>ml_sessions := ss, ml_vault := v\<rparr>"] Cons.prems(1) Inl os ip q next_round
      by simp
  qed
qed simp

text \<open>
  A login that succeeds with the default stores spent a live link and opened a session for its
  buyer and nobody else: the subject is the pseudonym the buyer holds in the vault at that moment,
  it resolves to the address the link was sent to, the session is in the store, and the link is
  marked used, so that presenting it again is refused.
\<close>

theorem login_opens_the_session_of_the_links_buyer:
  assumes "redeem ps_ops mem_session_ops fp token now clk a = (Inr s, a')"
    and "ss_vault (ml_sessions a) = Some ()" and "ps_inv (pv_store (ml_vault a))"
  shows "\<exists>link. dget (ml_pending a) (fp token) = Some link \<and> pl_used_at link = None \<and>
    now < pl_expires_at link \<and>
    vault_active ps_ops (casefold (strip (pl_email link))) (ml_vault a') = Inr (Some (se_pseudonym s)) \<and>
    vault_resolve ps_ops (se_pseudonym s) (ml_vault a') = Some (casefold (strip (pl_email link))) \<and>
    dget (ss_sessions (ml_sessions a')) (se_session_id s) = Some s \<and>
    redeem ps_ops mem_session_ops fp token now' clk' a' = (Inl (LinkError MagicLinkAlreadyUsed), a')"
proof -
  have tok: "token \<noteq> []" using assms(1) by (auto simp: redeem_def)
  obtain email pending where sp: "spend_link (fp token) now (ml_pending a) = (Inr email, pending)"
    using assms(1) tok by (auto simp: redeem_def Let_def split: prod.splits sum.splits)
  obtain link where link: "dget (ml_pending a) (fp token) = Some link" "pl_used_at link = None"
      "now < pl_expires_at link" "email = pl_email link"
      "pending = dset (fp token) (link\<lparr>pl_used_at := Some now\<rparr>) (ml_pending a)"
    using sp by (auto simp: spend_link_def split: option.splits if_splits)
  let ?a0 = "a\<lparr>ml_pending := pending\<rparr>"
  obtain opened where en: "enter ps_ops mem_session_ops email clk ?a0 = ((Inr s, opened), a')"
    using assms(1) tok sp by (auto simp: redeem_def Let_def split: prod.splits sum.splits if_splits)
  have used: "ml_pending a' = pending"
    using enter_elsewhere [of ps_ops mem_session_ops email clk ?a0] en by simp
  obtain r1 a1 where e1: "ensure_account email ?a0 = (r1, a1)" by (metis prod.collapse)
  have a1: "ml_vault a1 = ml_vault a \<and> ml_sessions a1 = ml_sessions a"
    using e1 by (auto simp: ensure_account_def split: sum.splits option.splits prod.splits)
  obtain r2 v where i: "issue ps_ops email (lc_issue clk False) (ml_vault a1) = (r2, v)"
    by (metis prod.collapse)
  then have ip: "issue_pseudonym ps_ops email (lc_issue clk False) a1 = (r2, a1\<lparr>ml_vault := v\<rparr>)"
    by (simp add: issue_pseudonym_def)
  obtain p where p: "r2 = Inr p"
    and rounds: "open_rounds ps_ops mem_session_ops email clk [False, True] p (a1\<lparr>ml_vault := v\<rparr>) = ((Inr s, opened), a')"
    using en e1 ip by (auto simp: enter_def simp del: open_rounds.simps split: sum.splits)
  have inv1: "ps_inv (pv_store (ml_vault a1))" using a1 assms(3) by simp
  have "ps_inv (pv_store v)"
    using ps.step_ok [OF inv1, of "(email, lc_issue clk False)"] i by (simp add: vault_step_def)
  moreover have "vault_resolve ps_ops p v = Some (casefold (strip email))"
    using ps.issued_is_known(3) [OF inv1] i p by simp
  ultimately have "vault_resolve ps_ops (se_pseudonym s) (ml_vault a') = Some (casefold (strip email)) \<and>
      vault_active ps_ops (casefold (strip email)) (ml_vault a') = Inr (Some (se_pseudonym s)) \<and>
      dget (ss_sessions (ml_sessions a')) (se_session_id s) = Some s"
    using open_rounds_opened [OF rounds] a1 assms(2) by simp
  moreover have "redeem ps_ops mem_session_ops fp token now' clk' a' = (Inl (LinkError MagicLinkAlreadyUsed), a')"
    using tok by (simp add: redeem_def Let_def spend_link_def used link(5) dict_simps)
  ultimately show ?thesis using link by auto
qed

text \<open>
  A login that fails after its link was taken gives the link back, so that the buyer can present
  it again, with exactly one exception: when the session store raised something of its own, a
  session may exist, and the link stays spent.
\<close>

theorem failed_login_gives_the_link_back:
  assumes "redeem vops sops fp token now clk a = (Inl e, a')" and "token \<noteq> []"
    and "links_inv m n (ml_pending a)"
    and "dget (ml_pending a) (fp token) = Some link" and "pl_used_at link = None"
    and "now < pl_expires_at link"
  shows "ml_pending a' = ml_pending a \<or>
    (\<exists>x. e = SessionFailed x \<and> \<not> is_session_error x) \<and>
    ml_pending a' = dset (fp token) (link\<lparr>pl_used_at := Some now\<rparr>) (ml_pending a)"
proof -
  let ?d = "dset (fp token) (link\<lparr>pl_used_at := Some now\<rparr>) (ml_pending a)"
  have sp: "spend_link (fp token) now (ml_pending a) = (Inr (pl_email link), ?d)"
    using assms(4-6) by (simp add: spend_link_def)
  obtain res opened a1 where en: "enter vops sops (pl_email link) clk (a\<lparr>ml_pending := ?d\<rparr>) = ((res, opened), a1)"
    by (metis prod.collapse)
  have a1: "ml_pending a1 = ?d"
    using enter_elsewhere [of vops sops "pl_email link" clk "a\<lparr>ml_pending := ?d\<rparr>"] en by simp
  have res: "res = Inl e" and a': "a' = (if opened \<and> \<not> is_login_session_error e then a1
      else a1\<lparr>ml_pending := restore_link (fp token) (pl_email link) now ?d\<rparr>)"
    using assms(1,2) sp en a1 by (auto simp: redeem_def Let_def split: sum.splits if_splits)
  have dist: "distinct (dkeys ?d)"
    using assms(3) by (simp add: links_inv_def distinct_dset)
  have "\<not> link_superseded (fp token) (link\<lparr>pl_used_at := Some now\<rparr>) (pl_email link) ?d"
  proof
    assume "link_superseded (fp token) (link\<lparr>pl_used_at := Some now\<rparr>) (pl_email link) ?d"
    then obtain l y where y: "(l, y) \<in> set ?d" "l \<noteq> fp token" "pl_email y = pl_email link"
        "pl_sequence y \<ge> pl_sequence link"
      by (auto simp: link_superseded_def list_ex_iff)
    then have "dget (ml_pending a) l = Some y"
      using map_of_is_SomeI [OF dist y(1)] by (simp add: dict_simps del: map_of_eq_Some_iff)
    then have "pl_sequence y < pl_sequence link"
      using unspent_newestD [of "ml_pending a" "fp token" link l y] assms(3,4,5) y
      by (simp add: links_inv_def)
    with y show False by simp
  qed
  moreover have "link\<lparr>pl_used_at := None\<rparr> = link"
    using assms(5) by simp
  ultimately have "restore_link (fp token) (pl_email link) now ?d = ml_pending a"
    using assms(4) by (simp add: restore_link_def dict_simps dset_back update_triv)
  then show ?thesis
    using a' a1 en res enter_store_failure [of vops sops "pl_email link" clk "a\<lparr>ml_pending := ?d\<rparr>" e opened a1]
    by (auto split: if_splits)
qed

section \<open>Witnesses\<close>

definition sample_tokens :: "nat \<Rightarrow> string" where
  "sample_tokens i = CHR ''t'' # replicate i (CHR ''x'')"

definition sample_auth :: "(pseudonym_store_state, unit session_store) magic_link_auth" where
  "sample_auth = new_magic_link_auth sample_vault (new_session_store 100 1 None sample_ids) 900 100 5 sample_tokens"

definition sample_clocks :: login_clocks where
  "sample_clocks = \<lparr>lc_issue = (\<lambda>_. 12), lc_open = (\<lambda>_. 13)\<rparr>"

definition sample_asked :: "(pseudonym_store_state, unit session_store) magic_link_auth" where
  "sample_asked = snd (request_login id (\<lambda>_ _ _. None) ''a@x'' 10 sample_auth)"

text \<open>Two requests of one buyer with a redemption between them, as a run of the interleaving.\<close>

definition sample_link :: "int \<Rightarrow> pending_link" where
  "sample_link i = \<lparr>pl_email = ''a@x'', pl_expires_at = 100, pl_used_at = None, pl_sequence = i\<rparr>"

definition sample_net :: "(pseudonym_store_state, unit session_store) login_net" where
  "sample_net =
     \<lparr>ln_auth = sample_auth
        \<lparr>ml_pending := [(''f1'', (sample_link 1)\<lparr>pl_used_at := Some 11\<rparr>), (''f2'', sample_link 2)],
         ml_sequence := 2\<rparr>,
      ln_flights = [new_flight ''f1'' ''a@x'' 11], ln_issued = [''f2'', ''f1''], ln_opened = []\<rparr>"

lemma sample_net_reached:
  "(login_step ps_ops mem_session_ops ss_drawn)\<^sup>*\<^sup>* (login_start sample_auth) sample_net"
proof -
  let ?step = "login_step ps_ops mem_session_ops ss_drawn"
  let ?n0 = "login_start sample_auth"
  let ?n1 = "?n0\<lparr>ln_auth := sample_auth\<lparr>ml_pending := [(''f1'', sample_link 1)], ml_sequence := 1\<rparr>,
      ln_issued := ''f1'' # ln_issued ?n0\<rparr>"
  let ?n2 = "?n1\<lparr>ln_auth := (ln_auth ?n1)\<lparr>ml_pending := [(''f1'', (sample_link 1)\<lparr>pl_used_at := Some 11\<rparr>)]\<rparr>,
      ln_flights := ln_flights ?n1 @ [new_flight ''f1'' ''a@x'' 11]\<rparr>"
  have "?step ?n0 ?n1"
    by (rule login_step.request [where key = "''a@x''" and now = 10 and expires = 100 and res = "Inr ()"])
      (simp_all add: login_start_def place_link_def forget_stale_def sample_link_def sample_auth_def
        new_magic_link_auth_def Let_def)
  moreover have "?step ?n1 ?n2"
    by (rule login_step.spend) (simp add: spend_link_def sample_link_def)
  moreover have "?step ?n2 (?n2\<lparr>ln_auth := (ln_auth ?n2)\<lparr>ml_pending :=
      [(''f1'', (sample_link 1)\<lparr>pl_used_at := Some 11\<rparr>), (''f2'', sample_link 2)], ml_sequence := 2\<rparr>,
      ln_issued := ''f2'' # ln_issued ?n2\<rparr>)"
    by (rule login_step.request [where key = "''a@x''" and now = 12 and expires = 100 and res = "Inr ()"])
      (simp_all add: login_start_def place_link_def forget_stale_def sample_link_def sample_auth_def
        new_magic_link_auth_def Let_def stale_def)
  moreover have sample: "?n2\<lparr>ln_auth := (ln_auth ?n2)\<lparr>ml_pending :=
      [(''f1'', (sample_link 1)\<lparr>pl_used_at := Some 11\<rparr>), (''f2'', sample_link 2)], ml_sequence := 2\<rparr>,
      ln_issued := ''f2'' # ln_issued ?n2\<rparr> = sample_net"
    by (simp add: sample_net_def login_start_def)
  ultimately have "?step ?n0 ?n1" "?step ?n1 ?n2" "?step ?n2 sample_net"
    by (simp_all only: sample)
  then show ?thesis
    by (rule converse_rtranclp_into_rtranclp [OF _ converse_rtranclp_into_rtranclp [OF _ r_into_rtranclp]])
qed

text \<open>Then the vault issues the buyer's pseudonym and the redemption at work opens its session.\<close>

definition sample_issued :: "(pseudonym_store_state, unit session_store) magic_link_auth" where
  "sample_issued = snd (issue_pseudonym ps_ops ''a@x'' 12 (ln_auth sample_net))"

definition sample_opening :: "(session_error + session) \<times> (pseudonym_store_state, unit session_store) magic_link_auth" where
  "sample_opening = open_session ps_ops mem_session_ops ''psn-a'' 13 sample_issued"

lemma sample_opening_opens:
  "\<exists>s. fst sample_opening = Inr s"
  "ss_drawn (ml_sessions (snd sample_opening)) = 1" "ss_drawn (ml_sessions sample_issued) = 0"
proof -
  have "(case fst sample_opening of Inr s \<Rightarrow> True | Inl e \<Rightarrow> False)" by code_simp
  then show "\<exists>s. fst sample_opening = Inr s" by (simp split: sum.splits)
  show "ss_drawn (ml_sessions (snd sample_opening)) = 1" by code_simp
  show "ss_drawn (ml_sessions sample_issued) = 0" by code_simp
qed

lemma sample_opened_reached:
  obtains n s where "(login_step ps_ops mem_session_ops ss_drawn)\<^sup>*\<^sup>* (login_start sample_auth) n"
    and "ln_opened n = [''f1'']" and "ln_flights n = [(new_flight ''f1'' ''a@x'' 11)\<lparr>fl_final := True, fl_outcome := SessionOpened s\<rparr>]"
    and "ln_auth n = snd sample_opening"
proof -
  let ?step = "login_step ps_ops mem_session_ops ss_drawn"
  obtain s where s: "fst sample_opening = Inr s" using sample_opening_opens(1) by blast
  then have o: "open_session ps_ops mem_session_ops ''psn-a'' 13 sample_issued = (Inr s, snd sample_opening)"
    by (metis prod.collapse sample_opening_def)
  let ?n = "sample_net\<lparr>ln_auth := sample_issued\<rparr>"
  let ?m = "?n\<lparr>ln_auth := snd sample_opening,
      ln_flights := [(new_flight ''f1'' ''a@x'' 11)\<lparr>fl_final := True, fl_outcome := SessionOpened s\<rparr>],
      ln_opened := [''f1'']\<rparr>"
  have "?step sample_net ?n"
    by (rule login_step.elsewhere) (simp_all add: sample_issued_def issue_pseudonym_def split: prod.split)
  with sample_net_reached have "?step\<^sup>*\<^sup>* (login_start sample_auth) ?n" by (rule rtranclp.rtrancl_into_rtrancl)
  moreover have "?step ?n ?m"
    using login_step.enter_store [where n = ?n and i = 0 and f = "new_flight ''f1'' ''a@x'' 11" and vops = ps_ops
        and sops = mem_session_ops and opened = ss_drawn and pseudonym = "''psn-a''" and now = 13
        and res = "Inr s" and a = "snd sample_opening"] o
    by (simp add: sample_net_def new_flight_def sample_opening_opens(2,3))
  ultimately have "?step\<^sup>*\<^sup>* (login_start sample_auth) ?m" by (rule rtranclp.rtrancl_into_rtrancl)
  then show ?thesis by (rule that) simp_all
qed

theorem magic_link_opens_one_session_witness:
  "\<exists>n :: (pseudonym_store_state, unit session_store) login_net. ln_opened n = [''f1''] \<and> ss_drawn (ml_sessions (ln_auth n)) = 1 \<and>
     fst (spend_link ''f1'' 14 (ml_pending (ln_auth n))) \<in> {Inl MagicLinkUnknown, Inl MagicLinkAlreadyUsed}"
proof -
  obtain n s where n: "(login_step ps_ops mem_session_ops ss_drawn)\<^sup>*\<^sup>* (login_start sample_auth) n"
    and o: "ln_opened n = [''f1'']" by (rule sample_opened_reached)
  show ?thesis
    using magic_link_opens_one_session [OF mem_counts_sessions n, of "''f1''" 14] o
    by (intro exI [of _ n]) (simp add: sample_auth_def new_magic_link_auth_def new_session_store_def bind_vault_def)
qed

theorem one_unspent_link_per_buyer_witness:
  "pl_sequence ((sample_link 1)\<lparr>pl_used_at := Some 11\<rparr>) < pl_sequence (sample_link 2)"
  using one_unspent_link_per_buyer [OF sample_net_reached, of "''f2''" "sample_link 2" "''f1''"]
  by (simp add: sample_net_def sample_link_def)

lemma sample_login:
  "redeem ps_ops mem_session_ops id ''t'' 11 sample_clocks sample_asked =
     (Inr \<lparr>se_session_id = [], se_pseudonym = ''psn-a'', se_issued_at = 13, se_expires_at = 113\<rparr>,
      snd (redeem ps_ops mem_session_ops id ''t'' 11 sample_clocks sample_asked))"
proof -
  have "fst (redeem ps_ops mem_session_ops id ''t'' 11 sample_clocks sample_asked) =
      Inr \<lparr>se_session_id = [], se_pseudonym = ''psn-a'', se_issued_at = 13, se_expires_at = 113\<rparr>"
    by code_simp
  then show ?thesis by (metis prod.collapse)
qed

theorem login_opens_the_session_of_the_links_buyer_witness:
  "redeem ps_ops mem_session_ops id ''t'' 14 sample_clocks
     (snd (redeem ps_ops mem_session_ops id ''t'' 11 sample_clocks sample_asked)) =
   (Inl (LinkError MagicLinkAlreadyUsed), snd (redeem ps_ops mem_session_ops id ''t'' 11 sample_clocks sample_asked))"
proof -
  have "ss_vault (ml_sessions sample_asked) = Some ()" by code_simp
  moreover have "pv_store (ml_vault sample_asked) = new_pseudonym_store (\<lambda>i. ''id'')"
    by (simp add: sample_asked_def request_login_def place_link_def Let_def sample_auth_def
        new_magic_link_auth_def sample_vault_def split: sum.split)
  ultimately show ?thesis
    using login_opens_the_session_of_the_links_buyer [OF sample_login] new_pseudonym_store_inv by auto
qed

text \<open>A session store that has no room gives the link back.\<close>

definition sample_full :: "(pseudonym_store_state, unit session_store) magic_link_auth" where
  "sample_full = sample_auth\<lparr>ml_pending := [(''f1'', sample_link 1)], ml_sequence := 1,
     ml_sessions := new_session_store 100 0 (Some ()) sample_ids\<rparr>"

theorem failed_login_gives_the_link_back_witness:
  "ml_pending (snd (redeem ps_ops mem_session_ops id ''f1'' 11 sample_clocks sample_full)) = ml_pending sample_full"
proof -
  let ?r = "redeem ps_ops mem_session_ops id ''f1'' 11 sample_clocks sample_full"
  have "fst ?r = Inl (SessionFailed SessionsExhausted)" by code_simp
  then have r: "?r = (Inl (SessionFailed SessionsExhausted), snd ?r)" by (metis prod.collapse)
  have inv: "links_inv 5 1 (ml_pending sample_full)"
    by (simp add: sample_full_def links_inv_def unspent_newest_def sample_link_def split: if_splits)
  show ?thesis
    using failed_login_gives_the_link_back [OF r _ inv, of "sample_link 1"]
    by (simp add: sample_full_def sample_link_def)
qed

end
