(* ===== verification/CanonicalLaws.thy ===== *)
theory CanonicalLaws
  imports Canonical "HOL-Library.Multiset"
begin

text \<open>
  Timestamps are normal after one pass, and canonical JSON does not see the order in which the
  members of a mapping were inserted.
\<close>

section \<open>Timestamps\<close>

lemma take_digits_pad: "0 \<le> n \<Longrightarrow> n < 10 ^ w \<Longrightarrow> take_digits w (pad_digits w n @ r) = Some (n, r)"
  by (simp add: take_digits_def digits_value_pad)

lemma take_while_pad: "takeWhile is_digit (pad_digits w n @ 90 # r) = pad_digits w n"
  "dropWhile is_digit (pad_digits w n @ 90 # r) = 90 # r"
proof -
  have "\<forall>c\<in>set (pad_digits w n). is_digit c"
    using pad_digits_digits [of w n] by (simp only: list_all_iff)
  then show "takeWhile is_digit (pad_digits w n @ 90 # r) = pad_digits w n"
    "dropWhile is_digit (pad_digits w n @ 90 # r) = 90 # r"
    by (simp_all add: is_digit_def)
qed

lemma pad_digits_neq [simp]: "pad_digits (Suc w) n \<noteq> []"
  using length_pad_digits [of "Suc w" n] by (metis length_0_conv nat.distinct(1))

definition to_millis :: "moment \<Rightarrow> moment" where
  "to_millis t = t\<lparr>mo_micro := mo_micro t div 1000 * 1000\<rparr>"

lemma days_in_month_le: "days_in_month l m \<le> 31"
  by (simp add: days_in_month_def)

lemma parse_format:
  assumes "valid_moment t"
  shows "parse_rfc3339 (format_moment t) = Some (to_millis t, 0)"
proof -
  have b: "0 \<le> mo_year t" "0 \<le> mo_month t" "0 \<le> mo_day t" "0 \<le> mo_hour t" "0 \<le> mo_minute t"
    "0 \<le> mo_second t" "0 \<le> mo_micro t div 1000" "mo_year t < 10 ^ 4" "mo_month t < 10 ^ 2" "mo_day t < 10 ^ 2" "mo_hour t < 10 ^ 2"
    "mo_minute t < 10 ^ 2" "mo_second t < 10 ^ 2" "mo_micro t div 1000 < 10 ^ 3"
    using assms days_in_month_le [of "is_leap (mo_year t)" "mo_month t"]
    by (auto simp: valid_moment_def div_less_iff_less_mult pos_imp_zdiv_nonneg_iff)
  let ?f = "pad_digits 3 (mo_micro t div 1000)"
  have frac: "take_fraction (46 # ?f @ [90]) = Some (?f, [90])"
    by (simp add: take_fraction_def take_while_pad)
      (simp add: numeral_3_eq_3)
  have "digits_value (take 3 (?f @ [48, 48, 48])) = mo_micro t div 1000"
    using b(7,14) by (simp add: digits_value_pad)
  then show ?thesis
    using b frac
    by (simp add: parse_rfc3339_def format_moment_def take_digits_pad take_offset_def to_millis_def)
qed

lemma strip_format: "strip_text (format_moment t) = format_moment t"
proof -
  have "dropWhile unicode_space (format_moment t) = format_moment t"
  proof -
    obtain c r where p: "pad_digits 4 (mo_year t) = c # r"
      using length_pad_digits [of 4 "mo_year t"] by (cases "pad_digits 4 (mo_year t)") auto
    then have "is_digit c" using pad_digits_digits [of 4 "mo_year t"] by simp
    then show ?thesis by (simp add: format_moment_def p unicode_space_def is_digit_def)
  qed
  moreover have "dropWhile unicode_space (rev (format_moment t)) = rev (format_moment t)"
    by (simp add: format_moment_def unicode_space_def)
  ultimately show ?thesis by (simp add: strip_text_def)
qed

lemma format_to_millis [simp]: "format_moment (to_millis t) = format_moment t"
  by (simp add: format_moment_def to_millis_def)

lemma valid_to_millis [simp]: "valid_moment t \<Longrightarrow> valid_moment (to_millis t)"
proof -
  have "m div 1000 * 1000 \<le> m" for m :: int by (simp add: minus_mod_eq_div_mult [symmetric])
  then show "valid_moment t \<Longrightarrow> valid_moment (to_millis t)"
    unfolding valid_moment_def to_millis_def by (auto intro: le_less_trans simp: pos_imp_zdiv_nonneg_iff)
qed

lemma rfc3339_format: "valid_moment t \<Longrightarrow> rfc3339_ms (VStr (format_moment t)) = Inr (format_moment t)"
  by (simp add: rfc3339_ms_def strip_format parse_format)

definition normal_stamp :: "pystr \<Rightarrow> bool" where
  "normal_stamp s \<longleftrightarrow> (\<exists>t. valid_moment t \<and> s = format_moment t)"

lemma normal_stampI: "valid_moment t \<Longrightarrow> normal_stamp (format_moment t)"
  by (auto simp: normal_stamp_def)

lemma normal_stamp_fixed: "normal_stamp s \<Longrightarrow> rfc3339_ms (VStr s) = Inr s"
  by (auto simp: normal_stamp_def rfc3339_format)

lemma rfc3339_normal:
  assumes "rfc3339_ms v = Inr s" and "\<And>t d. v = VTime t d \<Longrightarrow> valid_moment t"
  shows "normal_stamp s"
proof (cases v)
  case (VTime t d)
  then have "valid_moment t" using assms(2) by simp
  then have "normal_stamp (format_moment t)"
    "\<And>t' c. minus_minutes t c = Some t' \<Longrightarrow> normal_stamp (format_moment t')"
    using normal_stampI minus_minutes_valid by blast+
  then show ?thesis
    using assms(1) VTime by (auto simp: rfc3339_ms_def split: option.splits)
next
  case (VStr x)
  then obtain t d where p: "parse_rfc3339 (strip_text x) = Some (t, d)" "valid_moment t"
    using assms(1) by (auto simp: rfc3339_ms_def split: option.splits if_splits)
  then have "normal_stamp (format_moment t)"
    "\<And>t' c. minus_minutes t c = Some t' \<Longrightarrow> normal_stamp (format_moment t')"
    using normal_stampI minus_minutes_valid by blast+
  then show ?thesis
    using assms(1) VStr p by (auto simp: rfc3339_ms_def split: option.splits if_splits)
qed (use assms(1) in \<open>simp_all add: rfc3339_ms_def\<close>)

section \<open>Members in any order\<close>

definition proper_name :: "pystr \<Rightarrow> bool" where
  "proper_name s \<longleftrightarrow> list_all (\<lambda>c. c < 1114112 \<and> \<not> surrogate c) s"

lemma utf16_units_head:
  assumes "c < 1114112" and "\<not> surrogate c" and "d < 1114112" and "\<not> surrogate d"
    and "utf16_units c @ s = utf16_units d @ t"
  shows "c = d \<and> s = t"
proof (cases "c < 65536")
  case c: True
  show ?thesis
  proof (cases "d < 65536")
    case True
    then show ?thesis using c assms(5) by (simp add: utf16_units_def)
  next
    case False
    then have "c = 55296 + (d - 65536) div 1024" using c assms(5) by (simp add: utf16_units_def)
    moreover have "(d - 65536) div 1024 < 1024" using assms(3) by (simp add: div_less_iff_less_mult)
    ultimately show ?thesis using assms(2) False by (simp add: surrogate_def)
  qed
next
  case c: False
  show ?thesis
  proof (cases "d < 65536")
    case True
    then have "d = 55296 + (c - 65536) div 1024" using c assms(5) by (simp add: utf16_units_def)
    moreover have "(c - 65536) div 1024 < 1024" using assms(1) by (simp add: div_less_iff_less_mult)
    ultimately show ?thesis using assms(4) c by (simp add: surrogate_def)
  next
    case False
    then have h: "(c - 65536) div 1024 = (d - 65536) div 1024" "(c - 65536) mod 1024 = (d - 65536) mod 1024" "s = t"
      using c assms(5) by (simp_all add: utf16_units_def)
    then have "c - 65536 = d - 65536" by (metis div_mult_mod_eq)
    then show ?thesis using c False h(3) by simp
  qed
qed

lemma utf16_units_nonempty: "utf16_units c \<noteq> []"
  by (simp add: utf16_units_def)

lemma utf16_key_inj:
  "proper_name s \<Longrightarrow> proper_name t \<Longrightarrow> utf16_key s = utf16_key t \<Longrightarrow> s = t"
proof (induction s arbitrary: t)
  case Nil
  then show ?case
    by (cases t) (auto simp: utf16_key_def utf16_units_nonempty)
next
  case (Cons c s)
  show ?case
  proof (cases t)
    case Nil
    then show ?thesis using Cons.prems(3) by (simp add: utf16_key_def utf16_units_nonempty)
  next
    case t: (Cons d r)
    have "c = d \<and> utf16_key s = utf16_key r"
      using utf16_units_head [of c d "utf16_key s" "utf16_key r"] Cons.prems t
      by (simp add: proper_name_def utf16_key_def)
    then show ?thesis using Cons.IH [of r] Cons.prems t by (simp add: proper_name_def)
  qed
qed

text \<open>Two trees that differ only in the order of the members of their mappings.\<close>

inductive same_json :: "pyval \<Rightarrow> pyval \<Rightarrow> bool" where
  same: "same_json v v"
| items: "list_all2 same_json xs ys \<Longrightarrow> same_json (VArr xs) (VArr ys)"
| members: "distinct (map fst ms) \<Longrightarrow> list_all (\<lambda>p. list_all (\<lambda>c. c < 1114112) (fst p)) ms \<Longrightarrow>
    list_all2 (\<lambda>p q. fst p = fst q \<and> same_json (snd p) (snd q)) ms ns \<Longrightarrow> mset ns' = mset ns \<Longrightarrow>
    same_json (VObj ms) (VObj ns')"

lemma all_right_Inr: "all_right rs = Inr xs \<longleftrightarrow> rs = map Inr xs"
proof
  show "all_right rs = Inr xs \<Longrightarrow> rs = map Inr xs"
    by (induction rs arbitrary: xs rule: all_right.induct) (auto split: sum.splits)
  have "all_right (map Inr xs) = Inr xs" for xs :: "'b list"
    by (induction xs) auto
  then show "rs = map Inr xs \<Longrightarrow> all_right rs = Inr xs" by simp
qed

lemma sort_key_perm:
  assumes "mset xs = mset ys" and "inj_on f (set xs)"
  shows "sort_key f xs = sort_key f ys"
  by (rule sort_key_inj_key_eq) (use assms in simp_all)

lemma canonical_members:
  assumes ok: "canonical_json (VObj ms) = Inr s" and dist: "distinct (map fst ms)"
    and cps: "list_all (\<lambda>p. list_all (\<lambda>c. c < 1114112) (fst p)) ms"
    and same: "list_all2 (\<lambda>p q. fst p = fst q \<and> (\<forall>r. canonical_json (snd p) = Inr r \<longrightarrow> canonical_json (snd q) = Inr r)) ms ns"
    and perm: "mset ns' = mset ns"
  shows "canonical_json (VObj ns') = Inr s"
proof -
  let ?g = "\<lambda>p. (fst p, canonical_json (snd p))" and ?f = "\<lambda>p. utf16_key (fst p)"
  let ?m = "\<lambda>p. member_text (fst p) (snd p)"
  have pure: "\<not> list_ex (\<lambda>p. list_ex surrogate (fst p)) ms"
    using ok by (auto split: if_splits)
  have right: "\<exists>texts. all_right (map ?m (sort_key ?f (map ?g ms))) = Inr texts"
    using ok pure by (auto simp: Let_def split: sum.splits)
  then obtain texts where texts: "map ?m (sort_key ?f (map ?g ms)) = map Inr texts"
    by (auto simp: all_right_Inr)
  have good: "\<exists>r. canonical_json (snd p) = Inr r" if "p \<in> set ms" for p
  proof -
    have "?g p \<in> set (sort_key ?f (map ?g ms))" using that by simp
    then have "?m (?g p) \<in> set (map Inr texts)" unfolding texts [symmetric] by force
    then show ?thesis by (auto simp: member_text_def split: sum.splits)
  qed
  have "map ?g ns = map ?g ms"
    using same good
  proof (induction rule: list_all2_induct)
    case (Cons p ps q qs)
    have "\<exists>r. canonical_json (snd p) = Inr r" by (rule Cons.prems) simp
    then obtain r where r: "canonical_json (snd p) = Inr r" by blast
    then have "canonical_json (snd q) = Inr r" using Cons.hyps by blast
    moreover have "map ?g qs = map ?g ps"
      by (rule Cons.IH) (rule Cons.prems, simp)
    ultimately show ?case using r Cons.hyps(1) by simp
  qed simp
  moreover have "mset (map ?g ns') = mset (map ?g ns)"
    using perm by simp
  ultimately have perm': "mset (map ?g ms) = mset (map ?g ns')"
    by (simp only:)
  have names: "proper_name (fst p)" if "p \<in> set ms" for p
    using pure cps that by (auto simp: proper_name_def list_all_iff list_ex_iff)
  have "inj_on ?f (set (map ?g ms))"
  proof (rule inj_onI)
    fix x y
    assume "x \<in> set (map ?g ms)" "y \<in> set (map ?g ms)" "?f x = ?f y"
    then obtain p q where pq: "p \<in> set ms" "q \<in> set ms" "x = ?g p" "y = ?g q"
      "utf16_key (fst p) = utf16_key (fst q)" by auto
    then have "fst p = fst q" using utf16_key_inj names by blast
    then have "p = q" using dist pq(1,2) by (simp add: distinct_map inj_on_def)
    then show "x = y" using pq by simp
  qed
  then have sorted: "sort_key ?f (map ?g ms) = sort_key ?f (map ?g ns')"
    by (rule sort_key_perm [OF perm'])
  have "set (map ?g ns') = set (map ?g ms)"
    using mset_eq_setD [OF perm'] by (simp only:)
  then have "fst ` set (map ?g ns') = fst ` set (map ?g ms)"
    by (simp only:)
  then have same_keys: "fst ` set ns' = fst ` set ms"
    by (simp add: image_image)
  have "list_ex (\<lambda>p. list_ex surrogate (fst p)) xs \<longleftrightarrow> (\<exists>k\<in>fst ` set xs. list_ex surrogate k)"
    for xs :: pydict
    by (simp add: list_ex_iff)
  then have pure': "\<not> list_ex (\<lambda>p. list_ex surrogate (fst p)) ns'"
    using pure by (simp only: same_keys not_False_eq_True)
  show ?thesis
    using ok pure pure' by (simp add: Let_def sorted)
qed

lemma canonical_same: "same_json v w \<Longrightarrow> canonical_json v = Inr s \<Longrightarrow> canonical_json w = Inr s"
proof (induction arbitrary: s rule: same_json.induct)
  case (items xs ys)
  then obtain texts where t: "map canonical_json xs = map Inr texts" "s = 91 # join_commas texts @ [93]"
    by (auto simp: all_right_Inr split: sum.splits)
  have "map canonical_json ys = map Inr texts"
    using items.IH t(1)
  proof (induction arbitrary: texts rule: list_all2_induct)
    case (Cons x xs y ys)
    then show ?case by (cases texts) auto
  qed simp
  then have "all_right (map canonical_json ys) = Inr texts" by (simp add: all_right_Inr)
  with t(2) show ?case by simp
next
  case (members ms ns ns')
  have "list_all2 (\<lambda>p q. fst p = fst q \<and> (\<forall>r. canonical_json (snd p) = Inr r \<longrightarrow> canonical_json (snd q) = Inr r)) ms ns"
    by (rule list_all2_mono [OF members.IH]) auto
  then show ?case
    using canonical_members members by blast
qed

end
