(* ===== verification/Chain.thy ===== *)
theory Chain
  imports CanonicalLaws
begin

text \<open>
  Sealing and verifying the ledger chain (\<open>apps/trust/src/ledger/chain.py\<close>).

  An event is a mapping; its \<open>prev_hash\<close> and \<open>event_hash\<close> hold strings or are absent, as every writer
  of the chain leaves them (\<open>get_text\<close>). \<open>hmac.compare_digest\<close> refuses a non-ASCII \<open>str\<close>.
\<close>

datatype chain_error =
    ChainIntegrityError
  | HashError canon_error
  | CompareTypeError

definition get_text :: "pydict \<Rightarrow> string \<Rightarrow> pystr option" where
  "get_text event name = (case dget event (u name) of Some (VStr s) \<Rightarrow> Some s | _ \<Rightarrow> None)"

definition compare_digest :: "pystr \<Rightarrow> pystr \<Rightarrow> chain_error + bool" where
  "compare_digest a b =
     (if list_ex (\<lambda>c. c \<ge> 128) a \<or> list_ex (\<lambda>c. c \<ge> 128) b then Inl CompareTypeError else Inr (a = b))"

definition seal_event :: "(int list \<Rightarrow> pystr) \<Rightarrow> pydict \<Rightarrow> pystr \<Rightarrow> canon_error + pydict" where
  "seal_event sha event prev_hash =
     (case compute_event_hash sha prev_hash event of
        Inl e \<Rightarrow> Inl e
      | Inr digest \<Rightarrow>
          Inr (dset (u ''event_hash'') (VStr digest) (dset (u ''prev_hash'') (VStr prev_hash) event)))"

fun chain_events :: "(int list \<Rightarrow> pystr) \<Rightarrow> pydict list \<Rightarrow> pystr \<Rightarrow> canon_error + pydict list" where
  "chain_events sha [] link = Inr []"
| "chain_events sha (event # events) link =
     (case seal_event sha event link of
        Inl e \<Rightarrow> Inl e
      | Inr row \<Rightarrow>
          (case chain_events sha events (the (get_text row ''event_hash'')) of
             Inl e \<Rightarrow> Inl e
           | Inr rows \<Rightarrow> Inr (row # rows)))"

text \<open>\<open>if not stored\<close>: an absent digest and an empty one.\<close>

definition stored_digest :: "pydict \<Rightarrow> pystr option" where
  "stored_digest event = (case get_text event ''event_hash'' of Some (c # s) \<Rightarrow> Some (c # s) | _ \<Rightarrow> None)"

definition chain_head :: "pydict list \<Rightarrow> chain_error + pystr" where
  "chain_head events =
     (if events = [] then Inr genesis_hash
      else case stored_digest (last events) of None \<Rightarrow> Inl ChainIntegrityError | Some s \<Rightarrow> Inr s)"

fun stream_hash :: "(int list \<Rightarrow> pystr) \<Rightarrow> pystr \<Rightarrow> pydict list \<Rightarrow> canon_error + pystr" where
  "stream_hash sha prev [] = Inr prev"
| "stream_hash sha prev (event # events) =
     (case compute_event_hash sha prev event of Inl e \<Rightarrow> Inl e | Inr h \<Rightarrow> stream_hash sha h events)"

datatype break_reason = Unsealed | BrokenLink | Tampered | EmptyStream | Truncated | HeadMismatch | AnchorMissing

record chain_report =
  cr_ok :: bool
  cr_broken_at :: "nat option"
  cr_reason :: "break_reason option"
  cr_head_hash :: pystr
  cr_verified :: nat

definition broken :: "nat \<Rightarrow> break_reason \<Rightarrow> pystr \<Rightarrow> chain_report" where
  "broken index reason head =
     \<lparr>cr_ok = False, cr_broken_at = Some index, cr_reason = Some reason, cr_head_hash = head,
      cr_verified = index\<rparr>"

text \<open>One round of the loop: the break it reports, or the next link.\<close>

definition verify_event :: "(int list \<Rightarrow> pystr) \<Rightarrow> pystr \<Rightarrow> pydict \<Rightarrow> chain_error + (break_reason + pystr)" where
  "verify_event sha prev event =
     (case stored_digest event of
        None \<Rightarrow> Inr (Inl Unsealed)
      | Some stored \<Rightarrow>
          (case (case get_text event ''prev_hash'' of None \<Rightarrow> Inr True | Some p \<Rightarrow> compare_digest p prev) of
             Inl e \<Rightarrow> Inl e
           | Inr False \<Rightarrow> Inr (Inl BrokenLink)
           | Inr True \<Rightarrow>
               (case compute_event_hash sha prev event of
                  Inl e \<Rightarrow> Inl (HashError e)
                | Inr digest \<Rightarrow>
                    (case compare_digest digest stored of
                       Inl e \<Rightarrow> Inl e
                     | Inr False \<Rightarrow> Inr (Inl Tampered)
                     | Inr True \<Rightarrow> Inr (Inr stored)))))"

fun verify_links :: "(int list \<Rightarrow> pystr) \<Rightarrow> nat \<Rightarrow> pystr \<Rightarrow> pydict list \<Rightarrow>
    chain_error + (chain_report + pystr)" where
  "verify_links sha index prev [] = Inr (Inr prev)"
| "verify_links sha index prev (event # events) =
     (case verify_event sha prev event of
        Inl e \<Rightarrow> Inl e
      | Inr (Inl reason) \<Rightarrow> Inr (Inl (broken index reason prev))
      | Inr (Inr stored) \<Rightarrow> verify_links sha (Suc index) stored events)"

definition verify_chain :: "(int list \<Rightarrow> pystr) \<Rightarrow> pydict list \<Rightarrow> int option \<Rightarrow> pystr option \<Rightarrow> bool \<Rightarrow>
    chain_error + chain_report" where
  "verify_chain sha events expected_length expected_head allow_empty =
     (case verify_links sha 0 genesis_hash events of
        Inl e \<Rightarrow> Inl e
      | Inr (Inl report) \<Rightarrow> Inr report
      | Inr (Inr prev) \<Rightarrow>
          let verified = length events;
              intact = \<lparr>cr_ok = True, cr_broken_at = None, cr_reason = None, cr_head_hash = prev,
                cr_verified = verified\<rparr>
          in if verified = 0 \<and> \<not> (allow_empty \<or> expected_length = Some 0)
             then Inr (broken 0 EmptyStream genesis_hash)
             else if expected_length \<noteq> None \<and> Some (int verified) \<noteq> expected_length
             then Inr (broken verified Truncated prev)
             else
               (case expected_head of
                  None \<Rightarrow> Inr intact
                | Some head \<Rightarrow>
                    (case compare_digest prev head of
                       Inl e \<Rightarrow> Inl e
                     | Inr False \<Rightarrow> Inr (broken verified HeadMismatch prev)
                     | Inr True \<Rightarrow> Inr intact)))"

section \<open>The hash does not see the chain's own fields\<close>

lemma filter_kept_dset: "k \<in> set chain_fields \<Longrightarrow> filter kept_item (dset k v d) = filter kept_item d"
  by (induction d) (auto simp: kept_item_def)

lemma canonical_event_dset: "k \<in> set chain_fields \<Longrightarrow> canonical_event (dset k v d) = canonical_event d"
  by (simp add: canonical_event_def filter_kept_dset)

lemma compute_event_hash_dset:
  "k \<in> set chain_fields \<Longrightarrow> compute_event_hash sha prev (dset k v d) = compute_event_hash sha prev d"
  by (simp add: compute_event_hash_def canonical_event_dset)

lemma chain_fields_in [simp]:
  "u ''prev_hash'' \<in> set chain_fields" "u ''event_hash'' \<in> set chain_fields" "u ''seq'' \<in> set chain_fields"
  by (simp_all add: chain_fields_def)

lemma get_text_dset: "get_text (dset (u n) (VStr s) d) m = (if m = n then Some s else get_text d m)"
  by (simp add: get_text_def dict_simps u_inj)

text \<open>A digest: ASCII, and not empty. Every SHA-256 hex digest is one.\<close>

definition hex_digest :: "(int list \<Rightarrow> pystr) \<Rightarrow> bool" where
  "hex_digest sha \<longleftrightarrow> (\<forall>bs. length (sha bs) = 64 \<and> list_all (\<lambda>c. c < 128) (sha bs))"

lemma hex_digestD: "hex_digest sha \<Longrightarrow> length (sha bs) = 64" "hex_digest sha \<Longrightarrow> \<not> list_ex (\<lambda>c. c \<ge> 128) (sha bs)"
  by (auto simp: hex_digest_def list_all_iff list_ex_iff not_le)

definition link_ok :: "pystr \<Rightarrow> bool" where
  "link_ok s \<longleftrightarrow> length s = 64 \<and> \<not> list_ex (\<lambda>c. c \<ge> 128) s"

lemma link_ok_genesis [simp]: "link_ok genesis_hash"
  by (simp add: link_ok_def genesis_hash_def list_ex_iff)

lemma link_ok_sha: "hex_digest sha \<Longrightarrow> link_ok (sha bs)"
  using hex_digestD by (simp add: link_ok_def)

lemma link_ok_hash: "hex_digest sha \<Longrightarrow> compute_event_hash sha prev e = Inr h \<Longrightarrow> link_ok h"
  by (auto simp: compute_event_hash_def link_ok_sha split: sum.splits if_splits)

lemma seal_event_verifies:
  assumes "hex_digest sha" and "link_ok prev" and "seal_event sha event prev = Inr row"
  shows "\<exists>h. get_text row ''event_hash'' = Some h \<and> link_ok h \<and> compute_event_hash sha prev event = Inr h \<and>
    verify_event sha prev row = Inr (Inr h)"
proof -
  obtain h where h: "compute_event_hash sha prev event = Inr h"
    and row: "row = dset (u ''event_hash'') (VStr h) (dset (u ''prev_hash'') (VStr prev) event)"
    using assms(3) by (auto simp: seal_event_def split: sum.splits)
  have ok: "link_ok h" using link_ok_hash [OF assms(1) h] .
  then have "stored_digest row = Some h"
    by (cases h) (auto simp: stored_digest_def row get_text_dset link_ok_def)
  then have "verify_event sha prev row = Inr (Inr h)"
    using assms(2) ok h
    by (simp add: verify_event_def row get_text_dset compute_event_hash_dset compare_digest_def link_ok_def)
  then show ?thesis using ok h by (simp add: row get_text_dset)
qed

lemma chain_events_verify:
  assumes "hex_digest sha" and "link_ok prev" and "chain_events sha events prev = Inr rows"
  shows "\<exists>h. verify_links sha i prev rows = Inr (Inr h) \<and> stream_hash sha prev events = Inr h \<and>
    length rows = length events \<and> link_ok h"
  using assms(2,3)
proof (induction events arbitrary: prev rows i)
  case (Cons event events)
  obtain row rest where r: "seal_event sha event prev = Inr row"
      "chain_events sha events (the (get_text row ''event_hash'')) = Inr rest" "rows = row # rest"
    using Cons.prems(2) by (auto split: sum.splits)
  obtain h where "get_text row ''event_hash'' = Some h" "link_ok h" "compute_event_hash sha prev event = Inr h"
      "verify_event sha prev row = Inr (Inr h)"
    using seal_event_verifies [OF assms(1) Cons.prems(1) r(1)] by blast
  then show ?case using Cons.IH [of h rest "Suc i"] r by auto
qed simp

section \<open>What an intact chain commits to\<close>

definition event_bytes :: "pydict \<Rightarrow> int list option" where
  "event_bytes e =
     (case canonical_event e of
        Inl _ \<Rightarrow> None
      | Inr body \<Rightarrow> (case canonical_bytes (VObj body) of Inl _ \<Rightarrow> None | Inr bs \<Rightarrow> Some bs))"

lemma compute_event_hash_bytes:
  "compute_event_hash sha prev e = Inr h \<Longrightarrow> \<exists>bs. event_bytes e = Some bs \<and> h = sha (prev @ bs)"
  by (auto simp: compute_event_hash_def event_bytes_def split: sum.splits if_splits)

lemma verify_event_hash:
  "verify_event sha prev e = Inr (Inr h) \<Longrightarrow> compute_event_hash sha prev e = Inr h \<and> link_ok prev = link_ok prev"
  by (auto simp: verify_event_def compare_digest_def split: option.splits sum.splits bool.splits if_splits)

lemma verify_links_stream:
  "verify_links sha i prev rows = Inr (Inr h) \<Longrightarrow> stream_hash sha prev rows = Inr h"
  by (induction rows arbitrary: i prev) (auto dest: verify_event_hash split: sum.splits)

text \<open>Everything a recomputation of the stream feeds to the digest.\<close>

fun hash_inputs :: "(int list \<Rightarrow> pystr) \<Rightarrow> pystr \<Rightarrow> pydict list \<Rightarrow> int list list" where
  "hash_inputs sha prev [] = []"
| "hash_inputs sha prev (e # es) =
     (case event_bytes e of
        None \<Rightarrow> []
      | Some bs \<Rightarrow> (prev @ bs) # hash_inputs sha (sha (prev @ bs)) es)"

text \<open>Two of those inputs, one of each stream, that differ and have one digest.\<close>

definition collision :: "(int list \<Rightarrow> pystr) \<Rightarrow> pydict list \<Rightarrow> pydict list \<Rightarrow> bool" where
  "collision sha es fs \<longleftrightarrow>
     (\<exists>x\<in>set (hash_inputs sha genesis_hash es). \<exists>y\<in>set (hash_inputs sha genesis_hash fs).
        x \<noteq> y \<and> sha x = sha y)"

lemma hash_inputs_snoc:
  "stream_hash sha prev es = Inr h \<Longrightarrow> event_bytes e = Some bs \<Longrightarrow>
     hash_inputs sha prev (es @ [e]) = hash_inputs sha prev es @ [h @ bs]"
proof (induction es arbitrary: prev)
  case (Cons x es)
  then obtain k where k: "compute_event_hash sha prev x = Inr k" "stream_hash sha k es = Inr h"
    by (auto split: sum.splits)
  then show ?case using compute_event_hash_bytes [OF k(1)] Cons by auto
qed simp

lemma stream_hash_snoc:
  "stream_hash sha prev (es @ [e]) =
     (case stream_hash sha prev es of Inl x \<Rightarrow> Inl x | Inr h \<Rightarrow> compute_event_hash sha h e)"
  by (induction es arbitrary: prev) (auto split: sum.splits)

lemma stream_hash_link:
  "hex_digest sha \<Longrightarrow> link_ok prev \<Longrightarrow> stream_hash sha prev es = Inr h \<Longrightarrow> link_ok h"
  by (induction es arbitrary: prev) (auto intro: link_ok_hash split: sum.splits)

lemma stream_hash_commits:
  assumes "hex_digest sha" and "length es = length fs"
    and "stream_hash sha genesis_hash es = Inr h" and "stream_hash sha genesis_hash fs = Inr h"
  shows "map event_bytes es = map event_bytes fs \<or> collision sha es fs"
  using assms(2-4)
proof (induction es arbitrary: fs h rule: rev_induct)
  case (snoc e es)
  obtain f gs where fs: "fs = gs @ [f]" "length gs = length es"
    using snoc.prems(1) by (cases fs rule: rev_cases) auto
  obtain a where a: "stream_hash sha genesis_hash es = Inr a" "compute_event_hash sha a e = Inr h"
    using snoc.prems(2) by (auto simp: stream_hash_snoc split: sum.splits)
  obtain b where b: "stream_hash sha genesis_hash gs = Inr b" "compute_event_hash sha b f = Inr h"
    using snoc.prems(3) by (auto simp: fs stream_hash_snoc split: sum.splits)
  obtain x where x: "event_bytes e = Some x" "h = sha (a @ x)"
    using compute_event_hash_bytes [OF a(2)] by blast
  obtain y where y: "event_bytes f = Some y" "h = sha (b @ y)"
    using compute_event_hash_bytes [OF b(2)] by blast
  have inputs: "hash_inputs sha genesis_hash (es @ [e]) = hash_inputs sha genesis_hash es @ [a @ x]"
    "hash_inputs sha genesis_hash fs = hash_inputs sha genesis_hash gs @ [b @ y]"
    using hash_inputs_snoc [OF a(1) x(1)] hash_inputs_snoc [OF b(1) y(1)] fs(1) by auto
  show ?case
  proof (cases "a @ x = b @ y")
    case True
    moreover have "length a = length b"
      using stream_hash_link [OF assms(1) link_ok_genesis] a(1) b(1) by (simp add: link_ok_def)
    ultimately have "a = b" "x = y" by auto
    then have "map event_bytes es = map event_bytes gs \<or> collision sha es gs"
      using snoc.IH [of gs a] a b fs by simp
    then show ?thesis
    proof
      assume "map event_bytes es = map event_bytes gs"
      then show ?thesis using x(1) y(1) \<open>x = y\<close> fs(1) by simp
    next
      assume "collision sha es gs"
      then have "collision sha (es @ [e]) fs" unfolding collision_def inputs by auto
      then show ?thesis ..
    qed
  next
    case False
    then have "collision sha (es @ [e]) fs"
      using x(2) y(2) unfolding collision_def inputs
      by (intro bexI [of _ "a @ x"] bexI [of _ "b @ y"]) auto
    then show ?thesis ..
  qed
qed simp

end
