(* ===== verification/EventStore.thy ===== *)
theory EventStore
  imports Chain
begin

text \<open>
  The ledger writer's in-memory store (\<open>apps/trust/src/events/store.py\<close>) and the reports on a stream
  against an anchor recorded outside it (\<open>apps/trust/src/events/integrity.py\<close>).

  The texts of the reports (\<open>detail\<close>, \<open>broken_event\<close>) are not modelled. The size of a row,
  \<open>len(json.dumps(row, default=str))\<close>, is the parameter \<open>size_of\<close> of \<open>bounded_page\<close>.
\<close>

datatype event_error =
    InvalidEvent
  | UnknownEventKind
  | IdempotencyConflict
  | BrokenChain
  | EventRaised canon_error
  | EventTypeError
  | ChainRaised chain_error

definition trust_event_kinds :: "pystr list" where
  "trust_event_kinds = map u
     [''accepted'', ''auction_closed'', ''auction_opened'', ''bid_placed'', ''blacklist_expired'',
      ''blacklisted'', ''checkout_pixel'', ''checkout_redirect'', ''claim_verified'', ''code_created'',
      ''feedback'', ''offer_integrity'', ''order_fulfilled'', ''order_paid'', ''policy_event'',
      ''reconciled'', ''refund'', ''shown'']"

section \<open>Validation\<close>

text \<open>\<open>kind not in LEDGER_EVENT_KINDS\<close> raises for an unhashable kind.\<close>

fun unhashable :: "pyval \<Rightarrow> bool" where
  "unhashable (VArr _) = True"
| "unhashable (VObj _) = True"
| "unhashable _ = False"

definition normalise_event :: "pyval \<Rightarrow> event_error + pydict" where
  "normalise_event value =
     (case value of
        VObj event \<Rightarrow>
          (case canonical_event event of
             Inl e \<Rightarrow> Inl (if is_value_error e then InvalidEvent else EventRaised e)
           | Inr body \<Rightarrow>
               if u ''ts'' \<notin> set (dkeys body) then Inl InvalidEvent
               else (case dget body (u ''event_id'') of
                   Some (VStr event_id) \<Rightarrow>
                     if strip_text event_id = [] then Inl InvalidEvent
                     else (case dget body (u ''kind'') of
                         Some kind \<Rightarrow>
                           if unhashable kind then Inl EventTypeError
                           else if kind \<notin> set (map VStr trust_event_kinds) then Inl UnknownEventKind
                           else (case dget body (u ''payload'') of
                               Some (VObj _) \<Rightarrow>
                                 if \<not> list_all (\<lambda>k. k \<in> set event_fields) (dkeys body)
                                 then Inl InvalidEvent
                                 else Inr body
                             | _ \<Rightarrow> Inl InvalidEvent)
                       | None \<Rightarrow> Inl InvalidEvent)
                 | _ \<Rightarrow> Inl InvalidEvent))
      | _ \<Rightarrow> Inl InvalidEvent)"

section \<open>Reports\<close>

definition verify_stream :: "(int list \<Rightarrow> pystr) \<Rightarrow> pydict list \<Rightarrow> int option \<Rightarrow> pystr option \<Rightarrow> bool \<Rightarrow>
    event_error + (chain_report \<times> pystr option)" where
  "verify_stream sha rows expected_length expected_head allow_empty =
     (case verify_chain sha rows expected_length expected_head allow_empty of
        Inl e \<Rightarrow> Inl (ChainRaised e)
      | Inr report \<Rightarrow>
          (case stream_hash sha genesis_hash rows of
             Inl CanonicalisationError \<Rightarrow> Inr (report, None)
           | Inl e \<Rightarrow> Inl (EventRaised e)
           | Inr h \<Rightarrow> Inr (report, Some h)))"

record anchor =
  an_head_hash :: pystr
  an_length :: nat

record anchored =
  ad_report :: chain_report
  ad_stream_hash :: "pystr option"
  ad_anchor_ok :: bool

definition anchored_report :: "(int list \<Rightarrow> pystr) \<Rightarrow> pydict list \<Rightarrow> anchor option \<Rightarrow>
    event_error + anchored" where
  "anchored_report sha events committed =
     (case committed of
        None \<Rightarrow>
          (case verify_stream sha events None None False of
             Inl e \<Rightarrow> Inl e
           | Inr (report, h) \<Rightarrow>
               Inr \<lparr>ad_report = (if cr_ok report
                      then report\<lparr>cr_ok := False, cr_reason := Some AnchorMissing,
                             cr_broken_at := Some (length events)\<rparr>
                      else report),
                    ad_stream_hash = h, ad_anchor_ok = False\<rparr>)
      | Some a \<Rightarrow>
          let len = an_length a in
          (case verify_stream sha events (Some (int len))
                  (if len \<noteq> 0 then Some (an_head_hash a) else None) (len = 0) of
             Inl e \<Rightarrow> Inl e
           | Inr (report, h) \<Rightarrow>
               Inr \<lparr>ad_report = report, ad_stream_hash = h,
                    ad_anchor_ok = (length events = len \<and> (len = 0 \<or> h = Some (an_head_hash a)))\<rparr>))"

text \<open>\<open>bounded_page\<close>: the rows of the page, and whether rows were left out.\<close>

fun page_rows :: "(pydict \<Rightarrow> nat) \<Rightarrow> nat option \<Rightarrow> nat \<Rightarrow> pydict list \<Rightarrow> nat \<Rightarrow> pydict list \<Rightarrow>
    pydict list \<times> bool" where
  "page_rows size_of limit max_bytes page used [] = (page, False)"
| "page_rows size_of limit max_bytes page used (row # rows) =
     (if limit \<noteq> None \<and> length page \<ge> the limit then (page, True)
      else if page \<noteq> [] \<and> used + size_of row > max_bytes then (page, True)
      else page_rows size_of limit max_bytes (page @ [row]) (used + size_of row) rows)"

definition bounded_page :: "(pydict \<Rightarrow> nat) \<Rightarrow> nat option \<Rightarrow> nat \<Rightarrow> pydict list \<Rightarrow> pydict list \<times> bool" where
  "bounded_page size_of limit max_bytes rows = page_rows size_of limit max_bytes [] 0 rows"

section \<open>The store\<close>

record event_store =
  es_events :: "pydict list"
  es_by_id :: "(pystr, pydict) dict"
  es_anchor_length :: nat
  es_anchor_head :: pystr

record append_outcome =
  ao_event :: pydict
  ao_inserted :: bool
  ao_head_hash :: pystr
  ao_seq :: int
  ao_length :: nat

definition get_int :: "pydict \<Rightarrow> string \<Rightarrow> int option" where
  "get_int event name = (case dget event (u name) of Some (VInt n) \<Rightarrow> Some n | _ \<Rightarrow> None)"

definition seq_or_zero :: "pydict \<Rightarrow> int" where
  "seq_or_zero row = (case get_int row ''seq'' of Some n \<Rightarrow> n | None \<Rightarrow> 0)"

definition empty_event_store :: event_store where
  "empty_event_store = \<lparr>es_events = [], es_by_id = [], es_anchor_length = 0, es_anchor_head = genesis_hash\<rparr>"

text \<open>The store continued from a sealed prefix.\<close>

definition number_row :: "nat \<times> pydict \<Rightarrow> pydict" where
  "number_row p = dsetdefault (u ''seq'') (VInt (int (fst p) + 1)) (snd p)"

definition index_rows :: "pydict list \<Rightarrow> (pystr, pydict) dict" where
  "index_rows rows = foldl (\<lambda>d row. dset (the (get_text row ''event_id'')) row d) [] rows"

definition open_event_store :: "(int list \<Rightarrow> pystr) \<Rightarrow> pydict list \<Rightarrow> event_error + event_store" where
  "open_event_store sha events =
     (if events = [] then Inr empty_event_store
      else
        case verify_stream sha events None None False of
          Inl e \<Rightarrow> Inl e
        | Inr (report, _) \<Rightarrow>
            if \<not> cr_ok report then Inl BrokenChain
            else
              let rows = map number_row (enumerate 0 events) in
              (case chain_head rows of
                 Inl e \<Rightarrow> Inl (ChainRaised e)
               | Inr head \<Rightarrow>
                   Inr \<lparr>es_events = rows, es_by_id = index_rows rows, es_anchor_length = length rows,
                        es_anchor_head = head\<rparr>))"

definition same_content :: "pydict \<Rightarrow> pydict \<Rightarrow> canon_error + bool" where
  "same_content existing body =
     (case canonical_event existing of
        Inl e \<Rightarrow> Inl e
      | Inr stored \<Rightarrow>
          (case canonical_json (VObj stored) of
             Inl e \<Rightarrow> Inl e
           | Inr a \<Rightarrow>
               (case canonical_json (VObj body) of Inl e \<Rightarrow> Inl e | Inr b \<Rightarrow> Inr (a = b))))"

definition append_event :: "(int list \<Rightarrow> pystr) \<Rightarrow> pyval \<Rightarrow> event_store \<Rightarrow>
    (event_error + append_outcome) \<times> event_store" where
  "append_event sha event s =
     (case normalise_event event of
        Inl e \<Rightarrow> (Inl e, s)
      | Inr body \<Rightarrow>
          let event_id = the (get_text body ''event_id'') in
          (case dget (es_by_id s) event_id of
             Some existing \<Rightarrow>
               (case same_content existing body of
                  Inl e \<Rightarrow> (Inl (EventRaised e), s)
                | Inr False \<Rightarrow> (Inl IdempotencyConflict, s)
                | Inr True \<Rightarrow>
                    (case chain_head (es_events s) of
                       Inl e \<Rightarrow> (Inl (ChainRaised e), s)
                     | Inr head \<Rightarrow>
                         (Inr \<lparr>ao_event = existing, ao_inserted = False, ao_head_hash = head,
                               ao_seq = seq_or_zero existing, ao_length = length (es_events s)\<rparr>, s)))
           | None \<Rightarrow>
               (case chain_head (es_events s) of
                  Inl e \<Rightarrow> (Inl (ChainRaised e), s)
                | Inr head \<Rightarrow>
                    (case seal_event sha body head of
                       Inl e \<Rightarrow> (Inl (EventRaised e), s)
                     | Inr sealed0 \<Rightarrow>
                         let seq = int (length (es_events s)) + 1;
                             sealed = dset (u ''seq'') (VInt seq) sealed0;
                             s' = \<lparr>es_events = es_events s @ [sealed],
                               es_by_id = dset event_id sealed (es_by_id s),
                               es_anchor_length = es_anchor_length s + 1,
                               es_anchor_head = the (get_text sealed ''event_hash'')\<rparr>
                         in (Inr \<lparr>ao_event = sealed, ao_inserted = True, ao_head_hash = es_anchor_head s',
                                  ao_seq = seq, ao_length = es_anchor_length s'\<rparr>, s')))))"

definition event_store_anchor :: "event_store \<Rightarrow> anchor" where
  "event_store_anchor s = \<lparr>an_head_hash = es_anchor_head s, an_length = es_anchor_length s\<rparr>"

definition event_store_verify :: "(int list \<Rightarrow> pystr) \<Rightarrow> event_store \<Rightarrow> event_error + anchored" where
  "event_store_verify sha s = anchored_report sha (es_events s) (Some (event_store_anchor s))"

definition event_store_get :: "pystr \<Rightarrow> event_store \<Rightarrow> pydict option" where
  "event_store_get event_id s = dget (es_by_id s) event_id"

definition event_store_read :: "int \<Rightarrow> pystr option \<Rightarrow> pystr option \<Rightarrow> nat option \<Rightarrow> event_store \<Rightarrow> pydict list" where
  "event_store_read after_seq store_id event_id limit s =
     (let rows = filter (\<lambda>row. seq_or_zero row > after_seq \<and>
            (store_id = None \<or> get_text row ''store_id'' = store_id) \<and>
            (event_id = None \<or> get_text row ''event_id'' = event_id)) (es_events s)
      in case limit of None \<Rightarrow> rows | Some n \<Rightarrow> take n rows)"

definition event_store_page :: "(pydict \<Rightarrow> nat) \<Rightarrow> int \<Rightarrow> pystr option \<Rightarrow> nat option \<Rightarrow> nat \<Rightarrow> event_store \<Rightarrow>
    pydict list \<times> bool" where
  "event_store_page size_of after_seq store_id limit max_bytes s =
     bounded_page size_of limit max_bytes
       (filter (\<lambda>row. store_id = None \<or> get_text row ''store_id'' = store_id)
         (filter (\<lambda>row. seq_or_zero row > after_seq) (es_events s)))"

end
