(* ===== verification/EventStoreLaws.thy ===== *)
theory EventStoreLaws
  imports EventStore "HOL-Library.Sublist"
begin

text \<open>
  What every append keeps of the in-memory ledger store, and what a normalised body is: a fixed
  point of \<open>canonical_event\<close>.
\<close>

section \<open>Normalised bodies\<close>

text \<open>Every \<open>datetime\<close> of the event is a real one.\<close>

definition timed :: "pydict \<Rightarrow> bool" where
  "timed e \<longleftrightarrow> (\<forall>k t d. (k, VTime t d) \<in> set e \<longrightarrow> valid_moment t)"

definition normal_item :: "pystr \<times> pyval \<Rightarrow> bool" where
  "normal_item p \<longleftrightarrow> kept_item p \<and> (fst p = u ''ts'' \<longrightarrow> (\<exists>s. snd p = VStr s \<and> normal_stamp s))"

definition normal_body :: "pydict \<Rightarrow> bool" where
  "normal_body b \<longleftrightarrow> (\<forall>p\<in>set b. normal_item p) \<and> u ''event_id'' \<in> set (dkeys b) \<and>
     u ''kind'' \<in> set (dkeys b) \<and> u ''payload'' \<in> set (dkeys b)"

lemma body_item_normal:
  assumes "body_item p = Inr q" and "kept_item p" and "\<forall>t d. snd p = VTime t d \<longrightarrow> valid_moment t"
  shows "normal_item q"
  using assms rfc3339_normal
  by (auto simp: body_item_def normal_item_def kept_item_def split: if_splits sum.splits)

lemma all_right_normal:
  "all_right (map body_item ps) = Inr b \<Longrightarrow>
     (\<forall>p\<in>set ps. kept_item p \<and> (\<forall>t d. snd p = VTime t d \<longrightarrow> valid_moment t)) \<Longrightarrow>
     \<forall>q\<in>set b. normal_item q"
proof (induction ps arbitrary: b)
  case (Cons p ps)
  obtain q where q: "body_item p = Inr q"
    using Cons.prems(1) by (cases "body_item p") auto
  then obtain qs where "all_right (map body_item ps) = Inr qs" "b = q # qs"
    using Cons.prems(1) by (auto split: sum.splits)
  then show ?case
    using Cons q body_item_normal [OF q] by auto
qed simp

lemma set_setdefault: "set (dsetdefault k v d) \<subseteq> insert (k, v) (set d)"
  using set_dset_subset [of k v d] by (auto simp: dsetdefault_def split: option.splits)

lemma keys_setdefault: "set (dkeys (dsetdefault k v d)) = insert k (set (dkeys d))"
  using dget_None_iff [of d k] by (auto simp: dsetdefault_def dict_simps simp del: set_map split: option.splits)

lemma canonical_event_normal:
  assumes "canonical_event e = Inr b" and "timed e"
  shows "normal_body b"
proof -
  obtain b0 where b0: "all_right (map body_item (filter kept_item e)) = Inr b0"
      "u ''event_id'' \<in> set (dkeys b0)" "u ''kind'' \<in> set (dkeys b0)"
      "b = dsetdefault (u ''payload'') (VObj []) b0"
    using assms(1) by (auto simp: canonical_event_def simp del: set_map split: sum.splits if_splits)
  have "\<forall>q\<in>set b0. normal_item q"
    using assms(2) by (intro all_right_normal [OF b0(1)]) (auto simp: timed_def)
  moreover have "normal_item (u ''payload'', VObj [])"
    by (simp add: normal_item_def kept_item_def chain_fields_def u_inj)
  ultimately have "\<forall>q\<in>set b. normal_item q"
    using set_setdefault [of "u ''payload''" "VObj []" b0] b0(4) by auto
  then show ?thesis
    using b0 keys_setdefault [of "u ''payload''" "VObj []" b0]
    by (simp add: normal_body_def del: set_map)
qed

lemma canonical_event_fixed:
  assumes "normal_body b"
  shows "canonical_event b = Inr b"
proof -
  have item: "body_item p = Inr p" if "normal_item p" for p
    using that normal_stamp_fixed by (cases p) (auto simp: normal_item_def body_item_def)
  have "filter kept_item b = b"
    using assms by (auto simp: normal_body_def normal_item_def filter_id_conv)
  moreover have "map body_item b = map Inr b"
    using assms item by (simp add: normal_body_def)
  then have "all_right (map body_item b) = Inr b"
    by (simp only: all_right_Inr)
  moreover have "dsetdefault (u ''payload'') (VObj []) b = b"
    using assms dget_None_iff [of b "u ''payload''"]
    by (auto simp: dsetdefault_def normal_body_def simp del: set_map split: option.split)
  ultimately show ?thesis
    using assms by (simp add: canonical_event_def normal_body_def del: set_map)
qed

lemma normalise_event_body:
  assumes "normalise_event (VObj e) = Inr b"
  shows "canonical_event e = Inr b" and "\<exists>i. get_text b ''event_id'' = Some i"
  using assms by (auto simp: normalise_event_def get_text_def
      split: sum.splits if_splits option.splits pyval.splits)

lemma normalise_event_obj: "normalise_event v = Inr b \<Longrightarrow> \<exists>e. v = VObj e"
  by (auto simp: normalise_event_def split: pyval.splits)

section \<open>The invariant of the store\<close>

lemma get_text_other: "k \<noteq> u m \<Longrightarrow> get_text (dset k v d) m = get_text d m"
  by (simp add: get_text_def dict_simps)

lemma stored_digest_seq: "stored_digest (dset (u ''seq'') v d) = stored_digest d"
  by (simp add: stored_digest_def get_text_other u_inj)

lemma verify_event_seq: "verify_event sha prev (dset (u ''seq'') v d) = verify_event sha prev d"
proof -
  have "get_text (dset (u ''seq'') v d) ''prev_hash'' = get_text d ''prev_hash''"
    by (rule get_text_other) (simp add: u_inj)
  moreover have "compute_event_hash sha prev (dset (u ''seq'') v d) = compute_event_hash sha prev d"
    by (rule compute_event_hash_dset) simp
  ultimately show ?thesis
    unfolding verify_event_def stored_digest_seq by (simp only:)
qed

lemma verify_links_snoc:
  "verify_links sha i prev es = Inr (Inr h) \<Longrightarrow> verify_event sha h e = Inr (Inr k) \<Longrightarrow>
     verify_links sha i prev (es @ [e]) = Inr (Inr k)"
  by (induction es arbitrary: i prev) (auto split: sum.splits)

definition row_id :: "pydict \<Rightarrow> pystr option" where
  "row_id row = get_text row ''event_id''"

definition chain_ok :: "(int list \<Rightarrow> pystr) \<Rightarrow> event_store \<Rightarrow> bool" where
  "chain_ok sha s \<longleftrightarrow> link_ok (es_anchor_head s) \<and> es_anchor_length s = length (es_events s) \<and>
     verify_links sha 0 genesis_hash (es_events s) = Inr (Inr (es_anchor_head s)) \<and>
     chain_head (es_events s) = Inr (es_anchor_head s)"

definition index_ok :: "event_store \<Rightarrow> bool" where
  "index_ok s \<longleftrightarrow>
     (\<forall>k row. dget (es_by_id s) k = Some row \<longleftrightarrow> row \<in> set (es_events s) \<and> row_id row = Some k)"

definition seq_ok :: "event_store \<Rightarrow> bool" where
  "seq_ok s \<longleftrightarrow> (\<forall>i<length (es_events s). get_int (es_events s ! i) ''seq'' = Some (int i + 1))"

definition es_inv :: "(int list \<Rightarrow> pystr) \<Rightarrow> event_store \<Rightarrow> bool" where
  "es_inv sha s \<longleftrightarrow> chain_ok sha s \<and> index_ok s \<and> seq_ok s"

lemma empty_es_inv: "es_inv sha empty_event_store"
  by (simp add: es_inv_def chain_ok_def index_ok_def seq_ok_def empty_event_store_def chain_head_def)

text \<open>A successful insertion, taken apart.\<close>

lemma append_inserted:
  assumes "append_event sha v s = (Inr out, s')" and "ao_inserted out"
  obtains body i head sealed0 where "normalise_event v = Inr body" "get_text body ''event_id'' = Some i"
    "dget (es_by_id s) i = None" "chain_head (es_events s) = Inr head" "seal_event sha body head = Inr sealed0"
    "ao_event out = dset (u ''seq'') (VInt (int (length (es_events s)) + 1)) sealed0"
    "s' = \<lparr>es_events = es_events s @ [ao_event out], es_by_id = dset i (ao_event out) (es_by_id s),
       es_anchor_length = es_anchor_length s + 1,
       es_anchor_head = the (get_text (ao_event out) ''event_hash'')\<rparr>"
proof -
  obtain body where b: "normalise_event v = Inr body"
    using assms(1) by (auto simp: append_event_def split: sum.splits)
  then obtain i where i: "get_text body ''event_id'' = Some i"
    using normalise_event_obj normalise_event_body(2) by blast
  have new: "dget (es_by_id s) i = None"
  proof (cases "dget (es_by_id s) i")
    case (Some row)
    then show ?thesis
      using assms by (auto simp: append_event_def b i split: sum.splits bool.splits)
  qed simp
  obtain head where head: "chain_head (es_events s) = Inr head"
    using assms(1) by (auto simp: append_event_def b i new split: sum.splits)
  obtain sealed0 where seal: "seal_event sha body head = Inr sealed0"
    using assms(1) by (auto simp: append_event_def b i new head split: sum.splits)
  show ?thesis
    by (rule that [OF b i new head seal])
      (use assms(1) in \<open>auto simp: append_event_def b i new head seal Let_def\<close>)
qed

lemma append_not_inserted:
  "append_event sha v s = (res, s') \<Longrightarrow> (\<forall>out. res = Inr out \<longrightarrow> \<not> ao_inserted out) \<Longrightarrow> s' = s"
  by (auto simp: append_event_def Let_def split: sum.splits option.splits bool.splits)

lemma sealed_row:
  assumes "seal_event sha body head = Inr sealed0"
  shows "\<exists>h. compute_event_hash sha head body = Inr h \<and>
    get_text (dset (u ''seq'') q sealed0) ''event_hash'' = Some h \<and>
    row_id (dset (u ''seq'') q sealed0) = get_text body ''event_id'' \<and>
    canonical_event (dset (u ''seq'') q sealed0) = canonical_event body"
  using assms
  by (auto simp: seal_event_def row_id_def get_text_other get_text_dset u_inj canonical_event_dset split: sum.splits)

lemma append_chain_ok:
  assumes "hex_digest sha" and "chain_ok sha s" and "append_event sha v s = (Inr out, s')" and "ao_inserted out"
  shows "chain_ok sha s'"
  using assms(3,4)
proof (rule append_inserted)
  fix body i head sealed0
  assume h: "chain_head (es_events s) = Inr head" "seal_event sha body head = Inr sealed0"
    "ao_event out = dset (u ''seq'') (VInt (int (length (es_events s)) + 1)) sealed0"
    "s' = \<lparr>es_events = es_events s @ [ao_event out], es_by_id = dset i (ao_event out) (es_by_id s),
       es_anchor_length = es_anchor_length s + 1,
       es_anchor_head = the (get_text (ao_event out) ''event_hash'')\<rparr>"
  have head: "head = es_anchor_head s" "link_ok head"
    using h(1) assms(2) by (simp_all add: chain_ok_def)
  obtain k where k: "get_text sealed0 ''event_hash'' = Some k" "link_ok k" "verify_event sha head sealed0 = Inr (Inr k)"
    using seal_event_verifies [OF assms(1) head(2) h(2)] by blast
  have row: "get_text (ao_event out) ''event_hash'' = Some k" "verify_event sha head (ao_event out) = Inr (Inr k)"
    using k by (simp_all add: h(3) get_text_other u_inj verify_event_seq)
  have "stored_digest (ao_event out) = Some k"
    using row(1) k(2) by (cases k) (auto simp: stored_digest_def link_ok_def)
  then show ?thesis
    using assms(2) h(4) head(1) k(2) row verify_links_snoc [of sha 0 genesis_hash "es_events s" head "ao_event out" k]
    by (simp add: chain_ok_def chain_head_def)
qed

lemma append_index_ok:
  assumes "index_ok s" and "append_event sha v s = (Inr out, s')" and "ao_inserted out"
  shows "index_ok s'"
  using assms(2,3)
proof (rule append_inserted)
  fix body i head sealed0
  assume i: "get_text body ''event_id'' = Some i" and new: "dget (es_by_id s) i = None"
    and seal: "seal_event sha body head = Inr sealed0"
    and row: "ao_event out = dset (u ''seq'') (VInt (int (length (es_events s)) + 1)) sealed0"
    and s': "s' = \<lparr>es_events = es_events s @ [ao_event out], es_by_id = dset i (ao_event out) (es_by_id s),
       es_anchor_length = es_anchor_length s + 1,
       es_anchor_head = the (get_text (ao_event out) ''event_hash'')\<rparr>"
  have id: "row_id (ao_event out) = Some i"
    using sealed_row [OF seal] i unfolding row by metis
  show ?thesis
    unfolding index_ok_def
  proof (intro allI)
    fix k r
    show "dget (es_by_id s') k = Some r \<longleftrightarrow> r \<in> set (es_events s') \<and> row_id r = Some k"
    proof (cases "k = i")
      case True
      have "\<not> (r \<in> set (es_events s) \<and> row_id r = Some i)"
        using assms(1) new by (simp add: index_ok_def) (metis option.distinct(1))
      then show ?thesis using True id by (auto simp: s' dict_simps)
    next
      case False
      then show ?thesis using assms(1) id by (auto simp: s' dict_simps index_ok_def)
    qed
  qed
qed

lemma append_seq_ok:
  assumes "seq_ok s" and "append_event sha v s = (Inr out, s')" and "ao_inserted out"
  shows "seq_ok s'"
  using assms(2,3)
proof (rule append_inserted)
  fix body i head sealed0
  assume row: "ao_event out = dset (u ''seq'') (VInt (int (length (es_events s)) + 1)) sealed0"
    and s': "s' = \<lparr>es_events = es_events s @ [ao_event out], es_by_id = dset i (ao_event out) (es_by_id s),
       es_anchor_length = es_anchor_length s + 1,
       es_anchor_head = the (get_text (ao_event out) ''event_hash'')\<rparr>"
  have "get_int (ao_event out) ''seq'' = Some (int (length (es_events s)) + 1)"
    by (simp add: row get_int_def dict_simps)
  then show ?thesis
    using assms(1) by (auto simp: seq_ok_def s' nth_append less_Suc_eq)
qed

definition event_step :: "(int list \<Rightarrow> pystr) \<Rightarrow> pyval \<Rightarrow> event_store \<Rightarrow> event_store" where
  "event_step sha v s = snd (append_event sha v s)"

lemma event_step_cases:
  obtains (same) "event_step sha v s = s"
  | (inserted) out where "append_event sha v s = (Inr out, event_step sha v s)" "ao_inserted out"
proof -
  obtain res s' where a: "append_event sha v s = (res, s')" by (metis prod.collapse)
  show ?thesis
  proof (cases "\<exists>out. res = Inr out \<and> ao_inserted out")
    case True
    then show ?thesis using a that(2) by (auto simp: event_step_def)
  next
    case False
    then have "s' = s" using append_not_inserted [OF a] by blast
    then show ?thesis using a that(1) by (simp add: event_step_def)
  qed
qed

lemma event_step_inv: "hex_digest sha \<Longrightarrow> es_inv sha s \<Longrightarrow> es_inv sha (event_step sha v s)"
  by (cases rule: event_step_cases [of sha v s])
    (auto simp: es_inv_def intro: append_chain_ok append_index_ok append_seq_ok)

definition store_extends :: "event_store \<Rightarrow> event_store \<Rightarrow> bool" where
  "store_extends s t \<longleftrightarrow> prefix (es_events s) (es_events t) \<and>
     (\<forall>k row. dget (es_by_id s) k = Some row \<longrightarrow> dget (es_by_id t) k = Some row)"

lemma event_step_extends: "store_extends s (event_step sha v s)"
proof (cases rule: event_step_cases [of sha v s])
  case same
  then show ?thesis by (simp add: store_extends_def)
next
  case (inserted out)
  then show ?thesis
    by (rule append_inserted) (auto simp: store_extends_def dict_simps)
qed

interpretation event_run: monotone_machine "event_step sha" "\<lambda>s. hex_digest sha \<longrightarrow> es_inv sha s" store_extends
  for sha
proof
  fix s t w :: event_store and x
  show "hex_digest sha \<longrightarrow> es_inv sha s \<Longrightarrow> hex_digest sha \<longrightarrow> es_inv sha (event_step sha x s)"
    using event_step_inv by blast
  show "store_extends s s" by (simp add: store_extends_def)
  show "store_extends s t \<Longrightarrow> store_extends t w \<Longrightarrow> store_extends s w"
    by (auto simp: store_extends_def intro: prefix_order.trans)
  show "store_extends s (event_step sha x s)" by (rule event_step_extends)
qed

section \<open>Verification and redelivery\<close>

lemma es_inv_verify:
  assumes "chain_ok sha s"
  shows "event_store_verify sha s = Inr
    \<lparr>ad_report = \<lparr>cr_ok = True, cr_broken_at = None, cr_reason = None, cr_head_hash = es_anchor_head s,
       cr_verified = length (es_events s)\<rparr>,
     ad_stream_hash = Some (es_anchor_head s), ad_anchor_ok = True\<rparr>"
proof -
  have links: "verify_links sha 0 genesis_hash (es_events s) = Inr (Inr (es_anchor_head s))"
    and len: "es_anchor_length s = length (es_events s)" and ok: "link_ok (es_anchor_head s)"
    using assms by (simp_all add: chain_ok_def)
  have cmp: "compare_digest (es_anchor_head s) (es_anchor_head s) = Inr True"
    using ok by (simp add: compare_digest_def link_ok_def)
  have none: "es_events s = [] \<Longrightarrow> es_anchor_head s = genesis_hash"
    using links by simp
  show ?thesis
    using verify_links_stream [OF links] none
    by (cases "es_events s = []") (simp_all add: event_store_verify_def anchored_report_def event_store_anchor_def Let_def verify_stream_def
        verify_chain_def links len cmp)
qed

lemma redelivery:
  assumes "chain_ok sha s" and "normalise_event (VObj e) = Inr body" and "timed e"
    and "get_text body ''event_id'' = Some i" and "dget (es_by_id s) i = Some row"
    and "canonical_event row = Inr body" and "\<exists>t. canonical_json (VObj body) = Inr t"
  shows "append_event sha (VObj e) s =
    (Inr \<lparr>ao_event = row, ao_inserted = False, ao_head_hash = es_anchor_head s, ao_seq = seq_or_zero row,
          ao_length = length (es_events s)\<rparr>, s)"
  using assms by (auto simp: append_event_def same_content_def chain_ok_def)

end
