(* ===== verification/EventPaging.thy ===== *)
theory EventPaging
  imports EventStoreLaws
begin

text \<open>
  Reading the ledger a page at a time: the route \<open>GET /events\<close> (\<open>apps/trust/src/events/routes.py\<close>),
  the client that walks it (\<open>services/sim/seed/__main__.py\<close>), and the scan of the database in chunks
  (\<open>apps/trust/src/events/pg.py\<close>, \<open>apps/trust/src/ledger/store.py\<close>). The loops are
  \<open>partial_function (option)\<close>: that they return is a theorem.
\<close>

definition max_response_event_bytes :: nat where
  "max_response_event_bytes = 4 * 1024 * 1024"

record event_page =
  ep_events :: "pydict list"
  ep_truncated :: bool
  ep_next_after_seq :: int

text \<open>The answer of the route; every stored row carries its \<open>seq\<close>.\<close>

definition get_events :: "(pydict \<Rightarrow> nat) \<Rightarrow> int \<Rightarrow> pystr option \<Rightarrow> nat \<Rightarrow> event_store \<Rightarrow> event_page" where
  "get_events size_of after_seq store_id limit s =
     (let (events, truncated) = event_store_page size_of after_seq store_id (Some limit) max_response_event_bytes s
      in \<lparr>ep_events = events, ep_truncated = truncated,
          ep_next_after_seq = (if events \<noteq> [] then the (get_int (last events) ''seq'') else after_seq)\<rparr>)"

definition event_page_rows :: nat where
  "event_page_rows = 1000"

text \<open>The client, \<open>ask\<close> being the request for the page after a sequence number.\<close>

partial_function (option) chain_over_http ::
    "(int \<Rightarrow> event_page) \<Rightarrow> int \<Rightarrow> pydict list \<Rightarrow> pydict list option" where
  "chain_over_http ask after_seq events =
     (let body = ask after_seq;
          events' = events @ ep_events body
      in if \<not> ep_truncated body then Some events'
         else chain_over_http ask
                (if ep_next_after_seq body \<noteq> 0 then ep_next_after_seq body else after_seq) events')"

declare chain_over_http.simps [code]

text \<open>
  The query: the rows of the table after a sequence number, in its order, a few of them at most.
\<close>

definition read_events :: "pydict list \<Rightarrow> int \<Rightarrow> pystr option \<Rightarrow> nat option \<Rightarrow> pydict list" where
  "read_events table after_seq store_id limit =
     (let rows = sort_key seq_or_zero (filter (\<lambda>row. seq_or_zero row > after_seq \<and>
            (store_id = None \<or> get_text row ''store_id'' = store_id)) table)
      in case limit of None \<Rightarrow> rows | Some n \<Rightarrow> take n rows)"

definition ledger_scan_chunk :: nat where
  "ledger_scan_chunk = 100"

partial_function (option) scan_chunks ::
    "nat \<Rightarrow> (int \<Rightarrow> pydict list) \<Rightarrow> int \<Rightarrow> pydict list \<Rightarrow> pydict list option" where
  "scan_chunks chunk fetch after seen =
     (let window = fetch after
      in if window = [] then Some seen
         else if length window < chunk then Some (seen @ window)
         else scan_chunks chunk fetch (seq_or_zero (last window)) (seen @ window))"

declare scan_chunks.simps [code]

definition scan :: "pydict list \<Rightarrow> int \<Rightarrow> pystr option \<Rightarrow> pydict list option" where
  "scan table after_seq store_id =
     scan_chunks ledger_scan_chunk (\<lambda>after. read_events table after store_id (Some ledger_scan_chunk))
       after_seq []"

section \<open>A page is a non-empty prefix of what is left\<close>

lemma page_rows_prefix:
  "\<exists>k\<le>length rows. page_rows size_of limit max_bytes page used rows = (page @ take k rows, k < length rows) \<and>
     (page = [] \<and> rows \<noteq> [] \<and> limit \<noteq> Some 0 \<longrightarrow> 0 < k)"
proof (induction rows arbitrary: page used)
  case (Cons row rows)
  obtain k where k: "k \<le> length rows"
    "page_rows size_of limit max_bytes (page @ [row]) (used + size_of row) rows =
       ((page @ [row]) @ take k rows, k < length rows)"
    using Cons.IH by blast
  show ?case
  proof (cases "(limit \<noteq> None \<and> the limit \<le> length page) \<or> (page \<noteq> [] \<and> used + size_of row > max_bytes)")
    case True
    then show ?thesis by (intro exI [of _ 0]) auto
  next
    case False
    then show ?thesis using k by (intro exI [of _ "Suc k"]) auto
  qed
qed simp

lemma bounded_page_prefix:
  assumes "limit \<noteq> Some 0"
  obtains k where "k \<le> length rows" "bounded_page size_of limit max_bytes rows = (take k rows, k < length rows)"
    "rows \<noteq> [] \<Longrightarrow> 0 < k"
  using page_rows_prefix [of rows size_of limit max_bytes "[]" 0] assms
  by (auto simp: bounded_page_def)

section \<open>The client reads the whole chain\<close>

definition numbered :: "pydict list \<Rightarrow> bool" where
  "numbered rows \<longleftrightarrow> (\<forall>i<length rows. get_int (rows ! i) ''seq'' = Some (int i + 1))"

lemma numbered_after: "numbered rows \<Longrightarrow> filter (\<lambda>row. seq_or_zero row > int n) rows = drop n rows"
proof (induction rows rule: rev_induct)
  case (snoc row rows)
  have "numbered rows"
    using snoc.prems by (auto simp: numbered_def nth_append split: if_splits)
  moreover have "seq_or_zero row = int (length rows) + 1"
    using snoc.prems by (auto simp: numbered_def seq_or_zero_def)
  ultimately show ?case using snoc.IH by auto
qed simp

lemma get_events_page:
  assumes "numbered (es_events s)" and "0 < limit" and "n \<le> length (es_events s)"
  obtains m where "n \<le> m" "m \<le> length (es_events s)" "n < length (es_events s) \<longrightarrow> n < m"
    "get_events size_of (int n) None limit s =
       \<lparr>ep_events = take (m - n) (drop n (es_events s)), ep_truncated = (m < length (es_events s)),
        ep_next_after_seq = int m\<rparr>"
proof -
  let ?rows = "drop n (es_events s)"
  obtain k where k: "k \<le> length ?rows"
    "bounded_page size_of (Some limit) max_response_event_bytes ?rows = (take k ?rows, k < length ?rows)"
    "?rows \<noteq> [] \<Longrightarrow> 0 < k"
    using bounded_page_prefix [of "Some limit" ?rows size_of max_response_event_bytes] assms(2) by auto
  have page: "event_store_page size_of (int n) None (Some limit) max_response_event_bytes s =
      (take k ?rows, k < length ?rows)"
    using k(2) numbered_after [OF assms(1)] by (simp add: event_store_page_def)
  have "the (get_int (last (take k ?rows)) ''seq'') = int (n + k)" if "take k ?rows \<noteq> []"
  proof -
    have "last (take k ?rows) = es_events s ! (n + k - 1)" "n + k - 1 < length (es_events s)" "0 < k"
      using that k(1) by (auto simp: last_conv_nth min_def)
    then show ?thesis using assms(1) by (simp add: numbered_def)
  qed
  then have "get_events size_of (int n) None limit s =
      \<lparr>ep_events = take k ?rows, ep_truncated = (k < length ?rows), ep_next_after_seq = int (n + k)\<rparr>"
    using k(1) assms(3) by (auto simp: get_events_def page)
  then show ?thesis
    using that [of "n + k"] k(1,3) assms(3) by (auto simp: less_diff_conv add.commute)
qed

lemma chain_over_http_from:
  assumes "numbered (es_events s)" and "0 < limit"
  shows "n \<le> length (es_events s) \<Longrightarrow>
    chain_over_http (\<lambda>after. get_events size_of after None limit s) (int n) (take n (es_events s)) = Some (es_events s)"
proof (induction "length (es_events s) - n" arbitrary: n rule: less_induct)
  case less
  let ?ask = "\<lambda>after. get_events size_of after None limit s"
  obtain m where m: "n \<le> m" "m \<le> length (es_events s)" "n < length (es_events s) \<longrightarrow> n < m"
    "?ask (int n) = \<lparr>ep_events = take (m - n) (drop n (es_events s)),
       ep_truncated = (m < length (es_events s)), ep_next_after_seq = int m\<rparr>"
    by (rule get_events_page [OF assms less.prems, of size_of])
  have read: "take n (es_events s) @ take (m - n) (drop n (es_events s)) = take m (es_events s)"
    using m(1) by (metis le_add_diff_inverse take_add)
  show ?case
  proof (cases "m < length (es_events s)")
    case False
    then show ?thesis
      using m(2) by (subst chain_over_http.simps) (simp add: Let_def m(4) read)
  next
    case True
    then have "n < m" using m(1,3) by simp
    moreover have "chain_over_http ?ask (int m) (take m (es_events s)) = Some (es_events s)"
      by (rule less.hyps) (use True \<open>n < m\<close> in auto)
    ultimately show ?thesis
      using True by (subst chain_over_http.simps) (simp add: Let_def m(4) read)
  qed
qed


section \<open>The chunked scan\<close>

text \<open>Rows whose numbers differ, read in their order.\<close>

definition rows_after :: "pydict list \<Rightarrow> int \<Rightarrow> pystr option \<Rightarrow> pydict list" where
  "rows_after table after_seq store_id = read_events table after_seq store_id None"

lemma read_events_limit: "read_events table after store_id (Some n) = take n (rows_after table after store_id)"
  by (simp add: read_events_def rows_after_def Let_def)

lemma sort_key_filter: "sort_key f (filter P xs) = filter P (sort_key f xs)"
  by (induction xs) (auto simp: filter_insort_triv filter_insort)

lemma sorted_le_last: "sorted xs \<Longrightarrow> x \<in> set xs \<Longrightarrow> x \<le> last xs"
  by (induction xs rule: rev_induct) (auto simp: sorted_append)

lemma sorted_split:
  "sorted (map f xs) \<Longrightarrow> distinct (map f xs) \<Longrightarrow> 0 < n \<Longrightarrow> xs \<noteq> [] \<Longrightarrow>
     filter (\<lambda>x. f x > f (last (take n xs))) xs = drop n xs"
proof -
  assume s: "sorted (map f xs)" "distinct (map f xs)" and n: "0 < n" "xs \<noteq> []"
  have split: "take n xs @ drop n xs = xs" by simp
  have "sorted (map f (take n xs @ drop n xs))" "distinct (map f (take n xs @ drop n xs))"
    using s unfolding split by simp_all
  then have b: "sorted (map f (take n xs))" "\<forall>x\<in>set (take n xs). \<forall>y\<in>set (drop n xs). f x \<le> f y"
    "\<forall>x\<in>set (take n xs). \<forall>y\<in>set (drop n xs). f x \<noteq> f y"
    by (auto simp: sorted_append simp del: append_take_drop_id)
  have l: "last (take n xs) \<in> set (take n xs)" using n by (intro last_in_set) auto
  then have "\<forall>y\<in>set (drop n xs). f (last (take n xs)) < f y"
    using b(2,3) by (metis order.not_eq_order_implies_strict)
  moreover have "f x \<le> f (last (take n xs))" if "x \<in> set (take n xs)" for x
  proof -
    have "f x \<le> last (map f (take n xs))" using that by (intro sorted_le_last [OF b(1)]) auto
    then show ?thesis using n by (simp add: last_map)
  qed
  ultimately have "filter (\<lambda>x. f x > f (last (take n xs))) (take n xs @ drop n xs) = [] @ drop n xs"
    unfolding filter_append by (intro arg_cong2 [where f = append]) (auto simp: filter_empty_conv filter_id_conv not_less)
  then show ?thesis by simp
qed


lemma rows_after_sorted:
  assumes "distinct (map seq_or_zero table)"
  shows "sorted (map seq_or_zero (rows_after table after store_id))"
    "distinct (map seq_or_zero (rows_after table after store_id))"
proof -
  let ?rows = "rows_after table after store_id"
  show "sorted (map seq_or_zero ?rows)" by (simp add: rows_after_def read_events_def)
  have "mset ?rows = mset (filter (\<lambda>row. seq_or_zero row > after \<and>
      (store_id = None \<or> get_text row ''store_id'' = store_id)) table)"
    by (simp add: rows_after_def read_events_def)
  then have "mset (map seq_or_zero ?rows) = mset (map seq_or_zero (filter (\<lambda>row. seq_or_zero row > after \<and>
      (store_id = None \<or> get_text row ''store_id'' = store_id)) table))"
    by (simp only: mset_map)
  then show "distinct (map seq_or_zero ?rows)"
    using distinct_map_filter [OF assms] mset_eq_imp_distinct_iff by blast
qed

lemma rows_after_later:
  assumes "after \<le> k"
  shows "rows_after table k store_id = filter (\<lambda>row. seq_or_zero row > k) (rows_after table after store_id)"
proof -
  have "filter (\<lambda>row. seq_or_zero row > k \<and> (store_id = None \<or> get_text row ''store_id'' = store_id)) table =
      filter (\<lambda>row. seq_or_zero row > k) (filter (\<lambda>row. seq_or_zero row > after \<and>
        (store_id = None \<or> get_text row ''store_id'' = store_id)) table)"
    using assms by (auto intro: filter_cong)
  then show ?thesis
    by (simp only: rows_after_def read_events_def Let_def option.case sort_key_filter [symmetric])
qed

lemma rows_after_rest:
  assumes "distinct (map seq_or_zero table)" and "0 < n" and "rows_after table after store_id \<noteq> []"
  shows "rows_after table (seq_or_zero (last (take n (rows_after table after store_id)))) store_id =
    drop n (rows_after table after store_id)"
proof -
  let ?rows = "rows_after table after store_id"
  have "last (take n ?rows) \<in> set ?rows"
    using assms(2,3) by (metis in_set_takeD last_in_set take_eq_Nil less_numeral_extra(3))
  then have "after \<le> seq_or_zero (last (take n ?rows))"
    by (auto simp: rows_after_def read_events_def)
  then show ?thesis
    using rows_after_later sorted_split [OF rows_after_sorted [OF assms(1)] assms(2,3)] by metis
qed

lemma scan_chunks_all:
  assumes "distinct (map seq_or_zero table)" and "0 < n"
  shows "scan_chunks n (\<lambda>after. read_events table after store_id (Some n)) after seen =
    Some (seen @ rows_after table after store_id)"
proof (induction "length (rows_after table after store_id)" arbitrary: after seen rule: less_induct)
  case less
  let ?fetch = "\<lambda>after. read_events table after store_id (Some n)"
  let ?rows = "rows_after table after store_id"
  consider "?rows = []" | "?rows \<noteq> []" "length ?rows < n" | "?rows \<noteq> []" "n \<le> length ?rows"
    by linarith
  then show ?case
  proof cases
    case 1
    then show ?thesis by (subst scan_chunks.simps) (simp add: Let_def read_events_limit)
  next
    case 2
    then show ?thesis by (subst scan_chunks.simps) (simp add: Let_def read_events_limit)
  next
    case 3
    have rest: "rows_after table (seq_or_zero (last (take n ?rows))) store_id = drop n ?rows"
      by (rule rows_after_rest [OF assms 3(1)])
    have "scan_chunks n ?fetch (seq_or_zero (last (take n ?rows))) (seen @ take n ?rows) =
        Some ((seen @ take n ?rows) @ rows_after table (seq_or_zero (last (take n ?rows))) store_id)"
      by (rule less) (use 3 assms(2) in \<open>simp add: rest\<close>)
    then show ?thesis
      using 3 assms(2) by (subst scan_chunks.simps) (simp add: Let_def read_events_limit rest)
  qed
qed

end
