(* ===== verification/LedgerProps.thy ===== *)
theory LedgerProps
  imports EventPaging
begin

text \<open>
  The properties of the trust ledger: normal forms, the chain and what it commits to, and the
  in-memory store that appends to it.
\<close>

section \<open>Normal forms\<close>

text \<open>
  A timestamp is normal after one pass: whatever offset and precision it came with, the
  normalised text normalises to itself, so that a value read back out of the database hashes as the
  value that went in.
\<close>

theorem timestamps_normalise_once:
  assumes "rfc3339_ms v = Inr s" and "\<And>t d. v = VTime t d \<Longrightarrow> valid_moment t"
  shows "rfc3339_ms (VStr s) = Inr s"
  using rfc3339_normal [OF assms] by (rule normal_stamp_fixed)

text \<open>
  Canonical JSON does not depend on the order in which mappings were built, at any depth: a tree
  that differs from another only by reordered members has the same canonical text, member names
  being compared by their UTF-16 code units.
\<close>

theorem canonical_json_ignores_member_order:
  assumes "same_json v w" and "canonical_json v = Inr s"
  shows "canonical_json w = Inr s"
  by (rule canonical_same [OF assms])

section \<open>The chain\<close>

text \<open>
  What is sealed verifies: a sequence of events sealed from the genesis link passes verification
  against its own length and against its stream hash, recomputed from the content alone.
\<close>

theorem sealed_chain_verifies:
  assumes "hex_digest sha" and "chain_events sha events genesis_hash = Inr rows" and "events \<noteq> []"
  shows "\<exists>h. stream_hash sha genesis_hash events = Inr h \<and>
    verify_chain sha rows (Some (int (length events))) (Some h) False =
      Inr \<lparr>cr_ok = True, cr_broken_at = None, cr_reason = None, cr_head_hash = h,
           cr_verified = length events\<rparr>"
proof -
  obtain h where h: "verify_links sha 0 genesis_hash rows = Inr (Inr h)"
    "stream_hash sha genesis_hash events = Inr h" "length rows = length events" "link_ok h"
    using chain_events_verify [OF assms(1) link_ok_genesis assms(2), of 0] by blast
  then have "compare_digest h h = Inr True"
    by (simp add: compare_digest_def link_ok_def)
  then show ?thesis
    using h assms(3) by (auto simp: verify_chain_def Let_def)
qed

lemma verified_stream_hash:
  assumes "verify_chain sha es n head allow = Inr r" and "cr_ok r"
  shows "stream_hash sha genesis_hash es = Inr (cr_head_hash r)"
proof -
  obtain h where h: "verify_links sha 0 genesis_hash es = Inr (Inr h)"
  proof (cases "verify_links sha 0 genesis_hash es")
    case (Inl e)
    then show ?thesis using assms(1) by (simp add: verify_chain_def)
  next
    case (Inr x)
    show ?thesis
    proof (cases x)
      case (Inl report)
      have "\<not> cr_ok report" if "verify_links sha i prev es = Inr (Inl report)" for i prev
        using that by (induction es arbitrary: i prev)
          (auto simp: broken_def split: sum.splits)
      then have "\<not> cr_ok report" using Inr Inl by blast
      then show ?thesis using assms Inr Inl by (simp add: verify_chain_def)
    next
      case (Inr h)
      then show ?thesis using \<open>verify_links sha 0 genesis_hash es = Inr x\<close> that by simp
    qed
  qed
  then have "cr_head_hash r = h"
    using assms by (auto simp: verify_chain_def Let_def broken_def split: if_splits option.splits sum.splits bool.splits)
  then show ?thesis using verify_links_stream [OF h] by simp
qed

text \<open>
  C17. An intact chain commits to its content: two streams of one length that both verify and end in
  the same head carry, event by event, the same canonical bytes; otherwise they exhibit a collision
  of the digest, two different inputs that were hashed to one value.
\<close>

theorem one_head_means_one_history:
  assumes "hex_digest sha" and "length es = length fs"
    and "verify_chain sha es n head allow = Inr r" and "cr_ok r"
    and "verify_chain sha fs n' head' allow' = Inr r'" and "cr_ok r'"
    and "cr_head_hash r = cr_head_hash r'"
  shows "map event_bytes es = map event_bytes fs \<or> collision sha es fs"
  using stream_hash_commits [OF assms(1,2)] verified_stream_hash [OF assms(3,4)]
    verified_stream_hash [OF assms(5,6)] assms(7) by simp

section \<open>The store\<close>

lemma reached_inv: "hex_digest sha \<Longrightarrow> es_inv sha (fold (event_step sha) vs empty_event_store)"
  using event_run.run_inv [of sha empty_event_store vs] empty_es_inv by simp

text \<open>
  C5. Whatever is appended, refused or redelivered, the store verifies against its own anchor: the
  links hold, the length and the recomputed head are those recorded at the last insertion, and the
  events are numbered from 1 in the order of the chain.
\<close>

theorem event_store_always_verifies:
  assumes "hex_digest sha" and "s = fold (event_step sha) vs empty_event_store"
  shows "event_store_verify sha s = Inr
      \<lparr>ad_report = \<lparr>cr_ok = True, cr_broken_at = None, cr_reason = None, cr_head_hash = es_anchor_head s,
         cr_verified = length (es_events s)\<rparr>,
       ad_stream_hash = Some (es_anchor_head s), ad_anchor_ok = True\<rparr> \<and>
    map seq_or_zero (es_events s) = map (\<lambda>i. int i + 1) [0..<length (es_events s)]"
proof -
  have inv: "es_inv sha s" using reached_inv [OF assms(1)] assms(2) by simp
  then have "map seq_or_zero (es_events s) = map (\<lambda>i. int i + 1) [0..<length (es_events s)]"
    by (intro nth_equalityI) (auto simp: es_inv_def seq_ok_def seq_or_zero_def)
  then show ?thesis
    using es_inv_verify inv by (simp add: es_inv_def)
qed

lemma inserted_later:
  assumes "hex_digest sha" and "s = fold (event_step sha) vs empty_event_store"
    and "append_event sha (VObj e) s = (Inr out, s')" and "ao_inserted out"
    and "timed e" and "s2 = fold (event_step sha) ws s'"
  shows "\<exists>body i. normalise_event (VObj e) = Inr body \<and> get_text body ''event_id'' = Some i \<and>
    dget (es_by_id s2) i = Some (ao_event out) \<and> canonical_event (ao_event out) = Inr body \<and>
    (\<exists>t. canonical_json (VObj body) = Inr t) \<and> seq_or_zero (ao_event out) = int (length (es_events s)) + 1 \<and>
    chain_ok sha s2"
  using assms(3,4)
proof (rule append_inserted)
  fix body i head sealed0
  assume b: "normalise_event (VObj e) = Inr body" "get_text body ''event_id'' = Some i"
    and seal: "seal_event sha body head = Inr sealed0"
    and row: "ao_event out = dset (u ''seq'') (VInt (int (length (es_events s)) + 1)) sealed0"
    and s': "s' = \<lparr>es_events = es_events s @ [ao_event out], es_by_id = dset i (ao_event out) (es_by_id s),
       es_anchor_length = es_anchor_length s + 1,
       es_anchor_head = the (get_text (ao_event out) ''event_hash'')\<rparr>"
  have inv: "es_inv sha s" using reached_inv [OF assms(1)] assms(2) by simp
  have step: "s' = event_step sha (VObj e) s" using assms(3) by (simp add: event_step_def)
  then have inv': "hex_digest sha \<longrightarrow> es_inv sha s'"
    using event_step_inv [OF assms(1) inv] by simp
  have "store_extends s' s2"
    unfolding assms(6) by (rule event_run.run_le [OF inv'])
  then have "dget (es_by_id s2) i = Some (ao_event out)"
    by (simp add: store_extends_def s' dict_simps)
  moreover have "canonical_event (ao_event out) = canonical_event body"
    using sealed_row [OF seal] row by metis
  moreover have "canonical_event body = Inr body"
    using canonical_event_fixed canonical_event_normal normalise_event_body(1) [OF b(1)] assms(5) by blast
  moreover have "\<exists>t. canonical_json (VObj body) = Inr t"
    using seal \<open>canonical_event body = Inr body\<close>
    by (auto simp: seal_event_def compute_event_hash_def canonical_bytes_def split: sum.splits if_splits)
  moreover have "seq_or_zero (ao_event out) = int (length (es_events s)) + 1"
    by (simp add: row seq_or_zero_def get_int_def dict_simps)
  moreover have "es_inv sha s2"
    unfolding assms(6) using event_run.run_inv [OF inv'] assms(1) by blast
  ultimately show ?thesis using b by (auto simp: es_inv_def)
qed

text \<open>
  A redelivered event is a no-op: once an event was inserted, sending it again, after anything
  else that was appended meanwhile, changes nothing and returns the row that is there, under its
  own number and marked as not inserted.
\<close>

theorem redelivered_event_changes_nothing:
  assumes "hex_digest sha" and "s = fold (event_step sha) vs empty_event_store"
    and "append_event sha (VObj e) s = (Inr out, s')" and "ao_inserted out"
    and "timed e" and "s2 = fold (event_step sha) ws s'"
  shows "append_event sha (VObj e) s2 =
    (Inr \<lparr>ao_event = ao_event out, ao_inserted = False, ao_head_hash = es_anchor_head s2,
          ao_seq = int (length (es_events s)) + 1, ao_length = length (es_events s2)\<rparr>, s2)"
  using inserted_later [OF assms] redelivery [of sha s2 e] assms(5) by auto

text \<open>
  An event that reuses an id with other content is refused, and the store is left as it was: the
  id of an inserted event stands for its canonical content for good.
\<close>

theorem reused_id_with_other_content_is_refused:
  assumes "hex_digest sha" and "s = fold (event_step sha) vs empty_event_store"
    and "append_event sha (VObj e) s = (Inr out, s')" and "ao_inserted out"
    and "timed e" and "s2 = fold (event_step sha) ws s'"
    and "normalise_event (VObj e) = Inr body" and "normalise_event (VObj f) = Inr other"
    and "get_text other ''event_id'' = get_text body ''event_id''"
    and "canonical_json (VObj other) = Inr t" and "canonical_json (VObj body) \<noteq> Inr t"
  shows "append_event sha (VObj f) s2 = (Inl IdempotencyConflict, s2)"
  using inserted_later [OF assms(1-6)] assms(7-11)
  by (auto simp: append_event_def same_content_def)

text \<open>
  An event that normalises but has no canonical form is not refused as an invalid one: \<open>append\<close>
  lets the canonicaliser's own exception out, with the store unchanged.
\<close>

theorem uncanonical_event_escapes_the_refusal:
  assumes "hex_digest sha" and "s = fold (event_step sha) vs empty_event_store"
    and "normalise_event (VObj e) = Inr body" and "timed e"
    and "get_text body ''event_id'' = Some i" and "event_store_get i s = None"
    and "canonical_json (VObj body) = Inl err"
  shows "append_event sha (VObj e) s = (Inl (EventRaised err), s)"
proof -
  have "chain_ok sha s"
    using reached_inv [OF assms(1)] assms(2) by (simp add: es_inv_def)
  then have head: "chain_head (es_events s) = Inr (es_anchor_head s)" "link_ok (es_anchor_head s)"
    by (simp_all add: chain_ok_def)
  have "canonical_event body = Inr body"
    using canonical_event_fixed canonical_event_normal normalise_event_body(1) [OF assms(3)] assms(4) by blast
  then have "seal_event sha body (es_anchor_head s) = Inl err"
    using head(2) assms(7) by (simp add: seal_event_def compute_event_hash_def canonical_bytes_def link_ok_def)
  then show ?thesis
    using head(1) assms(3,5,6) by (simp add: append_event_def event_store_get_def)
qed

section \<open>Reading the chain back\<close>

text \<open>
  C36. Reading the ledger page by page over HTTP returns, and returns the whole chain in order:
  whatever the sizes of the rows, every page that is cut off moves the cursor on, and no row is
  skipped or read twice at a page boundary.
\<close>

theorem chain_over_http_returns_the_chain:
  assumes "hex_digest sha" and "s = fold (event_step sha) vs empty_event_store"
  shows "chain_over_http (\<lambda>after. get_events size_of after None event_page_rows s) 0 [] = Some (es_events s)"
proof -
  have "numbered (es_events s)"
    using reached_inv [OF assms(1)] assms(2) by (simp add: es_inv_def seq_ok_def numbered_def)
  from chain_over_http_from [OF this, of event_page_rows 0 size_of]
  show ?thesis by (simp add: event_page_rows_def)
qed

text \<open>
  Scanning the table in chunks returns, and returns what one unbounded query would: the rows
  after the cursor, filtered by store, in the order of their numbers, holes in the numbering and
  chunk boundaries notwithstanding.
\<close>

theorem scan_equals_one_query:
  assumes "distinct (map seq_or_zero table)"
  shows "scan table after_seq store_id = Some (read_events table after_seq store_id None)"
  using scan_chunks_all [OF assms, of ledger_scan_chunk store_id after_seq "[]"]
  by (simp add: scan_def ledger_scan_chunk_def rows_after_def)

section \<open>Witnesses\<close>

text \<open>A digest that tells inputs of different length apart.\<close>

definition sample_sha :: "int list \<Rightarrow> pystr" where
  "sample_sha bs = replicate 64 (48 + int (length bs) mod 10)"

lemma sample_sha_hex: "hex_digest sample_sha"
  by (auto simp: hex_digest_def sample_sha_def list_all_iff)

definition sample_event :: pydict where
  "sample_event =
     [(u ''ts'', VStr (u ''2024-01-01T01:30:00+01:00'')), (u ''kind'', VStr (u ''accepted'')),
      (u ''event_id'', VStr (u ''e1''))]"

definition sample_body :: pydict where
  "sample_body =
     [(u ''ts'', VStr (u ''2024-01-01T00:30:00.000Z'')), (u ''kind'', VStr (u ''accepted'')),
      (u ''event_id'', VStr (u ''e1'')), (u ''payload'', VObj [])]"

lemma sample_timed: "timed sample_event"
  by (simp add: timed_def sample_event_def)

theorem timestamps_normalise_once_witness:
  "rfc3339_ms (VStr (u ''2024-01-01T00:30:00.000Z'')) = Inr (u ''2024-01-01T00:30:00.000Z'')"
proof (rule timestamps_normalise_once)
  show "rfc3339_ms (VStr (u ''2024-01-01T01:30:00+01:00'')) = Inr (u ''2024-01-01T00:30:00.000Z'')"
    by code_simp
qed simp


theorem canonical_json_ignores_member_order_witness:
  "canonical_json (VObj [(u ''b'', VBool True), (u ''a'', VStr (u ''x''))]) = Inr (u ''{\"a\":\"x\",\"b\":true}'')"
proof (rule canonical_json_ignores_member_order)
  show "same_json (VObj [(u ''a'', VStr (u ''x'')), (u ''b'', VBool True)])
      (VObj [(u ''b'', VBool True), (u ''a'', VStr (u ''x''))])"
    by (rule members [where ns = "[(u ''a'', VStr (u ''x'')), (u ''b'', VBool True)]"])
      (simp_all add: u_def same)
  show "canonical_json (VObj [(u ''a'', VStr (u ''x'')), (u ''b'', VBool True)]) =
      Inr (u ''{\"a\":\"x\",\"b\":true}'')"
    by code_simp
qed

definition sample_rows :: "pydict list" where
  "sample_rows = (case chain_events sample_sha [sample_event] genesis_hash of Inr rows \<Rightarrow> rows | _ \<Rightarrow> [])"

definition numbered_rows :: "pydict list" where
  "numbered_rows = map (dset (u ''seq'') (VInt 7)) sample_rows"

definition sample_head :: pystr where
  "sample_head = (case stream_hash sample_sha genesis_hash sample_rows of Inr h \<Rightarrow> h | _ \<Rightarrow> [])"

definition sample_report :: chain_report where
  "sample_report = \<lparr>cr_ok = True, cr_broken_at = None, cr_reason = None, cr_head_hash = sample_head,
     cr_verified = 1\<rparr>"

theorem sealed_chain_verifies_witness:
  "\<exists>h. stream_hash sample_sha genesis_hash [sample_event] = Inr h \<and>
    verify_chain sample_sha sample_rows (Some 1) (Some h) False =
      Inr \<lparr>cr_ok = True, cr_broken_at = None, cr_reason = None, cr_head_hash = h, cr_verified = 1\<rparr>"
proof -
  have "chain_events sample_sha [sample_event] genesis_hash = Inr sample_rows"
    by code_simp
  from sealed_chain_verifies [OF sample_sha_hex this] show ?thesis by simp
qed

theorem one_head_means_one_history_witness:
  "map event_bytes sample_rows = map event_bytes numbered_rows \<or>
   collision sample_sha sample_rows numbered_rows"
proof (rule one_head_means_one_history [OF sample_sha_hex])
  show "length sample_rows = length numbered_rows" by (simp add: numbered_rows_def)
  show "verify_chain sample_sha sample_rows None None False = Inr sample_report" by code_simp
  show "verify_chain sample_sha numbered_rows (Some 1) None False = Inr sample_report" by code_simp
qed (simp_all add: sample_report_def)

theorem event_store_always_verifies_witness:
  "ad_anchor_ok (case event_store_verify sample_sha (event_step sample_sha (VObj sample_event) empty_event_store) of
     Inr r \<Rightarrow> r)"
proof -
  have "event_step sample_sha (VObj sample_event) empty_event_store =
      fold (event_step sample_sha) [VObj sample_event] empty_event_store"
    by simp
  from event_store_always_verifies [OF sample_sha_hex this] show ?thesis by simp
qed

definition other_event :: pydict where
  "other_event =
     [(u ''event_id'', VStr (u ''e2'')), (u ''kind'', VStr (u ''shown'')),
      (u ''ts'', VStr (u ''2024-01-01T00:31:00Z''))]"

definition reused_event :: pydict where
  "reused_event =
     [(u ''event_id'', VStr (u ''e1'')), (u ''kind'', VStr (u ''shown'')),
      (u ''ts'', VStr (u ''2024-01-01T00:31:00Z''))]"

definition reused_body :: pydict where
  "reused_body =
     [(u ''event_id'', VStr (u ''e1'')), (u ''kind'', VStr (u ''shown'')),
      (u ''ts'', VStr (u ''2024-01-01T00:31:00.000Z'')), (u ''payload'', VObj [])]"

definition sample_store :: event_store where
  "sample_store = event_step sample_sha (VObj sample_event) empty_event_store"

definition sample_out :: append_outcome where
  "sample_out = (case fst (append_event sample_sha (VObj sample_event) empty_event_store) of Inr out \<Rightarrow> out)"

lemma sample_append:
  "append_event sample_sha (VObj sample_event) empty_event_store = (Inr sample_out, sample_store)"
  "ao_inserted sample_out"
  by code_simp+

theorem redelivered_event_changes_nothing_witness:
  "snd (append_event sample_sha (VObj sample_event) (event_step sample_sha (VObj other_event) sample_store)) =
     event_step sample_sha (VObj other_event) sample_store"
  using redelivered_event_changes_nothing [OF sample_sha_hex _ sample_append sample_timed,
      of "[]" "event_step sample_sha (VObj other_event) sample_store" "[VObj other_event]"]
  by simp

theorem reused_id_with_other_content_is_refused_witness:
  "append_event sample_sha (VObj reused_event) (event_step sample_sha (VObj other_event) sample_store) =
     (Inl IdempotencyConflict, event_step sample_sha (VObj other_event) sample_store)"
proof (rule reused_id_with_other_content_is_refused [OF sample_sha_hex _ sample_append sample_timed,
      where vs = "[]" and ws = "[VObj other_event]" and body = sample_body and other = reused_body])
  show "normalise_event (VObj sample_event) = Inr sample_body" by code_simp
  show "normalise_event (VObj reused_event) = Inr reused_body" by code_simp
  show "get_text reused_body ''event_id'' = get_text sample_body ''event_id''" by code_simp
  show "canonical_json (VObj reused_body) =
      Inr (u ''{\"event_id\":\"e1\",\"kind\":\"shown\",\"payload\":{},\"ts\":\"2024-01-01T00:31:00.000Z\"}'')"
    by code_simp
  show "canonical_json (VObj sample_body) \<noteq>
      Inr (u ''{\"event_id\":\"e1\",\"kind\":\"shown\",\"payload\":{},\"ts\":\"2024-01-01T00:31:00.000Z\"}'')"
    by code_simp
qed simp_all

text \<open>A payload that holds an unpaired surrogate.\<close>

definition surrogate_event :: pydict where
  "surrogate_event =
     [(u ''event_id'', VStr (u ''e1'')), (u ''kind'', VStr (u ''shown'')),
      (u ''ts'', VStr (u ''2024-01-01T00:31:00.000Z'')), (u ''payload'', VObj [(u ''note'', VStr [55296])])]"

theorem uncanonical_event_escapes_the_refusal_witness:
  "append_event sample_sha (VObj surrogate_event) empty_event_store =
     (Inl (EventRaised CanonicalisationError), empty_event_store)"
proof (rule uncanonical_event_escapes_the_refusal [OF sample_sha_hex,
      where vs = "[]" and body = surrogate_event and i = "u ''e1''"])
  show "normalise_event (VObj surrogate_event) = Inr surrogate_event" by code_simp
  show "timed surrogate_event" by (simp add: timed_def surrogate_event_def)
  show "get_text surrogate_event ''event_id'' = Some (u ''e1'')" by code_simp
  show "event_store_get (u ''e1'') empty_event_store = None" by code_simp
  show "canonical_json (VObj surrogate_event) = Inl CanonicalisationError" by code_simp
qed simp


theorem chain_over_http_returns_the_chain_witness:
  "chain_over_http (\<lambda>after. get_events length after None event_page_rows sample_store) 0 [] =
     Some (es_events sample_store)"
  by (rule chain_over_http_returns_the_chain [OF sample_sha_hex, where vs = "[VObj sample_event]"])
    (simp add: sample_store_def)

definition sample_table :: "pydict list" where
  "sample_table = [[(u ''seq'', VInt 9)], [(u ''seq'', VInt 2)], [(u ''seq'', VInt 4)]]"

theorem scan_equals_one_query_witness:
  "scan sample_table 2 None = Some [[(u ''seq'', VInt 4)], [(u ''seq'', VInt 9)]]"
proof -
  have "distinct (map seq_or_zero sample_table)" by code_simp
  then have "scan sample_table 2 None = Some (read_events sample_table 2 None None)"
    by (rule scan_equals_one_query)
  also have "read_events sample_table 2 None None = [[(u ''seq'', VInt 4)], [(u ''seq'', VInt 9)]]"
    by code_simp
  finally show ?thesis .
qed

end
