(* ===== verification/EnvelopeModel.thy ===== *)
theory EnvelopeModel
  imports PyJson
begin

text \<open>
  A merchant's envelope, its approval and the digest an approval is bound to
  (\<open>apps/merchant/svc/src/envelope/model.py\<close>, \<open>digest.py\<close>, \<open>frozen.py\<close>).

  Documents are JSON mappings (\<^typ>\<open>pyval\<close>); an \<open>Envelope\<close> passed where a document is expected is its
  \<open>to_dict\<close>, as \<open>as_document\<close> has it. What lies outside the repository is a field of
  \<open>envelope_lib\<close>: pydantic's validation of the pinned document against the published contract (the
  fields it accepted, or \<open>None\<close>), \<open>datetime.fromisoformat\<close> (the fields and the offset in minutes, or
  \<open>None\<close> for the \<open>ValueError\<close>), and SHA-256 from bytes to the hex digest.
\<close>

datatype activation = Shadow | Active | Killed

fun activation_name :: "activation \<Rightarrow> pystr" where
  "activation_name Shadow = u ''shadow''"
| "activation_name Active = u ''active''"
| "activation_name Killed = u ''killed''"

datatype envelope_error =
    EnvelopeInvalid
  | EnvelopeEditRefused
  | ReviveRefused
  | ApprovalRejected
  | UnknownStore
  | VersionWentBackwards
  | StoreMismatch
  | DigestValueError
  | DigestTypeError
  | FreezeTypeError
  | StampOverflow
  | RepositoryRaised

record contract_terms =
  ct_store_id :: pystr
  ct_version :: int
  ct_floors :: "(pystr option \<times> pyfloat) list"
  ct_max_discount_pct :: pyfloat
  ct_budget_cap :: pyfloat
  ct_pursue_clusters :: "pystr list"
  ct_activation :: activation

record envelope_lib =
  el_validate :: "pydict \<Rightarrow> contract_terms option"
  el_fromisoformat :: "pystr \<Rightarrow> (moment \<times> int option) option"
  el_sha256 :: "int list \<Rightarrow> pystr"

record approval =
  ap_approver :: pystr
  ap_approved_at :: pystr
  ap_envelope_hash :: pystr
  ap_note :: "pystr option"
  ap_document_ref :: "pystr option"

record envelope =
  en_store_id :: pystr
  en_version :: int
  en_floors :: "(pystr option \<times> pyfloat) list"
  en_max_discount_pct :: pyfloat
  en_budget_cap :: pyfloat
  en_pursue_clusters :: "pystr list"
  en_standing_commitments :: "pyval list"
  en_activation :: activation
  en_approval :: "approval option"

definition term_fields :: "pystr list" where
  "term_fields = map u [''store_id'', ''version'', ''floors'', ''max_discount_pct'', ''budget_cap'',
     ''pursue_clusters'', ''standing_commitments'']"

definition envelope_fields :: "pystr list" where
  "envelope_fields = term_fields @ [u ''activation'']"

definition editable_fields :: "pystr list" where
  "editable_fields = map u [''floors'', ''max_discount_pct'', ''budget_cap'', ''pursue_clusters'',
     ''standing_commitments'']"

definition first_version :: int where
  "first_version = 1"

section \<open>Approvals\<close>

definition approval_fields :: "pystr list" where
  "approval_fields = map u [''approver'', ''approved_at'', ''envelope_hash'', ''note'', ''document_ref'']"

text \<open>\<open>datetime.isoformat\<close> of a moment in UTC.\<close>

definition isoformat_utc :: "moment \<Rightarrow> pystr" where
  "isoformat_utc t =
     pad_digits 4 (mo_year t) @ 45 # pad_digits 2 (mo_month t) @ 45 # pad_digits 2 (mo_day t) @
     84 # pad_digits 2 (mo_hour t) @ 58 # pad_digits 2 (mo_minute t) @ 58 # pad_digits 2 (mo_second t) @
     (if mo_micro t = 0 then [] else 46 # pad_digits 6 (mo_micro t)) @ u ''+00:00''"

definition utc_timestamp :: "envelope_lib \<Rightarrow> pystr \<Rightarrow> envelope_error + pystr" where
  "utc_timestamp lib raw =
     (case el_fromisoformat lib raw of
        None \<Rightarrow> Inl ApprovalRejected
      | Some (moment, None) \<Rightarrow> Inl ApprovalRejected
      | Some (moment, Some offset) \<Rightarrow>
          (case minus_minutes moment offset of
             None \<Rightarrow> Inl StampOverflow
           | Some t \<Rightarrow> Inr (isoformat_utc t)))"

definition required_text :: "pydict \<Rightarrow> string \<Rightarrow> envelope_error + pystr" where
  "required_text raw key =
     (case dget raw (u key) of
        Some (VStr s) \<Rightarrow> if strip_text s = [] then Inl ApprovalRejected else Inr (strip_text s)
      | _ \<Rightarrow> Inl ApprovalRejected)"

definition optional_text :: "pydict \<Rightarrow> string \<Rightarrow> envelope_error + pystr option" where
  "optional_text raw key =
     (case dget raw (u key) of
        None \<Rightarrow> Inr None
      | Some VNone \<Rightarrow> Inr None
      | Some (VStr s) \<Rightarrow> if strip_text s = [] then Inl ApprovalRejected else Inr (Some (strip_text s))
      | _ \<Rightarrow> Inl ApprovalRejected)"

definition parse_approval :: "envelope_lib \<Rightarrow> pyval \<Rightarrow> envelope_error + approval" where
  "parse_approval lib raw =
     (case raw of
        VObj doc \<Rightarrow>
          if \<not> list_all (\<lambda>k. k \<in> set approval_fields) (dkeys doc) then Inl ApprovalRejected
          else
            and_then (required_text doc ''approver'') (\<lambda>approver.
            and_then (required_text doc ''approved_at'') (\<lambda>stamp.
            and_then (required_text doc ''envelope_hash'') (\<lambda>envelope_hash.
            and_then (utc_timestamp lib stamp) (\<lambda>approved_at.
            and_then (optional_text doc ''note'') (\<lambda>note.
            and_then (optional_text doc ''document_ref'') (\<lambda>document_ref.
              Inr \<lparr>ap_approver = approver, ap_approved_at = approved_at, ap_envelope_hash = envelope_hash,
                   ap_note = note, ap_document_ref = document_ref\<rparr>))))))
      | _ \<Rightarrow> Inl ApprovalRejected)"

definition approval_dict :: "approval \<Rightarrow> pydict" where
  "approval_dict a =
     [(u ''approver'', VStr (ap_approver a)), (u ''approved_at'', VStr (ap_approved_at a)),
      (u ''envelope_hash'', VStr (ap_envelope_hash a))] @
     (case ap_note a of None \<Rightarrow> [] | Some note \<Rightarrow> [(u ''note'', VStr note)]) @
     (case ap_document_ref a of None \<Rightarrow> [] | Some ref \<Rightarrow> [(u ''document_ref'', VStr ref)])"

section \<open>Envelopes\<close>

definition text_or_none :: "pystr option \<Rightarrow> pyval" where
  "text_or_none t = (case t of None \<Rightarrow> VNone | Some s \<Rightarrow> VStr s)"

definition floor_dict :: "pystr option \<times> pyfloat \<Rightarrow> pyval" where
  "floor_dict f = VObj [(u ''product_ref'', text_or_none (fst f)), (u ''min_price'', VFloat (snd f))]"

definition envelope_dict :: "envelope \<Rightarrow> pydict" where
  "envelope_dict e =
     [(u ''store_id'', VStr (en_store_id e)),
      (u ''version'', VInt (en_version e)),
      (u ''floors'', VArr (map floor_dict (en_floors e))),
      (u ''max_discount_pct'', VFloat (en_max_discount_pct e)),
      (u ''budget_cap'', VFloat (en_budget_cap e)),
      (u ''pursue_clusters'', VArr (map VStr (en_pursue_clusters e))),
      (u ''standing_commitments'', VArr (en_standing_commitments e)),
      (u ''activation'', VStr (activation_name (en_activation e))),
      (u ''approval'', (case en_approval e of None \<Rightarrow> VNone | Some a \<Rightarrow> VObj (approval_dict a)))]"

definition with_activation :: "activation \<Rightarrow> approval option \<Rightarrow> envelope \<Rightarrow> envelope" where
  "with_activation a appr e = e\<lparr>en_activation := a, en_approval := appr\<rparr>"

definition as_document :: "pyval \<Rightarrow> envelope_error + pydict" where
  "as_document raw = (case raw of VObj doc \<Rightarrow> Inr doc | _ \<Rightarrow> Inl EnvelopeInvalid)"

text \<open>What \<open>freeze\<close> accepts: JSON.\<close>

fun freezable :: "pyval \<Rightarrow> bool" where
  "freezable (VArr items) = list_all (\<lambda>b. b) (map freezable items)"
| "freezable (VObj members) = list_all (\<lambda>b. b) (map (\<lambda>p. freezable (snd p)) members)"
| "freezable (VTime t d) = False"
| "freezable VOther = False"
| "freezable v = True"

text \<open>The \<open>approval\<close> argument: \<open>KEEP\<close>, \<open>None\<close>, or an artifact.\<close>

datatype approval_arg = Keep | NoApproval | Given pyval

definition resolve_approval :: "envelope_lib \<Rightarrow> pydict \<Rightarrow> approval_arg \<Rightarrow> envelope_error + approval option" where
  "resolve_approval lib doc arg =
     (case arg of
        Keep \<Rightarrow>
          (case dget doc (u ''approval'') of
             None \<Rightarrow> Inr None
           | Some VNone \<Rightarrow> Inr None
           | Some carried \<Rightarrow> map_sum id Some (parse_approval lib carried))
      | NoApproval \<Rightarrow> Inr None
      | Given raw \<Rightarrow> map_sum id Some (parse_approval lib raw))"

definition pin_document :: "pydict \<Rightarrow> pydict" where
  "pin_document doc =
     map (\<lambda>k. (k, case dget doc k of None \<Rightarrow> VNone | Some v \<Rightarrow> v)) envelope_fields"

definition commitments_of :: "pydict \<Rightarrow> pyval list" where
  "commitments_of pinned = (case dget pinned (u ''standing_commitments'') of Some (VArr claims) \<Rightarrow> claims | _ \<Rightarrow> [])"

definition from_obj :: "envelope_lib \<Rightarrow> pyval \<Rightarrow> approval_arg \<Rightarrow> envelope_error + envelope" where
  "from_obj lib raw arg =
     and_then (as_document raw) (\<lambda>doc.
     and_then (resolve_approval lib doc arg) (\<lambda>resolved.
       let pinned = pin_document doc in
       case el_validate lib pinned of
         None \<Rightarrow> Inl EnvelopeInvalid
       | Some validated \<Rightarrow>
           if \<not> list_all freezable (commitments_of pinned) then Inl FreezeTypeError
           else Inr
             \<lparr>en_store_id = ct_store_id validated, en_version = ct_version validated,
              en_floors = ct_floors validated, en_max_discount_pct = ct_max_discount_pct validated,
              en_budget_cap = ct_budget_cap validated, en_pursue_clusters = ct_pursue_clusters validated,
              en_standing_commitments = commitments_of pinned, en_activation = ct_activation validated,
              en_approval = resolved\<rparr>))"

section \<open>The approved terms and their digest\<close>

text \<open>
  \<open>_canonical\<close> (digest.py): members without a value are dropped, the others sorted by name. A value is
  \<open>None\<close> after the conversion exactly when it was before.
\<close>

fun canonical_claim :: "pyval \<Rightarrow> pyval" where
  "canonical_claim (VObj members) =
     VObj (filter (\<lambda>p. snd p \<noteq> VNone)
       (sort_key fst (map (\<lambda>p. (fst p, canonical_claim (snd p))) members)))"
| "canonical_claim (VArr items) = VArr (map canonical_claim items)"
| "canonical_claim v = v"

definition stable_key :: "pyval \<Rightarrow> pystr" where
  "stable_key v = (case json_dumps True v of Some t \<Rightarrow> t | None \<Rightarrow> [])"

definition approved_terms :: "envelope \<Rightarrow> pydict" where
  "approved_terms e =
     [(u ''store_id'', VStr (en_store_id e)),
      (u ''version'', VInt (en_version e)),
      (u ''floors'', VArr (sort_key stable_key (map floor_dict (en_floors e)))),
      (u ''max_discount_pct'', VFloat (en_max_discount_pct e)),
      (u ''budget_cap'', VFloat (en_budget_cap e)),
      (u ''pursue_clusters'', VArr (map VStr (sort (en_pursue_clusters e)))),
      (u ''standing_commitments'',
         VArr (sort_key stable_key (map canonical_claim (en_standing_commitments e))))]"

definition canonical_text :: "envelope \<Rightarrow> pystr option" where
  "canonical_text e = json_dumps False (VObj (approved_terms e))"

text \<open>\<open>None\<close> for the \<open>ValueError\<close> of a non-finite number or an unpaired surrogate.\<close>

definition approval_digest :: "envelope_lib \<Rightarrow> envelope \<Rightarrow> pystr option" where
  "approval_digest lib e =
     (case canonical_text e of
        None \<Rightarrow> None
      | Some t \<Rightarrow> if list_ex surrogate t then None
          else Some (u ''sha256:'' @ el_sha256 lib (concat (map utf8_bytes t))))"

definition approval_covers :: "envelope_lib \<Rightarrow> envelope \<Rightarrow> pystr \<Rightarrow> envelope_error + bool" where
  "approval_covers lib e envelope_hash =
     (if strip_text envelope_hash = [] then Inr False
      else case approval_digest lib e of
          None \<Rightarrow> Inl DigestValueError
        | Some digest \<Rightarrow>
            if list_ex (\<lambda>c. c \<ge> 128) digest \<or> list_ex (\<lambda>c. c \<ge> 128) (strip_text envelope_hash)
            then Inl DigestTypeError
            else Inr (digest = strip_text envelope_hash))"

end
