(* ===== verification/EnvelopeStore.thy ===== *)
theory EnvelopeStore
  imports EnvelopeModel
begin

text \<open>
  Versions of an envelope and the history of a store's envelopes
  (\<open>apps/merchant/svc/src/envelope/versions.py\<close>, \<open>store.py\<close>, \<open>repository.py\<close>) and the gate of the
  bidding path (\<open>apps/merchant/svc/src/bidding/gate.py\<close>).

  The repository is a state of any type \<open>'r\<close> with the operation \<open>persist\<close>: whether the write was
  filed, and the repository afterwards. The in-memory repository is \<open>mem_persist\<close>.
\<close>

section \<open>Versions\<close>

definition edit_envelope :: "envelope_lib \<Rightarrow> pyval \<Rightarrow> pyval \<Rightarrow> envelope_error + envelope" where
  "edit_envelope lib raw changes =
     and_then (from_obj lib raw Keep) (\<lambda>current.
       case changes of
         VObj edits \<Rightarrow>
           if edits = [] then Inl EnvelopeEditRefused
           else if \<not> list_all (\<lambda>k. k \<in> set editable_fields) (dkeys edits) then Inl EnvelopeEditRefused
           else
             let document = dset (u ''activation'')
                   (VStr (activation_name (if en_activation current = Killed then Killed else Shadow)))
                   (dset (u ''version'') (VInt (en_version current + 1))
                     (dupdate (envelope_dict current) edits))
             in from_obj lib (VObj document) NoApproval
       | _ \<Rightarrow> Inl EnvelopeEditRefused)"

definition activate_envelope :: "envelope_lib \<Rightarrow> pyval \<Rightarrow> pyval \<Rightarrow> envelope_error + envelope" where
  "activate_envelope lib raw approval =
     and_then (from_obj lib raw NoApproval) (\<lambda>current.
       if en_activation current = Killed then Inl ApprovalRejected
       else
         and_then (parse_approval lib approval) (\<lambda>artifact.
         and_then (approval_covers lib current (ap_envelope_hash artifact)) (\<lambda>covered.
           if \<not> covered then Inl ApprovalRejected
           else Inr (with_activation Active (Some artifact) current))))"

definition kill_envelope :: "envelope_lib \<Rightarrow> pyval \<Rightarrow> envelope_error + envelope" where
  "kill_envelope lib raw =
     and_then (from_obj lib raw Keep) (\<lambda>current. Inr (with_activation Killed (en_approval current) current))"

definition revive_envelope :: "envelope_lib \<Rightarrow> pyval \<Rightarrow> envelope_error + envelope" where
  "revive_envelope lib raw =
     and_then (from_obj lib raw Keep) (\<lambda>current.
       if en_activation current \<noteq> Killed then Inl ReviveRefused
       else Inr (with_activation Shadow None current))"

section \<open>The store\<close>

record 'r envelope_versions =
  ev_repository :: 'r
  ev_history :: "(pystr, envelope list) dict"

text \<open>\<open>_refuse_unapproved_activation\<close>\<close>

definition refuse_unapproved_activation :: "envelope_lib \<Rightarrow> envelope \<Rightarrow> envelope_error option" where
  "refuse_unapproved_activation lib candidate =
     (if en_activation candidate \<noteq> Active then None
      else case en_approval candidate of
          None \<Rightarrow> Some ApprovalRejected
        | Some approval \<Rightarrow>
            (case approval_covers lib candidate (ap_envelope_hash approval) of
               Inl e \<Rightarrow> Some e
             | Inr covered \<Rightarrow> if covered then None else Some ApprovalRejected))"

definition history_of :: "pystr \<Rightarrow> 'r envelope_versions \<Rightarrow> envelope list" where
  "history_of store_id s = (case dget (ev_history s) store_id of None \<Rightarrow> [] | Some versions \<Rightarrow> versions)"

definition goes_backwards :: "envelope \<Rightarrow> envelope list \<Rightarrow> bool" where
  "goes_backwards candidate history \<longleftrightarrow> history \<noteq> [] \<and> en_version candidate < en_version (last history)"

definition file_version :: "envelope \<Rightarrow> (pystr, envelope list) dict \<Rightarrow> (pystr, envelope list) dict" where
  "file_version candidate d =
     dset (en_store_id candidate)
       ((case dget d (en_store_id candidate) of None \<Rightarrow> [] | Some versions \<Rightarrow> versions) @ [candidate]) d"

definition record_envelope :: "envelope_lib \<Rightarrow> (envelope \<Rightarrow> 'r \<Rightarrow> bool \<times> 'r) \<Rightarrow> pyval \<Rightarrow> 'r envelope_versions \<Rightarrow>
    (envelope_error + envelope) \<times> 'r envelope_versions" where
  "record_envelope lib persist raw s =
     (case from_obj lib raw Keep of
        Inl e \<Rightarrow> (Inl e, s)
      | Inr candidate \<Rightarrow>
          (case refuse_unapproved_activation lib candidate of
             Some e \<Rightarrow> (Inl e, s)
           | None \<Rightarrow>
               if goes_backwards candidate (history_of (en_store_id candidate) s)
               then (Inl VersionWentBackwards, s)
               else
                 let (filed, r) = persist candidate (ev_repository s) in
                 if \<not> filed then (Inl RepositoryRaised, s\<lparr>ev_repository := r\<rparr>)
                 else (Inr candidate,
                       s\<lparr>ev_repository := r, ev_history := file_version candidate (ev_history s)\<rparr>)))"

definition current_envelope :: "pystr \<Rightarrow> 'r envelope_versions \<Rightarrow> envelope_error + envelope" where
  "current_envelope store_id s =
     (case history_of store_id s of [] \<Rightarrow> Inl UnknownStore | h \<Rightarrow> Inr (last h))"

definition store_is_live :: "pystr \<Rightarrow> 'r envelope_versions \<Rightarrow> bool" where
  "store_is_live store_id s =
     (case current_envelope store_id s of Inl _ \<Rightarrow> False | Inr e \<Rightarrow> en_activation e = Active)"

text \<open>
  The operations: what each computes from the history before it takes the lock (\<open>prepare\<close>), and then
  \<open>record\<close>.
\<close>

datatype envelope_op =
    PutTerms pystr pyval
  | Activate pystr pyval
  | Kill pystr
  | Revive pystr

definition put_changes :: "envelope \<Rightarrow> pydict" where
  "put_changes submitted =
     [(u ''floors'', VArr (map floor_dict (en_floors submitted))),
      (u ''max_discount_pct'', VFloat (en_max_discount_pct submitted)),
      (u ''budget_cap'', VFloat (en_budget_cap submitted)),
      (u ''pursue_clusters'', VArr (map VStr (en_pursue_clusters submitted))),
      (u ''standing_commitments'', VArr (en_standing_commitments submitted))]"

definition prepare_put :: "envelope_lib \<Rightarrow> pystr \<Rightarrow> pyval \<Rightarrow> 'r envelope_versions \<Rightarrow> envelope_error + envelope" where
  "prepare_put lib store_id terms s =
     and_then (from_obj lib terms NoApproval) (\<lambda>submitted.
       if en_store_id submitted \<noteq> store_id then Inl StoreMismatch
       else case current_envelope store_id s of
           Inl _ \<Rightarrow>
             and_then (from_obj lib (VObj (dset (u ''version'') (VInt first_version) (envelope_dict submitted)))
                 NoApproval)
               (\<lambda>first. Inr (with_activation Shadow None first))
         | Inr head \<Rightarrow> edit_envelope lib (VObj (envelope_dict head)) (VObj (put_changes submitted)))"

definition on_current :: "pystr \<Rightarrow> 'r envelope_versions \<Rightarrow> (pyval \<Rightarrow> envelope_error + envelope) \<Rightarrow>
    envelope_error + envelope" where
  "on_current store_id s f = and_then (current_envelope store_id s) (\<lambda>e. f (VObj (envelope_dict e)))"

fun prepare :: "envelope_lib \<Rightarrow> envelope_op \<Rightarrow> 'r envelope_versions \<Rightarrow> envelope_error + envelope" where
  "prepare lib (PutTerms store_id terms) s = prepare_put lib store_id terms s"
| "prepare lib (Activate store_id approval) s = on_current store_id s (\<lambda>raw. activate_envelope lib raw approval)"
| "prepare lib (Kill store_id) s = on_current store_id s (kill_envelope lib)"
| "prepare lib (Revive store_id) s = on_current store_id s (revive_envelope lib)"

definition record_prepared :: "envelope_lib \<Rightarrow> (envelope \<Rightarrow> 'r \<Rightarrow> bool \<times> 'r) \<Rightarrow> envelope_error + envelope \<Rightarrow>
    'r envelope_versions \<Rightarrow> (envelope_error + envelope) \<times> 'r envelope_versions" where
  "record_prepared lib persist prepared s =
     (case prepared of
        Inl e \<Rightarrow> (Inl e, s)
      | Inr candidate \<Rightarrow> record_envelope lib persist (VObj (envelope_dict candidate)) s)"

definition put_terms where
  "put_terms lib persist store_id terms s = record_prepared lib persist (prepare lib (PutTerms store_id terms) s) s"

definition activate_store where
  "activate_store lib persist store_id approval s =
     record_prepared lib persist (prepare lib (Activate store_id approval) s) s"

definition kill_store where
  "kill_store lib persist store_id s = record_prepared lib persist (prepare lib (Kill store_id) s) s"

definition revive_store where
  "revive_store lib persist store_id s = record_prepared lib persist (prepare lib (Revive store_id) s) s"

section \<open>Restoring\<close>

definition restorable :: "envelope_lib \<Rightarrow> envelope \<Rightarrow> envelope_error + envelope" where
  "restorable lib e =
     (if en_activation e \<noteq> Active then Inr e
      else case en_approval e of
          None \<Rightarrow> Inr (with_activation Shadow None e)
        | Some approval \<Rightarrow>
            and_then (approval_covers lib e (ap_envelope_hash approval)) (\<lambda>covered.
              if covered then Inr e else Inr (with_activation Shadow None e)))"

fun restore_versions :: "envelope_lib \<Rightarrow> envelope list \<Rightarrow> (pystr, envelope list) dict \<Rightarrow>
    envelope_error + (pystr, envelope list) dict" where
  "restore_versions lib [] d = Inr d"
| "restore_versions lib (stored # rest) d =
     and_then (from_obj lib (VObj (envelope_dict stored)) Keep) (\<lambda>read.
     and_then (restorable lib read) (\<lambda>candidate.
       case refuse_unapproved_activation lib candidate of
         Some e \<Rightarrow> Inl e
       | None \<Rightarrow>
           if goes_backwards candidate
                (case dget d (en_store_id candidate) of None \<Rightarrow> [] | Some versions \<Rightarrow> versions)
           then Inl VersionWentBackwards
           else restore_versions lib rest (file_version candidate d)))"

text \<open>\<open>EnvelopeVersions(repository)\<close>, \<open>loaded\<close> being what \<open>repository.load()\<close> returned.\<close>

definition open_versions :: "envelope_lib \<Rightarrow> 'r \<Rightarrow> (pystr, envelope list) dict \<Rightarrow>
    envelope_error + 'r envelope_versions" where
  "open_versions lib repository loaded =
     (case restore_versions lib (concat (map snd loaded)) [] of
        Inl e \<Rightarrow> Inl e
      | Inr history \<Rightarrow> Inr \<lparr>ev_repository = repository, ev_history = history\<rparr>)"

text \<open>\<open>InMemoryEnvelopeRepository.persist\<close>\<close>

definition mem_persist :: "envelope \<Rightarrow> (pystr, envelope list) dict \<Rightarrow> bool \<times> (pystr, envelope list) dict" where
  "mem_persist e d = (True, file_version e d)"

section \<open>The bidding gate\<close>

record bidding_decision =
  bd_store_id :: pystr
  bd_activation :: activation
  bd_version :: "int option"
  bd_may_bid :: bool

definition decide :: "pystr \<Rightarrow> 'r envelope_versions \<Rightarrow> bidding_decision" where
  "decide store_id s =
     (case current_envelope store_id s of
        Inl _ \<Rightarrow> \<lparr>bd_store_id = store_id, bd_activation = Shadow, bd_version = None, bd_may_bid = False\<rparr>
      | Inr e \<Rightarrow> \<lparr>bd_store_id = store_id, bd_activation = en_activation e, bd_version = Some (en_version e),
                 bd_may_bid = (en_activation e = Active)\<rparr>)"

definition store_may_bid :: "pystr \<Rightarrow> 'r envelope_versions \<Rightarrow> bool" where
  "store_may_bid store_id s = bd_may_bid (decide store_id s)"

section \<open>Concurrent writers\<close>

text \<open>
  Each operation reads the current envelope without the lock, and takes the lock only to record: the
  threads of the pool interleave between the two. \<open>Begin t op\<close> is the first half of an operation,
  \<open>Finish t\<close> the second; \<open>RecordNow\<close> is a document recorded directly.
\<close>

record 'r envelope_net =
  net_versions :: "'r envelope_versions"
  net_flights :: "(nat, envelope) dict"

datatype net_move = Begin nat envelope_op | Finish nat | RecordNow pyval

fun net_step :: "envelope_lib \<Rightarrow> (envelope \<Rightarrow> 'r \<Rightarrow> bool \<times> 'r) \<Rightarrow> net_move \<Rightarrow> 'r envelope_net \<Rightarrow> 'r envelope_net" where
  "net_step lib persist (Begin t op) n =
     (case prepare lib op (net_versions n) of
        Inl _ \<Rightarrow> n
      | Inr candidate \<Rightarrow> n\<lparr>net_flights := dset t candidate (net_flights n)\<rparr>)"
| "net_step lib persist (Finish t) n =
     (case dget (net_flights n) t of
        None \<Rightarrow> n
      | Some candidate \<Rightarrow>
          n\<lparr>net_versions := snd (record_envelope lib persist (VObj (envelope_dict candidate)) (net_versions n)),
            net_flights := dpop t (net_flights n)\<rparr>)"
| "net_step lib persist (RecordNow raw) n =
     n\<lparr>net_versions := snd (record_envelope lib persist raw (net_versions n))\<rparr>"

end
