(* ===== verification/EnvelopeLaws.thy ===== *)
theory EnvelopeLaws
  imports EnvelopeStore "HOL-Library.Sublist"
begin

text \<open>
  What the operations keep: every filed version belongs to the store it is filed under, a live one is
  covered by its approval, the versions of a history never decrease and a history only grows.
\<close>

section \<open>Documents and their fields\<close>

text \<open>
  What the code relies on of the contract's validation: a text, an integer and a name of the
  enumeration come out as they went in.
\<close>

definition lawful_contract :: "envelope_lib \<Rightarrow> bool" where
  "lawful_contract lib \<longleftrightarrow>
     (\<forall>doc c. el_validate lib doc = Some c \<longrightarrow>
        (\<forall>s. dget doc (u ''store_id'') = Some (VStr s) \<longrightarrow> ct_store_id c = s) \<and>
        (\<forall>n. dget doc (u ''version'') = Some (VInt n) \<longrightarrow> ct_version c = n) \<and>
        (\<forall>a. dget doc (u ''activation'') = Some (VStr (activation_name a)) \<longrightarrow> ct_activation c = a))"

lemma u_eq [simp]: "u s = u t \<longleftrightarrow> s = t"
  unfolding u_def by (rule inj_map_eq_map [OF inj_of_char])

lemma dget_map_self: "dget (map (\<lambda>k. (k, f k)) ks) k = (if k \<in> set ks then Some (f k) else None)"
  by (induction ks) auto

lemma pin_document_field:
  "k \<in> set envelope_fields \<Longrightarrow> dget doc k = Some v \<Longrightarrow> dget (pin_document doc) k = Some v"
  by (simp add: pin_document_def dget_map_self)

lemma field_names [simp]:
  "u ''store_id'' \<in> set envelope_fields" "u ''version'' \<in> set envelope_fields"
  "u ''activation'' \<in> set envelope_fields"
  by (simp_all add: envelope_fields_def term_fields_def)

lemma from_obj_fields:
  assumes "lawful_contract lib" and "from_obj lib (VObj doc) arg = Inr e"
  shows "dget doc (u ''store_id'') = Some (VStr s) \<Longrightarrow> en_store_id e = s"
    and "dget doc (u ''version'') = Some (VInt n) \<Longrightarrow> en_version e = n"
    and "dget doc (u ''activation'') = Some (VStr (activation_name a)) \<Longrightarrow> en_activation e = a"
proof -
  obtain c where c: "el_validate lib (pin_document doc) = Some c"
    "en_store_id e = ct_store_id c" "en_version e = ct_version c" "en_activation e = ct_activation c"
    using assms(2) by (auto simp: from_obj_def and_then_Inr as_document_def Let_def split: option.splits if_splits)
  note law = assms(1) [unfolded lawful_contract_def, rule_format, OF c(1)]
  show "dget doc (u ''store_id'') = Some (VStr s) \<Longrightarrow> en_store_id e = s"
    using law c(2) pin_document_field [of "u ''store_id''" doc] by simp
  show "dget doc (u ''version'') = Some (VInt n) \<Longrightarrow> en_version e = n"
    using law c(3) pin_document_field [of "u ''version''" doc] by simp
  show "dget doc (u ''activation'') = Some (VStr (activation_name a)) \<Longrightarrow> en_activation e = a"
    using law c(4) pin_document_field [of "u ''activation''" doc] by simp
qed

lemma envelope_dict_fields:
  "dget (envelope_dict e) (u ''store_id'') = Some (VStr (en_store_id e))"
  "dget (envelope_dict e) (u ''version'') = Some (VInt (en_version e))"
  "dget (envelope_dict e) (u ''activation'') = Some (VStr (activation_name (en_activation e)))"
  by (simp_all add: envelope_dict_def)

lemma from_envelope:
  assumes "lawful_contract lib" and "from_obj lib (VObj (envelope_dict e)) arg = Inr e'"
  shows "en_store_id e' = en_store_id e" "en_version e' = en_version e" "en_activation e' = en_activation e"
  using from_obj_fields [OF assms] by (simp_all add: envelope_dict_fields)

lemma with_activation_simps [simp]:
  "en_activation (with_activation a p e) = a" "en_approval (with_activation a p e) = p"
  "en_store_id (with_activation a p e) = en_store_id e" "en_version (with_activation a p e) = en_version e"
  by (simp_all add: with_activation_def)

section \<open>Histories\<close>

definition versions_ok :: "envelope_lib \<Rightarrow> (pystr, envelope list) dict \<Rightarrow> bool" where
  "versions_ok lib d \<longleftrightarrow>
     (\<forall>k h. dget d k = Some h \<longrightarrow> h \<noteq> [] \<and>
        (\<forall>e\<in>set h. en_store_id e = k \<and> refuse_unapproved_activation lib e = None) \<and>
        sorted (map en_version h))"

lemma versions_okD:
  "versions_ok lib d \<Longrightarrow> dget d k = Some h \<Longrightarrow> sorted (map en_version h) \<and>
     (\<forall>e\<in>set h. en_store_id e = k \<and> refuse_unapproved_activation lib e = None)"
  unfolding versions_ok_def by blast

lemma sorted_filed:
  "sorted (map en_version h) \<Longrightarrow> \<not> goes_backwards c h \<Longrightarrow> sorted (map en_version (h @ [c]))"
  by (cases h rule: rev_cases) (auto simp: goes_backwards_def sorted_append not_less)

lemma file_version_get:
  "dget (file_version c d) k =
     (if k = en_store_id c then Some ((case dget d k of None \<Rightarrow> [] | Some h \<Rightarrow> h) @ [c]) else dget d k)"
  by (simp add: file_version_def dict_simps)

lemma versions_ok_file:
  assumes "versions_ok lib d" and "refuse_unapproved_activation lib c = None"
    and "\<not> goes_backwards c (case dget d (en_store_id c) of None \<Rightarrow> [] | Some h \<Rightarrow> h)"
  shows "versions_ok lib (file_version c d)"
proof -
  let ?h = "case dget d (en_store_id c) of None \<Rightarrow> [] | Some h \<Rightarrow> h"
  have "sorted (map en_version ?h) \<and>
    (\<forall>e\<in>set ?h. en_store_id e = en_store_id c \<and> refuse_unapproved_activation lib e = None)"
    using versions_okD [OF assms(1)] by (cases "dget d (en_store_id c)") simp_all
  then have "sorted (map en_version (?h @ [c]))"
    "\<forall>e\<in>set (?h @ [c]). en_store_id e = en_store_id c \<and> refuse_unapproved_activation lib e = None"
    using sorted_filed [OF _ assms(3)] assms(2) by auto
  note filed = this
  show ?thesis
    unfolding versions_ok_def
  proof (intro allI impI)
    fix k h
    assume h: "dget (file_version c d) k = Some h"
    show "h \<noteq> [] \<and> (\<forall>e\<in>set h. en_store_id e = k \<and> refuse_unapproved_activation lib e = None) \<and>
      sorted (map en_version h)"
    proof (cases "k = en_store_id c")
      case True
      then have "h = ?h @ [c]" using h by (simp add: file_version_get)
      moreover have "?h @ [c] \<noteq> []" by simp
      ultimately show ?thesis using filed unfolding True by blast
    next
      case False
      then have "dget d k = Some h" using h by (simp add: file_version_get)
      with assms(1) show ?thesis unfolding versions_ok_def by blast
    qed
  qed
qed

lemma record_cases:
  obtains (kept) "ev_history (snd (record_envelope lib persist raw s)) = ev_history s"
  | (filed) c r where "from_obj lib raw Keep = Inr c" "refuse_unapproved_activation lib c = None"
      "\<not> goes_backwards c (history_of (en_store_id c) s)"
      "snd (record_envelope lib persist raw s) =
         s\<lparr>ev_repository := r, ev_history := file_version c (ev_history s)\<rparr>"
proof (cases "from_obj lib raw Keep")
  case (Inl e)
  then show thesis using kept by (simp add: record_envelope_def)
next
  case (Inr c)
  obtain filed r where p: "persist c (ev_repository s) = (filed, r)" by fastforce
  show thesis
    using kept filed [OF Inr, of r] Inr p unfolding record_envelope_def
    by (cases "refuse_unapproved_activation lib c"; cases "goes_backwards c (history_of (en_store_id c) s)";
        cases filed) simp_all
qed

lemma record_versions_ok:
  "versions_ok lib (ev_history s) \<Longrightarrow> versions_ok lib (ev_history (snd (record_envelope lib persist raw s)))"
  by (cases rule: record_cases [of lib persist raw s])
    (simp_all add: versions_ok_file history_of_def)

definition histories_extend :: "'r envelope_versions \<Rightarrow> 'r envelope_versions \<Rightarrow> bool" where
  "histories_extend s t \<longleftrightarrow> (\<forall>k. prefix (history_of k s) (history_of k t))"

lemma record_extends: "histories_extend s (snd (record_envelope lib persist raw s))"
  by (cases rule: record_cases [of lib persist raw s])
    (auto simp: histories_extend_def history_of_def file_version_get split: option.splits)

interpretation envelope_run: monotone_machine "net_step lib persist"
    "\<lambda>n. versions_ok lib (ev_history (net_versions n))"
    "\<lambda>m n. histories_extend (net_versions m) (net_versions n)"
  for lib persist
proof
  fix m n k :: "'a envelope_net" and x
  show "versions_ok lib (ev_history (net_versions n)) \<Longrightarrow>
      versions_ok lib (ev_history (net_versions (net_step lib persist x n)))"
    by (cases x) (auto simp: record_versions_ok split: sum.splits option.splits)
  show "histories_extend (net_versions n) (net_versions n)" by (simp add: histories_extend_def)
  show "histories_extend (net_versions m) (net_versions n) \<Longrightarrow> histories_extend (net_versions n) (net_versions k) \<Longrightarrow>
      histories_extend (net_versions m) (net_versions k)"
    unfolding histories_extend_def by (meson prefix_order.trans)
  show "histories_extend (net_versions n) (net_versions (net_step lib persist x n))"
    by (cases x) (auto simp: record_extends histories_extend_def split: sum.splits option.splits
      intro: record_extends [unfolded histories_extend_def, rule_format])
qed

lemma restore_versions_ok:
  "restore_versions lib stored d = Inr d' \<Longrightarrow> versions_ok lib d \<Longrightarrow> versions_ok lib d'"
  by (induction stored arbitrary: d)
    (auto simp: and_then_Inr versions_ok_file split: option.splits if_splits)

lemma open_versions_ok: "open_versions lib r loaded = Inr s \<Longrightarrow> versions_ok lib (ev_history s)"
  using restore_versions_ok [of lib "concat (map snd loaded)" "[]"]
  by (auto simp: open_versions_def versions_ok_def [of lib "[]"] split: sum.splits)

lemma current_in_history: "current_envelope k s = Inr e \<longleftrightarrow> history_of k s \<noteq> [] \<and> e = last (history_of k s)"
  by (auto simp: current_envelope_def split: list.splits)

lemma versions_ok_history:
  "versions_ok lib (ev_history s) \<Longrightarrow> sorted (map en_version (history_of k s)) \<and>
     (\<forall>e\<in>set (history_of k s). en_store_id e = k \<and> refuse_unapproved_activation lib e = None)"
  using versions_okD [of lib "ev_history s" k] by (cases "dget (ev_history s) k") (simp_all add: history_of_def)

lemma current_versions_ok:
  assumes "versions_ok lib (ev_history s)" and "current_envelope k s = Inr e"
  shows "en_store_id e = k" "refuse_unapproved_activation lib e = None"
  using versions_ok_history [OF assms(1), of k] assms(2) by (simp_all add: current_in_history)

end
