(* ===== verification/EnvelopeProps.thy ===== *)
theory EnvelopeProps
  imports EnvelopeLaws
begin

text \<open>
  The properties of the envelope store, under every interleaving of the threads that write to it.
\<close>

section \<open>Live means approved\<close>

definition envelope_start :: "'r envelope_versions \<Rightarrow> 'r envelope_net" where
  "envelope_start s = \<lparr>net_versions = s, net_flights = []\<rparr>"

lemma reached_versions_ok:
  assumes "open_versions lib r loaded = Inr s"
  shows "versions_ok lib (ev_history (net_versions (fold (net_step lib persist) moves (envelope_start s))))"
  by (rule envelope_run.run_inv) (simp add: envelope_start_def open_versions_ok [OF assms])

text \<open>
  C16. A store bids only under an approval of its current terms: whatever was loaded, and however
  writers interleave, when the gate lets a store bid its current envelope is active and carries an
  approval artifact whose hash is the digest of exactly these terms.
\<close>

theorem bidding_store_is_approved:
  assumes "open_versions lib r loaded = Inr s"
    and "n = fold (net_step lib persist) moves (envelope_start s)" and "store_may_bid k (net_versions n)"
  shows "\<exists>e a. current_envelope k (net_versions n) = Inr e \<and> en_store_id e = k \<and> en_activation e = Active \<and>
    en_approval e = Some a \<and> approval_digest lib e = Some (strip_text (ap_envelope_hash a))"
proof -
  have ok: "versions_ok lib (ev_history (net_versions n))"
    unfolding assms(2) by (rule reached_versions_ok [OF assms(1)])
  obtain e where e: "current_envelope k (net_versions n) = Inr e" "en_activation e = Active"
    using assms(3) by (auto simp: store_may_bid_def decide_def split: sum.splits)
  have "refuse_unapproved_activation lib e = None" "en_store_id e = k"
    using current_versions_ok [OF ok e(1)] by simp_all
  then show ?thesis
    using e by (auto simp: refuse_unapproved_activation_def approval_covers_def
        split: option.splits sum.splits if_splits)
qed

text \<open>
  Histories are append-only and versions never go backwards: what was on file for a store stays
  on file, in its order, and along every history the version numbers never decrease.
\<close>

theorem envelope_history_is_append_only:
  assumes "open_versions lib r loaded = Inr s"
    and "n = fold (net_step lib persist) moves (envelope_start s)"
    and "m = fold (net_step lib persist) later n"
  shows "prefix (history_of k (net_versions n)) (history_of k (net_versions m)) \<and>
    sorted (map en_version (history_of k (net_versions m)))"
proof -
  have "versions_ok lib (ev_history (net_versions n))"
    unfolding assms(2) by (rule reached_versions_ok [OF assms(1)])
  from envelope_run.run_le [OF this, of persist later] envelope_run.run_inv [OF this, of persist later]
  show ?thesis
    using versions_ok_history [of lib "net_versions m" k] assms(3) by (simp add: histories_extend_def)
qed

section \<open>The kill switch\<close>

fun op_store :: "envelope_op \<Rightarrow> pystr" where
  "op_store (PutTerms k terms) = k"
| "op_store (Activate k approval) = k"
| "op_store (Kill k) = k"
| "op_store (Revive k) = k"

lemma on_current_Inr:
  "on_current k s f = Inr c \<longleftrightarrow> (\<exists>e. current_envelope k s = Inr e \<and> f (VObj (envelope_dict e)) = Inr c)"
  by (simp add: on_current_def and_then_Inr)

lemma edit_envelope_fields:
  assumes "lawful_contract lib" and "edit_envelope lib (VObj (envelope_dict e)) (VObj edits) = Inr c"
  shows "en_store_id c = en_store_id e" "en_version c = en_version e + 1"
    "en_activation e = Killed \<Longrightarrow> en_activation c = Killed" "en_activation e \<noteq> Killed \<Longrightarrow> en_activation c = Shadow"
proof -
  obtain current where cur: "from_obj lib (VObj (envelope_dict e)) Keep = Inr current"
    and keys: "list_all (\<lambda>k. k \<in> set editable_fields) (dkeys edits)"
    and c: "from_obj lib (VObj (dset (u ''activation'')
        (VStr (activation_name (if en_activation current = Killed then Killed else Shadow)))
        (dset (u ''version'') (VInt (en_version current + 1)) (dupdate (envelope_dict current) edits))))
      NoApproval = Inr c"
    using assms(2) by (auto simp: edit_envelope_def and_then_Inr Let_def split: if_splits)
  have "u ''store_id'' \<notin> set (dkeys edits)"
    using keys by (auto simp: list_all_iff editable_fields_def)
  then have "dget (dupdate (envelope_dict current) edits) (u ''store_id'') = Some (VStr (en_store_id current))"
    by (simp add: dget_dupdate_absent envelope_dict_fields)
  then show "en_store_id c = en_store_id e" "en_version c = en_version e + 1"
    "en_activation e = Killed \<Longrightarrow> en_activation c = Killed" "en_activation e \<noteq> Killed \<Longrightarrow> en_activation c = Shadow"
    using from_obj_fields [OF assms(1) c] from_envelope [OF assms(1) cur] by (simp_all add: dict_simps)
qed

lemma prepare_store:
  assumes "lawful_contract lib" and "versions_ok lib (ev_history s)" and "prepare lib op s = Inr c"
  shows "en_store_id c = op_store op"
proof (cases op)
  case (PutTerms k terms)
  then obtain submitted where sub: "en_store_id submitted = k"
    and put: "(case current_envelope k s of
        Inl _ \<Rightarrow> and_then (from_obj lib (VObj (dset (u ''version'') (VInt first_version) (envelope_dict submitted)))
          NoApproval) (\<lambda>first. Inr (with_activation Shadow None first))
      | Inr head \<Rightarrow> edit_envelope lib (VObj (envelope_dict head)) (VObj (put_changes submitted))) = Inr c"
    using assms(3) by (auto simp: prepare_put_def and_then_Inr split: if_splits)
  show ?thesis
  proof (cases "current_envelope k s")
    case (Inl x)
    then obtain first where f: "from_obj lib (VObj (dset (u ''version'') (VInt first_version) (envelope_dict submitted)))
        NoApproval = Inr first" "c = with_activation Shadow None first"
      using put by (auto simp: and_then_Inr)
    have "en_store_id first = k"
      using from_obj_fields(1) [OF assms(1) f(1)] sub by (simp add: dict_simps envelope_dict_fields)
    then show ?thesis using f(2) PutTerms by simp
  next
    case (Inr head)
    then show ?thesis
      using edit_envelope_fields(1) [OF assms(1)] put current_versions_ok(1) [OF assms(2) Inr] PutTerms by simp
  qed
qed (use assms current_versions_ok(1) [OF assms(2)] from_envelope(1) [OF assms(1)] in
    \<open>auto simp: on_current_Inr activate_envelope_def kill_envelope_def revive_envelope_def and_then_Inr
      split: if_splits\<close>)

lemma prepare_killed:
  assumes "lawful_contract lib" and "versions_ok lib (ev_history s)" and "prepare lib op s = Inr c"
    and "en_store_id c = k" and "op \<noteq> Revive k"
    and "current_envelope k s = Inr e" and "en_activation e = Killed"
  shows "en_activation c = Killed"
proof -
  have "op_store op = k" using prepare_store [OF assms(1-3)] assms(4) by simp
  then show ?thesis
    using assms(3,5-7) edit_envelope_fields(3) [OF assms(1)] from_envelope(3) [OF assms(1)]
    by (cases op) (auto simp: prepare_put_def on_current_Inr activate_envelope_def kill_envelope_def
        and_then_Inr split: if_splits)
qed

text \<open>The store's head is killed, and so is every version of it that a writer still holds.\<close>

definition killed_net :: "pystr \<Rightarrow> 'r envelope_net \<Rightarrow> bool" where
  "killed_net k n \<longleftrightarrow>
     (\<exists>e. current_envelope k (net_versions n) = Inr e \<and> en_activation e = Killed) \<and>
     (\<forall>t c. dget (net_flights n) t = Some c \<longrightarrow> en_store_id c = k \<longrightarrow> en_activation c = Killed)"

text \<open>The moves that may lift the kill: a revive of the store, and a document recorded directly.\<close>

fun may_lift :: "pystr \<Rightarrow> net_move \<Rightarrow> bool" where
  "may_lift k (Begin t op) = (op = Revive k)"
| "may_lift k (Finish t) = False"
| "may_lift k (RecordNow raw) = True"

lemma record_killed:
  assumes "lawful_contract lib" and "current_envelope k s = Inr e" and "en_activation e = Killed"
    and "en_store_id c = k \<Longrightarrow> en_activation c = Killed"
  shows "\<exists>e'. current_envelope k (snd (record_envelope lib persist (VObj (envelope_dict c)) s)) = Inr e' \<and>
    en_activation e' = Killed"
proof (cases rule: record_cases [of lib persist "VObj (envelope_dict c)" s])
  case kept
  then have "history_of k (snd (record_envelope lib persist (VObj (envelope_dict c)) s)) = history_of k s"
    by (simp add: history_of_def)
  then show ?thesis using assms(2,3) by (simp add: current_in_history)
next
  case (filed c' r)
  note same = from_envelope [OF assms(1) filed(1)]
  show ?thesis
  proof (cases "en_store_id c = k")
    case True
    then have "history_of k (snd (record_envelope lib persist (VObj (envelope_dict c)) s)) = history_of k s @ [c']"
      using same(1) filed(4) by (simp add: history_of_def file_version_get)
    then show ?thesis using True same(3) assms(4) by (simp add: current_in_history)
  next
    case False
    then have "history_of k (snd (record_envelope lib persist (VObj (envelope_dict c)) s)) = history_of k s"
      using same(1) filed(4) by (simp add: history_of_def file_version_get)
    then show ?thesis using assms(2,3) by (simp add: current_in_history)
  qed
qed

lemma killed_step:
  assumes "lawful_contract lib" and "versions_ok lib (ev_history (net_versions n))" and "killed_net k n"
    and "\<not> may_lift k move"
  shows "killed_net k (net_step lib persist move n)"
proof -
  obtain e where e: "current_envelope k (net_versions n) = Inr e" "en_activation e = Killed"
    using assms(3) by (auto simp: killed_net_def)
  have flights: "dget (net_flights n) t = Some c \<Longrightarrow> en_store_id c = k \<Longrightarrow> en_activation c = Killed" for t c
    using assms(3) by (auto simp: killed_net_def)
  show ?thesis
  proof (cases move)
    case (Begin t op)
    then show ?thesis
      using prepare_killed [OF assms(1,2) _ _ _ e, where op = op] assms(4) e flights
      by (auto simp: killed_net_def dict_simps split: sum.splits)
  next
    case (Finish t)
    then show ?thesis
      using record_killed [OF assms(1) e, of _ persist] flights e
      by (auto simp: killed_net_def dict_simps split: option.splits)
  qed (use assms(4) in simp)
qed

text \<open>
  C30. A killed store stays out of the auctions: once its head is killed and no older write to it is
  still in flight, no edit, approval or further kill, in any interleaving with writes to other
  stores, lets it bid again; only a revive can.
\<close>

theorem killed_store_stays_killed:
  assumes "lawful_contract lib" and "open_versions lib r loaded = Inr s"
    and "n = fold (net_step lib persist) moves (envelope_start s)"
    and "killed_net k n" and "list_all (\<lambda>move. \<not> may_lift k move) later"
  shows "\<not> store_may_bid k (net_versions (fold (net_step lib persist) later n))"
proof -
  have "versions_ok lib (ev_history (net_versions n))"
    unfolding assms(3) by (rule reached_versions_ok [OF assms(2)])
  then have "killed_net k (fold (net_step lib persist) later n)"
    using assms(4,5)
  proof (induction later arbitrary: n)
    case (Cons move later)
    have "killed_net k (net_step lib persist move n)"
      by (rule killed_step [OF assms(1) Cons.prems(1,2)]) (use Cons.prems(3) in simp)
    moreover note envelope_run.step_inv [OF Cons.prems(1), of persist move]
    ultimately show ?case using Cons by simp
  qed simp
  then show ?thesis by (auto simp: killed_net_def store_may_bid_def decide_def)
qed


lemma approval_covers_activation [simp]:
  "approval_covers lib (with_activation a p e) h = approval_covers lib e h"
  by (simp add: approval_covers_def approval_digest_def canonical_text_def approved_terms_def with_activation_def)

lemma record_accepted:
  assumes "from_obj lib (VObj (envelope_dict c)) Keep = Inr c" and "refuse_unapproved_activation lib c = None"
    and "\<And>e. current_envelope (en_store_id c) s = Inr e \<Longrightarrow> en_version e \<le> en_version c"
    and "\<And>r. fst (persist c r)"
  shows "current_envelope (en_store_id c) (snd (record_envelope lib persist (VObj (envelope_dict c)) s)) = Inr c"
proof -
  obtain r where p: "persist c (ev_repository s) = (True, r)"
    using assms(4) [of "ev_repository s"] by (cases "persist c (ev_repository s)") auto
  have "\<not> goes_backwards c (history_of (en_store_id c) s)"
    using assms(3) by (auto simp: goes_backwards_def current_in_history)
  then have "snd (record_envelope lib persist (VObj (envelope_dict c)) s) =
      s\<lparr>ev_repository := r, ev_history := file_version c (ev_history s)\<rparr>"
    using assms(1,2) p unfolding record_envelope_def by simp
  then show ?thesis by (simp add: current_in_history history_of_def file_version_get)
qed

lemma activated:
  assumes "lawful_contract lib" and "activate_envelope lib (VObj (envelope_dict e)) approval = Inr a"
  shows "en_activation a = Active" "en_version a = en_version e" "refuse_unapproved_activation lib a = None"
  using assms(2) from_envelope(2) [OF assms(1)]
  by (auto simp: activate_envelope_def and_then_Inr refuse_unapproved_activation_def split: if_splits)

text \<open>
  A kill is lost to an approval in flight: when an activation has read the current envelope and
  the kill switch is pulled before it takes the lock, the kill is recorded, the store stops bidding,
  and then the activation is recorded over it, since its version is not older, and the store bids again.
\<close>

theorem kill_is_lost_to_an_activation_in_flight:
  assumes "lawful_contract lib" and "open_versions lib r loaded = Inr s"
    and "prepare lib (Activate k approval) s = Inr a" and "from_obj lib (VObj (envelope_dict a)) Keep = Inr a"
    and "prepare lib (Kill k) s = Inr x" and "from_obj lib (VObj (envelope_dict x)) Keep = Inr x"
    and "\<And>c r. fst (persist c r)"
  shows "\<not> store_may_bid k (net_versions
      (fold (net_step lib persist) [Begin 0 (Activate k approval), Begin 1 (Kill k), Finish 1] (envelope_start s))) \<and>
    store_may_bid k (net_versions
      (fold (net_step lib persist) [Begin 0 (Activate k approval), Begin 1 (Kill k), Finish 1, Finish 0]
        (envelope_start s)))"
proof -
  note ok = open_versions_ok [OF assms(2)]
  obtain e where e: "current_envelope k s = Inr e"
    "activate_envelope lib (VObj (envelope_dict e)) approval = Inr a"
    "kill_envelope lib (VObj (envelope_dict e)) = Inr x"
    using assms(3,5) by (auto simp: on_current_Inr)
  have k: "en_store_id a = k" "en_store_id x = k"
    using prepare_store [OF assms(1) ok assms(3)] prepare_store [OF assms(1) ok assms(5)] by simp_all
  have x: "en_activation x = Killed" "en_version x = en_version e"
    using e(3) from_envelope(2) [OF assms(1)] by (auto simp: kill_envelope_def and_then_Inr)
  note a = activated [OF assms(1) e(2)]
  let ?s1 = "snd (record_envelope lib persist (VObj (envelope_dict x)) s)"
  let ?s2 = "snd (record_envelope lib persist (VObj (envelope_dict a)) ?s1)"
  have one: "current_envelope k ?s1 = Inr x"
    using record_accepted [OF assms(6), of s persist] x e(1) k(2) assms(7)
    by (simp add: refuse_unapproved_activation_def)
  have "current_envelope (en_store_id a) ?s2 = Inr a"
    by (rule record_accepted [OF assms(4) a(3)]) (use one x a(2) k assms(7) in simp_all)
  then have two: "current_envelope k ?s2 = Inr a" by (simp only: k)
  show ?thesis
    using assms(3,5) one two x(1) a(1)
    by (simp add: envelope_start_def store_may_bid_def decide_def)
qed

section \<open>Witnesses\<close>

text \<open>A contract that accepts envelopes without floors, clusters and commitments.\<close>

definition sample_activation :: "pystr \<Rightarrow> activation option" where
  "sample_activation s =
     (if s = u ''shadow'' then Some Shadow else if s = u ''active'' then Some Active
      else if s = u ''killed'' then Some Killed else None)"

definition sample_validate :: "pydict \<Rightarrow> contract_terms option" where
  "sample_validate doc =
     (case (dget doc (u ''store_id''), dget doc (u ''version''), dget doc (u ''activation'')) of
        (Some (VStr s), Some (VInt n), Some (VStr name)) \<Rightarrow>
          if dget doc (u ''floors'') = Some (VArr []) \<and> dget doc (u ''pursue_clusters'') = Some (VArr []) \<and>
             dget doc (u ''max_discount_pct'') = Some (VFloat (Finite 0)) \<and>
             dget doc (u ''budget_cap'') = Some (VFloat (Finite 0))
          then map_option (\<lambda>a. \<lparr>ct_store_id = s, ct_version = n, ct_floors = [],
                 ct_max_discount_pct = Finite 0, ct_budget_cap = Finite 0, ct_pursue_clusters = [],
                 ct_activation = a\<rparr>) (sample_activation name)
          else None
      | _ \<Rightarrow> None)"

definition sample_lib :: envelope_lib where
  "sample_lib = \<lparr>el_validate = sample_validate,
     el_fromisoformat = (\<lambda>s. map_option (\<lambda>(t, d). (t, Some d)) (parse_rfc3339 s)),
     el_sha256 = (\<lambda>bs. replicate 64 (48 + int (length bs) mod 10))\<rparr>"

lemma sample_activation_name: "sample_activation (activation_name a) = Some a"
  by (cases a) (simp_all add: sample_activation_def)

lemma sample_lawful: "lawful_contract sample_lib"
  by (auto simp: lawful_contract_def sample_lib_def sample_validate_def sample_activation_name
      split: option.splits pyval.splits if_splits)

definition sample_envelope :: "activation \<Rightarrow> approval option \<Rightarrow> envelope" where
  "sample_envelope a p =
     \<lparr>en_store_id = u ''s1'', en_version = 3, en_floors = [], en_max_discount_pct = Finite 0,
      en_budget_cap = Finite 0, en_pursue_clusters = [], en_standing_commitments = [], en_activation = a,
      en_approval = p\<rparr>"

definition sample_approval :: approval where
  "sample_approval = \<lparr>ap_approver = u ''ann'', ap_approved_at = u ''2024-01-01T00:00:00+00:00'',
     ap_envelope_hash = the (approval_digest sample_lib (sample_envelope Shadow None)),
     ap_note = None, ap_document_ref = None\<rparr>"

definition sample_versions :: "(pystr, envelope list) dict envelope_versions" where
  "sample_versions = \<lparr>ev_repository = [], ev_history = [(u ''s1'', [sample_envelope Shadow None])]\<rparr>"

definition sample_stored :: "(pystr, envelope list) dict" where
  "sample_stored = [(u ''s1'', [sample_envelope Shadow None])]"

lemma sample_open: "open_versions sample_lib [] sample_stored = Inr sample_versions"
  by code_simp


abbreviation sample_step :: "net_move \<Rightarrow> (pystr, envelope list) dict envelope_net \<Rightarrow> (pystr, envelope list) dict envelope_net" where
  "sample_step \<equiv> net_step sample_lib mem_persist"

definition approve_and_file :: "net_move list" where
  "approve_and_file = [Begin 0 (Activate (u ''s1'') (VObj (approval_dict sample_approval))), Finish 0]"

definition sample_live :: "(pystr, envelope list) dict envelope_net" where
  "sample_live = fold sample_step approve_and_file (envelope_start sample_versions)"

theorem bidding_store_is_approved_witness:
  "\<exists>e a. current_envelope (u ''s1'') (net_versions sample_live) = Inr e \<and> en_store_id e = u ''s1'' \<and>
    en_activation e = Active \<and> en_approval e = Some a \<and>
    approval_digest sample_lib e = Some (strip_text (ap_envelope_hash a))"
proof (rule bidding_store_is_approved [OF sample_open sample_live_def])
  show "store_may_bid (u ''s1'') (net_versions sample_live)" by code_simp
qed

theorem envelope_history_is_append_only_witness:
  "prefix (history_of (u ''s1'') sample_versions) (history_of (u ''s1'') (net_versions sample_live)) \<and>
    sorted (map en_version (history_of (u ''s1'') (net_versions sample_live)))"
  using envelope_history_is_append_only [OF sample_open, of "envelope_start sample_versions" mem_persist "[]"
      sample_live approve_and_file "u ''s1''"]
  by (simp add: sample_live_def envelope_start_def)

definition sample_killed :: "(pystr, envelope list) dict envelope_net" where
  "sample_killed = fold sample_step [Begin 0 (Kill (u ''s1'')), Finish 0] (envelope_start sample_versions)"

theorem killed_store_stays_killed_witness:
  "\<not> store_may_bid (u ''s1'') (net_versions (fold sample_step approve_and_file sample_killed))"
proof (rule killed_store_stays_killed [OF sample_lawful sample_open sample_killed_def])
  have "current_envelope (u ''s1'') (net_versions sample_killed) = Inr (sample_envelope Killed None)"
    "net_flights sample_killed = []"
    by code_simp+
  then show "killed_net (u ''s1'') sample_killed" by (simp add: killed_net_def sample_envelope_def)
  show "list_all (\<lambda>move. \<not> may_lift (u ''s1'') move) approve_and_file"
    by (simp add: approve_and_file_def)
qed

theorem kill_is_lost_to_an_activation_in_flight_witness:
  "store_may_bid (u ''s1'') (net_versions
     (fold sample_step
       [Begin 0 (Activate (u ''s1'') (VObj (approval_dict sample_approval))), Begin 1 (Kill (u ''s1'')),
        Finish 1, Finish 0]
       (envelope_start sample_versions)))"
proof (rule kill_is_lost_to_an_activation_in_flight [OF sample_lawful sample_open, THEN conjunct2])
  show "prepare sample_lib (Activate (u ''s1'') (VObj (approval_dict sample_approval))) sample_versions =
      Inr (sample_envelope Active (Some sample_approval))"
    by code_simp
  show "from_obj sample_lib (VObj (envelope_dict (sample_envelope Active (Some sample_approval)))) Keep =
      Inr (sample_envelope Active (Some sample_approval))"
    by code_simp
  show "prepare sample_lib (Kill (u ''s1'')) sample_versions = Inr (sample_envelope Killed None)"
    by code_simp
  show "from_obj sample_lib (VObj (envelope_dict (sample_envelope Killed None))) Keep =
      Inr (sample_envelope Killed None)"
    by code_simp
qed (simp add: mem_persist_def)

end
