(* ===== verification/Codes.thy ===== *)
theory Codes
  imports LedgerContract
begin

text \<open>
  Redemption of single-use discount codes: the register that judges redemptions and its ledger
  (\<open>apps/merchant/svc/src/codes/redemption.py\<close>, \<open>ledger.py\<close>, \<open>mint.py\<close>).

  An order is the JSON mapping the webhook delivered. An instant is an integer on the UTC line. What
  the library supplies are the fields of \<open>code_lib\<close>: NFKC, upper-casing, and the text of an instant;
  the drawn \<open>uuid4\<close> of an event is an argument.
\<close>

record code_lib =
  cl_nfkc :: "string \<Rightarrow> string"
  cl_upper :: "string \<Rightarrow> string"
  cl_isoformat :: "int \<Rightarrow> string"

definition crockford_fold :: "char \<Rightarrow> char" where
  "crockford_fold c = (if c = CHR ''I'' \<or> c = CHR ''L'' then CHR ''1'' else if c = CHR ''O'' then CHR ''0'' else c)"

definition canonical_code :: "code_lib \<Rightarrow> string \<Rightarrow> string" where
  "canonical_code lib raw =
     map crockford_fold (cl_upper lib (filter (\<lambda>c. \<not> py_space c) (cl_nfkc lib raw)))"

section \<open>The ledger\<close>

definition build_code_event :: "code_lib \<Rightarrow> string \<Rightarrow> string \<Rightarrow> payload \<Rightarrow> string option \<Rightarrow> string option \<Rightarrow>
    string option \<Rightarrow> int \<Rightarrow> ledger_error + ledger_event" where
  "build_code_event lib uuid kind p auction_id store_id order_ref ts =
     (if kind \<notin> set ledger_event_kinds then Inl (UnknownLedgerEventKind kind)
      else
        let problems = validate_ledger_payload kind p in
        if problems \<noteq> [] then Inl (MalformedLedgerPayload problems)
        else Inr \<lparr>le_event_id = uuid, le_ts = cl_isoformat lib ts, le_kind = kind, le_auction_id = auction_id,
                  le_store_id = store_id, le_order_ref = order_ref, le_payload = p\<rparr>)"

section \<open>What an order says\<close>

text \<open>\<open>_lookup\<close>: the first of the names the mapping holds, whatever its value.\<close>

fun lookup_first :: "json \<Rightarrow> string list \<Rightarrow> json" where
  "lookup_first source [] = JNull"
| "lookup_first source (name # names) =
     (case source of
        JObj d \<Rightarrow> (case dget d name of Some v \<Rightarrow> v | None \<Rightarrow> lookup_first source names)
      | _ \<Rightarrow> JNull)"

definition order_reference :: "json \<Rightarrow> string option" where
  "order_reference order =
     (case lookup_first order [''admin_graphql_api_id'', ''id'', ''order_ref'', ''order_id'', ''orderId'', ''name''] of
        JStr s \<Rightarrow> if strip s = [] then None else Some (strip s)
      | JInt n \<Rightarrow> Some (int_string n)
      | _ \<Rightarrow> None)"

definition declared_code :: "code_lib \<Rightarrow> json \<Rightarrow> string option" where
  "declared_code lib entry =
     (case (case entry of JObj d \<Rightarrow> (case dget d ''code'' of Some v \<Rightarrow> v | None \<Rightarrow> JNull) | _ \<Rightarrow> entry) of
        JStr s \<Rightarrow> Some (canonical_code lib s)
      | _ \<Rightarrow> None)"

definition declared_codes :: "code_lib \<Rightarrow> json \<Rightarrow> string list option" where
  "declared_codes lib order =
     (case lookup_first order [''discountCodes'', ''discount_codes''] of
        JArr entries \<Rightarrow> Some (List.map_filter (declared_code lib) entries)
      | _ \<Rightarrow> None)"

section \<open>The register\<close>

record issued_code =
  ic_code :: string
  ic_key :: string
  ic_store_id :: string
  ic_usage_limit :: int
  ic_starts_at :: "int option"
  ic_expires_at :: "int option"
  ic_offer_id :: "string option"
  ic_bid_ref :: "string option"
  ic_permalink_url :: string

record redemption =
  rd_key :: string
  rd_order_ref :: "string option"
  rd_at :: int

datatype redemption_status = Redeemed | Refused | NotOurs

record redemption_outcome =
  oc_code :: string
  oc_status :: redemption_status
  oc_order_ref :: "string option"
  oc_store_id :: "string option"
  oc_redemption_count :: nat
  oc_event :: "ledger_event option"
  oc_detail :: string

record redemption_register =
  rr_issued :: "(string, issued_code) dict"
  rr_accepted :: "(string, redemption list) dict"
  rr_refused :: "(string, redemption list) dict"
  rr_ledger :: "ledger_event list"

definition new_register :: redemption_register where
  "new_register = \<lparr>rr_issued = [], rr_accepted = [], rr_refused = [], rr_ledger = []\<rparr>"

text \<open>\<open>issue\<close>; \<open>False\<close> for the \<open>ValueError\<close>.\<close>

definition register_issue :: "issued_code \<Rightarrow> redemption_register \<Rightarrow> bool \<times> redemption_register" where
  "register_issue issued r =
     (case dget (rr_issued r) (ic_key issued) of
        Some existing \<Rightarrow>
          if ic_code existing \<noteq> ic_code issued then (False, r)
          else (True, r\<lparr>rr_accepted := dsetdefault (ic_key issued) [] (rr_accepted r),
                        rr_refused := dsetdefault (ic_key issued) [] (rr_refused r)\<rparr>)
      | None \<Rightarrow>
          (True, r\<lparr>rr_issued := dset (ic_key issued) issued (rr_issued r),
                   rr_accepted := dsetdefault (ic_key issued) [] (rr_accepted r),
                   rr_refused := dsetdefault (ic_key issued) [] (rr_refused r)\<rparr>))"

definition accepted_of :: "string \<Rightarrow> redemption_register \<Rightarrow> redemption list" where
  "accepted_of key r = (case dget (rr_accepted r) key of None \<Rightarrow> [] | Some l \<Rightarrow> l)"

definition refused_of :: "string \<Rightarrow> redemption_register \<Rightarrow> redemption list" where
  "refused_of key r = (case dget (rr_refused r) key of None \<Rightarrow> [] | Some l \<Rightarrow> l)"

definition register_issued :: "code_lib \<Rightarrow> string \<Rightarrow> redemption_register \<Rightarrow> issued_code option" where
  "register_issued lib code r = dget (rr_issued r) (canonical_code lib code)"

definition register_redemptions :: "code_lib \<Rightarrow> string \<Rightarrow> redemption_register \<Rightarrow> redemption list" where
  "register_redemptions lib code r = accepted_of (canonical_code lib code) r"

definition register_refusals :: "code_lib \<Rightarrow> string \<Rightarrow> redemption_register \<Rightarrow> redemption list" where
  "register_refusals lib code r = refused_of (canonical_code lib code) r"

definition first_text :: "string option list \<Rightarrow> string \<Rightarrow> string" where
  "first_text options fallback =
     (case filter (\<lambda>s. s \<noteq> []) (List.map_filter id options) of [] \<Rightarrow> fallback | s # _ \<Rightarrow> s)"

definition refusal_payload :: "issued_code \<Rightarrow> string option \<Rightarrow> string \<Rightarrow> json \<Rightarrow> json \<Rightarrow> string \<Rightarrow> payload" where
  "refusal_payload record order_ref field promised observed detail =
     [(''bid_ref'', JStr (first_text [ic_bid_ref record, ic_offer_id record] (ic_code record))),
      (''field'', JStr field),
      (''promised'', promised),
      (''observed'', observed),
      (''code'', JStr (ic_code record)),
      (''offer_id'', json_opt JStr (ic_offer_id record)),
      (''order_ref'', json_opt JStr order_ref),
      (''reason'', JStr detail)]"

definition refuse :: "code_lib \<Rightarrow> string \<Rightarrow> issued_code \<Rightarrow> string option \<Rightarrow> int \<Rightarrow> string \<Rightarrow> json \<Rightarrow> json \<Rightarrow>
    string \<Rightarrow> redemption_register \<Rightarrow> (ledger_error + redemption_outcome) \<times> redemption_register" where
  "refuse lib uuid record order_ref moment field promised observed detail r =
     (case build_code_event lib uuid ''offer_integrity''
         (refusal_payload record order_ref field promised observed detail) None (Some (ic_store_id record))
         order_ref moment of
        Inl e \<Rightarrow> (Inl e, r)
      | Inr event \<Rightarrow>
          (Inr \<lparr>oc_code = ic_code record, oc_status = Refused, oc_order_ref = order_ref,
                oc_store_id = Some (ic_store_id record),
                oc_redemption_count = length (accepted_of (ic_key record) r), oc_event = Some event,
                oc_detail = detail\<rparr>,
           r\<lparr>rr_refused := dset (ic_key record)
                (refused_of (ic_key record) r @ [\<lparr>rd_key = ic_key record, rd_order_ref = order_ref, rd_at = moment\<rparr>])
                (rr_refused r),
             rr_ledger := rr_ledger r @ [event]\<rparr>))"

definition redeemed :: "issued_code \<Rightarrow> string option \<Rightarrow> nat \<Rightarrow> string \<Rightarrow> redemption_outcome" where
  "redeemed record order_ref count detail =
     \<lparr>oc_code = ic_code record, oc_status = Redeemed, oc_order_ref = order_ref,
      oc_store_id = Some (ic_store_id record), oc_redemption_count = count, oc_event = None,
      oc_detail = detail\<rparr>"

text \<open>The judgement of one redemption of a code on record, inside the lock.\<close>

definition judge :: "code_lib \<Rightarrow> string \<Rightarrow> string \<Rightarrow> issued_code \<Rightarrow> json \<Rightarrow> int \<Rightarrow> redemption_register \<Rightarrow>
    (ledger_error + redemption_outcome) \<times> redemption_register" where
  "judge lib uuid key record order moment r =
     (let order_ref = order_reference order;
          declared = declared_codes lib order;
          accepted = accepted_of key r
      in if declared \<noteq> None \<and> key \<notin> set (the declared)
         then refuse lib uuid record order_ref moment ''discount_code'' (JStr (ic_code record))
                (JArr (map JStr (the declared)))
                ''the order does not carry the code it was reported against'' r
         else if order_ref \<noteq> None \<and> list_ex (\<lambda>prior. rd_order_ref prior = order_ref) accepted
         then (Inr (redeemed record order_ref (length accepted) ''a repeat delivery for an order on file''), r)
         else if int (length accepted) \<ge> ic_usage_limit record
         then refuse lib uuid record order_ref moment ''usage_limit'' (JInt (ic_usage_limit record))
                (JInt (int (length accepted) + 1)) ''a second order presented a code created for one'' r
         else if (case ic_expires_at record of None \<Rightarrow> False | Some t \<Rightarrow> moment \<ge> t)
         then refuse lib uuid record order_ref moment ''expires_at''
                (JStr (cl_isoformat lib (the (ic_expires_at record)))) (JStr (cl_isoformat lib moment))
                ''the code was presented after its validity window closed'' r
         else
           (Inr (redeemed record order_ref (length accepted + 1) ''the first and only redemption of this code''),
            r\<lparr>rr_accepted := dset key
                (accepted @ [\<lparr>rd_key = key, rd_order_ref = order_ref, rd_at = moment\<rparr>]) (rr_accepted r)\<rparr>))"

definition register_redeem :: "code_lib \<Rightarrow> string \<Rightarrow> string \<Rightarrow> json \<Rightarrow> int \<Rightarrow> redemption_register \<Rightarrow>
    (ledger_error + redemption_outcome) \<times> redemption_register" where
  "register_redeem lib uuid code order moment r =
     (let key = canonical_code lib code in
      case dget (rr_issued r) key of
        None \<Rightarrow>
          (Inr \<lparr>oc_code = code, oc_status = NotOurs, oc_order_ref = order_reference order, oc_store_id = None,
                oc_redemption_count = 0, oc_event = None,
                oc_detail = ''this service did not mint that code''\<rparr>, r)
      | Some record \<Rightarrow>
          judge lib uuid key record order moment
            (r\<lparr>rr_accepted := dsetdefault key [] (rr_accepted r)\<rparr>))"

end
