(* ===== verification/CodesProps.thy ===== *)
theory CodesProps
  imports Codes
begin

text \<open>
  The properties of the redemption register: a code is redeemed for no more orders than it was created
  for, and a refusal and its event are one.
\<close>

section \<open>Refusals\<close>

lemma refusal_payload_valid:
  "validate_ledger_payload ''offer_integrity'' (refusal_payload record order_ref field promised observed detail) = []"
  by (subst validate_plain_kind)
    (simp_all add: ledger_event_kinds_def joinable_kinds_def ledger_payload_shapes_def refusal_payload_def)

definition refusal_event :: "code_lib \<Rightarrow> string \<Rightarrow> issued_code \<Rightarrow> string option \<Rightarrow> int \<Rightarrow> string \<Rightarrow> json \<Rightarrow> json \<Rightarrow>
    string \<Rightarrow> ledger_event" where
  "refusal_event lib uuid record order_ref moment field promised observed detail =
     \<lparr>le_event_id = uuid, le_ts = cl_isoformat lib moment, le_kind = ''offer_integrity'', le_auction_id = None,
      le_store_id = Some (ic_store_id record), le_order_ref = order_ref,
      le_payload = refusal_payload record order_ref field promised observed detail\<rparr>"

lemma build_refusal_event:
  "build_code_event lib uuid ''offer_integrity'' (refusal_payload record order_ref field promised observed detail)
     None (Some (ic_store_id record)) order_ref moment =
   Inr (refusal_event lib uuid record order_ref moment field promised observed detail)"
  by (simp add: build_code_event_def refusal_payload_valid refusal_event_def ledger_event_kinds_def)

text \<open>A refusal, for whatever reason.\<close>

definition refused_by :: "code_lib \<Rightarrow> issued_code \<Rightarrow> (ledger_error + redemption_outcome) \<times> redemption_register \<Rightarrow>
    redemption_register \<Rightarrow> bool" where
  "refused_by lib record result r \<longleftrightarrow>
     (\<exists>oc ev rows. result = (Inr oc, r\<lparr>rr_refused := rows, rr_ledger := rr_ledger r @ [ev]\<rparr>) \<and>
        oc_status oc = Refused \<and> oc_event oc = Some ev \<and> le_kind ev = ''offer_integrity'' \<and>
        oc_store_id oc = Some (ic_store_id record) \<and> le_store_id ev = Some (ic_store_id record) \<and> le_order_ref ev = oc_order_ref oc \<and>
        validate_ledger_payload ''offer_integrity'' (le_payload ev) = [])"

lemma refuse_refused:
  "refused_by lib record (refuse lib uuid record order_ref moment field promised observed detail r) r"
  unfolding refused_by_def refuse_def build_refusal_event sum.case
  by (intro exI conjI, rule refl) (simp_all add: refusal_event_def refusal_payload_valid)

lemma judge_cases:
  obtains (refused) "refused_by lib record (judge lib uuid key record order moment r) r"
  | (repeat) detail prior where "prior \<in> set (accepted_of key r)" "rd_order_ref prior = order_reference order"
      "judge lib uuid key record order moment r =
         (Inr (redeemed record (order_reference order) (length (accepted_of key r)) detail), r)"
  | (accepted) detail where "int (length (accepted_of key r)) < ic_usage_limit record"
      "order_reference order \<noteq> None \<longrightarrow> order_reference order \<notin> rd_order_ref ` set (accepted_of key r)"
      "judge lib uuid key record order moment r =
         (Inr (redeemed record (order_reference order) (length (accepted_of key r) + 1) detail),
          r\<lparr>rr_accepted := dset key (accepted_of key r @
              [\<lparr>rd_key = key, rd_order_ref = order_reference order, rd_at = moment\<rparr>]) (rr_accepted r)\<rparr>)"
proof -
  let ?ref = "order_reference order" and ?declared = "declared_codes lib order" and ?acc = "accepted_of key r"
  consider (undeclared) "?declared \<noteq> None \<and> key \<notin> set (the ?declared)"
    | (again) "\<not> (?declared \<noteq> None \<and> key \<notin> set (the ?declared))"
        "?ref \<noteq> None \<and> list_ex (\<lambda>prior. rd_order_ref prior = ?ref) ?acc"
    | (new) "\<not> (?declared \<noteq> None \<and> key \<notin> set (the ?declared))"
        "\<not> (?ref \<noteq> None \<and> list_ex (\<lambda>prior. rd_order_ref prior = ?ref) ?acc)"
    by blast
  then show thesis
  proof cases
    case undeclared
    show thesis
      by (rule refused) (simp only: judge_def Let_def undeclared if_True simp_thms refuse_refused)
  next
    case again
    obtain prior where prior: "prior \<in> set ?acc" "rd_order_ref prior = ?ref"
      using again(2) by (auto simp: list_ex_iff)
    show thesis
      by (rule repeat [OF prior]) (simp only: judge_def Let_def again if_True if_False simp_thms)
  next
    case new
    show thesis
    proof (cases "int (length ?acc) \<ge> ic_usage_limit record")
      case True
      show thesis
        by (rule refused) (simp only: judge_def Let_def new if_False True if_True refuse_refused)
    next
      case limit: False
      show thesis
      proof (cases "case ic_expires_at record of None \<Rightarrow> False | Some t \<Rightarrow> moment \<ge> t")
        case True
        show thesis
          by (rule refused) (simp only: judge_def Let_def new if_False limit True if_True refuse_refused)
      next
        case False
        have "int (length ?acc) < ic_usage_limit record" using limit by linarith
        moreover have "?ref \<noteq> None \<longrightarrow> ?ref \<notin> rd_order_ref ` set ?acc"
          using new(2) by (auto simp: list_ex_iff)
        moreover have "judge lib uuid key record order moment r =
         (Inr (redeemed record ?ref (length ?acc + 1) ''the first and only redemption of this code''),
          r\<lparr>rr_accepted := dset key (?acc @ [\<lparr>rd_key = key, rd_order_ref = ?ref, rd_at = moment\<rparr>]) (rr_accepted r)\<rparr>)"
          by (simp only: judge_def Let_def new if_False limit False)
        ultimately show thesis by (rule accepted)
      qed
    qed
  qed
qed

lemma accepted_setdefault [simp]: "accepted_of k (r\<lparr>rr_accepted := dsetdefault key [] (rr_accepted r)\<rparr>) = accepted_of k r"
  by (auto simp: accepted_of_def dsetdefault_def dict_simps split: option.splits)

lemma redeem_outcome:
  "\<exists>oc. fst (register_redeem lib uuid code order moment r) = Inr oc \<and>
    (oc_status oc = Refused \<longleftrightarrow> oc_event oc \<noteq> None) \<and>
    rr_ledger (snd (register_redeem lib uuid code order moment r)) =
      rr_ledger r @ (case oc_event oc of None \<Rightarrow> [] | Some ev \<Rightarrow> [ev]) \<and>
    (case oc_event oc of None \<Rightarrow> True | Some ev \<Rightarrow>
       le_kind ev = ''offer_integrity'' \<and> le_store_id ev = oc_store_id oc \<and> le_order_ref ev = oc_order_ref oc \<and>
       validate_ledger_payload ''offer_integrity'' (le_payload ev) = [])"
proof (cases "dget (rr_issued r) (canonical_code lib code)")
  case None
  then show ?thesis by (simp add: register_redeem_def Let_def)
next
  case (Some ic)
  let ?key = "canonical_code lib code"
  let ?r = "r\<lparr>rr_accepted := dsetdefault ?key [] (rr_accepted r)\<rparr>"
  have eq: "register_redeem lib uuid code order moment r = judge lib uuid ?key ic order moment ?r"
    using Some by (simp add: register_redeem_def Let_def)
  show ?thesis
    unfolding eq
    by (rule judge_cases [of lib ic uuid ?key order moment ?r])
      (auto simp: refused_by_def redeemed_def)
qed


text \<open>
  A refusal and its event are one: judging a redemption never raises, a refused outcome carries an
  event that is the one appended to the ledger, of kind \<open>offer_integrity\<close>, for the shop of the code and
  with the published body, and no other outcome appends anything.
\<close>

theorem refusal_and_event_are_one:
  "\<exists>oc. fst (register_redeem lib uuid code order moment r) = Inr oc \<and>
    (oc_status oc = Refused \<longleftrightarrow> oc_event oc \<noteq> None) \<and>
    rr_ledger (snd (register_redeem lib uuid code order moment r)) =
      rr_ledger r @ (case oc_event oc of None \<Rightarrow> [] | Some ev \<Rightarrow> [ev]) \<and>
    (case oc_event oc of None \<Rightarrow> True | Some ev \<Rightarrow>
       le_kind ev = ''offer_integrity'' \<and> le_store_id ev = oc_store_id oc \<and> le_order_ref ev = oc_order_ref oc \<and>
       validate_ledger_payload ''offer_integrity'' (le_payload ev) = [])"
  by (rule redeem_outcome)

section \<open>Redemptions\<close>

text \<open>The register with the outcomes it has given, under the key each was asked for.\<close>

datatype code_op = Issue issued_code | Redeem string string json int

fun code_step :: "code_lib \<Rightarrow> code_op \<Rightarrow> redemption_register \<times> (string \<times> redemption_outcome) list \<Rightarrow>
    redemption_register \<times> (string \<times> redemption_outcome) list" where
  "code_step lib (Issue issued) (r, given) = (snd (register_issue issued r), given)"
| "code_step lib (Redeem uuid code order moment) (r, given) =
     (case register_redeem lib uuid code order moment r of
        (Inl e, r') \<Rightarrow> (r', given)
      | (Inr oc, r') \<Rightarrow> (r', given @ [(canonical_code lib code, oc)]))"

definition outcome_ok :: "redemption_register \<Rightarrow> string \<times> redemption_outcome \<Rightarrow> bool" where
  "outcome_ok r entry \<longleftrightarrow>
     (oc_status (snd entry) = Redeemed \<longrightarrow> oc_order_ref (snd entry) \<in> rd_order_ref ` set (accepted_of (fst entry) r))"

definition register_ok :: "redemption_register \<Rightarrow> bool" where
  "register_ok r \<longleftrightarrow>
     (\<forall>k. dget (rr_issued r) k = None \<longrightarrow> accepted_of k r = []) \<and>
     (\<forall>k ic. dget (rr_issued r) k = Some ic \<longrightarrow> int (length (accepted_of k r)) \<le> max 0 (ic_usage_limit ic))"

definition code_inv :: "redemption_register \<times> (string \<times> redemption_outcome) list \<Rightarrow> bool" where
  "code_inv s \<longleftrightarrow> register_ok (fst s) \<and> list_all (outcome_ok (fst s)) (snd s)"

lemma issue_accepted: "accepted_of k (snd (register_issue issued r)) = accepted_of k r"
  by (auto simp: register_issue_def accepted_of_def dsetdefault_def dict_simps split: option.splits)

lemma issue_register_ok:
  assumes "register_ok r"
  shows "register_ok (snd (register_issue issued r))"
proof -
  have "dget (rr_issued (snd (register_issue issued r))) k = dget (rr_issued r) k \<or>
    (dget (rr_issued r) k = None \<and> dget (rr_issued (snd (register_issue issued r))) k = Some issued)" for k
    by (auto simp: register_issue_def dict_simps split: option.splits)
  moreover have "accepted_of k r = [] \<Longrightarrow> int (length (accepted_of k r)) \<le> max 0 n" for k n
    by simp
  ultimately show ?thesis
    using assms unfolding register_ok_def issue_accepted by metis
qed

lemma outcome_ok_accepted: "(\<And>k. accepted_of k r' = accepted_of k r) \<Longrightarrow> outcome_ok r' = outcome_ok r"
  by (simp add: outcome_ok_def fun_eq_iff)

lemma code_inv_accepted:
  assumes "code_inv (r, given)" and "\<And>k. accepted_of k r' = accepted_of k r" and "rr_issued r' = rr_issued r"
    and "outcome_ok r (key, oc)"
  shows "code_inv (r', given @ [(key, oc)])"
  using assms by (simp add: code_inv_def outcome_ok_accepted [of r' r] register_ok_def)

lemma redeem_code_inv:
  assumes "code_inv (r, given)" and "register_redeem lib uuid code order moment r = (Inr oc, r')"
  shows "code_inv (r', given @ [(canonical_code lib code, oc)])"
proof (cases "dget (rr_issued r) (canonical_code lib code)")
  case None
  then show ?thesis
    using assms by (auto simp: register_redeem_def Let_def code_inv_def outcome_ok_def)
next
  case (Some ic)
  let ?key = "canonical_code lib code"
  let ?r = "r\<lparr>rr_accepted := dsetdefault ?key [] (rr_accepted r)\<rparr>"
  have eq: "judge lib uuid ?key ic order moment ?r = (Inr oc, r')"
    using assms(2) Some by (simp add: register_redeem_def Let_def)
  show ?thesis
  proof (cases rule: judge_cases [of lib ic uuid ?key order moment ?r])
    case refused
    then obtain rows ev where "r' = ?r\<lparr>rr_refused := rows, rr_ledger := rr_ledger ?r @ [ev]\<rparr>" "oc_status oc = Refused"
      unfolding eq refused_by_def by auto
    then show ?thesis
      by (intro code_inv_accepted [OF assms(1)]) (simp_all add: outcome_ok_def accepted_of_def
          dsetdefault_def dict_simps split: option.splits)
  next
    case (repeat detail prior)
    then have "r' = ?r" "oc_order_ref oc \<in> rd_order_ref ` set (accepted_of ?key r)"
      using eq by (auto simp: redeemed_def intro: rev_image_eqI)
    then show ?thesis
      by (intro code_inv_accepted [OF assms(1)]) (simp_all add: outcome_ok_def)
  next
    case (accepted detail)
    let ?row = "\<lparr>rd_key = ?key, rd_order_ref = order_reference order, rd_at = moment\<rparr>"
    have oc: "oc = redeemed ic (order_reference order) (length (accepted_of ?key r) + 1) detail"
      and r': "r' = ?r\<lparr>rr_accepted := dset ?key (accepted_of ?key r @ [?row]) (rr_accepted ?r)\<rparr>"
      using accepted(3) unfolding eq by simp_all
    have acc: "accepted_of k r' = (if k = ?key then accepted_of ?key r @ [?row] else accepted_of k r)" for k
      by (simp add: r' accepted_of_def dsetdefault_def dict_simps split: option.splits)
    have "rr_issued r' = rr_issued r" by (simp add: r')
    then have "register_ok r'"
      using assms(1) accepted(1) Some by (auto simp: code_inv_def register_ok_def acc split: option.splits)
    moreover have "outcome_ok r' (?key, oc)"
      by (simp add: outcome_ok_def oc redeemed_def acc)
    moreover have "list_all (outcome_ok r') given"
      using assms(1) by (auto simp: code_inv_def list_all_iff outcome_ok_def acc)
    ultimately show ?thesis by (simp add: code_inv_def)
  qed
qed

lemma code_step_inv: "code_inv s \<Longrightarrow> code_inv (code_step lib op s)"
proof (cases s; cases op)
  fix r given issued
  assume "code_inv s" "s = (r, given)" "op = Issue issued"
  then show ?thesis
    using issue_register_ok issue_accepted
    by (simp add: code_inv_def outcome_ok_accepted [of "snd (register_issue issued r)" r])
next
  fix r given uuid code order moment
  assume a: "code_inv s" "s = (r, given)" "op = Redeem uuid code order moment"
  obtain oc where "fst (register_redeem lib uuid code order moment r) = Inr oc"
    using redeem_outcome by blast
  then obtain r' where "register_redeem lib uuid code order moment r = (Inr oc, r')"
    by (cases "register_redeem lib uuid code order moment r") auto
  then show ?thesis using a redeem_code_inv by simp
qed

interpretation code_run: invariant_machine "code_step lib" code_inv for lib
  by unfold_locales (rule code_step_inv)


text \<open>
  C29. A code is redeemed for no more orders than it was created for: over any sequence of issues and
  redemptions, the orders for which a code on record was ever reported redeemed, repeat deliveries
  included, are at most its usage limit, and each of them is on file.
\<close>

theorem code_redeemed_within_its_limit:
  assumes "(r, given) = fold (code_step lib) ops (new_register, [])" and "dget (rr_issued r) key = Some issued"
  shows "card {oc_order_ref oc | oc. (key, oc) \<in> set given \<and> oc_status oc = Redeemed} \<le> nat (ic_usage_limit issued) \<and>
    {oc_order_ref oc | oc. (key, oc) \<in> set given \<and> oc_status oc = Redeemed} \<subseteq> rd_order_ref ` set (accepted_of key r)"
proof -
  have "code_inv (new_register, [])"
    by (simp add: code_inv_def register_ok_def new_register_def accepted_of_def)
  then have inv: "code_inv (r, given)"
    unfolding assms(1) by (rule code_run.run_inv)
  let ?orders = "{oc_order_ref oc | oc. (key, oc) \<in> set given \<and> oc_status oc = Redeemed}"
  have sub: "?orders \<subseteq> rd_order_ref ` set (accepted_of key r)"
    using inv by (auto simp: code_inv_def list_all_iff outcome_ok_def)
  then have "card ?orders \<le> card (rd_order_ref ` set (accepted_of key r))"
    by (intro card_mono) auto
  also have "\<dots> \<le> length (accepted_of key r)"
    using card_image_le [of "set (accepted_of key r)" rd_order_ref] card_length [of "accepted_of key r"] by simp
  also have "\<dots> \<le> nat (ic_usage_limit issued)"
  proof -
    have "int (length (accepted_of key r)) \<le> max 0 (ic_usage_limit issued)"
      using inv assms(2) by (simp add: code_inv_def register_ok_def)
    then show ?thesis by linarith
  qed
  finally show ?thesis using sub by blast
qed

section \<open>Witnesses\<close>

definition sample_codes :: code_lib where
  "sample_codes = \<lparr>cl_nfkc = (\<lambda>s. s), cl_upper = (\<lambda>s. s), cl_isoformat = (\<lambda>t. ''2024-01-01T00:00:00+00:00'')\<rparr>"

definition sample_issued :: issued_code where
  "sample_issued = \<lparr>ic_code = ''PSX-1'', ic_key = ''PSX-1'', ic_store_id = ''s1'', ic_usage_limit = 1,
     ic_starts_at = None, ic_expires_at = Some 10, ic_offer_id = None, ic_bid_ref = Some ''b1'',
     ic_permalink_url = []\<rparr>"

definition sample_ops :: "code_op list" where
  "sample_ops =
     [Issue sample_issued,
      Redeem ''u1'' ''PSX-I'' (JObj [(''id'', JStr ''o1'')]) 1,
      Redeem ''u2'' ''PSX-1'' (JObj [(''id'', JStr ''o2'')]) 2,
      Redeem ''u3'' ''PSX-1'' (JObj [(''id'', JStr ''o1'')]) 20]"

definition sample_register :: "redemption_register \<times> (string \<times> redemption_outcome) list" where
  "sample_register = fold (code_step sample_codes) sample_ops (new_register, [])"

lemma sample_register_statuses:
  "map (\<lambda>(key, oc). (key, oc_status oc)) (snd sample_register) =
     [(''PSX-1'', Redeemed), (''PSX-1'', Refused), (''PSX-1'', Redeemed)]"
  by code_simp

theorem code_redeemed_within_its_limit_witness:
  "card {oc_order_ref oc | oc. (''PSX-1'', oc) \<in> set (snd sample_register) \<and> oc_status oc = Redeemed} \<le> 1"
proof -
  have run: "(fst sample_register, snd sample_register) = fold (code_step sample_codes) sample_ops (new_register, [])"
    by (simp add: sample_register_def)
  have "dget (rr_issued (fst sample_register)) ''PSX-1'' = Some sample_issued" by code_simp
  from code_redeemed_within_its_limit [OF run this, THEN conjunct1]
  show ?thesis by (simp add: sample_issued_def)
qed

end
