(* ===== verification/Blacklist.thy ===== *)
theory Blacklist
  imports Codes
begin

text \<open>
  The blacklist and the ledger events that change it (\<open>apps/trust/src/scoring/blacklist.py\<close>).

  An event and a store are JSON values. A registry is what the code can ask of one: nothing
  (\<open>NoLookup\<close>), or a lookup that answers or raises (\<open>None\<close>). The library supplies
  \<open>datetime.fromisoformat\<close> as an instant (a naive one read as UTC), and \<open>str\<close> of a number with a
  fraction, a list or a mapping.
\<close>

record blacklist_lib =
  bl_fromisoformat :: "string \<Rightarrow> int option"
  bl_str :: "json \<Rightarrow> string"

definition py_str :: "blacklist_lib \<Rightarrow> json \<Rightarrow> string" where
  "py_str lib v = str_of (bl_str lib) v"

text \<open>\<open>_text\<close>\<close>

definition stripped_text :: "blacklist_lib \<Rightarrow> json option \<Rightarrow> string" where
  "stripped_text lib v = (case v of None \<Rightarrow> [] | Some JNull \<Rightarrow> [] | Some x \<Rightarrow> strip (py_str lib x))"

definition blacklist_statuses :: "string list" where
  "blacklist_statuses = [''active'', ''under_review'', ''appealed'', ''expired'']"

definition clearing_statuses :: "string list" where
  "clearing_statuses = [''expired'']"

definition unrecorded_reason_code :: string where
  "unrecorded_reason_code = ''unrecorded''"

record blacklist_entry =
  be_identity :: string
  be_reason_code :: string
  be_status :: string
  be_expires_at :: json
  be_note :: "string option"

definition entry_blocking :: "blacklist_entry \<Rightarrow> bool" where
  "entry_blocking e \<longleftrightarrow> be_status e \<notin> set clearing_statuses"

text \<open>\<open>_instant\<close>\<close>

definition instant_of :: "blacklist_lib \<Rightarrow> json \<Rightarrow> int option" where
  "instant_of lib v =
     (case v of
        JNull \<Rightarrow> None
      | _ \<Rightarrow>
          let t = strip (py_str lib v)
          in if t = [] then None
             else if last t = CHR ''Z'' \<or> last t = CHR ''z'' then bl_fromisoformat lib (butlast t @ ''+00:00'')
             else bl_fromisoformat lib t)"

definition expired_at :: "blacklist_lib \<Rightarrow> blacklist_entry \<Rightarrow> json \<Rightarrow> bool" where
  "expired_at lib e as_of =
     (case (instant_of lib (be_expires_at e), instant_of lib as_of) of
        (Some expiry, Some moment) \<Rightarrow> expiry \<le> moment
      | _ \<Rightarrow> False)"

section \<open>The in-memory registry\<close>

type_synonym blacklist = "(string, blacklist_entry) dict"

text \<open>\<open>Blacklist.add\<close>, \<open>None\<close> for \<open>InvalidBlacklistState\<close>.\<close>

definition blacklist_add :: "string \<Rightarrow> string \<Rightarrow> string \<Rightarrow> json \<Rightarrow> string option \<Rightarrow> blacklist \<Rightarrow> blacklist option" where
  "blacklist_add identity reason_code status expires_at note b =
     (if status \<notin> set blacklist_statuses then None
      else Some (dset identity
        \<lparr>be_identity = identity, be_reason_code = reason_code, be_status = status,
         be_expires_at = expires_at, be_note = note\<rparr> b))"

definition blacklist_remove :: "string \<Rightarrow> blacklist \<Rightarrow> blacklist_entry option \<times> blacklist" where
  "blacklist_remove identity b = (dget b identity, dpop identity b)"

datatype registry = NoLookup | Registry "string \<Rightarrow> blacklist_entry option option"

definition blacklist_registry :: "blacklist \<Rightarrow> registry" where
  "blacklist_registry b = Registry (\<lambda>identity. Some (dget b identity))"

section \<open>The verdict\<close>

definition business_identity_of :: "blacklist_lib \<Rightarrow> json \<Rightarrow> string option" where
  "business_identity_of lib store =
     (let value = (case store of JObj d \<Rightarrow> dget d ''business_identity'' | JStr s \<Rightarrow> Some store | _ \<Rightarrow> None);
          t = stripped_text lib value
      in if t = [] then None else Some t)"

text \<open>A refusal is \<open>True\<close>: an unknown identity and an unreadable registry are refused.\<close>

definition is_blacklisted :: "blacklist_lib \<Rightarrow> registry \<Rightarrow> json \<Rightarrow> json \<Rightarrow> bool" where
  "is_blacklisted lib registry store as_of =
     (case business_identity_of lib store of
        None \<Rightarrow> True
      | Some identity \<Rightarrow>
          (case registry of
             NoLookup \<Rightarrow> True
           | Registry lookup \<Rightarrow>
               (case lookup identity of
                  None \<Rightarrow> True
                | Some None \<Rightarrow> False
                | Some (Some entry) \<Rightarrow>
                    if be_status entry \<in> set clearing_statuses then False
                    else \<not> (as_of \<noteq> JNull \<and> expired_at lib entry as_of))))"

section \<open>Folding the ledger's events\<close>

definition delisting_kinds :: "string list" where
  "delisting_kinds = [''blacklisted'', ''blacklist_expired'']"

definition event_field :: "json \<Rightarrow> string \<Rightarrow> json option" where
  "event_field event name = (case event of JObj d \<Rightarrow> dget d name | _ \<Rightarrow> None)"

definition payload_of :: "json \<Rightarrow> payload" where
  "payload_of event = (case event_field event ''payload'' of Some (JObj p) \<Rightarrow> p | _ \<Rightarrow> [])"

definition event_kind :: "blacklist_lib \<Rightarrow> json \<Rightarrow> string" where
  "event_kind lib event = (case event_field event ''kind'' of None \<Rightarrow> [] | Some v \<Rightarrow> py_str lib v)"

definition some_text :: "string \<Rightarrow> string option" where
  "some_text t = (if t = [] then None else Some t)"

definition delisting_identity :: "blacklist_lib \<Rightarrow> (string, json) dict \<Rightarrow> json \<Rightarrow> string option" where
  "delisting_identity lib identities event =
     (let payload = payload_of event;
          identity = stripped_text lib (dget payload ''business_identity'')
      in if identity \<noteq> [] then Some identity
         else
           let from_payload = stripped_text lib (dget payload ''store_id'');
               store_id = (if from_payload \<noteq> [] then from_payload
                           else stripped_text lib (event_field event ''store_id''))
           in if store_id \<noteq> [] \<and> identities \<noteq> []
              then some_text (stripped_text lib (dget identities store_id))
              else None)"

text \<open>\<open>_current_entry\<close>: \<open>None\<close> when the registry did not answer.\<close>

definition current_entry :: "registry \<Rightarrow> string \<Rightarrow> blacklist_entry option option" where
  "current_entry base identity = (case base of NoLookup \<Rightarrow> None | Registry lookup \<Rightarrow> lookup identity)"

definition blocking :: "blacklist_entry option \<Rightarrow> bool" where
  "blocking entry = (case entry of None \<Rightarrow> False | Some e \<Rightarrow> be_status e \<notin> set clearing_statuses)"

definition listed_entry :: "blacklist_lib \<Rightarrow> string \<Rightarrow> payload \<Rightarrow> blacklist_entry" where
  "listed_entry lib identity payload =
     \<lparr>be_identity = identity,
      be_reason_code = (if stripped_text lib (dget payload ''reason_code'') = [] then unrecorded_reason_code
        else stripped_text lib (dget payload ''reason_code'')),
      be_status = ''active'',
      be_expires_at = (case dget payload ''expires_at'' of None \<Rightarrow> JNull | Some v \<Rightarrow> v),
      be_note = some_text (stripped_text lib (dget payload ''source''))\<rparr>"

definition cleared_entry :: "string \<Rightarrow> blacklist_entry \<Rightarrow> blacklist_entry" where
  "cleared_entry identity e =
     \<lparr>be_identity = identity,
      be_reason_code = (if be_reason_code e = [] then unrecorded_reason_code else be_reason_code e),
      be_status = ''expired'', be_expires_at = be_expires_at e, be_note = be_note e\<rparr>"

text \<open>One round of the loop.\<close>

definition fold_event :: "blacklist_lib \<Rightarrow> registry \<Rightarrow> (string, json) dict \<Rightarrow> blacklist \<Rightarrow> json \<Rightarrow> blacklist" where
  "fold_event lib base identities overlay event =
     (if event_kind lib event \<notin> set delisting_kinds then overlay
      else case delisting_identity lib identities event of
          None \<Rightarrow> overlay
        | Some identity \<Rightarrow>
            let current = (case dget overlay identity of
                    Some e \<Rightarrow> Some (Some e)
                  | None \<Rightarrow> current_entry base identity)
            in if event_kind lib event = ''blacklisted''
               then (if current \<noteq> None \<and> blocking (the current) then overlay
                     else dset identity (listed_entry lib identity (payload_of event)) overlay)
               else if current = None \<or> \<not> blocking (the current) then overlay
               else dset identity (cleared_entry identity (the (the current))) overlay)"

text \<open>\<open>FoldedBlacklist\<close>\<close>

definition folded_registry :: "registry \<Rightarrow> blacklist \<Rightarrow> registry" where
  "folded_registry base overlay =
     Registry (\<lambda>identity. case dget overlay identity of
        Some e \<Rightarrow> Some (Some e)
      | None \<Rightarrow> current_entry base identity)"

definition fold_delisting_events :: "blacklist_lib \<Rightarrow> registry \<Rightarrow> (string, json) dict \<Rightarrow> json list \<Rightarrow> registry" where
  "fold_delisting_events lib base identities events =
     (let overlay = foldl (fold_event lib base identities) [] events
      in if overlay = [] then base else folded_registry base overlay)"

end
