(* ===== verification/BlacklistProps.thy ===== *)
theory BlacklistProps
  imports Blacklist
begin

text \<open>
  What a fold of ledger events says of a merchant at an instant, against the specification that reads
  the events about it from the last one back.
\<close>

section \<open>The specification\<close>

definition about :: "blacklist_lib \<Rightarrow> (string, json) dict \<Rightarrow> string \<Rightarrow> json \<Rightarrow> bool" where
  "about lib identities identity event \<longleftrightarrow>
     event_kind lib event \<in> set delisting_kinds \<and> delisting_identity lib identities event = Some identity"

definition is_listing :: "blacklist_lib \<Rightarrow> json \<Rightarrow> bool" where
  "is_listing lib event \<longleftrightarrow> event_kind lib event = ''blacklisted''"

text \<open>An entry refuses at an instant unless it is cleared or, with an instant given, has lapsed.\<close>

definition entry_refuses :: "blacklist_lib \<Rightarrow> json \<Rightarrow> blacklist_entry \<Rightarrow> bool" where
  "entry_refuses lib as_of e \<longleftrightarrow>
     be_status e \<notin> set clearing_statuses \<and> \<not> (as_of \<noteq> JNull \<and> expired_at lib e as_of)"

definition entry_verdict :: "blacklist_lib \<Rightarrow> json \<Rightarrow> blacklist_entry option option \<Rightarrow> bool" where
  "entry_verdict lib as_of entry =
     (case entry of None \<Rightarrow> True | Some None \<Rightarrow> False | Some (Some e) \<Rightarrow> entry_refuses lib as_of e)"

text \<open>The listing an answer of a registry holds, by its recorded status.\<close>

definition held_listing :: "blacklist_entry option option \<Rightarrow> blacklist_entry option" where
  "held_listing answer = (case answer of Some (Some e) \<Rightarrow> if entry_blocking e then Some e else None | _ \<Rightarrow> None)"

text \<open>
  The listing that stands when the last event is one: that of the first event of the unbroken run of
  listings at the end, or the registry's own when the run is all there is and the registry, by the
  recorded status, already lists the merchant.
\<close>

definition standing_entry :: "blacklist_lib \<Rightarrow> string \<Rightarrow> blacklist_entry option option \<Rightarrow> json list \<Rightarrow> blacklist_entry" where
  "standing_entry lib identity base events =
     (let run = takeWhile (is_listing lib) (rev events)
      in case (if length run = length events then held_listing base else None) of
           Some e \<Rightarrow> e
         | None \<Rightarrow> listed_entry lib identity (payload_of (last run)))"

text \<open>The verdict from the events about the merchant, in order, and from what the registry said.\<close>

definition events_verdict :: "blacklist_lib \<Rightarrow> json \<Rightarrow> string \<Rightarrow> blacklist_entry option option \<Rightarrow> json list \<Rightarrow> bool" where
  "events_verdict lib as_of identity base events =
     (if events = [] then entry_verdict lib as_of base
      else if is_listing lib (last events) then entry_refuses lib as_of (standing_entry lib identity base events)
      else base = None \<and> \<not> list_ex (is_listing lib) events)"

section \<open>The fold implements it\<close>

definition folded_entry :: "registry \<Rightarrow> blacklist \<Rightarrow> string \<Rightarrow> blacklist_entry option option" where
  "folded_entry base overlay identity =
     (case dget overlay identity of Some e \<Rightarrow> Some (Some e) | None \<Rightarrow> current_entry base identity)"

lemma listed_blocking [simp]: "entry_blocking (listed_entry lib identity p)"
  by (simp add: entry_blocking_def listed_entry_def clearing_statuses_def)

lemma cleared_blocking [simp]: "\<not> entry_blocking (cleared_entry identity e)"
  by (simp add: entry_blocking_def cleared_entry_def clearing_statuses_def)

lemma held_listing_blocking: "held_listing answer = Some e \<Longrightarrow> answer = Some (Some e) \<and> entry_blocking e"
  by (auto simp: held_listing_def split: option.splits if_splits)

lemma blocking_held: "current \<noteq> None \<and> blocking (the current) \<longleftrightarrow> held_listing current \<noteq> None"
  by (auto simp: held_listing_def blocking_def entry_blocking_def split: option.splits)

lemma no_listing_admits: "entry \<noteq> None \<Longrightarrow> held_listing entry = None \<Longrightarrow> \<not> entry_verdict lib as_of entry"
  by (auto simp: entry_verdict_def entry_refuses_def held_listing_def entry_blocking_def split: option.splits if_splits)

lemma fold_event_other:
  "\<not> about lib identities identity event \<Longrightarrow>
     folded_entry base (fold_event lib base identities overlay event) identity = folded_entry base overlay identity"
  by (auto simp: fold_event_def about_def folded_entry_def Let_def dict_simps split: option.splits)

lemma fold_event_listed:
  assumes "about lib identities identity event" and "is_listing lib event"
  shows "folded_entry base (fold_event lib base identities overlay event) identity =
    Some (Some (case held_listing (folded_entry base overlay identity) of Some e \<Rightarrow> e
      | None \<Rightarrow> listed_entry lib identity (payload_of event)))"
proof -
  let ?now = "folded_entry base overlay identity"
  have "fold_event lib base identities overlay event =
      (if held_listing ?now \<noteq> None then overlay
       else dset identity (listed_entry lib identity (payload_of event)) overlay)"
    using assms
    by (simp add: fold_event_def about_def is_listing_def Let_def folded_entry_def [symmetric] blocking_held
        del: not_None_eq)
  then show ?thesis
    using held_listing_blocking [of ?now]
    by (cases "held_listing ?now") (simp_all add: folded_entry_def dict_simps)
qed

lemma fold_event_cleared:
  assumes "about lib identities identity event" and "\<not> is_listing lib event"
  shows "folded_entry base (fold_event lib base identities overlay event) identity = None \<longleftrightarrow>
      folded_entry base overlay identity = None"
    and "held_listing (folded_entry base (fold_event lib base identities overlay event) identity) = None"
proof -
  let ?now = "folded_entry base overlay identity"
  have folded: "fold_event lib base identities overlay event =
      (if held_listing ?now = None then overlay else dset identity (cleared_entry identity (the (the ?now))) overlay)"
    using assms blocking_held [of ?now]
    by (auto simp: fold_event_def about_def is_listing_def Let_def folded_entry_def [symmetric])
  show "folded_entry base (fold_event lib base identities overlay event) identity = None \<longleftrightarrow> ?now = None"
    using folded held_listing_blocking [of ?now]
    by (cases "held_listing ?now") (auto simp: folded_entry_def dict_simps)
  show "held_listing (folded_entry base (fold_event lib base identities overlay event) identity) = None"
    using folded by (cases "held_listing ?now = None") (auto simp: folded_entry_def dict_simps held_listing_def)
qed

text \<open>What the fold has made of the events about a merchant, in the three cases of the verdict.\<close>

definition fold_says :: "blacklist_lib \<Rightarrow> string \<Rightarrow> blacklist_entry option option \<Rightarrow> json list \<Rightarrow>
    blacklist_entry option option \<Rightarrow> bool" where
  "fold_says lib identity base events entry \<longleftrightarrow>
     (if events = [] then entry = base
      else if is_listing lib (last events)
      then entry = Some (Some (standing_entry lib identity base events)) \<and>
        entry_blocking (standing_entry lib identity base events)
      else (entry = None \<longleftrightarrow> base = None \<and> \<not> list_ex (is_listing lib) events) \<and> held_listing entry = None)"

lemma standing_entry_snoc:
  assumes "fold_says lib identity base events entry" and "is_listing lib event"
  shows "standing_entry lib identity base (events @ [event]) =
    (case held_listing entry of Some e \<Rightarrow> e | None \<Rightarrow> listed_entry lib identity (payload_of event))"
proof (cases events rule: rev_cases)
  case Nil
  then show ?thesis
    using assms by (simp add: fold_says_def standing_entry_def Let_def split: option.split)
next
  case (snoc ys y)
  show ?thesis
  proof (cases "is_listing lib y")
    case True
    then have "standing_entry lib identity base (events @ [event]) = standing_entry lib identity base events"
      using assms(2) by (simp add: standing_entry_def Let_def snoc split: option.split)
    moreover have "held_listing entry = Some (standing_entry lib identity base events)"
      using assms(1) True by (simp add: fold_says_def snoc held_listing_def)
    ultimately show ?thesis by simp
  next
    case False
    then have "held_listing entry = None" using assms(1) by (simp add: fold_says_def snoc)
    then show ?thesis using assms(2) False by (simp add: standing_entry_def Let_def snoc)
  qed
qed

lemma fold_says_listed:
  assumes "fold_says lib identity base events entry" and "is_listing lib event"
  shows "fold_says lib identity base (events @ [event])
    (Some (Some (case held_listing entry of Some e \<Rightarrow> e | None \<Rightarrow> listed_entry lib identity (payload_of event))))"
  using assms(2) held_listing_blocking [of entry]
  by (cases "held_listing entry") (simp_all add: fold_says_def standing_entry_snoc [OF assms])

lemma fold_says_cleared:
  assumes "fold_says lib identity base events entry" and "\<not> is_listing lib event"
    and "entry' = None \<longleftrightarrow> entry = None" and "held_listing entry' = None"
  shows "fold_says lib identity base (events @ [event]) entry'"
proof -
  have "entry = None \<longleftrightarrow> base = None \<and> \<not> list_ex (is_listing lib) events"
    using assms(1) last_in_set [of events]
    by (auto simp: fold_says_def list_ex_iff simp del: last_in_set split: if_splits)
  then show ?thesis
    using assms(2-4) by (simp add: fold_says_def)
qed

lemma fold_events_say:
  "fold_says lib identity (current_entry base identity) (filter (about lib identities identity) events)
     (folded_entry base (foldl (fold_event lib base identities) [] events) identity)"
proof (induction events rule: rev_induct)
  case Nil
  then show ?case by (simp add: folded_entry_def fold_says_def)
next
  case (snoc event events)
  show ?case
  proof (cases "about lib identities identity event")
    case False
    with snoc show ?thesis by (simp add: fold_event_other)
  next
    case True
    show ?thesis
    proof (cases "is_listing lib event")
      case listing: True
      show ?thesis
        using fold_says_listed [OF snoc listing] by (simp add: True fold_event_listed [OF True listing])
    next
      case cleared: False
      show ?thesis
        using fold_says_cleared [OF snoc cleared fold_event_cleared [OF True cleared]] by (simp add: True)
    qed
  qed
qed

lemma is_blacklisted_entry:
  assumes "business_identity_of lib store = Some identity"
  shows "is_blacklisted lib (folded_registry base overlay) store as_of =
      entry_verdict lib as_of (folded_entry base overlay identity)"
    and "is_blacklisted lib base store as_of = entry_verdict lib as_of (current_entry base identity)"
  using assms
  by (auto simp: is_blacklisted_def folded_registry_def folded_entry_def entry_verdict_def entry_refuses_def
      current_entry_def split: option.splits registry.splits)

text \<open>
  C34. The last word about a merchant decides, at every instant asked about and with none: after
  folding any ledger events over any registry, a merchant whose last delisting event is an expiry is
  admitted (unless the registry could not be read and nothing ever listed it), one without such events
  is judged by the registry, and one whose last event is a listing is refused until the standing
  listing lapses. That listing is the one that opened the unbroken run of listings at the end: a
  listing that follows another is dropped with its own expiry, also when the earlier one has lapsed.
\<close>

theorem last_delisting_event_decides:
  assumes "business_identity_of lib store = Some identity"
  shows "is_blacklisted lib (fold_delisting_events lib base identities events) store as_of =
    events_verdict lib as_of identity (current_entry base identity) (filter (about lib identities identity) events)"
proof -
  let ?overlay = "foldl (fold_event lib base identities) [] events"
  have "is_blacklisted lib (fold_delisting_events lib base identities events) store as_of =
      entry_verdict lib as_of (folded_entry base ?overlay identity)"
  proof (cases "?overlay = []")
    case True
    then show ?thesis
      using is_blacklisted_entry(2) [OF assms, of base] by (simp add: fold_delisting_events_def folded_entry_def)
  next
    case False
    then show ?thesis
      using is_blacklisted_entry(1) [OF assms] by (simp add: fold_delisting_events_def)
  qed
  moreover have "fold_says lib identity (current_entry base identity) (filter (about lib identities identity) events)
      (folded_entry base ?overlay identity)"
    by (rule fold_events_say)
  ultimately show ?thesis
    using no_listing_admits [of "folded_entry base ?overlay identity" lib as_of]
    by (auto simp: fold_says_def events_verdict_def entry_verdict_def split: if_splits option.splits)
qed

section \<open>Witness\<close>

text \<open>
  A merchant listed until 3 in the registry and listed again, until 9, in the ledger: at 5 the fold
  still answers with the first listing, which has lapsed.
\<close>

definition sample_blacklist_lib :: blacklist_lib where
  "sample_blacklist_lib =
     \<lparr>bl_fromisoformat = (\<lambda>s. map_of [(''3'', 3), (''5'', 5), (''9'', 9)] s), bl_str = (\<lambda>v. [])\<rparr>"

definition sample_listed :: blacklist where
  "sample_listed = [(''acme'', \<lparr>be_identity = ''acme'', be_reason_code = ''r'', be_status = ''active'',
     be_expires_at = JStr ''3'', be_note = None\<rparr>)]"

definition sample_relisting :: json where
  "sample_relisting = JObj [(''kind'', JStr ''blacklisted''),
     (''payload'', JObj [(''business_identity'', JStr ''acme''), (''expires_at'', JStr ''9'')])]"

lemma sample_relisting_about:
  "about sample_blacklist_lib [] ''acme'' sample_relisting" "is_listing sample_blacklist_lib sample_relisting"
  "business_identity_of sample_blacklist_lib (JStr '' acme '') = Some ''acme''"
  by code_simp+

theorem last_delisting_event_decides_witness:
  "\<not> is_blacklisted sample_blacklist_lib
     (fold_delisting_events sample_blacklist_lib (blacklist_registry sample_listed) [] [sample_relisting])
     (JStr '' acme '') (JStr ''5'')"
proof -
  have "\<not> entry_refuses sample_blacklist_lib (JStr ''5'') (snd (hd sample_listed))" by code_simp
  then show ?thesis
    by (simp add: last_delisting_event_decides [OF sample_relisting_about(3)] sample_relisting_about(1,2)
        events_verdict_def standing_entry_def current_entry_def blacklist_registry_def sample_listed_def
        held_listing_def entry_blocking_def clearing_statuses_def)
qed

end
