(* ===== verification/Ranking.thy ===== *)
theory Ranking
  imports PyFloat "HOL-Library.Char_ord" "HOL-Library.List_Lexorder" "HOL-Library.Product_Lexorder"
    "HOL-Library.Multiset"
begin

text \<open>
  The order of an auction's scored bids and the shortlist cut from it
  (\<open>apps/exchange/src/ranking/__init__.py\<close>, \<open>apps/exchange/src/ranking/shortlist.py\<close>).

  A row is a candidate after the filters and the scoring: whether it is eligible, its score and its
  features. A row's number is any float, \<open>NotFinite\<close> included; the filters and the scoring that make
  the rows are in the theories \<open>RankFilters\<close>, \<open>RankScore\<close>, \<open>RankFeatures\<close> and \<open>Rank\<close>.
\<close>

section \<open>Sort keys\<close>

text \<open>
  An element of the key tuple: a finite number, \<open>math.inf\<close>, or a text. At one position of the tuples
  of one ranking either all elements are texts or none is.
\<close>

datatype rank_key = Num rat | Inf | Txt string

instantiation rank_key :: linorder
begin

fun less_eq_rank_key :: "rank_key \<Rightarrow> rank_key \<Rightarrow> bool" where
  "less_eq_rank_key (Num a) (Num b) = (a \<le> b)"
| "less_eq_rank_key (Num a) _ = True"
| "less_eq_rank_key Inf (Num b) = False"
| "less_eq_rank_key Inf _ = True"
| "less_eq_rank_key (Txt a) (Txt b) = (a \<le> b)"
| "less_eq_rank_key (Txt a) _ = False"

definition less_rank_key :: "rank_key \<Rightarrow> rank_key \<Rightarrow> bool" where
  "less_rank_key a b \<longleftrightarrow> a \<le> b \<and> \<not> b \<le> a"

instance
proof
  fix x y z :: rank_key
  show "(x < y) = (x \<le> y \<and> \<not> y \<le> x)" by (simp add: less_rank_key_def)
  show "x \<le> x" by (cases x) auto
  show "x \<le> y \<Longrightarrow> y \<le> z \<Longrightarrow> x \<le> z" by (cases x; cases y; cases z) auto
  show "x \<le> y \<Longrightarrow> y \<le> x \<Longrightarrow> x = y" by (cases x; cases y) auto
  show "x \<le> y \<or> y \<le> x" by (cases x; cases y) auto
qed

end

record rank_row =
  rw_bid_id :: string
  rw_store_id :: string
  rw_eligible :: bool
  rw_rank_score :: pyfloat
  rw_features :: "(string, rat) dict"
  rw_hard_fits :: int
  rw_trust :: "pyfloat option"
  rw_price :: "pyfloat option"
  rw_labels :: "string list"

definition finite_or_inf :: "int \<Rightarrow> pyfloat option \<Rightarrow> rank_key" where
  "finite_or_inf direction v = (case v of Some (Finite r) \<Rightarrow> Num (of_int direction * r) | _ \<Rightarrow> Inf)"

definition tie_break_directions :: "(string, int) dict" where
  "tie_break_directions =
     [(''verified_hard_fit_count'', - 1), (''trust'', - 1), (''price'', 1), (''bid_id'', 1)]"

definition direction_of :: "string \<Rightarrow> int" where
  "direction_of name = (case dget tie_break_directions name of Some d \<Rightarrow> d | None \<Rightarrow> 1)"

text \<open>\<open>row.get(name)\<close> for the names a row has; any other name reads as absent.\<close>

definition tie_break_key :: "rank_row \<Rightarrow> string \<Rightarrow> rank_key" where
  "tie_break_key row name =
     (if name = ''bid_id'' then Txt (rw_bid_id row)
      else if name = ''store_id'' then Txt (rw_store_id row)
      else finite_or_inf (direction_of name)
        (if name = ''verified_hard_fit_count'' then Some (Finite (of_int (rw_hard_fits row)))
         else if name = ''trust'' then rw_trust row
         else if name = ''price'' then rw_price row
         else if name = ''rank_score'' then Some (rw_rank_score row)
         else None))"

definition rank_sort_key :: "string list \<Rightarrow> rank_row \<Rightarrow> rank_key list" where
  "rank_sort_key tie_breakers row =
     finite_or_inf (- 1) (Some (rw_rank_score row)) # map (tie_break_key row) tie_breakers @
       (if ''bid_id'' \<notin> set tie_breakers then [Txt (rw_bid_id row)] else [])"

definition default_tie_breakers :: "string list" where
  "default_tie_breakers = [''verified_hard_fit_count'', ''trust'', ''price'', ''bid_id'']"

text \<open>The rows of the answer's \<open>ranked\<close>.\<close>

definition ranked_rows :: "string list \<Rightarrow> rank_row list \<Rightarrow> rank_row list" where
  "ranked_rows tie_breakers rows = sort_key (rank_sort_key tie_breakers) (filter rw_eligible rows)"

section \<open>The shortlist\<close>

definition slot_names :: "string list" where
  "slot_names = [''fit'', ''value'', ''reliability'', ''specialist'']"

definition slot_dimensions :: "(string, string) dict" where
  "slot_dimensions =
     [(''fit'', ''intent_match''), (''value'', ''price_value''), (''reliability'', ''trust''),
      (''specialist'', ''verified_claim_ratio'')]"

definition max_slots :: int where
  "max_slots = 4"

fun best_bids :: "string list \<Rightarrow> string list \<Rightarrow> rank_row list \<Rightarrow> rank_row list" where
  "best_bids seen_stores seen_bids [] = []"
| "best_bids seen_stores seen_bids (row # rows) =
     (if rw_store_id row \<in> set seen_stores \<or> rw_bid_id row \<in> set seen_bids
      then best_bids seen_stores seen_bids rows
      else row # best_bids (rw_store_id row # seen_stores) (rw_bid_id row # seen_bids) rows)"

definition best_bid_per_store :: "rank_row list \<Rightarrow> rank_row list" where
  "best_bid_per_store ranked = best_bids [] [] ranked"

text \<open>\<open>xs[:n]\<close> and \<open>xs[n:]\<close>, a negative bound counting from the end.\<close>

definition slice_to :: "int \<Rightarrow> 'a list \<Rightarrow> 'a list" where
  "slice_to n xs = (if 0 \<le> n then take (nat n) xs else take (length xs - nat (- n)) xs)"

definition slice_from :: "int \<Rightarrow> 'a list \<Rightarrow> 'a list" where
  "slice_from n xs = (if 0 \<le> n then drop (nat n) xs else drop (length xs - nat (- n)) xs)"

definition slot_pool :: "rank_row list \<Rightarrow> int \<Rightarrow> rank_row list" where
  "slot_pool ranked slots = slice_to (min slots (int (length slot_names))) (best_bid_per_store ranked)"

definition bench :: "rank_row list \<Rightarrow> int \<Rightarrow> rank_row list" where
  "bench ranked slots = slice_from (min slots (int (length slot_names))) (best_bid_per_store ranked)"

definition feature_of :: "rank_row \<Rightarrow> string \<Rightarrow> rat" where
  "feature_of row dimension = (case dget (rw_features row) dimension of Some r \<Rightarrow> r | None \<Rightarrow> 0)"

text \<open>\<open>max(remaining, key=...)\<close>: the first index with the largest key.\<close>

definition leading_index :: "rank_row list \<Rightarrow> string \<Rightarrow> nat list \<Rightarrow> nat" where
  "leading_index pool dimension remaining =
     (let key = (\<lambda>i. (feature_of (pool ! i) dimension, - int i))
      in foldl (\<lambda>best i. if key best < key i then i else best) (hd remaining) (tl remaining))"

fun assign_names :: "rank_row list \<Rightarrow> string list \<Rightarrow> nat list \<Rightarrow> string option list \<Rightarrow> string option list" where
  "assign_names pool [] remaining names = names"
| "assign_names pool (name # rest) remaining names =
     (if remaining = [] then names
      else
        let winner = leading_index pool (the (dget slot_dimensions name)) remaining
        in assign_names pool rest (remove1 winner remaining) (names[winner := Some name]))"

definition assign_slot_names :: "rank_row list \<Rightarrow> string option list" where
  "assign_slot_names pool = assign_names pool slot_names [0..<length pool] (replicate (length pool) None)"

record shortlist_slot =
  ss_slot :: string
  ss_bid_ref :: string
  ss_fit_score :: pyfloat
  ss_labels :: "string list"

definition shortlist_slots :: "rank_row list \<Rightarrow> int \<Rightarrow> shortlist_slot list" where
  "shortlist_slots ranked slots =
     (let pool = slot_pool ranked slots; names = assign_slot_names pool
      in List.map_filter (\<lambda>(row, name). map_option (\<lambda>n.
            \<lparr>ss_slot = n, ss_bid_ref = rw_bid_id row, ss_fit_score = rw_rank_score row,
             ss_labels = rw_labels row\<rparr>) name) (zip pool names))"

end
