(* ===== verification/RankingProps.thy ===== *)
theory RankingProps
  imports Ranking
begin

text \<open>
  The ranking does not see the order in which bids arrived, and what shape a shortlist has.
\<close>

section \<open>The order of the ranking\<close>

lemma tie_break_key_bid: "tie_break_key row ''bid_id'' = Txt (rw_bid_id row)"
  by (simp add: tie_break_key_def)

lemma rank_sort_key_bid:
  assumes "rank_sort_key tb r = rank_sort_key tb s"
  shows "rw_bid_id r = rw_bid_id s"
proof (cases "''bid_id'' \<in> set tb")
  case True
  then have "map (tie_break_key r) tb = map (tie_break_key s) tb"
    using assms by (simp add: rank_sort_key_def)
  then have "tie_break_key r ''bid_id'' = tie_break_key s ''bid_id''"
    using True by simp
  then show ?thesis by (simp add: tie_break_key_bid)
next
  case False
  then show ?thesis using assms by (simp add: rank_sort_key_def)
qed

lemma ranked_rows_perm:
  assumes "mset rows = mset rows'" and "distinct (map rw_bid_id (filter rw_eligible rows))"
  shows "ranked_rows tb rows = ranked_rows tb rows'"
proof -
  have "mset (filter rw_eligible rows) = mset (filter rw_eligible rows')"
    using assms(1) by simp
  moreover have "inj_on (rank_sort_key tb) (set (filter rw_eligible rows))"
  proof (rule inj_onI)
    fix r s
    assume "r \<in> set (filter rw_eligible rows)" "s \<in> set (filter rw_eligible rows)"
      "rank_sort_key tb r = rank_sort_key tb s"
    then show "r = s"
      using rank_sort_key_bid assms(2) unfolding distinct_map by (meson inj_onD)
  qed
  ultimately show ?thesis
    unfolding ranked_rows_def by (intro sort_key_inj_key_eq) simp_all
qed

section \<open>The rows of the slots\<close>

lemma best_bids_props:
  "set (best_bids ss bs rows) \<subseteq> set rows \<and> distinct (map rw_store_id (best_bids ss bs rows)) \<and>
   distinct (map rw_bid_id (best_bids ss bs rows)) \<and>
   rw_store_id ` set (best_bids ss bs rows) \<inter> set ss = {} \<and> rw_bid_id ` set (best_bids ss bs rows) \<inter> set bs = {}"
  by (induction ss bs rows rule: best_bids.induct) (auto simp: image_iff)

lemma best_bids_hd: "rows \<noteq> [] \<Longrightarrow> best_bids [] [] rows \<noteq> [] \<and> hd (best_bids [] [] rows) = hd rows"
  by (cases rows) auto

lemma slot_pool_take: "slot_pool ranked max_slots = take 4 (best_bid_per_store ranked)"
  by (simp add: slot_pool_def max_slots_def slot_names_def slice_to_def)

section \<open>The names of the slots\<close>

lemma foldl_choice_in: "foldl (\<lambda>best i. if P best i then i else best) x xs \<in> insert x (set xs)"
  by (induction xs arbitrary: x) auto

lemma leading_index_in: "remaining \<noteq> [] \<Longrightarrow> leading_index pool d remaining \<in> set remaining"
  using foldl_choice_in [of _ "hd remaining" "tl remaining"]
  unfolding leading_index_def Let_def by (cases remaining) auto

text \<open>Names given so far: one per index that is no longer open, never twice, none of those to come.\<close>

definition names_ok :: "string list \<Rightarrow> nat list \<Rightarrow> string option list \<Rightarrow> bool" where
  "names_ok rest remaining names \<longleftrightarrow>
     distinct rest \<and> distinct remaining \<and> set remaining \<subseteq> {..<length names} \<and>
     (\<forall>i<length names. names ! i = None \<longleftrightarrow> i \<in> set remaining) \<and>
     (\<forall>i<length names. \<forall>j<length names. names ! i \<noteq> None \<longrightarrow> names ! i = names ! j \<longrightarrow> i = j) \<and>
     (\<forall>i<length names. \<forall>a\<in>set rest. names ! i \<noteq> Some a)"

lemma names_ok_step:
  assumes "names_ok (name # rest) remaining names" and "w \<in> set remaining"
  shows "names_ok rest (remove1 w remaining) (names[w := Some name])"
proof -
  have w: "w < length names" "distinct remaining"
    using assms by (auto simp: names_ok_def)
  show ?thesis
    using assms(1) w unfolding names_ok_def
    by (auto simp: nth_list_update split: if_splits)
qed

lemma names_complete:
  assumes "names_ok rest [] names"
  shows "\<exists>given. names = map Some given \<and> distinct given \<and> set given \<subseteq> {a. Some a \<in> set names}"
proof -
  have some: "\<forall>i<length names. names ! i \<noteq> None" and dist: "distinct names"
    using assms by (auto simp: names_ok_def distinct_conv_nth)
  then have "names = map Some (map the names)"
    by (intro nth_equalityI) auto
  then obtain given where given: "names = map Some given" by blast
  moreover have "distinct given" using dist by (simp add: given distinct_map)
  moreover have "set given \<subseteq> {a. Some a \<in> set names}" by (auto simp: given)
  ultimately show ?thesis by blast
qed

lemma assign_names_ok:
  assumes "names_ok rest remaining names" and "length remaining \<le> length rest"
  shows "\<exists>given. assign_names pool rest remaining names = map Some given \<and> length given = length names \<and>
    distinct given \<and> set given \<subseteq> set rest \<union> {a. Some a \<in> set names}"
  using assms
proof (induction rest arbitrary: remaining names)
  case Nil
  then show ?case using names_complete [of "[]" names] by auto
next
  case (Cons name rest)
  show ?case
  proof (cases "remaining = []")
    case True
    then show ?thesis using names_complete [of "name # rest" names] Cons.prems(1) by auto
  next
    case False
    let ?w = "leading_index pool (the (dget slot_dimensions name)) remaining"
    have w: "?w \<in> set remaining" by (rule leading_index_in [OF False])
    have "names_ok rest (remove1 ?w remaining) (names[?w := Some name])"
      by (rule names_ok_step [OF Cons.prems(1) w])
    moreover have "length (remove1 ?w remaining) \<le> length rest"
      using Cons.prems(2) w by (simp add: length_remove1)
    ultimately obtain given where
      g: "assign_names pool rest (remove1 ?w remaining) (names[?w := Some name]) = map Some given"
      "length given = length (names[?w := Some name])" "distinct given"
      "set given \<subseteq> set rest \<union> {a. Some a \<in> set (names[?w := Some name])}"
      using Cons.IH by blast
    have "set (names[?w := Some name]) \<subseteq> insert (Some name) (set names)"
      by (rule set_update_subset_insert)
    then show ?thesis
      using g False by (intro exI [of _ given]) (auto simp: Let_def)
  qed
qed

lemma assign_slot_names_all:
  assumes "length pool \<le> 4"
  obtains given where "assign_slot_names pool = map Some given" "length given = length pool" "distinct given"
    "set given \<subseteq> set slot_names"
proof -
  have "names_ok slot_names [0..<length pool] (replicate (length pool) None)"
    by (auto simp: names_ok_def slot_names_def)
  moreover have "length [0..<length pool] \<le> length slot_names"
    using assms by (simp add: slot_names_def)
  ultimately show thesis
    using assign_names_ok [of slot_names "[0..<length pool]" "replicate (length pool) None" pool] that
    by (auto simp: assign_slot_names_def)
qed

lemma map_filter_all: "(\<And>x. x \<in> set xs \<Longrightarrow> f x = Some (g x)) \<Longrightarrow> List.map_filter f xs = map g xs"
  by (induction xs) (auto simp: List.map_filter_def)


lemma zip_firsts: "length xs = length ys \<Longrightarrow> map (\<lambda>p. f (fst p)) (zip xs ys) = map f xs"
  by (induction rule: list_induct2) auto

lemma zip_seconds: "length xs = length ys \<Longrightarrow> map snd (zip xs ys) = ys"
  by (induction rule: list_induct2) auto

lemma shortlist_slots_pool:
  obtains given where "length given = length (slot_pool ranked max_slots)" "distinct given"
    "set given \<subseteq> set slot_names"
    "shortlist_slots ranked max_slots = map (\<lambda>(row, n). \<lparr>ss_slot = n, ss_bid_ref = rw_bid_id row,
       ss_fit_score = rw_rank_score row, ss_labels = rw_labels row\<rparr>) (zip (slot_pool ranked max_slots) given)"
proof -
  let ?pool = "slot_pool ranked max_slots"
  have "length ?pool \<le> 4" by (simp add: slot_pool_take)
  then obtain given where given: "assign_slot_names ?pool = map Some given" "length given = length ?pool"
    "distinct given" "set given \<subseteq> set slot_names"
    by (rule assign_slot_names_all)
  have "shortlist_slots ranked max_slots = List.map_filter
      (\<lambda>(row, n). Some \<lparr>ss_slot = n, ss_bid_ref = rw_bid_id row, ss_fit_score = rw_rank_score row,
         ss_labels = rw_labels row\<rparr>) (zip ?pool given)"
    by (simp add: shortlist_slots_def Let_def given(1) zip_map2 List.map_filter_def filter_map comp_def case_prod_beta)
  also have "\<dots> = map (\<lambda>(row, n). \<lparr>ss_slot = n, ss_bid_ref = rw_bid_id row, ss_fit_score = rw_rank_score row,
         ss_labels = rw_labels row\<rparr>) (zip ?pool given)"
    by (rule map_filter_all) auto
  finally show thesis using that given by blast
qed

section \<open>The shortlist\<close>

text \<open>
  C32. The shortlist does not depend on the order in which bids arrived: the same bids in any order, the
  eligible ones with identifiers of their own, are ranked in one order and fill the same slots.
\<close>

theorem shortlist_ignores_arrival_order:
  assumes "mset rows = mset rows'" and "distinct (map rw_bid_id (filter rw_eligible rows))"
  shows "ranked_rows tie_breakers rows = ranked_rows tie_breakers rows' \<and>
    shortlist_slots (ranked_rows tie_breakers rows) slots = shortlist_slots (ranked_rows tie_breakers rows') slots"
  using ranked_rows_perm [OF assms] by simp

text \<open>
  C38. A shortlist shows at most four bids, one per store: its slots follow the ranking, each row of it
  fills exactly one slot under a name of its own, no two slots show one store or one bid, only
  eligible bids are shown, and the best-ranked bid always is.
\<close>

theorem shortlist_shape:
  assumes "ranked = ranked_rows tie_breakers rows"
  shows "map ss_bid_ref (shortlist_slots ranked max_slots) = map rw_bid_id (slot_pool ranked max_slots) \<and>
    length (shortlist_slots ranked max_slots) \<le> 4 \<and>
    distinct (map ss_bid_ref (shortlist_slots ranked max_slots)) \<and>
    distinct (map ss_slot (shortlist_slots ranked max_slots)) \<and>
    set (map ss_slot (shortlist_slots ranked max_slots)) \<subseteq> set slot_names \<and>
    distinct (map rw_store_id (slot_pool ranked max_slots)) \<and>
    (\<forall>row\<in>set (slot_pool ranked max_slots). row \<in> set rows \<and> rw_eligible row) \<and>
    (ranked \<noteq> [] \<longrightarrow> hd (map ss_bid_ref (shortlist_slots ranked max_slots)) = rw_bid_id (hd ranked))"
proof -
  obtain given where given: "length given = length (slot_pool ranked max_slots)" "distinct given"
    "set given \<subseteq> set slot_names"
    "shortlist_slots ranked max_slots = map (\<lambda>(row, n). \<lparr>ss_slot = n, ss_bid_ref = rw_bid_id row,
       ss_fit_score = rw_rank_score row, ss_labels = rw_labels row\<rparr>) (zip (slot_pool ranked max_slots) given)"
    by (rule shortlist_slots_pool)
  have refs: "map ss_bid_ref (shortlist_slots ranked max_slots) = map rw_bid_id (slot_pool ranked max_slots)"
    and names: "map ss_slot (shortlist_slots ranked max_slots) = given"
    using zip_firsts [OF given(1) [symmetric], of rw_bid_id] zip_seconds [OF given(1) [symmetric]]
    by (simp_all add: given(4) comp_def case_prod_beta)
  note best = best_bids_props [of "[]" "[]" ranked]
  have pool: "distinct (map rw_store_id (slot_pool ranked max_slots))"
    "distinct (map rw_bid_id (slot_pool ranked max_slots))"
    "set (slot_pool ranked max_slots) \<subseteq> set ranked"
    using best by (auto simp: slot_pool_take best_bid_per_store_def take_map [symmetric] dest: in_set_takeD)
  have "set ranked \<subseteq> {row \<in> set rows. rw_eligible row}"
    by (auto simp: assms ranked_rows_def)
  moreover have "hd (map rw_bid_id (slot_pool ranked max_slots)) = rw_bid_id (hd ranked)" if "ranked \<noteq> []"
    using best_bids_hd [OF that] by (cases "best_bids [] [] ranked") (simp_all add: slot_pool_take best_bid_per_store_def)
  moreover have "length (shortlist_slots ranked max_slots) \<le> 4"
    using map_eq_imp_length_eq [OF refs] by (simp add: slot_pool_take)
  ultimately show ?thesis
    using pool given(2,3) refs names by (auto simp: slot_pool_take)
qed

section \<open>Witnesses\<close>

definition sample_row :: "string \<Rightarrow> string \<Rightarrow> rat \<Rightarrow> rat \<Rightarrow> rank_row" where
  "sample_row bid store rank price =
     \<lparr>rw_bid_id = bid, rw_store_id = store, rw_eligible = True, rw_rank_score = Finite rank,
      rw_features = [(''intent_match'', rank), (''price_value'', 1 - price)], rw_hard_fits = 1, rw_trust = None,
      rw_price = Some (Finite price), rw_labels = []\<rparr>"

definition sample_rows :: "rank_row list" where
  "sample_rows = [sample_row ''b1'' ''s1'' (1/2) (1/4), sample_row ''b2'' ''s2'' (1/2) (1/8),
     sample_row ''b3'' ''s1'' (3/4) 1]"

lemma sample_slots:
  "map (\<lambda>s. (ss_slot s, ss_bid_ref s)) (shortlist_slots (ranked_rows default_tie_breakers sample_rows) max_slots) =
     [(''fit'', ''b3''), (''value'', ''b2'')]"
  by code_simp

theorem shortlist_ignores_arrival_order_witness:
  "ranked_rows default_tie_breakers sample_rows = ranked_rows default_tie_breakers (rev sample_rows)"
proof (rule shortlist_ignores_arrival_order [THEN conjunct1])
  show "distinct (map rw_bid_id (filter rw_eligible sample_rows))" by code_simp
qed simp

theorem shortlist_shape_witness:
  "map ss_bid_ref (shortlist_slots (ranked_rows default_tie_breakers sample_rows) max_slots) =
    map rw_bid_id (slot_pool (ranked_rows default_tie_breakers sample_rows) max_slots)"
  using shortlist_shape [OF refl, of default_tie_breakers sample_rows] by blast

end
