(* ===== verification/RankCriteria.thy ===== *)
theory RankCriteria
  imports CheckoutRules PyDouble
begin

text \<open>
  What a shopper's hard constraint is and when a candidate's readings satisfy it
  (\<open>apps/exchange/src/retrieval/criteria.py\<close>, with \<open>canonical_text\<close> and \<open>slug\<close> of
  \<open>services/ingest/src/graph/model.py\<close>), and reading a field of a candidate (\<open>ranking/filters.py\<close>).

  An object the ranker reads is a JSON value: a mapping is \<open>JObj\<close>, a finite number its rational value.
  A text has code points below 256; NFKC is the library's, and so is NFKD without combining marks,
  and HMAC-SHA-256 under the process key in hexadecimal. \<open>Inl\<close> is the type of a Python exception.
\<close>

record rank_lib =
  rl_checkout :: checkout_lib
  rl_nfkc :: "string \<Rightarrow> string"
  rl_unmarked :: "string \<Rightarrow> string"
  rl_mac :: "int list \<Rightarrow> string"

section \<open>Reading\<close>

text \<open>\<open>read(obj, name, None)\<close>; no other JSON value has an attribute of the names read here.\<close>

definition read_field :: "json \<Rightarrow> string \<Rightarrow> json" where
  "read_field obj name =
     (case obj of JObj d \<Rightarrow> (case dget d name of Some v \<Rightarrow> v | None \<Rightarrow> JNull) | _ \<Rightarrow> JNull)"

text \<open>\<open>str(v)\<close>\<close>

definition text_of :: "rank_lib \<Rightarrow> json \<Rightarrow> string" where
  "text_of lib v = str_of (lib_str (rl_checkout lib)) v"

text \<open>\<open>for x in v or ()\<close>: the items of what can be iterated.\<close>

definition items_of :: "json \<Rightarrow> string + json list" where
  "items_of v =
     (if \<not> truthy v then Inr []
      else case v of
        JArr xs \<Rightarrow> Inr xs
      | JStr s \<Rightarrow> Inr (map (\<lambda>c. JStr [c]) s)
      | JObj d \<Rightarrow> Inr (map (\<lambda>p. JStr (fst p)) d)
      | _ \<Rightarrow> Inl ''TypeError'')"

text \<open>\<open>float(v)\<close>\<close>

definition to_float :: "checkout_lib \<Rightarrow> json \<Rightarrow> string + float_text" where
  "to_float lib v =
     (case v of
        JBool b \<Rightarrow> Inr (FiniteText (if b then 1 else 0))
      | JInt n \<Rightarrow> (case float_of_int n of Some r \<Rightarrow> Inr (FiniteText r) | None \<Rightarrow> Inl ''OverflowError'')
      | JReal r \<Rightarrow> Inr (FiniteText r)
      | JStr s \<Rightarrow> (case lib_float lib s of Some x \<Rightarrow> Inr x | None \<Rightarrow> Inl ''ValueError'')
      | _ \<Rightarrow> Inl ''TypeError'')"

definition finite_part :: "float_text \<Rightarrow> rat option" where
  "finite_part x = (case x of FiniteText r \<Rightarrow> Some r | _ \<Rightarrow> None)"

text \<open>\<open>_number\<close>: a finite number or \<open>None\<close>. An integer beyond the doubles is not caught.\<close>

definition number_of :: "checkout_lib \<Rightarrow> json \<Rightarrow> string + rat option" where
  "number_of lib v =
     (case v of
        JNull \<Rightarrow> Inr None
      | JBool _ \<Rightarrow> Inr None
      | _ \<Rightarrow>
          (case to_float lib v of
             Inr x \<Rightarrow> Inr (finite_part x)
           | Inl e \<Rightarrow> if e = ''OverflowError'' then Inl e else Inr None))"

definition is_number :: "json \<Rightarrow> bool" where
  "is_number v \<longleftrightarrow> (case v of JInt _ \<Rightarrow> True | JReal _ \<Rightarrow> True | _ \<Rightarrow> False)"

section \<open>Names\<close>

text \<open>\<open>re.sub\<close> of the runs of the characters in \<open>bad\<close>.\<close>

function sub_runs :: "(char \<Rightarrow> bool) \<Rightarrow> string \<Rightarrow> string \<Rightarrow> string" where
  "sub_runs bad put [] = []"
| "sub_runs bad put (c # s) =
     (if bad c then put @ sub_runs bad put (dropWhile bad s) else c # sub_runs bad put s)"
  by pat_completeness auto
termination
  by (relation "measure (\<lambda>(bad, put, s). length s)") (auto simp: le_imp_less_Suc length_dropWhile_le)

definition canonical_text_of :: "rank_lib \<Rightarrow> string \<Rightarrow> string" where
  "canonical_text_of lib v = sub_runs latin_space '' '' (trim (full_casefold (rl_nfkc lib v)))"

definition not_slug :: "char \<Rightarrow> bool" where
  "not_slug c \<longleftrightarrow> \<not> ((97 \<le> point c \<and> point c \<le> 122) \<or> ascii_digit c)"

definition slug :: "rank_lib \<Rightarrow> string \<Rightarrow> string" where
  "slug lib v =
     (let stripped = trim_with (\<lambda>c. c = CHR ''-'') (sub_runs not_slug ''-'' (canonical_text_of lib v))
      in if stripped = [] then ''_'' else stripped)"

text \<open>\<open>a in b\<close> of two texts\<close>

fun text_within :: "string \<Rightarrow> string \<Rightarrow> bool" where
  "text_within a [] = (a = [])"
| "text_within a (c # b) = (starts_with (c # b) a \<or> text_within a b)"

section \<open>The constraint\<close>

record hard_criterion =
  hc_field :: string
  hc_op :: string
  hc_value :: json
  hc_unit :: "string option"

definition constraint_ops :: "string list" where
  "constraint_ops = [''eq'', ''lte'', ''gte'', ''in'', ''contains'']"

datatype criterion_problem =
  NotAMapping | MissingKey string | EmptyField | UnknownOp string | BoundNotANumber | OptionsNotASequence | NoOptions | NeedleNotAText

definition criterion_post_init :: "hard_criterion \<Rightarrow> criterion_problem + hard_criterion" where
  "criterion_post_init c =
     (if trim (hc_field c) = [] then Inl EmptyField
      else if hc_op c \<notin> set constraint_ops then Inl (UnknownOp (hc_op c))
      else if hc_op c \<in> {''lte'', ''gte''} \<and> \<not> is_number (hc_value c) then Inl BoundNotANumber
      else if hc_op c = ''in'' then
        (case hc_value c of
           JArr [] \<Rightarrow> Inl NoOptions
         | JArr _ \<Rightarrow> Inr c
         | _ \<Rightarrow> Inl OptionsNotASequence)
      else if hc_op c = ''contains'' then (case hc_value c of JStr _ \<Rightarrow> Inr c | _ \<Rightarrow> Inl NeedleNotAText)
      else Inr c)"

definition criterion_from_mapping :: "rank_lib \<Rightarrow> json \<Rightarrow> criterion_problem + hard_criterion" where
  "criterion_from_mapping lib raw =
     (case raw of
        JObj d \<Rightarrow>
          (case dget d ''field'' of
             None \<Rightarrow> Inl (MissingKey ''field'')
           | Some name \<Rightarrow>
               (case dget d ''op'' of
                  None \<Rightarrow> Inl (MissingKey ''op'')
                | Some op \<Rightarrow>
                    criterion_post_init
                      \<lparr>hc_field = text_of lib name, hc_op = text_of lib op, hc_value = read_field raw ''value'',
                       hc_unit = (case read_field raw ''unit'' of JNull \<Rightarrow> None | v \<Rightarrow> Some (text_of lib v))\<rparr>))
      | _ \<Rightarrow> Inl NotAMapping)"

definition canonical_name :: "rank_lib \<Rightarrow> hard_criterion \<Rightarrow> string" where
  "canonical_name lib c = slug lib (hc_field c)"

definition budget_fields :: "rank_lib \<Rightarrow> string list" where
  "budget_fields lib = [slug lib ''price_usd'']"

definition budget_ops :: "string list" where "budget_ops = [''lte'', ''gte'']"

definition is_budget_bound :: "rank_lib \<Rightarrow> hard_criterion \<Rightarrow> bool" where
  "is_budget_bound lib c \<longleftrightarrow> canonical_name lib c \<in> set (budget_fields lib) \<and> hc_op c \<in> set budget_ops"

section \<open>Deciding it\<close>

text \<open>A reading of a candidate: at most one of the three values is set.\<close>

record reading =
  rd_key :: string
  rd_string :: "string option"
  rd_number :: "rat option"
  rd_bool :: "bool option"
  rd_unit :: json

datatype criterion_verdict = Satisfied | NoSuchAttribute | NoReadingInUnit | NotSatisfied

definition named_readings :: "rank_lib \<Rightarrow> hard_criterion \<Rightarrow> reading list \<Rightarrow> reading list" where
  "named_readings lib c attributes = filter (\<lambda>a. slug lib (rd_key a) = canonical_name lib c) attributes"

definition is_evidenced_by :: "rank_lib \<Rightarrow> hard_criterion \<Rightarrow> string list \<Rightarrow> bool" where
  "is_evidenced_by lib c keys \<longleftrightarrow> list_ex (\<lambda>k. slug lib k = canonical_name lib c) keys"

text \<open>The double \<open>1e-9\<close>, and \<open>math.isclose\<close> with both tolerances it.\<close>

definition close_tolerance :: rat where
  "close_tolerance = 4835703278458517 / 4835703278458516698824704"

definition is_close :: "rat \<Rightarrow> rat \<Rightarrow> bool" where
  "is_close a b \<longleftrightarrow>
     a = b \<or>
     (case double_sub b a of
        None \<Rightarrow> False
      | Some d \<Rightarrow>
          (case double_mul close_tolerance b of Some t \<Rightarrow> \<bar>d\<bar> \<le> \<bar>t\<bar> | None \<Rightarrow> False) \<or>
          (case double_mul close_tolerance a of Some t \<Rightarrow> \<bar>d\<bar> \<le> \<bar>t\<bar> | None \<Rightarrow> False) \<or>
          \<bar>d\<bar> \<le> close_tolerance)"

text \<open>\<open>float(v)\<close> of a number\<close>

definition bound_of :: "json \<Rightarrow> string + rat" where
  "bound_of v =
     (case v of
        JInt n \<Rightarrow> (case float_of_int n of Some r \<Rightarrow> Inr r | None \<Rightarrow> Inl ''OverflowError'')
      | JReal r \<Rightarrow> Inr r
      | _ \<Rightarrow> Inl ''TypeError'')"

definition equals_reading :: "rank_lib \<Rightarrow> reading \<Rightarrow> json \<Rightarrow> string + bool" where
  "equals_reading lib a expected =
     (case expected of
        JBool b \<Rightarrow> Inr (rd_bool a = Some b)
      | _ \<Rightarrow>
          if is_number expected then
            (case rd_number a of
               None \<Rightarrow> Inr False
             | Some n \<Rightarrow> and_then (bound_of expected) (\<lambda>e. Inr (is_close n e)))
          else
            (case rd_string a of
               None \<Rightarrow> Inr False
             | Some t \<Rightarrow> Inr (canonical_text_of lib t = canonical_text_of lib (text_of lib expected))))"

definition matches_reading :: "rank_lib \<Rightarrow> hard_criterion \<Rightarrow> reading \<Rightarrow> string + bool" where
  "matches_reading lib c a =
     (if hc_op c = ''eq'' then equals_reading lib a (hc_value c)
      else if hc_op c \<in> {''lte'', ''gte''} then
        (case rd_number a of
           None \<Rightarrow> Inr False
         | Some n \<Rightarrow> and_then (bound_of (hc_value c)) (\<lambda>b. Inr (if hc_op c = ''lte'' then n \<le> b else n \<ge> b)))
      else if hc_op c = ''in'' then
        (case hc_value c of JArr options \<Rightarrow> any_of (equals_reading lib a) options | _ \<Rightarrow> Inl ''TypeError'')
      else if hc_op c = ''contains'' then
        (case rd_string a of
           None \<Rightarrow> Inr False
         | Some t \<Rightarrow> Inr (text_within (canonical_text_of lib (text_of lib (hc_value c))) (canonical_text_of lib t)))
      else Inr False)"

definition in_wanted_unit :: "rank_lib \<Rightarrow> hard_criterion \<Rightarrow> reading \<Rightarrow> bool" where
  "in_wanted_unit lib c a \<longleftrightarrow>
     (case hc_unit c of
        None \<Rightarrow> True
      | Some wanted \<Rightarrow>
          rd_unit a \<noteq> JNull \<and> canonical_text_of lib (text_of lib (rd_unit a)) = canonical_text_of lib wanted)"

definition decide_criterion :: "rank_lib \<Rightarrow> hard_criterion \<Rightarrow> reading list \<Rightarrow> string + criterion_verdict" where
  "decide_criterion lib c attributes =
     (let named = named_readings lib c attributes; in_unit = filter (in_wanted_unit lib c) named in
      if named = [] then Inr NoSuchAttribute
      else if in_unit = [] then Inr NoReadingInUnit
      else and_then (any_of (matches_reading lib c) in_unit)
             (\<lambda>ok. Inr (if ok then Satisfied else NotSatisfied)))"

section \<open>What a verdict rests on\<close>

text \<open>A satisfied constraint has a reading of its field, in its unit when it names one, that matches it.\<close>

lemma decide_satisfied:
  assumes "decide_criterion lib c attributes = Inr Satisfied"
  shows "\<exists>a \<in> set attributes. slug lib (rd_key a) = canonical_name lib c \<and> in_wanted_unit lib c a \<and>
           matches_reading lib c a = Inr True"
proof -
  have "any_of (matches_reading lib c) (filter (in_wanted_unit lib c) (named_readings lib c attributes)) = Inr True"
    using assms by (auto simp: decide_criterion_def Let_def and_then_Inr split: if_splits)
  from any_of_True [OF this] show ?thesis by (auto simp: named_readings_def)
qed

text \<open>Without readings nothing is satisfied.\<close>

lemma decide_no_readings: "decide_criterion lib c [] = Inr NoSuchAttribute"
  by (simp add: decide_criterion_def named_readings_def)

end
