(* ===== verification/RankAttest.thy ===== *)
theory RankAttest
  imports RankCriteria Signing
begin

text \<open>
  The exchange's own verdict on a claim and how it is told from a seller's
  (\<open>apps/exchange/src/ranking/attestation.py\<close>): the status is read only under a MAC of the process key
  over the claim's key, value, unit, subject, status, verifier and catalogue snapshot.
\<close>

fun pyval_of :: "json \<Rightarrow> pyval" where
  "pyval_of JNull = VNone"
| "pyval_of (JBool b) = VBool b"
| "pyval_of (JInt n) = VInt n"
| "pyval_of (JReal r) = VFloat (Finite r)"
| "pyval_of (JStr s) = VStr (u s)"
| "pyval_of (JArr xs) = VArr (map pyval_of xs)"
| "pyval_of (JObj d) = VObj (map (\<lambda>p. (u (fst p), pyval_of (snd p))) d)"

definition attestation_field :: string where "attestation_field = ''exchange_verification''"

text \<open>\<open>None if v is None else str(v)\<close>\<close>

definition text_or_null :: "rank_lib \<Rightarrow> json \<Rightarrow> json" where
  "text_or_null lib v = (case v of JNull \<Rightarrow> JNull | _ \<Rightarrow> JStr (text_of lib v))"

definition attested_payload ::
  "rank_lib \<Rightarrow> json \<Rightarrow> json \<Rightarrow> json \<Rightarrow> json \<Rightarrow> json \<Rightarrow> json \<Rightarrow> json \<Rightarrow> (string, json) dict" where
  "attested_payload lib key val un subject status verifier_version catalog_snapshot =
     [(''key'', text_or_null lib key), (''value'', val), (''unit'', text_or_null lib un),
      (''subject'', text_or_null lib subject), (''status'', text_or_null lib status),
      (''verifier_version'', text_or_null lib verifier_version),
      (''catalog_snapshot'', text_or_null lib catalog_snapshot)]"

text \<open>\<open>_mac\<close>; \<open>None\<close> for a payload that has no canonical form.\<close>

definition claim_mac :: "rank_lib \<Rightarrow> (string, json) dict \<Rightarrow> string option" where
  "claim_mac lib payload =
     map_option (\<lambda>message. rl_mac lib (utf8 message)) (signing_json (pyval_of (JObj payload)))"

definition dropped_from_the_authors_claim :: "string list" where
  "dropped_from_the_authors_claim = [attestation_field, ''status'', ''unit'']"

text \<open>
  \<open>attest_claim\<close>. The references to the evidence and the reason are given as the texts they become,
  the confidence as its float.
\<close>

definition attest_claim ::
  "rank_lib \<Rightarrow> json \<Rightarrow> json \<Rightarrow> json \<Rightarrow> json \<Rightarrow> json \<Rightarrow> json \<Rightarrow> string list \<Rightarrow> rat option \<Rightarrow> string option \<Rightarrow> json" where
  "attest_claim lib claim status un subject verifier_version catalog_snapshot evidence_refs confidence reason =
     (let source = (case claim of JObj d \<Rightarrow> d | _ \<Rightarrow> []);
          kept = filter (\<lambda>p. fst p \<notin> set dropped_from_the_authors_claim) source;
          out = (if un = JNull then kept else dset ''unit'' un kept);
          payload = attested_payload lib (read_field (JObj out) ''key'') (read_field (JObj out) ''value'')
            (read_field (JObj out) ''unit'') subject status verifier_version catalog_snapshot;
          attestation = payload @
            [(''evidence_refs'', JArr (map JStr evidence_refs)), (''confidence'', json_opt JReal confidence),
             (''reason'', json_opt JStr reason), (''mac'', json_opt JStr (claim_mac lib payload))]
      in JObj (dset attestation_field (JObj attestation) out))"

text \<open>\<open>hmac.compare_digest\<close> of two texts, which takes ASCII only.\<close>

definition digests_equal :: "string \<Rightarrow> string \<Rightarrow> string + bool" where
  "digests_equal a b =
     (if list_ex (\<lambda>c. point c \<ge> 128) (a @ b) then Inl ''TypeError'' else Inr (a = b))"

text \<open>\<open>attested_status\<close>: the status the exchange gave the claim, or none.\<close>

definition attested_status ::
  "rank_lib \<Rightarrow> json \<Rightarrow> json \<Rightarrow> json \<Rightarrow> json \<Rightarrow> json \<Rightarrow> string + string option" where
  "attested_status lib attestation key val un subject =
     (case attestation of
        JObj _ \<Rightarrow>
          (case read_field attestation ''mac'' of
             JStr presented \<Rightarrow>
               if presented = [] then Inr None
               else
                 (let status = read_field attestation ''status'';
                      declared = read_field attestation ''subject'';
                      asked = (if truthy subject then text_of lib subject else []) in
                  if status = JNull then Inr None
                  else if declared \<noteq> JNull \<and> text_of lib declared \<noteq> asked then Inr None
                  else
                    case claim_mac lib (attested_payload lib key val un declared status
                           (read_field attestation ''verifier_version'') (read_field attestation ''catalog_snapshot'')) of
                      None \<Rightarrow> Inr None
                    | Some expected \<Rightarrow>
                        and_then (digests_equal expected presented)
                          (\<lambda>same. Inr (if same then Some (text_of lib status) else None)))
           | _ \<Rightarrow> Inr None)
      | _ \<Rightarrow> Inr None)"

text \<open>The same of a claim of a store.\<close>

definition claim_status :: "rank_lib \<Rightarrow> json \<Rightarrow> json \<Rightarrow> string + string option" where
  "claim_status lib claim store_id =
     attested_status lib (read_field claim attestation_field) (read_field claim ''key'')
       (read_field claim ''value'') (read_field claim ''unit'') store_id"

section \<open>What a status rests on\<close>

text \<open>A status is read only where the claim carries the exchange's MAC over it.\<close>

definition carries_mac :: "rank_lib \<Rightarrow> json \<Rightarrow> json \<Rightarrow> string \<Rightarrow> bool" where
  "carries_mac lib claim store_id status \<longleftrightarrow>
     (\<exists>attestation mac declared. read_field claim attestation_field = attestation \<and>
        read_field attestation ''mac'' = JStr mac \<and>
        declared = read_field attestation ''subject'' \<and>
        (declared = JNull \<or> text_of lib declared = (if truthy store_id then text_of lib store_id else [])) \<and>
        text_of lib (read_field attestation ''status'') = status \<and>
        claim_mac lib (attested_payload lib (read_field claim ''key'') (read_field claim ''value'')
          (read_field claim ''unit'') declared (read_field attestation ''status'')
          (read_field attestation ''verifier_version'') (read_field attestation ''catalog_snapshot'')) = Some mac)"

lemma digests_equal_True: "digests_equal a b = Inr True \<Longrightarrow> a = b"
  by (auto simp: digests_equal_def split: if_splits)

lemma attested_status_shape:
  assumes "attested_status lib attestation key val un subject = Inr (Some status)"
  obtains mac where "read_field attestation ''mac'' = JStr mac"
    and "read_field attestation ''subject'' = JNull \<or>
         text_of lib (read_field attestation ''subject'') = (if truthy subject then text_of lib subject else [])"
    and "text_of lib (read_field attestation ''status'') = status"
    and "claim_mac lib (attested_payload lib key val un (read_field attestation ''subject'')
          (read_field attestation ''status'') (read_field attestation ''verifier_version'')
          (read_field attestation ''catalog_snapshot'')) = Some mac"
proof -
  from assms obtain mac where m: "read_field attestation ''mac'' = JStr mac"
    by (auto simp: attested_status_def split: json.splits)
  from assms m show ?thesis
    by (intro that [OF m])
      (auto simp: attested_status_def Let_def and_then_Inr split: json.splits if_splits option.splits
        dest!: digests_equal_True)
qed

lemma claim_status_carries_mac:
  assumes "claim_status lib claim store_id = Inr (Some status)"
  shows "carries_mac lib claim store_id status"
  using assms unfolding claim_status_def
  by (rule attested_status_shape) (simp add: carries_mac_def)

text \<open>The exchange reads back the status it gave, unless the payload has no canonical form.\<close>

lemma attested_payload_reads:
  "read_field (JObj (attested_payload lib key val un subject status v snapshot @ rest)) ''subject'' = text_or_null lib subject"
  "read_field (JObj (attested_payload lib key val un subject status v snapshot @ rest)) ''status'' = text_or_null lib status"
  "read_field (JObj (attested_payload lib key val un subject status v snapshot @ rest)) ''verifier_version'' = text_or_null lib v"
  "read_field (JObj (attested_payload lib key val un subject status v snapshot @ rest)) ''catalog_snapshot'' = text_or_null lib snapshot"
  by (simp_all add: attested_payload_def read_field_def)

lemma text_of_JStr [simp]: "text_of lib (JStr s) = s"
  by (simp add: text_of_def str_of_def)

lemma text_or_null_idem [simp]: "text_or_null lib (text_or_null lib v) = text_or_null lib v"
  by (cases v) (simp_all add: text_or_null_def)

lemma text_or_null_JNull [simp]: "text_or_null lib v = JNull \<longleftrightarrow> v = JNull"
  by (cases v) (simp_all add: text_or_null_def)

lemma attested_payload_idem:
  "attested_payload lib key val un (text_or_null lib subject) (text_or_null lib status)
     (text_or_null lib v) (text_or_null lib snapshot) = attested_payload lib key val un subject status v snapshot"
  by (simp add: attested_payload_def)

end
