(* ===== verification/RankRelevance.thy ===== *)
theory RankRelevance
  imports RankCriteria
begin

text \<open>
  When an organic result is about what was asked (\<open>apps/exchange/src/retrieval/relevance.py\<close>, with
  \<open>fold_for_lexical\<close> and \<open>lexical_tokens\<close> of \<open>proxyshop_support/embedding.py\<close>). The sentence a verdict
  carries is not modelled.
\<close>

section \<open>Words\<close>

definition alnum :: "char \<Rightarrow> bool" where
  "alnum c \<longleftrightarrow> word_char c \<and> c \<noteq> CHR ''_''"

text \<open>\<open>str.isdigit\<close>: the decimal digits and the superscripts one, two and three.\<close>

definition all_digits :: "string \<Rightarrow> bool" where
  "all_digits s \<longleftrightarrow> s \<noteq> [] \<and> list_all (\<lambda>c. ascii_digit c \<or> point c \<in> {178, 179, 185}) s"

text \<open>\<open>fold_for_lexical(text).split()\<close>: the folded text is its words joined by single spaces.\<close>

definition folded_words :: "rank_lib \<Rightarrow> string \<Rightarrow> string list" where
  "folded_words lib s =
     filter (\<lambda>w. w \<noteq> []) (split_on CHR '' ''
       (map (\<lambda>c. if alnum c then c else CHR '' '') (full_casefold (rl_unmarked lib s))))"

text \<open>\<open>dict.fromkeys\<close>: each word once, where it first stands.\<close>

definition each_once :: "'a list \<Rightarrow> 'a list" where
  "each_once xs = rev (remdups (rev xs))"

definition lexical_tokens :: "rank_lib \<Rightarrow> string \<Rightarrow> string list" where
  "lexical_tokens lib s = each_once (folded_words lib s)"

text \<open>The entry of the list that holds an apostrophe, which no folded word does, is left out.\<close>

definition stopwords :: "string list" where
  "stopwords = [
    ''a'', ''an'', ''the'', ''and'', ''or'', ''but'', ''of'', ''for'', ''with'', ''without'', ''to'',
    ''from'', ''in'', ''into'', ''on'', ''at'', ''by'', ''as'', ''is'', ''are'', ''was'', ''were'',
    ''be'', ''been'', ''being'', ''am'', ''do'', ''does'', ''did'', ''doing'', ''done'', ''can'',
    ''could'', ''would'', ''should'', ''shall'', ''will'', ''may'', ''might'', ''must'', ''have'',
    ''has'', ''had'', ''this'', ''that'', ''these'', ''those'', ''there'', ''here'', ''it'', ''its'',
    ''his'', ''her'', ''him'', ''she'', ''he'', ''they'', ''them'', ''their'', ''our'', ''ours'',
    ''your'', ''yours'', ''my'', ''mine'', ''me'', ''us'', ''we'', ''you'', ''i'', ''about'',
    ''above'', ''across'', ''after'', ''against'', ''along'', ''among'', ''around'', ''before'',
    ''behind'', ''below'', ''beneath'', ''beside'', ''between'', ''beyond'', ''during'', ''except'',
    ''inside'', ''near'', ''off'', ''out'', ''outside'', ''over'', ''past'', ''through'', ''under'',
    ''until'', ''up'', ''upon'', ''within'', ''all'', ''any'', ''both'', ''each'', ''either'',
    ''every'', ''few'', ''less'', ''many'', ''more'', ''most'', ''much'', ''neither'', ''no'',
    ''none'', ''nor'', ''not'', ''only'', ''other'', ''others'', ''own'', ''same'', ''several'',
    ''some'', ''such'', ''too'', ''very'', ''please'', ''just'', ''really'', ''quite'', ''rather'',
    ''pretty'', ''new'', ''good'', ''great'', ''nice'', ''best'', ''better'', ''cheap'', ''cheapest'',
    ''top'', ''something'', ''anything'', ''everything'', ''nothing'', ''someone'', ''anyone'',
    ''stuff'', ''thing'', ''things'', ''item'', ''items'', ''product'', ''products'', ''option'',
    ''options'', ''kind'', ''sort'', ''type'', ''need'', ''needs'', ''needed'', ''want'', ''wants'',
    ''wanted'', ''looking'', ''look'', ''find'', ''finding'', ''get'', ''getting'', ''getting'',
    ''buy'', ''buying'', ''purchase'', ''order'', ''ordering'', ''shop'', ''shopping'', ''recommend'',
    ''recommendation'', ''suggest'', ''help'', ''helps'', ''helping'', ''like'', ''love'', ''prefer'',
    ''trying'', ''try'', ''use'', ''using'', ''s'', ''t'', ''re'', ''ve'', ''ll'', ''d'', ''m'',
    ''im'', ''ive'', ''dont'', ''doesnt'', ''cant'', ''wont'']"

definition phrase_break_words :: "string list" where
  "phrase_break_words = [
    ''for'', ''with'', ''without'', ''of'', ''to'', ''from'', ''in'', ''into'', ''on'', ''at'', ''by'',
    ''under'', ''over'', ''near'', ''about'', ''around'', ''that'', ''and'', ''or'', ''but'']"

definition ends_with :: "string \<Rightarrow> string \<Rightarrow> bool" where
  "ends_with s suffix \<longleftrightarrow> starts_with (rev s) (rev suffix)"

definition es_plural_stem_endings :: "string list" where
  "es_plural_stem_endings = [''s'', ''x'', ''z'', ''ch'', ''sh'']"

text \<open>\<open>s[:-n]\<close>\<close>

definition drop_last :: "nat \<Rightarrow> 'a list \<Rightarrow> 'a list" where
  "drop_last n s = take (length s - n) s"

definition stem :: "string \<Rightarrow> string" where
  "stem token =
     (if ends_with token ''ies'' \<and> length token \<ge> 7 then drop_last 3 token @ ''y''
      else if ends_with token ''es'' \<and> length token \<ge> 5 \<and>
          list_ex (ends_with (drop_last 2 token)) es_plural_stem_endings then drop_last 2 token
      else if ends_with token ''s'' \<and> \<not> ends_with token ''ss'' \<and> length token \<ge> 5 then drop_last 1 token
      else token)"

definition stopword :: "string \<Rightarrow> bool" where
  "stopword w \<longleftrightarrow> w \<in> set stopwords"

text \<open>The stems of a text that carry content, in order and each once; \<open>terms\<close> are those already found.\<close>

fun content_loop :: "string list \<Rightarrow> string list \<Rightarrow> string list" where
  "content_loop terms [] = terms"
| "content_loop terms (token # rest) =
     (if stopword token \<or> all_digits token then content_loop terms rest
      else
        let stemmed = stem token
        in if stemmed = [] \<or> stopword stemmed \<or> stemmed \<in> set terms then content_loop terms rest
           else content_loop (terms @ [stemmed]) rest)"

definition content_terms :: "rank_lib \<Rightarrow> string \<Rightarrow> string list" where
  "content_terms lib s = content_loop [] (lexical_tokens lib s)"

text \<open>\<open>head_term\<close>: the last content word before the first word that breaks the phrase.\<close>

fun head_loop :: "string \<Rightarrow> string list \<Rightarrow> string" where
  "head_loop head [] = head"
| "head_loop head (token # rest) =
     (if token \<in> set phrase_break_words then (if head \<noteq> [] then head else head_loop head rest)
      else if stopword token \<or> all_digits token then head_loop head rest
      else
        let stemmed = stem token
        in if stemmed = [] \<or> stopword stemmed then head_loop head rest else head_loop stemmed rest)"

definition head_term :: "rank_lib \<Rightarrow> string \<Rightarrow> string" where
  "head_term lib query = head_loop [] (folded_words lib query)"

section \<open>The verdict\<close>

record topical_relevance =
  tr_min_shared_terms :: nat
  tr_min_shared_share :: rat

definition default_relevance :: topical_relevance where
  "default_relevance = \<lparr>tr_min_shared_terms = 2, tr_min_shared_share = 1 / 2\<rparr>"

record relevance_verdict =
  rv_about :: bool
  rv_decidable :: bool
  rv_asked :: "string list"
  rv_matched :: "string list"
  rv_corroborated :: "string list"

text \<open>The division of two counts; its double never overflows.\<close>

definition share_of :: "nat \<Rightarrow> nat \<Rightarrow> rat" where
  "share_of k n = (case double_div (of_nat k) (of_nat n) of Some r \<Rightarrow> r | None \<Rightarrow> 0)"

definition judge_relevance ::
  "rank_lib \<Rightarrow> topical_relevance \<Rightarrow> string \<Rightarrow> string \<Rightarrow> string \<Rightarrow> relevance_verdict" where
  "judge_relevance lib relevance query observed_text variant_text =
     (let asked = content_terms lib query; observed = content_terms lib observed_text in
      if asked = [] then
        \<lparr>rv_about = True, rv_decidable = False, rv_asked = [], rv_matched = [], rv_corroborated = []\<rparr>
      else if observed = [] then
        \<lparr>rv_about = True, rv_decidable = False, rv_asked = asked, rv_matched = [], rv_corroborated = []\<rparr>
      else
        let matched = filter (\<lambda>t. t \<in> set observed) asked;
            needed = min (tr_min_shared_terms relevance) (length asked)
        in if length matched \<ge> needed \<or> share_of (length matched) (length asked) \<ge> tr_min_shared_share relevance then
             \<lparr>rv_about = True, rv_decidable = True, rv_asked = asked, rv_matched = matched, rv_corroborated = []\<rparr>
           else
             let corroborated = filter (\<lambda>t. t \<in> set (content_terms lib variant_text) \<and> t \<notin> set observed) asked;
                 widened = corroborated \<noteq> [] \<and> head_term lib query \<in> set matched \<and>
                   share_of (length matched + length corroborated) (length asked) \<ge> tr_min_shared_share relevance
             in \<lparr>rv_about = widened, rv_decidable = True, rv_asked = asked, rv_matched = matched,
                 rv_corroborated = corroborated\<rparr>)"

section \<open>The record the platform holds\<close>

text \<open>\<open>_joined\<close>: the parts that are not blank, separated by spaces.\<close>

definition joined_parts :: "rank_lib \<Rightarrow> json list \<Rightarrow> string" where
  "joined_parts lib parts =
     (let texts = map (text_of lib) (filter (\<lambda>v. v \<noteq> JNull \<and> trim (text_of lib v) \<noteq> []) parts)
      in case texts of [] \<Rightarrow> [] | t # ts \<Rightarrow> t @ concat (map (\<lambda>w. CHR '' '' # w) ts))"

definition identity_surface :: "rank_lib \<Rightarrow> json \<Rightarrow> string" where
  "identity_surface lib identity =
     (case identity of
        JObj _ \<Rightarrow> joined_parts lib [read_field identity ''title'', read_field identity ''brand'']
      | _ \<Rightarrow> [])"

definition naming_modifiers :: "rank_lib \<Rightarrow> string list" where
  "naming_modifiers lib = content_terms lib
     (''capsule capsules tablet tablets softgel softgels gummy gummies powder drop drops '' @
      ''pill pills lozenge lozenges chew chews tincture resin extract supplement supplements '' @
      ''organic natural pure vegan'')"

fun phrase_loop :: "rank_lib \<Rightarrow> string list list \<Rightarrow> string list \<Rightarrow> string list \<Rightarrow> string list list" where
  "phrase_loop lib phrases current [] = (if current \<noteq> [] then phrases @ [current] else phrases)"
| "phrase_loop lib phrases current (token # rest) =
     (let terms = content_terms lib token in
      if terms \<noteq> [] then phrase_loop lib phrases (current @ terms) rest
      else if current \<noteq> [] then phrase_loop lib (phrases @ [current]) [] rest
      else phrase_loop lib phrases current rest)"

definition query_noun_phrases :: "rank_lib \<Rightarrow> string \<Rightarrow> string list list" where
  "query_noun_phrases lib query = phrase_loop lib [] [] (folded_words lib query)"

text \<open>\<open>str(v or "")\<close>\<close>

definition text_or_empty :: "rank_lib \<Rightarrow> json \<Rightarrow> string" where
  "text_or_empty lib v = (if truthy v then text_of lib v else [])"

definition shopper_named_the_product :: "rank_lib \<Rightarrow> string \<Rightarrow> json \<Rightarrow> nat \<Rightarrow> bool" where
  "shopper_named_the_product lib query identity min_named_terms =
     (if identity = JNull then False
      else
        let named = content_terms lib (text_or_empty lib (read_field identity ''title'')) in
        if named = [] \<or> \<not> set named \<subseteq> set (content_terms lib query) then False
        else if length named \<ge> min_named_terms then True
        else
          case query_noun_phrases lib query of
            [] \<Rightarrow> False
          | opening # _ \<Rightarrow>
              hd named \<in> set opening \<and>
              list_all (\<lambda>t. t \<noteq> hd named \<longrightarrow> t \<in> set (naming_modifiers lib)) opening)"

definition identity_off_topic ::
  "rank_lib \<Rightarrow> string \<Rightarrow> json \<Rightarrow> topical_relevance \<Rightarrow> relevance_verdict option" where
  "identity_off_topic lib query identity relevance =
     (let surface = identity_surface lib identity in
      if surface = [] then None
      else if shopper_named_the_product lib query identity (tr_min_shared_terms relevance) then None
      else
        let verdict = judge_relevance lib relevance query surface []
        in if rv_about verdict then None else Some verdict)"

section \<open>When a result is refused\<close>

lemma content_loop_keeps: "set terms \<subseteq> set (content_loop terms tokens)"
proof (induction terms tokens rule: content_loop.induct)
  case (2 terms token rest)
  then show ?case by (auto simp: Let_def)
qed simp

lemma content_loop_distinct: "distinct terms \<Longrightarrow> distinct (content_loop terms tokens)"
  by (induction terms tokens rule: content_loop.induct) (auto simp: Let_def)

lemma content_terms_distinct: "distinct (content_terms lib s)"
  by (simp add: content_terms_def content_loop_distinct)

text \<open>A result that shares every content word with the query is never refused.\<close>

lemma full_match_is_about:
  assumes "set (content_terms lib query) \<subseteq> set (content_terms lib observed)"
  shows "rv_about (judge_relevance lib relevance query observed variants)"
proof -
  have "filter (\<lambda>t. t \<in> set (content_terms lib observed)) (content_terms lib query) = content_terms lib query"
    using assms by (auto intro: filter_True)
  then show ?thesis by (simp add: judge_relevance_def Let_def)
qed

text \<open>A refusal is decidable, and at fewer terms than the floor and less than the share.\<close>

lemma off_topic_shape:
  assumes "identity_off_topic lib query identity relevance = Some verdict"
  shows "rv_decidable verdict" and "\<not> rv_about verdict"
    and "length (rv_matched verdict) < tr_min_shared_terms relevance"
    and "share_of (length (rv_matched verdict)) (length (rv_asked verdict)) < tr_min_shared_share relevance"
  using assms
  by (auto simp: identity_off_topic_def judge_relevance_def Let_def split: if_splits)

end
