(* ===== verification/RankFilters.thy ===== *)
theory RankFilters
  imports RankAttest RankRelevance Eligibility
begin

text \<open>
  What keeps a candidate off the shortlist (\<open>apps/exchange/src/ranking/filters.py\<close>). A reason is its kind
  and what decided it; the sentence is not modelled.
\<close>

section \<open>Reasons\<close>

datatype exclusion =
    ExNoBidId
  | ExNoStoreId
  | ExNoOffer
  | ExBlacklistUnreadable
  | ExBlacklisted
  | ExEligibilityDenied
  | ExExpired
  | ExOffDomain
  | ExPriceUnreadable
  | ExOverBudget hard_criterion
  | ExUndecidableIntent
  | ExHardConstraint hard_criterion criterion_verdict
  | ExOffTopicOrganic

section \<open>The store\<close>

text \<open>A trust snapshot: none, rows by store, a list of rows, or an object whose attributes are the rows.\<close>

datatype trust_snapshot =
    NoSnapshot
  | RowsByStore "(string, json) dict"
  | RowList "json list"
  | RowAttributes "string \<Rightarrow> json option"

text \<open>\<open>str(read(row, "store_id", ""))\<close>\<close>

definition row_store :: "rank_lib \<Rightarrow> json \<Rightarrow> string" where
  "row_store lib row =
     (case row of JObj d \<Rightarrow> (case dget d ''store_id'' of Some v \<Rightarrow> text_of lib v | None \<Rightarrow> []) | _ \<Rightarrow> [])"

definition trust_row :: "rank_lib \<Rightarrow> string \<Rightarrow> trust_snapshot \<Rightarrow> json" where
  "trust_row lib store_id snapshot =
     (case snapshot of
        NoSnapshot \<Rightarrow> JNull
      | RowsByStore d \<Rightarrow> (case dget d store_id of Some row \<Rightarrow> row | None \<Rightarrow> JNull)
      | RowList rows \<Rightarrow> (case find (\<lambda>row. row_store lib row = store_id) rows of Some row \<Rightarrow> row | None \<Rightarrow> JNull)
      | RowAttributes attr \<Rightarrow> (case attr store_id of Some row \<Rightarrow> row | None \<Rightarrow> JNull))"

definition blacklist_reason :: "rank_lib \<Rightarrow> string \<Rightarrow> trust_snapshot \<Rightarrow> exclusion option" where
  "blacklist_reason lib store_id snapshot =
     (let row = trust_row lib store_id snapshot in
      if row = JNull then Some ExBlacklistUnreadable
      else
        case read_field row ''blacklisted'' of
          JBool flag \<Rightarrow> if flag then Some ExBlacklisted else None
        | _ \<Rightarrow> Some ExBlacklistUnreadable)"

definition eligibility_source_reason :: "string eligibility_source option \<Rightarrow> string \<Rightarrow> exclusion option" where
  "eligibility_source_reason source store_id =
     (case source of
        None \<Rightarrow> None
      | Some s \<Rightarrow>
          if \<not> speaks_supported_interface s then Some ExEligibilityDenied
          else if ed_status (read_eligibility s store_id) = eligible_status then None
          else Some ExEligibilityDenied)"

section \<open>The offer\<close>

text \<open>A finite number before an instant that any float may be.\<close>

definition before :: "rat \<Rightarrow> float_text \<Rightarrow> bool" where
  "before t now \<longleftrightarrow> (case now of FiniteText n \<Rightarrow> t < n | PlusInfinity \<Rightarrow> True | _ \<Rightarrow> False)"

definition expiry_reason :: "rank_lib \<Rightarrow> json \<Rightarrow> float_text \<Rightarrow> string + exclusion option" where
  "expiry_reason lib offer now =
     (case read_field offer ''expires_at'' of
        JNull \<Rightarrow> Inr (Some ExExpired)
      | raw \<Rightarrow>
          (case expiry_epoch (rl_checkout lib) raw of
             Inl e \<Rightarrow> if e = ''OverflowError'' then Inl e else Inr (Some ExExpired)
           | Inr (FiniteText t) \<Rightarrow> Inr (if before t now then Some ExExpired else None)
           | Inr _ \<Rightarrow> Inr (Some ExExpired)))"

text \<open>\<open>a or b\<close>\<close>

definition or_else :: "json \<Rightarrow> json \<Rightarrow> json" where
  "or_else a b = (if truthy a then a else b)"

definition registered_domain :: "json \<Rightarrow> json" where
  "registered_domain candidate = or_else (read_field candidate ''store_domain'') (read_field candidate ''domain'')"

definition offer_url :: "json \<Rightarrow> json \<Rightarrow> json" where
  "offer_url candidate offer = or_else (read_field offer ''checkout_url'') (read_field candidate ''checkout_url'')"

definition domain_reason :: "rank_lib \<Rightarrow> json \<Rightarrow> json \<Rightarrow> exclusion option" where
  "domain_reason lib candidate offer =
     (if \<not> truthy (registered_domain candidate) then Some ExOffDomain
      else
        case offer_url candidate offer of
          JStr url \<Rightarrow>
            if trim url = [] then Some ExOffDomain
            else if is_on_domain (rl_checkout lib) url (text_of lib (registered_domain candidate)) then None
            else Some ExOffDomain
        | _ \<Rightarrow> Some ExOffDomain)"

section \<open>The claims\<close>

definition verified_status :: string where "verified_status = ''verified''"

definition decided_statuses :: "string list" where "decided_statuses = [''verified'', ''contradicted'']"

definition reading_of_claim :: "rank_lib \<Rightarrow> json \<Rightarrow> string + reading" where
  "reading_of_claim lib claim =
     (let v = read_field claim ''value'';
          base = \<lparr>rd_key = text_of lib (read_field claim ''key''), rd_string = None, rd_number = None,
                  rd_bool = None, rd_unit = read_field claim ''unit''\<rparr> in
      case v of
        JNull \<Rightarrow> Inr base
      | JBool b \<Rightarrow> Inr (base\<lparr>rd_bool := Some b\<rparr>)
      | _ \<Rightarrow>
          if is_number v then and_then (bound_of v) (\<lambda>n. Inr (base\<lparr>rd_number := Some n\<rparr>))
          else Inr (base\<lparr>rd_string := Some (text_of lib v)\<rparr>))"

text \<open>A claim with a key and the status, as what it reads; the others give nothing.\<close>

fun verified_loop :: "rank_lib \<Rightarrow> json \<Rightarrow> json list \<Rightarrow> string + reading list" where
  "verified_loop lib store_id [] = Inr []"
| "verified_loop lib store_id (claim # rest) =
     (if read_field claim ''key'' = JNull then verified_loop lib store_id rest
      else and_then (claim_status lib claim store_id) (\<lambda>status.
        if status \<noteq> Some verified_status then verified_loop lib store_id rest
        else and_then (reading_of_claim lib claim) (\<lambda>a.
          and_then (verified_loop lib store_id rest) (\<lambda>as. Inr (a # as)))))"

definition verified_attributes :: "rank_lib \<Rightarrow> json \<Rightarrow> json \<Rightarrow> string + reading list" where
  "verified_attributes lib claims store_id = and_then (items_of claims) (verified_loop lib store_id)"

fun decided_loop :: "rank_lib \<Rightarrow> json \<Rightarrow> json list \<Rightarrow> string + string list" where
  "decided_loop lib store_id [] = Inr []"
| "decided_loop lib store_id (claim # rest) =
     (if read_field claim ''key'' = JNull then decided_loop lib store_id rest
      else and_then (claim_status lib claim store_id) (\<lambda>status.
        and_then (decided_loop lib store_id rest) (\<lambda>ks.
          Inr (case status of
                 Some s \<Rightarrow> if s \<in> set decided_statuses then text_of lib (read_field claim ''key'') # ks else ks
               | None \<Rightarrow> ks))))"

definition decided_attributes :: "rank_lib \<Rightarrow> json \<Rightarrow> json \<Rightarrow> string + string list" where
  "decided_attributes lib claims store_id = and_then (items_of claims) (decided_loop lib store_id)"

section \<open>The constraints\<close>

text \<open>\<open>read_criteria\<close>: a constraint that cannot be read makes the whole intent undecidable.\<close>

definition read_criteria :: "rank_lib \<Rightarrow> json \<Rightarrow> hard_criterion list \<times> exclusion option" where
  "read_criteria lib intent =
     (case read_field intent ''hard_constraints'' of
        JArr entries \<Rightarrow>
          (case map_all (criterion_from_mapping lib) entries of
             Inr criteria \<Rightarrow> (criteria, None)
           | Inl _ \<Rightarrow> ([], Some ExUndecidableIntent))
      | JObj [] \<Rightarrow> ([], None)
      | _ \<Rightarrow> ([], Some ExUndecidableIntent))"

fun constraint_loop ::
  "rank_lib \<Rightarrow> reading list \<Rightarrow> hard_criterion list \<Rightarrow> string + exclusion list \<times> int" where
  "constraint_loop lib attributes [] = Inr ([], 0)"
| "constraint_loop lib attributes (c # rest) =
     (if is_budget_bound lib c then constraint_loop lib attributes rest
      else and_then (decide_criterion lib c attributes) (\<lambda>verdict.
        and_then (constraint_loop lib attributes rest) (\<lambda>(reasons, satisfied).
          Inr (if verdict = Satisfied then (reasons, satisfied + 1)
               else (ExHardConstraint c verdict # reasons, satisfied)))))"

definition hard_constraint_reasons ::
  "rank_lib \<Rightarrow> json \<Rightarrow> hard_criterion list \<Rightarrow> json \<Rightarrow> string + exclusion list \<times> int" where
  "hard_constraint_reasons lib claims criteria store_id =
     and_then (verified_attributes lib claims store_id) (\<lambda>attributes. constraint_loop lib attributes criteria)"

section \<open>The price\<close>

definition price_fields :: "string list" where
  "price_fields = [''total_price'', ''unit_price'', ''price'']"

text \<open>Every price the offer states, in the order of \<open>price_fields\<close>.\<close>

definition offer_prices :: "rank_lib \<Rightarrow> json \<Rightarrow> string + (string \<times> rat) list" where
  "offer_prices lib offer =
     and_then (map_all (\<lambda>name. and_then (number_of (rl_checkout lib) (read_field offer name))
                          (\<lambda>price. Inr (map_option (Pair name) price))) price_fields)
       (\<lambda>prices. Inr (List.map_filter (\<lambda>p. p) prices))"

definition offer_price :: "rank_lib \<Rightarrow> json \<Rightarrow> string + rat option" where
  "offer_price lib offer =
     and_then (offer_prices lib offer) (\<lambda>prices. Inr (case prices of [] \<Rightarrow> None | (_, price) # _ \<Rightarrow> Some price))"

definition outside_bound :: "string \<Rightarrow> rat \<Rightarrow> rat \<Rightarrow> bool" where
  "outside_bound op bound price \<longleftrightarrow>
     (if op = ''lte'' then price > bound else if op = ''gte'' then price < bound else False)"

fun budget_loop :: "(string \<times> rat) list \<Rightarrow> hard_criterion list \<Rightarrow> string + exclusion list" where
  "budget_loop prices [] = Inr []"
| "budget_loop prices (c # rest) =
     and_then (bound_of (hc_value c)) (\<lambda>bound.
       and_then (budget_loop prices rest) (\<lambda>reasons.
         Inr (if list_ex (\<lambda>p. outside_bound (hc_op c) bound (snd p)) prices then ExOverBudget c # reasons
              else reasons)))"

definition budget_reasons :: "rank_lib \<Rightarrow> json \<Rightarrow> hard_criterion list \<Rightarrow> string + exclusion list" where
  "budget_reasons lib offer criteria =
     (let bounds = filter (is_budget_bound lib) criteria in
      if bounds = [] then Inr []
      else and_then (offer_prices lib offer) (\<lambda>prices.
        if prices = [] then Inr [ExPriceUnreadable] else budget_loop prices bounds))"

section \<open>What nobody can answer\<close>

text \<open>
  \<open>unanswerable_criteria\<close>: the constraints on an attribute that no catalogue of the auction declares and
  no claim in it was decided on. A bound on the price is never one.
\<close>

fun seen_keys :: "rank_lib \<Rightarrow> json list \<Rightarrow> string + string list" where
  "seen_keys lib [] = Inr []"
| "seen_keys lib (candidate # rest) =
     and_then (decided_attributes lib (read_field candidate ''claims'') (read_field candidate ''store_id'')) (\<lambda>ks.
       and_then (seen_keys lib rest) (\<lambda>more. Inr (ks @ more)))"

definition unanswerable :: "rank_lib \<Rightarrow> string list \<Rightarrow> hard_criterion \<Rightarrow> bool" where
  "unanswerable lib seen c \<longleftrightarrow> \<not> is_budget_bound lib c \<and> \<not> is_evidenced_by lib c seen"

definition unanswerable_criteria ::
  "rank_lib \<Rightarrow> json list \<Rightarrow> hard_criterion list \<Rightarrow> string list \<Rightarrow> string + hard_criterion list" where
  "unanswerable_criteria lib candidates criteria network_attributes =
     (if criteria = [] \<or> network_attributes = [] then Inr []
      else and_then (seen_keys lib candidates) (\<lambda>keys.
        Inr (filter (unanswerable lib (network_attributes @ keys)) criteria)))"

section \<open>All of them\<close>

definition organic_relevance_reason ::
  "rank_lib \<Rightarrow> json \<Rightarrow> string \<Rightarrow> json \<Rightarrow> topical_relevance \<Rightarrow> exclusion option" where
  "organic_relevance_reason lib candidate query identity relevance =
     (if \<not> truthy (read_field candidate ''fallback'') then None
      else
        case identity_off_topic lib query identity relevance of
          None \<Rightarrow> None
        | Some _ \<Rightarrow> Some ExOffTopicOrganic)"

definition store_reasons ::
  "rank_lib \<Rightarrow> trust_snapshot \<Rightarrow> string eligibility_source option \<Rightarrow> json \<Rightarrow> exclusion list" where
  "store_reasons lib snapshot eligibility store_id =
     (if truthy store_id
      then (case blacklist_reason lib (text_of lib store_id) snapshot of Some e \<Rightarrow> [e] | None \<Rightarrow> []) @
           (case eligibility_source_reason eligibility (text_of lib store_id) of Some e \<Rightarrow> [e] | None \<Rightarrow> [])
      else [])"

definition offer_reasons ::
  "rank_lib \<Rightarrow> hard_criterion list \<Rightarrow> float_text \<Rightarrow> json \<Rightarrow> json \<Rightarrow> string + exclusion list" where
  "offer_reasons lib criteria now candidate offer =
     (if offer = JNull then Inr []
      else and_then (expiry_reason lib offer now) (\<lambda>expiry.
        and_then (budget_reasons lib offer criteria) (\<lambda>budget.
          Inr ((case expiry of Some e \<Rightarrow> [e] | None \<Rightarrow> []) @
               (case domain_reason lib candidate offer of Some e \<Rightarrow> [e] | None \<Rightarrow> []) @ budget))))"

definition exclusion_reasons ::
  "rank_lib \<Rightarrow> json \<Rightarrow> hard_criterion list \<Rightarrow> exclusion option \<Rightarrow> trust_snapshot \<Rightarrow> float_text \<Rightarrow>
     string eligibility_source option \<Rightarrow> string + exclusion list \<times> int" where
  "exclusion_reasons lib candidate criteria intent_reason snapshot now eligibility =
     (let bid_id = read_field candidate ''bid_id'';
          store_id = read_field candidate ''store_id'';
          offer = read_field candidate ''offer'';
          malformed = (if truthy bid_id then [] else [ExNoBidId]) @ (if truthy store_id then [] else [ExNoStoreId]) @
            (if offer = JNull then [ExNoOffer] else []);
          store = store_reasons lib snapshot eligibility store_id
      in and_then (offer_reasons lib criteria now candidate offer) (\<lambda>terms.
           case intent_reason of
             Some e \<Rightarrow> Inr (malformed @ store @ terms @ [e], 0)
           | None \<Rightarrow>
               and_then (hard_constraint_reasons lib (read_field candidate ''claims'') criteria store_id)
                 (\<lambda>(hard, satisfied). Inr (malformed @ store @ terms @ hard, satisfied))))"

end
