(* ===== verification/RankScore.thy ===== *)
theory RankScore
  imports RankCriteria
begin

text \<open>
  The published rank formula on doubles (\<open>apps/exchange/src/ranking/scoring.py\<close>, the weights of
  \<open>packages/contracts/src/ranking.py\<close>): five features clamped to the published range, each times its
  weight, less the penalties of the store's open policy events. \<open>sum\<close> is Python 3.12's, which carries
  the rounding error of each addition along (Neumaier).
\<close>

section \<open>Weights\<close>

record ranking_weights =
  rk_weights :: "(string, rat) dict"
  rk_feature_min :: rat
  rk_feature_max :: rat
  rk_delivery_fit_when_absent :: rat
  rk_ratio_when_absent :: rat
  rk_per_kind :: "(string, rat) dict"
  rk_max_total_penalty :: rat
  rk_tie_breakers :: "string list"

definition rank_features :: "string list" where
  "rank_features = [''intent_match'', ''verified_claim_ratio'', ''trust'', ''price_value'', ''delivery_fit'']"

text \<open>The doubles 0.35, 0.2, 0.2, 0.15, 0.1 by feature, and the penalties 0.3 and 0.15 by kind.\<close>

definition default_feature_weights :: "(string, rat) dict" where
  "default_feature_weights =
     [(''intent_match'', 3152519739159347 / 9007199254740992),
      (''verified_claim_ratio'', 3602879701896397 / 18014398509481984),
      (''trust'', 3602879701896397 / 18014398509481984),
      (''price_value'', 5404319552844595 / 36028797018963968),
      (''delivery_fit'', 3602879701896397 / 36028797018963968)]"

definition contradicted_claim :: string where "contradicted_claim = ''contradicted_claim''"

definition default_penalties_per_kind :: "(string, rat) dict" where
  "default_penalties_per_kind =
     [(''severe_policy_violation'', 5404319552844595 / 18014398509481984),
      (contradicted_claim, 5404319552844595 / 36028797018963968)]"

definition default_weights :: ranking_weights where
  "default_weights =
     \<lparr>rk_weights = default_feature_weights, rk_feature_min = 0, rk_feature_max = 1,
      rk_delivery_fit_when_absent = 1 / 2, rk_ratio_when_absent = 1 / 2,
      rk_per_kind = default_penalties_per_kind, rk_max_total_penalty = 1,
      rk_tie_breakers = [''verified_hard_fit_count'', ''trust'', ''price'', ''bid_id'']\<rparr>"

definition intent_match_when_absent :: rat where "intent_match_when_absent = 1 / 2"

section \<open>Summing\<close>

text \<open>
  The loop of \<open>sum\<close> over floats: the running total and the error carried along, \<open>None\<close> for an error
  that is no longer finite. A total that is not finite never becomes finite again.
\<close>

definition carried :: "rat \<Rightarrow> rat \<Rightarrow> rat \<Rightarrow> rat option" where
  "carried hi x t =
     (if \<bar>hi\<bar> \<ge> \<bar>x\<bar> then Option.bind (double_sub hi t) (\<lambda>d. double_add d x)
      else Option.bind (double_sub x t) (\<lambda>d. double_add d hi))"

fun sum_loop :: "rat \<Rightarrow> rat option \<Rightarrow> rat list \<Rightarrow> pyfloat" where
  "sum_loop hi c [] =
     (case c of
        Some e \<Rightarrow>
          if e = 0 then Finite hi
          else (case double_add hi e of Some s \<Rightarrow> Finite s | None \<Rightarrow> NotFinite)
      | None \<Rightarrow> Finite hi)"
| "sum_loop hi c (x # xs) =
     (case double_add hi x of
        None \<Rightarrow> NotFinite
      | Some t \<Rightarrow>
          sum_loop t (Option.bind c (\<lambda>e. Option.bind (carried hi x t) (\<lambda>d. double_add e d))) xs)"

text \<open>\<open>sum(xs)\<close> from the integer 0, to which the first float is added exactly.\<close>

definition float_sum :: "rat list \<Rightarrow> pyfloat" where
  "float_sum xs = (case xs of [] \<Rightarrow> Finite 0 | x # rest \<Rightarrow> sum_loop x (Some 0) rest)"

section \<open>The features and the penalty\<close>

text \<open>\<open>_clamp\<close>\<close>

definition clamp :: "ranking_weights \<Rightarrow> rat \<Rightarrow> rat" where
  "clamp w v = (if v < rk_feature_min w then rk_feature_min w
                else if v > rk_feature_max w then rk_feature_max w else v)"

text \<open>The middle of the range; one that overflows is infinite, which the clamp takes to that end.\<close>

definition midpoint :: "ranking_weights \<Rightarrow> rat" where
  "midpoint w =
     (case Option.bind (double_add (rk_feature_min w) (rk_feature_max w)) (\<lambda>s. double_div s 2) of
        Some m \<Rightarrow> m
      | None \<Rightarrow> if rk_feature_min w + rk_feature_max w > 0 then rk_feature_max w else rk_feature_min w)"

definition when_absent :: "ranking_weights \<Rightarrow> string \<Rightarrow> rat" where
  "when_absent w name =
     (if name = ''delivery_fit'' then rk_delivery_fit_when_absent w
      else if name = ''verified_claim_ratio'' then rk_ratio_when_absent w
      else if name = ''intent_match'' then intent_match_when_absent
      else midpoint w)"

definition raw_feature :: "rank_lib \<Rightarrow> json \<Rightarrow> rat option \<Rightarrow> string \<Rightarrow> string + rat option" where
  "raw_feature lib candidate trust name =
     (if name = ''trust'' then Inr trust else number_of (rl_checkout lib) (read_field candidate name))"

definition feature_vector ::
  "rank_lib \<Rightarrow> json \<Rightarrow> rat option \<Rightarrow> ranking_weights \<Rightarrow> string + (string, rat) dict" where
  "feature_vector lib candidate trust w =
     map_all (\<lambda>name. and_then (raw_feature lib candidate trust name)
                (\<lambda>raw. Inr (name, clamp w (case raw of Some r \<Rightarrow> r | None \<Rightarrow> when_absent w name)))) rank_features"

text \<open>\<open>RankingWeights.total_penalty\<close>; \<open>min(total, ceiling)\<close> is the ceiling only when it is less.\<close>

definition penalty_for :: "ranking_weights \<Rightarrow> string \<Rightarrow> rat" where
  "penalty_for w kind = (case dget (rk_per_kind w) kind of Some r \<Rightarrow> r | None \<Rightarrow> 0)"

definition total_penalty :: "ranking_weights \<Rightarrow> string list \<Rightarrow> rat" where
  "total_penalty w kinds =
     (case float_sum (map (penalty_for w) kinds) of
        Finite r \<Rightarrow> min r (rk_max_total_penalty w)
      | NotFinite \<Rightarrow> rk_max_total_penalty w)"

definition add_declared :: "ranking_weights \<Rightarrow> rat \<Rightarrow> rat option \<Rightarrow> rat" where
  "add_declared w t declared =
     (case declared of
        None \<Rightarrow> rk_max_total_penalty w
      | Some r \<Rightarrow>
          if r > 0 then (case double_add t r of Some s \<Rightarrow> min s (rk_max_total_penalty w) | None \<Rightarrow> rk_max_total_penalty w)
          else min t (rk_max_total_penalty w))"

definition penalty_of :: "rank_lib \<Rightarrow> json \<Rightarrow> ranking_weights \<Rightarrow> string + rat" where
  "penalty_of lib candidate w =
     and_then (items_of (read_field candidate ''policy_events'')) (\<lambda>kinds.
       let t = (if kinds = [] then 0 else total_penalty w (map (text_of lib) kinds));
           declared = read_field candidate ''policy_penalties''
       in if declared = JNull then Inr (min t (rk_max_total_penalty w))
          else and_then (number_of (rl_checkout lib) declared) (\<lambda>raw. Inr (add_declared w t raw)))"

section \<open>The score\<close>

definition penalty_component :: string where "penalty_component = ''policy_penalties''"

record rank_score =
  sc_total :: pyfloat
  sc_components :: "(string, pyfloat) dict"
  sc_features :: "(string, rat) dict"

text \<open>The contribution of each feature; one that overflows makes the sum infinite.\<close>

definition weighted :: "ranking_weights \<Rightarrow> (string, rat) dict \<Rightarrow> (string \<times> rat option) list" where
  "weighted w vector =
     map (\<lambda>(name, v). (name, double_mul (case dget (rk_weights w) name of Some r \<Rightarrow> r | None \<Rightarrow> 0) v)) vector"

definition score_of :: "rank_lib \<Rightarrow> json \<Rightarrow> rat option \<Rightarrow> ranking_weights \<Rightarrow> string + rank_score" where
  "score_of lib candidate trust w =
     and_then (feature_vector lib candidate trust w) (\<lambda>vector.
     and_then (penalty_of lib candidate w) (\<lambda>penalty.
       let terms = weighted w vector @ (if penalty = 0 then [] else [(penalty_component, Some (- penalty))])
       in Inr \<lparr>sc_total = (case those (map snd terms) of Some xs \<Rightarrow> float_sum xs | None \<Rightarrow> NotFinite),
               sc_components = map (\<lambda>(name, x). (name, case x of Some r \<Rightarrow> Finite r | None \<Rightarrow> NotFinite)) terms,
               sc_features = vector\<rparr>))"

section \<open>What each part is\<close>

lemma clamp_range: "rk_feature_min w \<le> rk_feature_max w \<Longrightarrow> rk_feature_min w \<le> clamp w v \<and> clamp w v \<le> rk_feature_max w"
  by (simp add: clamp_def)

lemma clamp_id: "rk_feature_min w \<le> v \<Longrightarrow> v \<le> rk_feature_max w \<Longrightarrow> clamp w v = v"
  by (simp add: clamp_def)

lemma feature_vector_shape:
  assumes "feature_vector lib candidate trust w = Inr vector"
  shows "map fst vector = rank_features"
    and "\<forall>(name, v) \<in> set vector. \<exists>x. v = clamp w x"
proof -
  have *: "list_all2 (\<lambda>name p. fst p = name \<and> (\<exists>x. snd p = clamp w x)) rank_features vector"
    using assms unfolding feature_vector_def map_all_Inr
    by (rule list_all2_mono) (auto simp: and_then_Inr)
  show "map fst vector = rank_features"
    using * by (induction rule: list_all2_induct) auto
  show "\<forall>(name, v) \<in> set vector. \<exists>x. v = clamp w x"
    using * by (induction rule: list_all2_induct) (auto simp: case_prod_beta)
qed

lemma features_in_range:
  assumes "feature_vector lib candidate trust w = Inr vector" and "rk_feature_min w \<le> rk_feature_max w"
    and "(name, v) \<in> set vector"
  shows "rk_feature_min w \<le> v \<and> v \<le> rk_feature_max w"
proof -
  from feature_vector_shape(2) [OF assms(1)] assms(3) obtain x where "v = clamp w x" by blast
  then show ?thesis using clamp_range [OF assms(2)] by simp
qed

text \<open>A penalty is at most the ceiling.\<close>

lemma add_declared_le: "add_declared w t declared \<le> rk_max_total_penalty w"
  by (simp add: add_declared_def split: option.split)

lemma penalty_le_cap: "penalty_of lib candidate w = Inr p \<Longrightarrow> p \<le> rk_max_total_penalty w"
  by (auto simp: penalty_of_def Let_def and_then_Inr add_declared_le split: if_splits)

text \<open>A penalty that cannot be read is the ceiling.\<close>

lemma unreadable_penalty_is_the_cap:
  assumes "read_field candidate ''policy_penalties'' \<noteq> JNull"
    and "number_of (rl_checkout lib) (read_field candidate ''policy_penalties'') = Inr None"
    and "items_of (read_field candidate ''policy_events'') = Inr kinds"
  shows "penalty_of lib candidate w = Inr (rk_max_total_penalty w)"
  using assms by (simp add: penalty_of_def Let_def add_declared_def)

end
