(* ===== verification/RankFeatures.thy ===== *)
theory RankFeatures
  imports RankFilters RankScore
begin

text \<open>
  The features an auction's candidates are scored on (\<open>apps/exchange/src/ranking/features.py\<close>, with
  \<open>canonical_field\<close>, \<open>preference_term_conflict\<close> and \<open>diminishing_evidence\<close> of
  \<open>packages/contracts/src/ranking.py\<close>, and \<open>with_intent_match\<close> of \<open>ranking/serving.py\<close>). A float that is
  no finite number is \<open>NotFinite\<close>.
\<close>

section \<open>Price value\<close>

definition clamp01 :: "rat \<Rightarrow> rat" where
  "clamp01 v = (if v < 0 then 0 else if v > 1 then 1 else v)"

text \<open>The clamp of \<open>a / b\<close> for a positive \<open>b\<close>: a quotient that overflows is at one end.\<close>

definition ratio01 :: "rat \<Rightarrow> rat \<Rightarrow> rat" where
  "ratio01 a b = (case double_div a b of Some q \<Rightarrow> clamp01 q | None \<Rightarrow> if a > 0 then 1 else 0)"

text \<open>The price a candidate is charged at here: the total, or else the unit price.\<close>

definition charged_price :: "rank_lib \<Rightarrow> json \<Rightarrow> string + rat option" where
  "charged_price lib offer =
     (if offer = JNull then Inr None
      else and_then (number_of (rl_checkout lib) (read_field offer ''total_price'')) (\<lambda>total.
        case total of
          Some p \<Rightarrow> Inr (Some p)
        | None \<Rightarrow> number_of (rl_checkout lib) (read_field offer ''unit_price'')))"

definition price_band :: "rank_lib \<Rightarrow> json list \<Rightarrow> string + (rat \<times> rat) option" where
  "price_band lib list_prices =
     and_then (map_all (number_of (rl_checkout lib)) list_prices) (\<lambda>listed.
       let priced = filter (\<lambda>p. p > 0) (List.map_filter (\<lambda>p. p) listed) in
       Inr (if length priced < 2 then None
            else
              let low = foldl min (hd priced) (tl priced); high = foldl max (hd priced) (tl priced)
              in if high \<le> low then None else Some (low, high)))"

definition band_depth :: "(rat \<times> rat) option \<Rightarrow> rat option" where
  "band_depth band =
     (case band of
        None \<Rightarrow> None
      | Some (low, high) \<Rightarrow>
          if high \<le> 0 \<or> high \<le> low then None else Option.bind (double_sub high low) (\<lambda>d. double_div d high))"

text \<open>The share of the list price taken off; a difference that overflows is at one end.\<close>

definition discount_depth :: "rat \<Rightarrow> rat \<Rightarrow> rat" where
  "discount_depth listed charged =
     (case double_sub listed charged of None \<Rightarrow> if charged < listed then 1 else 0 | Some d \<Rightarrow> ratio01 d listed)"

definition scaled_depth :: "rat \<Rightarrow> rat option \<Rightarrow> rat" where
  "scaled_depth depth scale =
     (case scale of Some s \<Rightarrow> if s \<le> 0 then depth else ratio01 depth s | None \<Rightarrow> depth)"

definition price_value :: "rank_lib \<Rightarrow> json \<Rightarrow> json \<Rightarrow> rat option \<Rightarrow> string + rat option" where
  "price_value lib list_price offer depth_to_clear =
     and_then (number_of (rl_checkout lib) list_price) (\<lambda>listed.
       case listed of
         None \<Rightarrow> Inr None
       | Some l \<Rightarrow>
           if l \<le> 0 then Inr None
           else and_then (charged_price lib offer) (\<lambda>charged.
             Inr (Some (case charged of
                          None \<Rightarrow> 0
                        | Some p \<Rightarrow> scaled_depth (discount_depth l p) depth_to_clear))))"

section \<open>What the shopper asked about\<close>

definition field_char :: "char \<Rightarrow> bool" where
  "field_char c \<longleftrightarrow> (97 \<le> point c \<and> point c \<le> 122) \<or> ascii_digit c"

definition canonical_field :: "string \<Rightarrow> string" where
  "canonical_field field =
     trim_with (\<lambda>c. c = CHR ''-'') (sub_runs (\<lambda>c. \<not> field_char c) ''-'' (lower field))"

definition preference_field_terms :: "(string, string) dict" where
  "preference_field_terms =
     [(''price'', ''price_value''), (''price-usd'', ''price_value''), (''unit-price'', ''price_value''),
      (''total-price'', ''price_value''), (''list-price'', ''price_value''), (''cost'', ''price_value''),
      (''discount'', ''price_value''), (''discount-pct'', ''price_value''), (''delivery'', ''delivery_fit''),
      (''delivery-days'', ''delivery_fit''), (''delivery-estimate-days'', ''delivery_fit''),
      (''shipping'', ''delivery_fit''), (''shipping-days'', ''delivery_fit''),
      (''shipping-speed'', ''delivery_fit''), (''trust'', ''trust''), (''trust-score'', ''trust'')]"

definition preference_term_conflict :: "string \<Rightarrow> string option" where
  "preference_term_conflict field = dget preference_field_terms (canonical_field field)"

definition min_query_token :: nat where "min_query_token = 3"

definition query_stopwords :: "string list" where
  "query_stopwords =
     [''and'', ''any'', ''are'', ''but'', ''can'', ''for'', ''from'', ''has'', ''have'', ''its'', ''not'', ''one'',
      ''our'', ''some'', ''than'', ''that'', ''the'', ''them'', ''they'', ''this'', ''under'', ''was'', ''what'',
      ''which'', ''with'', ''you'', ''your'']"

definition query_tokens_of :: "string \<Rightarrow> string list" where
  "query_tokens_of s =
     filter (\<lambda>t. length t \<ge> min_query_token \<and> t \<notin> set query_stopwords \<and> \<not> all_digits t)
       (split_on CHR ''-'' (canonical_field s))"

record intent_surface =
  is_tiers :: "(string, string) dict"
  is_query_tokens :: "string list"
  is_refused :: "(string, string) dict"
  is_scored_axes :: "(string, string) dict"

definition empty_surface :: intent_surface where
  "empty_surface = \<lparr>is_tiers = [], is_query_tokens = [], is_refused = [], is_scored_axes = []\<rparr>"

definition relevance_tiers :: "string list" where
  "relevance_tiers = [''hard_constraint'', ''preference'', ''query_term'', ''term_scored_ask'']"

definition tier_order :: "string \<Rightarrow> nat" where
  "tier_order tier = length (takeWhile (\<lambda>t. t \<noteq> tier) relevance_tiers)"

definition strongest :: "string option \<Rightarrow> string \<Rightarrow> string" where
  "strongest current candidate =
     (case current of None \<Rightarrow> candidate | Some c \<Rightarrow> if tier_order c \<le> tier_order candidate then c else candidate)"

text \<open>The inner \<open>add\<close> of \<open>intent_surface\<close>: a field the formula already scores is noted, not weighed.\<close>

definition add_asked :: "rank_lib \<Rightarrow> json \<Rightarrow> string \<Rightarrow> intent_surface \<Rightarrow> intent_surface" where
  "add_asked lib raw_field tier s =
     (let field = (if raw_field = JNull then [] else canonical_field (text_of lib raw_field)) in
      if field = [] then s
      else
        case preference_term_conflict field of
          Some axis \<Rightarrow> s\<lparr>is_scored_axes := dsetdefault axis field (is_scored_axes s)\<rparr>
        | None \<Rightarrow> s\<lparr>is_tiers := dset field (strongest (dget (is_tiers s) field) tier) (is_tiers s)\<rparr>)"

definition add_preference :: "rank_lib \<Rightarrow> json \<Rightarrow> intent_surface \<Rightarrow> intent_surface" where
  "add_preference lib preference s =
     (case read_field preference ''field'' of
        JNull \<Rightarrow> s
      | raw \<Rightarrow>
          add_asked lib raw ''preference''
            (case preference_term_conflict (text_of lib raw) of
               Some taken \<Rightarrow> s\<lparr>is_refused := dset (canonical_field (text_of lib raw)) taken (is_refused s)\<rparr>
             | None \<Rightarrow> s))"

text \<open>A list's items; the items of another iterable have no field \<open>field\<close> and add nothing.\<close>

definition entries_of :: "json \<Rightarrow> json list" where
  "entries_of v = (case v of JArr xs \<Rightarrow> xs | _ \<Rightarrow> [])"

definition intent_surface_of :: "rank_lib \<Rightarrow> json \<Rightarrow> intent_surface" where
  "intent_surface_of lib intent =
     (if intent = JNull then empty_surface
      else
        let s = fold (\<lambda>c. add_asked lib (read_field c ''field'') ''hard_constraint'')
                  (entries_of (read_field intent ''hard_constraints'')) empty_surface;
            s = fold (add_preference lib) (entries_of (read_field intent ''preferences'')) s
        in s\<lparr>is_query_tokens := (case read_field intent ''query'' of JStr q \<Rightarrow> query_tokens_of q | _ \<Rightarrow> [])\<rparr>)"

definition relevance_of :: "rank_lib \<Rightarrow> intent_surface \<Rightarrow> json \<Rightarrow> string option" where
  "relevance_of lib s key =
     (let field = (if key = JNull then [] else canonical_field (text_of lib key)) in
      if field = [] then None
      else
        case dget (is_tiers s) field of
          Some tier \<Rightarrow> Some tier
        | None \<Rightarrow>
            if set (query_tokens_of field) \<inter> set (is_query_tokens s) \<noteq> {} then Some ''query_term''
            else
              case preference_term_conflict field of
                Some axis \<Rightarrow> if axis \<in> set (dkeys (is_scored_axes s)) then Some ''term_scored_ask'' else None
              | None \<Rightarrow> None)"

text \<open>The doubles 0.7, 0.6, 0.55, 0.55.\<close>

definition evidence_gain_by_relevance :: "(string, rat) dict" where
  "evidence_gain_by_relevance =
     [(''hard_constraint'', 3152519739159347 / 4503599627370496),
      (''preference'', 5404319552844595 / 9007199254740992),
      (''query_term'', 2476979795053773 / 4503599627370496),
      (''term_scored_ask'', 2476979795053773 / 4503599627370496)]"

definition gain_of :: "rank_lib \<Rightarrow> intent_surface \<Rightarrow> json \<Rightarrow> rat" where
  "gain_of lib s key =
     (case relevance_of lib s key of
        None \<Rightarrow> 0
      | Some tier \<Rightarrow> (case dget evidence_gain_by_relevance tier of Some g \<Rightarrow> g | None \<Rightarrow> 0))"

section \<open>The share of the claims that were verified\<close>

text \<open>The running product of \<open>diminishing_evidence\<close>; its factors are between 0 and 1 and never overflow.\<close>

definition diminished :: "rat \<Rightarrow> rat \<Rightarrow> rat" where
  "diminished remaining gain =
     (if gain \<le> 0 then remaining
      else
        case Option.bind (double_sub 1 (min gain 1)) (\<lambda>f. double_mul remaining f) of
          Some r \<Rightarrow> r
        | None \<Rightarrow> remaining)"

definition diminishing_evidence :: "rat list \<Rightarrow> rat" where
  "diminishing_evidence gains =
     (let remaining = foldl diminished 1 gains
      in case double_sub 1 remaining of Some r \<Rightarrow> r | None \<Rightarrow> 1 - remaining)"

definition undecided :: string where "undecided = ''ambiguous''"

definition contradicted :: string where "contradicted = ''contradicted''"

text \<open>The gains of the verified claims that were asked about, and how many of those were decided.\<close>

fun gains_loop :: "rank_lib \<Rightarrow> intent_surface \<Rightarrow> json \<Rightarrow> json list \<Rightarrow> string + rat list \<times> nat" where
  "gains_loop lib asked store_id [] = Inr ([], 0)"
| "gains_loop lib asked store_id (claim # rest) =
     (if relevance_of lib asked (read_field claim ''key'') = None then gains_loop lib asked store_id rest
      else and_then (claim_status lib claim store_id) (\<lambda>status.
        if status = Some undecided then gains_loop lib asked store_id rest
        else and_then (gains_loop lib asked store_id rest) (\<lambda>(gains, decided).
          Inr (if status = Some verified_status
               then (gain_of lib asked (read_field claim ''key'') # gains, Suc decided)
               else (gains, Suc decided)))))"

definition verified_claim_ratio :: "rank_lib \<Rightarrow> json \<Rightarrow> json \<Rightarrow> intent_surface \<Rightarrow> string + rat option" where
  "verified_claim_ratio lib claims store_id asked =
     and_then (items_of claims) (\<lambda>presented.
     and_then (gains_loop lib asked store_id presented) (\<lambda>(gains, decided).
       Inr (if decided = 0 then None else Some (clamp01 (diminishing_evidence gains)))))"

fun contradicted_loop :: "rank_lib \<Rightarrow> json \<Rightarrow> json list \<Rightarrow> string + string list" where
  "contradicted_loop lib store_id [] = Inr []"
| "contradicted_loop lib store_id (claim # rest) =
     and_then (claim_status lib claim store_id) (\<lambda>status.
     and_then (contradicted_loop lib store_id rest) (\<lambda>events.
       Inr (if status = Some contradicted then contradicted_claim # events else events)))"

definition contradicted_claim_events :: "rank_lib \<Rightarrow> json \<Rightarrow> json \<Rightarrow> string + string list" where
  "contradicted_claim_events lib claims store_id = and_then (items_of claims) (contradicted_loop lib store_id)"

section \<open>Delivery\<close>

definition trust_prior_mass :: rat where "trust_prior_mass = 4"

definition min_dispatch_observations :: rat where "min_dispatch_observations = 5"

definition min_dispatch_credibility :: rat where "min_dispatch_credibility = 1 / 4"

definition delivery_estimate :: "rank_lib \<Rightarrow> json \<Rightarrow> string + rat option" where
  "delivery_estimate lib offer =
     and_then (number_of (rl_checkout lib) (read_field offer ''delivery_estimate_days'')) (\<lambda>days.
       Inr (case days of Some d \<Rightarrow> if d < 0 then None else Some d | None \<Rightarrow> None))"

text \<open>The share of on-time dispatches, once enough were observed beyond the prior.\<close>

definition credibility_of :: "rat option \<Rightarrow> rat option \<Rightarrow> rat option" where
  "credibility_of alpha beta =
     (case (alpha, beta) of
        (Some a, Some b) \<Rightarrow>
          if a < 0 \<or> b < 0 then None
          else
            (case double_add a b of
               None \<Rightarrow> None
             | Some mass \<Rightarrow>
                 if mass \<le> 0 \<or> (case double_sub mass trust_prior_mass of
                       Some d \<Rightarrow> d < min_dispatch_observations | None \<Rightarrow> False) then None
                 else Some (ratio01 a mass))
      | _ \<Rightarrow> None)"

definition dispatch_credibility :: "rank_lib \<Rightarrow> json \<Rightarrow> string + rat option" where
  "dispatch_credibility lib row =
     (let dimension = read_field (read_field row ''dims'') ''shipped_on_time'' in
      if dimension = JNull then Inr None
      else and_then (number_of (rl_checkout lib) (read_field dimension ''alpha'')) (\<lambda>alpha.
        and_then (number_of (rl_checkout lib) (read_field dimension ''beta'')) (\<lambda>beta.
          Inr (credibility_of alpha beta))))"

text \<open>The days quoted over what the store has earned; a quotient that overflows is infinite.\<close>

definition credible_delivery_estimate :: "rat option \<Rightarrow> rat option \<Rightarrow> pyfloat option" where
  "credible_delivery_estimate days credibility =
     (case (days, credibility) of
        (Some stated, Some earned) \<Rightarrow>
          Some (case double_div stated (max (clamp01 earned) min_dispatch_credibility) of
                  Some d \<Rightarrow> Finite d
                | None \<Rightarrow> NotFinite)
      | _ \<Rightarrow> None)"

definition finite_float :: "pyfloat \<Rightarrow> rat option" where
  "finite_float x = (case x of Finite r \<Rightarrow> Some r | NotFinite \<Rightarrow> None)"

text \<open>
  \<open>delivery_fits\<close>: where each estimate stands between the slowest and the fastest. An infinite estimate
  among several makes every quotient a NaN.
\<close>

definition fit_between :: "rat \<Rightarrow> rat \<Rightarrow> rat \<Rightarrow> pyfloat" where
  "fit_between fastest slowest days =
     (case (double_sub slowest days, double_sub slowest fastest) of
        (Some d, Some spread) \<Rightarrow> Finite (ratio01 d spread)
      | _ \<Rightarrow> NotFinite)"

definition delivery_fits :: "pyfloat option list \<Rightarrow> pyfloat option list" where
  "delivery_fits estimates =
     (let admissible = List.map_filter (\<lambda>e. e) estimates; finite = List.map_filter finite_float admissible in
      if length admissible < 2 then map (\<lambda>_. None) estimates
      else if length finite < length admissible then map (map_option (\<lambda>_. NotFinite)) estimates
      else
        let fastest = foldl min (hd finite) (tl finite); slowest = foldl max (hd finite) (tl finite)
        in if (case double_sub slowest fastest of Some spread \<Rightarrow> spread \<le> 0 | None \<Rightarrow> False)
           then map (\<lambda>_. None) estimates
           else map (\<lambda>e. case e of
                       Some (Finite days) \<Rightarrow> Some (fit_between fastest slowest days)
                     | _ \<Rightarrow> None) estimates)"

section \<open>Attaching\<close>

text \<open>A NaN is stored as it is and read by nothing as a number; JSON has none, so the field is left out.\<close>

definition put_feature :: "string \<Rightarrow> rat option \<Rightarrow> (string, json) dict \<Rightarrow> (string, json) dict" where
  "put_feature name v candidate =
     (case v of None \<Rightarrow> dpop name candidate | Some r \<Rightarrow> dset name (JReal r) candidate)"

definition attach_one ::
  "rank_lib \<Rightarrow> intent_surface \<Rightarrow> rat option \<Rightarrow> json \<Rightarrow> pyfloat option \<Rightarrow> (string, json) dict \<Rightarrow>
     string + (string, json) dict" where
  "attach_one lib asked depth_to_clear list_price fit candidate =
     (let offer = read_field (JObj candidate) ''offer''; store_id = read_field (JObj candidate) ''store_id'';
          claims = read_field (JObj candidate) ''claims'' in
      and_then (price_value lib list_price offer depth_to_clear) (\<lambda>pv.
      and_then (verified_claim_ratio lib claims store_id asked) (\<lambda>ratio.
      and_then (contradicted_claim_events lib claims store_id) (\<lambda>events.
        let c = put_feature ''delivery_fit'' (Option.bind fit finite_float)
                  (put_feature ''verified_claim_ratio'' ratio (put_feature ''price_value'' pv candidate))
        in Inr (if events = [] then c
                else dset ''policy_events''
                  (JArr (entries_of (read_field (JObj c) ''policy_events'') @ map JStr events)) c)))))"

definition store_credibility :: "rank_lib \<Rightarrow> trust_snapshot \<Rightarrow> (string, json) dict \<Rightarrow> string + rat option" where
  "store_credibility lib snapshot candidate =
     (case read_field (JObj candidate) ''store_id'' of
        JNull \<Rightarrow> Inr None
      | store_id \<Rightarrow> dispatch_credibility lib (trust_row lib (text_of lib store_id) snapshot))"

definition candidate_estimate :: "rank_lib \<Rightarrow> trust_snapshot \<Rightarrow> (string, json) dict \<Rightarrow> string + pyfloat option" where
  "candidate_estimate lib snapshot candidate =
     and_then (store_credibility lib snapshot candidate) (\<lambda>earned.
     and_then (delivery_estimate lib (read_field (JObj candidate) ''offer'')) (\<lambda>days.
       Inr (credible_delivery_estimate days earned)))"

definition attach_features ::
  "rank_lib \<Rightarrow> (string, json) dict list \<Rightarrow> json list \<Rightarrow> json \<Rightarrow> trust_snapshot \<Rightarrow> string + (string, json) dict list" where
  "attach_features lib candidates list_prices intent snapshot =
     (let listed = (if length list_prices = length candidates then list_prices else replicate (length candidates) JNull)
      in and_then (map_all (candidate_estimate lib snapshot) candidates) (\<lambda>estimates.
         and_then (price_band lib listed) (\<lambda>band.
           map_all (\<lambda>(candidate, list_price, fit).
               attach_one lib (intent_surface_of lib intent) (band_depth band) list_price fit candidate)
             (zip candidates (zip listed (delivery_fits estimates))))))"

text \<open>\<open>with_intent_match\<close>, over the finite measurements by store.\<close>

definition with_intent_match ::
  "rank_lib \<Rightarrow> (string, rat) dict \<Rightarrow> (string, json) dict list \<Rightarrow> (string, json) dict list" where
  "with_intent_match lib measured candidates =
     map (\<lambda>c. case dget measured (text_or_empty lib (read_field (JObj c) ''store_id'')) of
                Some fit \<Rightarrow> dset ''intent_match'' (JReal fit) c
              | None \<Rightarrow> c) candidates"

end
