(* ===== verification/Rank.thy ===== *)
theory Rank
  imports RankFeatures Ranking
begin

text \<open>
  Ranking an auction's candidates (\<open>rank\<close> of \<open>apps/exchange/src/ranking/__init__.py\<close>, the trust summary
  and the provenance labels of \<open>shortlist.py\<close>, \<open>packages/contracts/src/labels.py\<close>): every candidate is
  filtered, the eligible ones scored and sorted; when nobody is eligible, the constraints no catalogue
  of the auction can answer are set aside and everybody is judged again.
\<close>

section \<open>What a row shows\<close>

definition provenance_buyer_labels :: "(string, string) dict" where
  "provenance_buyer_labels =
     [(''owner_statement'', ''store-confirmed''), (''envelope_rule'', ''store-confirmed''),
      (''learned_policy'', ''store-confirmed''), (''pixel_feed'', ''store-confirmed''),
      (''network'', ''store-confirmed''), (''scraped'', ''from their website''),
      (''seller_asserted'', ''unverified'')]"

definition source_of :: "rank_lib \<Rightarrow> json \<Rightarrow> string" where
  "source_of lib provenance =
     text_or_empty lib (case provenance of JStr s \<Rightarrow> JStr s | _ \<Rightarrow> read_field provenance ''source'')"

text \<open>\<open>buyer_label\<close>; \<open>None\<close> is its \<open>KeyError\<close>.\<close>

definition buyer_label :: "rank_lib \<Rightarrow> json \<Rightarrow> string option" where
  "buyer_label lib provenance = dget provenance_buyer_labels (source_of lib provenance)"

definition labelled_claim :: "rank_lib \<Rightarrow> json \<Rightarrow> string option" where
  "labelled_claim lib claim =
     (case read_field claim ''provenance'' of JNull \<Rightarrow> None | provenance \<Rightarrow> buyer_label lib provenance)"

definition provenance_labels :: "rank_lib \<Rightarrow> json \<Rightarrow> string + string list" where
  "provenance_labels lib claims =
     and_then (items_of claims) (\<lambda>cs.
       let labels = each_once (List.map_filter (labelled_claim lib) cs)
       in Inr (if labels = [] then [''unverified''] else sort labels))"

record trust_summary =
  ts_store_id :: string
  ts_available :: bool
  ts_score :: "float_text option"
  ts_confidence :: "float_text option"
  ts_low_data :: "bool option"
  ts_dimensions :: "string list option"

text \<open>\<open>for key in dims\<close>\<close>

definition keys_of :: "json \<Rightarrow> string + json list" where
  "keys_of v =
     (case v of
        JArr xs \<Rightarrow> Inr xs
      | JStr s \<Rightarrow> Inr (map (\<lambda>c. JStr [c]) s)
      | JObj d \<Rightarrow> Inr (map (\<lambda>p. JStr (fst p)) d)
      | _ \<Rightarrow> Inl ''TypeError'')"

definition shown_float :: "rank_lib \<Rightarrow> json \<Rightarrow> string + float_text option" where
  "shown_float lib v = (case v of JNull \<Rightarrow> Inr None | _ \<Rightarrow> and_then (to_float (rl_checkout lib) v) (\<lambda>x. Inr (Some x)))"

definition trust_summary_of :: "rank_lib \<Rightarrow> string \<Rightarrow> json \<Rightarrow> string + trust_summary" where
  "trust_summary_of lib store_id row =
     (if row = JNull then
        Inr \<lparr>ts_store_id = store_id, ts_available = False, ts_score = None, ts_confidence = None,
             ts_low_data = None, ts_dimensions = None\<rparr>
      else
        and_then (shown_float lib (read_field row ''score'')) (\<lambda>score.
        and_then (shown_float lib (read_field row ''confidence'')) (\<lambda>confidence.
        and_then (case read_field row ''dims'' of JNull \<Rightarrow> Inr None
                  | dims \<Rightarrow> and_then (keys_of dims) (\<lambda>ks. Inr (Some (sort (map (text_of lib) ks))))) (\<lambda>dimensions.
          Inr \<lparr>ts_store_id = store_id, ts_available = True, ts_score = score, ts_confidence = confidence,
               ts_low_data = (case read_field row ''low_data'' of JNull \<Rightarrow> None | v \<Rightarrow> Some (truthy v)),
               ts_dimensions = dimensions\<rparr>))))"

section \<open>A candidate judged\<close>

record judged_row =
  jr_bid_id :: string
  jr_store_id :: string
  jr_reasons :: "exclusion list"
  jr_score :: "rank_score option"
  jr_hard_fits :: int
  jr_trust :: "rat option"
  jr_price :: "rat option"
  jr_trust_summary :: trust_summary
  jr_labels :: "string list"

definition jr_eligible :: "judged_row \<Rightarrow> bool" where
  "jr_eligible row \<longleftrightarrow> jr_reasons row = []"

text \<open>The row as the sort and the shortlist read it; one that is not eligible has no score.\<close>

definition row_of :: "judged_row \<Rightarrow> rank_row" where
  "row_of row =
     \<lparr>rw_bid_id = jr_bid_id row, rw_store_id = jr_store_id row, rw_eligible = jr_eligible row,
      rw_rank_score = (case jr_score row of Some s \<Rightarrow> sc_total s | None \<Rightarrow> NotFinite),
      rw_features = (case jr_score row of Some s \<Rightarrow> sc_features s | None \<Rightarrow> []),
      rw_hard_fits = jr_hard_fits row, rw_trust = map_option Finite (jr_trust row),
      rw_price = map_option Finite (jr_price row), rw_labels = jr_labels row\<rparr>"

text \<open>What \<open>rank\<close> is given beside the candidates, and what it reads from the intent once.\<close>

record rank_setting =
  rs_snapshot :: trust_snapshot
  rs_eligibility :: "string eligibility_source option"
  rs_weights :: ranking_weights
  rs_identities :: "(string, json) dict option"
  rs_relevance :: topical_relevance
  rs_now :: float_text
  rs_query :: string
  rs_intent_reason :: "exclusion option"

definition off_topic_reasons :: "rank_lib \<Rightarrow> rank_setting \<Rightarrow> json \<Rightarrow> string \<Rightarrow> exclusion list" where
  "off_topic_reasons lib s candidate store_id =
     (case rs_identities s of
        None \<Rightarrow> []
      | Some identities \<Rightarrow>
          if rs_query s = [] then []
          else
            case organic_relevance_reason lib candidate (rs_query s)
                   (case dget identities store_id of Some identity \<Rightarrow> identity | None \<Rightarrow> JNull) (rs_relevance s) of
              Some e \<Rightarrow> [e]
            | None \<Rightarrow> [])"

definition judged_candidate ::
  "rank_lib \<Rightarrow> rank_setting \<Rightarrow> hard_criterion list \<Rightarrow> json \<Rightarrow> string + judged_row" where
  "judged_candidate lib s applied candidate =
     and_then (exclusion_reasons lib candidate applied (rs_intent_reason s) (rs_snapshot s) (rs_now s)
                 (rs_eligibility s)) (\<lambda>(reasons, fits).
       let store_id = text_or_empty lib (read_field candidate ''store_id'');
           reasons = reasons @ off_topic_reasons lib s candidate store_id;
           row = (if store_id = [] then JNull else trust_row lib store_id (rs_snapshot s))
       in and_then (number_of (rl_checkout lib) (read_field row ''score'')) (\<lambda>trust.
          and_then (offer_price lib (read_field candidate ''offer'')) (\<lambda>price.
          and_then (trust_summary_of lib store_id row) (\<lambda>summary.
          and_then (provenance_labels lib (read_field candidate ''claims'')) (\<lambda>labels.
          and_then (if reasons = [] then and_then (score_of lib candidate trust (rs_weights s)) (\<lambda>x. Inr (Some x))
                    else Inr None) (\<lambda>score.
            Inr \<lparr>jr_bid_id = text_or_empty lib (read_field candidate ''bid_id''), jr_store_id = store_id,
                 jr_reasons = reasons, jr_score = score, jr_hard_fits = fits, jr_trust = trust, jr_price = price,
                 jr_trust_summary = summary, jr_labels = labels\<rparr>))))))"

definition rows_for ::
  "rank_lib \<Rightarrow> rank_setting \<Rightarrow> json list \<Rightarrow> hard_criterion list \<Rightarrow> string + judged_row list" where
  "rows_for lib s candidates applied = map_all (judged_candidate lib s applied) candidates"

section \<open>The auction ranked\<close>

record ranking =
  rg_ranked :: "judged_row list"
  rg_candidates :: "judged_row list"
  rg_auction_id :: string
  rg_shortlist :: "shortlist_slot list"
  rg_relaxed :: "hard_criterion list"

text \<open>\<open>_now_from\<close>; \<open>clock\<close> is \<open>time.time()\<close>.\<close>

definition now_from :: "rank_lib \<Rightarrow> rat \<Rightarrow> json \<Rightarrow> string + float_text" where
  "now_from lib clock config =
     (case read_field config ''now'' of
        JNull \<Rightarrow> Inr (FiniteText clock)
      | raw \<Rightarrow>
          (case to_float (rl_checkout lib) raw of
             Inr x \<Rightarrow> Inr x
           | Inl e \<Rightarrow> if e = ''OverflowError'' then Inl e else Inr (FiniteText clock)))"

definition fallback_auction_id :: string where "fallback_auction_id = ''auction-unidentified''"

definition auction_id_of :: "rank_lib \<Rightarrow> json list \<Rightarrow> json \<Rightarrow> json \<Rightarrow> string" where
  "auction_id_of lib candidates intent config =
     (case find truthy ([read_field config ''auction_id'', read_field intent ''auction_id'',
              read_field intent ''intent_id''] @ map (\<lambda>c. read_field c ''auction_id'') candidates) of
        Some v \<Rightarrow> text_of lib v
      | None \<Rightarrow> fallback_auction_id)"

text \<open>
  The second judging: the constraints nobody can answer are set aside, and the rows of it are taken
  only when they have an eligible one. A constraint Python finds equal to an unanswerable one has its
  field and operator, on which alone that depends, so it is unanswerable itself.
\<close>

definition relaxed_rows ::
  "rank_lib \<Rightarrow> rank_setting \<Rightarrow> json list \<Rightarrow> hard_criterion list \<Rightarrow> string list \<Rightarrow> judged_row list \<Rightarrow>
     string + judged_row list \<times> hard_criterion list" where
  "relaxed_rows lib s candidates criteria network_attributes rows =
     (if criteria \<noteq> [] \<and> rs_intent_reason s = None \<and> \<not> list_ex jr_eligible rows then
        and_then (unanswerable_criteria lib candidates criteria network_attributes) (\<lambda>dropped.
          if dropped = [] then Inr (rows, [])
          else and_then (rows_for lib s candidates (filter (\<lambda>c. c \<notin> set dropped) criteria)) (\<lambda>retried.
            Inr (if list_ex jr_eligible retried then (retried, dropped) else (rows, []))))
      else Inr (rows, []))"

definition sorted_rows :: "string list \<Rightarrow> judged_row list \<Rightarrow> judged_row list" where
  "sorted_rows tie_breakers rows = sort_key (\<lambda>r. rank_sort_key tie_breakers (row_of r)) (filter jr_eligible rows)"

definition rank_candidates ::
  "rank_lib \<Rightarrow> rat \<Rightarrow> json list \<Rightarrow> json \<Rightarrow> trust_snapshot \<Rightarrow> json \<Rightarrow> ranking_weights \<Rightarrow> string eligibility_source option \<Rightarrow>
     string list \<Rightarrow> (string, json) dict option \<Rightarrow> topical_relevance \<Rightarrow> string + ranking" where
  "rank_candidates lib clock candidates intent snapshot config weights eligibility network_attributes identities relevance =
     and_then (now_from lib clock config) (\<lambda>now.
       let (criteria, intent_reason) = read_criteria lib intent;
           s = \<lparr>rs_snapshot = snapshot, rs_eligibility = eligibility, rs_weights = weights,
                rs_identities = identities, rs_relevance = relevance, rs_now = now,
                rs_query = text_or_empty lib (read_field intent ''query''), rs_intent_reason = intent_reason\<rparr>
       in and_then (rows_for lib s candidates criteria) (\<lambda>first.
          and_then (relaxed_rows lib s candidates criteria network_attributes first) (\<lambda>(rows, relaxed).
            let ranked = sorted_rows (rk_tie_breakers weights) rows
            in Inr \<lparr>rg_ranked = ranked, rg_candidates = rows,
                    rg_auction_id = auction_id_of lib candidates intent config,
                    rg_shortlist = shortlist_slots (map row_of ranked) max_slots, rg_relaxed = relaxed\<rparr>)))"

end
