(* ===== verification/RankLaws.thy ===== *)
theory RankLaws
  imports Rank
begin

text \<open>
  What it takes for a candidate to be ranked: no reason against it, read back gate by gate.
\<close>

section \<open>The specification of a ranked candidate\<close>

text \<open>The store: named, readably not blacklisted, and eligible where a source is asked.\<close>

definition store_cleared :: "rank_lib \<Rightarrow> trust_snapshot \<Rightarrow> string eligibility_source option \<Rightarrow> string \<Rightarrow> bool" where
  "store_cleared lib snapshot eligibility store_id \<longleftrightarrow>
     read_field (trust_row lib store_id snapshot) ''blacklisted'' = JBool False \<and>
     (\<forall>source. eligibility = Some source \<longrightarrow>
        speaks_supported_interface source \<and> es_check source store_id = Answered (Some eligible_status))"

text \<open>The offer: a finite expiry that is not before the auction's instant, and a checkout on the domain.\<close>

definition offer_stands :: "rank_lib \<Rightarrow> float_text \<Rightarrow> json \<Rightarrow> bool" where
  "offer_stands lib now offer \<longleftrightarrow>
     (\<exists>t. expiry_epoch (rl_checkout lib) (read_field offer ''expires_at'') = Inr (FiniteText t) \<and> \<not> before t now)"

definition checkout_on_domain :: "rank_lib \<Rightarrow> json \<Rightarrow> json \<Rightarrow> bool" where
  "checkout_on_domain lib candidate offer \<longleftrightarrow>
     truthy (registered_domain candidate) \<and>
     (\<exists>url. offer_url candidate offer = JStr url \<and>
        is_on_domain (rl_checkout lib) url (text_of lib (registered_domain candidate)))"

text \<open>A bound on the price: some price is stated, and every one that is keeps the bound.\<close>

definition states_price :: "rank_lib \<Rightarrow> json \<Rightarrow> string \<Rightarrow> rat \<Rightarrow> bool" where
  "states_price lib offer name p \<longleftrightarrow> number_of (rl_checkout lib) (read_field offer name) = Inr (Some p)"

definition keeps_budget :: "rank_lib \<Rightarrow> hard_criterion \<Rightarrow> json \<Rightarrow> bool" where
  "keeps_budget lib c offer \<longleftrightarrow>
     (\<exists>name \<in> set price_fields. \<exists>p. states_price lib offer name p) \<and>
     (\<exists>bound. bound_of (hc_value c) = Inr bound \<and>
        (\<forall>name \<in> set price_fields. \<forall>p. states_price lib offer name p \<longrightarrow> \<not> outside_bound (hc_op c) bound p))"

text \<open>Any other constraint: a claim under the exchange's own MAC as verified, whose reading matches it.\<close>

definition proven_by :: "rank_lib \<Rightarrow> hard_criterion \<Rightarrow> json \<Rightarrow> json \<Rightarrow> bool" where
  "proven_by lib c store_id claim \<longleftrightarrow>
     carries_mac lib claim store_id verified_status \<and>
     (\<exists>a. reading_of_claim lib claim = Inr a \<and> slug lib (rd_key a) = canonical_name lib c \<and>
        in_wanted_unit lib c a \<and> matches_reading lib c a = Inr True)"

definition constraint_kept :: "rank_lib \<Rightarrow> hard_criterion \<Rightarrow> json \<Rightarrow> bool" where
  "constraint_kept lib c candidate \<longleftrightarrow>
     (if is_budget_bound lib c then keeps_budget lib c (read_field candidate ''offer'')
      else \<exists>claims claim. items_of (read_field candidate ''claims'') = Inr claims \<and> claim \<in> set claims \<and>
             proven_by lib c (read_field candidate ''store_id'') claim)"

section \<open>Gate by gate\<close>

lemma blacklist_reason_None:
  assumes "blacklist_reason lib store_id snapshot = None"
  shows "read_field (trust_row lib store_id snapshot) ''blacklisted'' = JBool False"
  using assms by (auto simp: blacklist_reason_def Let_def split: if_splits json.splits)

lemma eligibility_source_reason_None:
  "eligibility_source_reason (Some source) store_id = None \<longleftrightarrow>
     speaks_supported_interface source \<and> es_check source store_id = Answered (Some eligible_status)"
  by (simp add: eligibility_source_reason_def read_eligibility_eligible)

lemma store_reasons_Nil:
  assumes "store_reasons lib snapshot eligibility store_id = []" and "truthy store_id"
  shows "store_cleared lib snapshot eligibility (text_of lib store_id)"
  using assms blacklist_reason_None eligibility_source_reason_None
  by (auto simp: store_reasons_def store_cleared_def split: option.splits)

lemma expiry_reason_None:
  assumes "expiry_reason lib offer now = Inr None"
  shows "offer_stands lib now offer"
  using assms
  by (auto simp: expiry_reason_def offer_stands_def split: json.splits sum.splits float_text.splits if_splits)

lemma domain_reason_None:
  assumes "domain_reason lib candidate offer = None"
  shows "checkout_on_domain lib candidate offer"
  using assms by (auto simp: domain_reason_def checkout_on_domain_def split: json.splits if_splits)

lemma set_offer_prices:
  assumes "offer_prices lib offer = Inr prices"
  shows "(name, p) \<in> set prices \<longleftrightarrow> name \<in> set price_fields \<and> states_price lib offer name p"
proof -
  from assms show ?thesis
    by (auto simp: offer_prices_def price_fields_def states_price_def and_then_Inr List.map_filter_simps
        split: option.splits)
qed

lemma budget_loop_Nil:
  assumes "budget_loop prices bounds = Inr []" and "c \<in> set bounds"
  shows "\<exists>bound. bound_of (hc_value c) = Inr bound \<and> (\<forall>p \<in> set prices. \<not> outside_bound (hc_op c) bound (snd p))"
  using assms by (induction bounds) (auto simp: and_then_Inr list_ex_iff split: if_splits)

lemma budget_reasons_Nil:
  assumes "budget_reasons lib offer criteria = Inr []" and "c \<in> set criteria" and "is_budget_bound lib c"
  shows "keeps_budget lib c offer"
proof -
  have "filter (is_budget_bound lib) criteria \<noteq> []" using assms(2,3) by (auto simp: filter_empty_conv)
  with assms(1) obtain prices where prices: "offer_prices lib offer = Inr prices" "prices \<noteq> []"
      "budget_loop prices (filter (is_budget_bound lib) criteria) = Inr []"
    by (auto simp: budget_reasons_def Let_def and_then_Inr split: if_splits)
  from budget_loop_Nil [OF prices(3), of c] assms(2,3) obtain bound
    where bound: "bound_of (hc_value c) = Inr bound" "\<forall>p \<in> set prices. \<not> outside_bound (hc_op c) bound (snd p)"
    by auto
  obtain name p where "(name, p) \<in> set prices" using prices(2) by (cases prices) auto
  then show ?thesis
    using set_offer_prices [OF prices(1)] bound by (force simp: keeps_budget_def)
qed

lemma offer_reasons_Nil:
  assumes "offer_reasons lib criteria now candidate offer = Inr []" and "offer \<noteq> JNull"
  shows "offer_stands lib now offer" and "checkout_on_domain lib candidate offer"
    and "budget_reasons lib offer criteria = Inr []"
  using assms expiry_reason_None domain_reason_None
  by (auto simp: offer_reasons_def and_then_Inr split: option.splits)

lemma verified_loop_claim:
  assumes "verified_loop lib store_id claims = Inr attributes" and "a \<in> set attributes"
  shows "\<exists>claim \<in> set claims. claim_status lib claim store_id = Inr (Some verified_status) \<and>
           reading_of_claim lib claim = Inr a"
  using assms
proof (induction claims arbitrary: attributes)
  case (Cons claim rest)
  show ?case
  proof (cases "read_field claim ''key'' = JNull \<or> claim_status lib claim store_id \<noteq> Inr (Some verified_status)")
    case True
    then have "verified_loop lib store_id rest = Inr attributes"
      using Cons.prems(1) by (auto simp: and_then_Inr split: if_splits)
    with Cons.IH Cons.prems(2) show ?thesis by auto
  next
    case False
    then obtain b bs where "reading_of_claim lib claim = Inr b" "verified_loop lib store_id rest = Inr bs"
        "attributes = b # bs"
      using Cons.prems(1) by (auto simp: and_then_Inr)
    with False Cons.IH Cons.prems(2) show ?thesis by auto
  qed
qed simp

lemma constraint_loop_Nil:
  assumes "constraint_loop lib attributes criteria = Inr ([], n)" and "c \<in> set criteria" and "\<not> is_budget_bound lib c"
  shows "decide_criterion lib c attributes = Inr Satisfied"
  using assms
  by (induction criteria arbitrary: n) (auto simp: and_then_Inr split: if_splits prod.splits)

lemma hard_constraint_reasons_Nil:
  assumes "hard_constraint_reasons lib claims criteria store_id = Inr ([], n)" and "c \<in> set criteria"
    and "\<not> is_budget_bound lib c"
  shows "\<exists>cs claim. items_of claims = Inr cs \<and> claim \<in> set cs \<and> proven_by lib c store_id claim"
proof -
  from assms(1) obtain cs attributes where cs: "items_of claims = Inr cs"
      "verified_loop lib store_id cs = Inr attributes" "constraint_loop lib attributes criteria = Inr ([], n)"
    by (auto simp: hard_constraint_reasons_def verified_attributes_def and_then_Inr)
  from decide_satisfied [OF constraint_loop_Nil [OF cs(3) assms(2,3)]] obtain a
    where a: "a \<in> set attributes" "slug lib (rd_key a) = canonical_name lib c" "in_wanted_unit lib c a"
      "matches_reading lib c a = Inr True" by blast
  from verified_loop_claim [OF cs(2) a(1)] obtain claim where "claim \<in> set cs"
      "claim_status lib claim store_id = Inr (Some verified_status)" "reading_of_claim lib claim = Inr a" by blast
  with a cs(1) claim_status_carries_mac show ?thesis by (auto simp: proven_by_def)
qed

lemma exclusion_reasons_Nil:
  assumes "exclusion_reasons lib candidate criteria intent_reason snapshot now eligibility = Inr ([], n)"
  shows "truthy (read_field candidate ''bid_id'')" and "truthy (read_field candidate ''store_id'')"
    and "store_cleared lib snapshot eligibility (text_of lib (read_field candidate ''store_id''))"
    and "offer_stands lib now (read_field candidate ''offer'')"
    and "checkout_on_domain lib candidate (read_field candidate ''offer'')"
    and "intent_reason = None"
    and "\<forall>c \<in> set criteria. constraint_kept lib c candidate"
proof -
  let ?offer = "read_field candidate ''offer''"
  let ?store = "read_field candidate ''store_id''"
  from assms show ir: "intent_reason = None"
    by (auto simp: exclusion_reasons_def Let_def and_then_Inr split: option.splits)
  from assms show b: "truthy (read_field candidate ''bid_id'')" and st: "truthy ?store"
    by (auto simp: exclusion_reasons_def Let_def and_then_Inr ir split: if_splits prod.splits)
  from assms have offer: "?offer \<noteq> JNull" and store: "store_reasons lib snapshot eligibility ?store = []"
    and terms: "offer_reasons lib criteria now candidate ?offer = Inr []"
    and hard: "hard_constraint_reasons lib (read_field candidate ''claims'') criteria ?store = Inr ([], n)"
    by (auto simp: exclusion_reasons_def Let_def and_then_Inr ir split: if_splits prod.splits)
  show "store_cleared lib snapshot eligibility (text_of lib ?store)" by (rule store_reasons_Nil [OF store st])
  show "offer_stands lib now ?offer" "checkout_on_domain lib candidate ?offer"
    by (rule offer_reasons_Nil [OF terms offer])+
  show "\<forall>c \<in> set criteria. constraint_kept lib c candidate"
    using budget_reasons_Nil [OF offer_reasons_Nil(3) [OF terms offer]] hard_constraint_reasons_Nil [OF hard]
    by (simp add: constraint_kept_def)
qed

section \<open>The rows\<close>

lemma judged_candidate_shape:
  assumes "judged_candidate lib s applied candidate = Inr row"
  obtains reasons n trust where
    "exclusion_reasons lib candidate applied (rs_intent_reason s) (rs_snapshot s) (rs_now s) (rs_eligibility s) =
       Inr (reasons, n)"
    and "jr_reasons row = reasons @ off_topic_reasons lib s candidate (jr_store_id row)"
    and "jr_bid_id row = text_or_empty lib (read_field candidate ''bid_id'')"
    and "jr_store_id row = text_or_empty lib (read_field candidate ''store_id'')"
    and "jr_hard_fits row = n" and "jr_trust row = trust"
    and "jr_eligible row \<longrightarrow> (\<exists>sc. jr_score row = Some sc \<and> score_of lib candidate trust (rs_weights s) = Inr sc)"
proof -
  from assms obtain p where p:
    "exclusion_reasons lib candidate applied (rs_intent_reason s) (rs_snapshot s) (rs_now s) (rs_eligibility s) = Inr p"
    unfolding judged_candidate_def and_then_Inr by blast
  obtain reasons n where pe: "p = (reasons, n)" by (cases p)
  let ?id = "text_or_empty lib (read_field candidate ''store_id'')"
  let ?all = "reasons @ off_topic_reasons lib s candidate ?id"
  from assms have "\<exists>trust price summary labels score.
      (if ?all = [] then and_then (score_of lib candidate trust (rs_weights s)) (\<lambda>x. Inr (Some x)) else Inr None) = Inr score \<and>
      row = \<lparr>jr_bid_id = text_or_empty lib (read_field candidate ''bid_id''), jr_store_id = ?id,
             jr_reasons = ?all, jr_score = score, jr_hard_fits = n, jr_trust = trust, jr_price = price,
             jr_trust_summary = summary, jr_labels = labels\<rparr>"
    unfolding judged_candidate_def p pe and_then_simps prod.case Let_def and_then_Inr sum.inject
    by (elim exE conjE) (intro exI conjI, assumption, erule sym)
  then obtain trust price summary labels score where
    score: "(if ?all = [] then and_then (score_of lib candidate trust (rs_weights s)) (\<lambda>x. Inr (Some x)) else Inr None) = Inr score"
    and row: "row = \<lparr>jr_bid_id = text_or_empty lib (read_field candidate ''bid_id''), jr_store_id = ?id,
             jr_reasons = ?all, jr_score = score, jr_hard_fits = n, jr_trust = trust, jr_price = price,
             jr_trust_summary = summary, jr_labels = labels\<rparr>" by blast
  have "jr_eligible row \<longrightarrow> (\<exists>sc. jr_score row = Some sc \<and> score_of lib candidate trust (rs_weights s) = Inr sc)"
    using score by (auto simp: row jr_eligible_def and_then_Inr)
  then show ?thesis
    by (intro that [of reasons n trust]) (simp_all add: p pe row)
qed

lemma rows_for_row:
  assumes "rows_for lib s candidates applied = Inr rows" and "row \<in> set rows"
  shows "\<exists>candidate \<in> set candidates. judged_candidate lib s applied candidate = Inr row"
  using assms unfolding rows_for_def by (rule map_all_in)

lemma eligible_row_cleared:
  assumes "judged_candidate lib s applied candidate = Inr row" and "jr_eligible row"
  shows "truthy (read_field candidate ''bid_id'')" and "truthy (read_field candidate ''store_id'')"
    and "jr_store_id row = text_of lib (read_field candidate ''store_id'')"
    and "store_cleared lib (rs_snapshot s) (rs_eligibility s) (jr_store_id row)"
    and "offer_stands lib (rs_now s) (read_field candidate ''offer'')"
    and "checkout_on_domain lib candidate (read_field candidate ''offer'')"
    and "rs_intent_reason s = None"
    and "\<forall>c \<in> set applied. constraint_kept lib c candidate"
    and "off_topic_reasons lib s candidate (jr_store_id row) = []"
proof -
  obtain n where e: "exclusion_reasons lib candidate applied (rs_intent_reason s) (rs_snapshot s) (rs_now s)
      (rs_eligibility s) = Inr ([], n)"
    and id: "jr_store_id row = text_or_empty lib (read_field candidate ''store_id'')"
    and off: "off_topic_reasons lib s candidate (jr_store_id row) = []"
    using assms(2) by (rule_tac judged_candidate_shape [OF assms(1)]) (auto simp: jr_eligible_def)
  note gates = exclusion_reasons_Nil [OF e]
  show id': "jr_store_id row = text_of lib (read_field candidate ''store_id'')"
    using gates(2) id by (simp add: text_or_empty_def)
  show "truthy (read_field candidate ''bid_id'')" "truthy (read_field candidate ''store_id'')"
    "store_cleared lib (rs_snapshot s) (rs_eligibility s) (jr_store_id row)"
    "offer_stands lib (rs_now s) (read_field candidate ''offer'')"
    "checkout_on_domain lib candidate (read_field candidate ''offer'')" "rs_intent_reason s = None"
    "\<forall>c \<in> set applied. constraint_kept lib c candidate"
    "off_topic_reasons lib s candidate (jr_store_id row) = []"
    using gates off by (simp_all add: id')
qed

section \<open>The relaxation\<close>

definition evidence_seen :: "rank_lib \<Rightarrow> json list \<Rightarrow> string list \<Rightarrow> string list \<Rightarrow> bool" where
  "evidence_seen lib candidates network_attributes seen \<longleftrightarrow>
     (\<exists>keys. seen_keys lib candidates = Inr keys \<and> seen = network_attributes @ keys)"

lemma relaxed_rows_shape:
  assumes "relaxed_rows lib s candidates criteria network_attributes first = Inr (rows, relaxed)"
  shows "(rows = first \<and> relaxed = []) \<or>
    (\<not> list_ex jr_eligible first \<and> list_ex jr_eligible rows \<and> relaxed \<noteq> [] \<and> rs_intent_reason s = None \<and>
     (\<exists>seen. evidence_seen lib candidates network_attributes seen \<and> relaxed = filter (unanswerable lib seen) criteria) \<and>
     rows_for lib s candidates (filter (\<lambda>c. c \<notin> set relaxed) criteria) = Inr rows)"
proof -
  consider (same) "rows = first" "relaxed = []"
    | (retried) dropped where "\<not> list_ex jr_eligible first" "rs_intent_reason s = None" "dropped \<noteq> []" "list_ex jr_eligible rows" "relaxed = dropped"
        "unanswerable_criteria lib candidates criteria network_attributes = Inr dropped"
        "rows_for lib s candidates (filter (\<lambda>c. c \<notin> set dropped) criteria) = Inr rows"
    using assms by (auto simp: relaxed_rows_def and_then_Inr split: if_splits)
  then show ?thesis
  proof cases
    case retried
    then have "\<exists>seen. evidence_seen lib candidates network_attributes seen \<and>
        relaxed = filter (unanswerable lib seen) criteria"
      by (auto simp: unanswerable_criteria_def and_then_Inr evidence_seen_def split: if_splits)
    with retried show ?thesis by simp
  qed simp
qed

lemma rank_candidates_shape:
  assumes "rank_candidates lib clock candidates intent snapshot config weights eligibility network identities relevance = Inr r"
    and "read_criteria lib intent = (criteria, intent_reason)"
  obtains now s first where "now_from lib clock config = Inr now"
    and "s = \<lparr>rs_snapshot = snapshot, rs_eligibility = eligibility, rs_weights = weights, rs_identities = identities,
              rs_relevance = relevance, rs_now = now, rs_query = text_or_empty lib (read_field intent ''query''),
              rs_intent_reason = intent_reason\<rparr>"
    and "rows_for lib s candidates criteria = Inr first"
    and "relaxed_rows lib s candidates criteria network first = Inr (rg_candidates r, rg_relaxed r)"
    and "rg_ranked r = sorted_rows (rk_tie_breakers weights) (rg_candidates r)"
    and "rg_shortlist r = shortlist_slots (map row_of (rg_ranked r)) max_slots"
proof -
  from assms obtain now where now: "now_from lib clock config = Inr now"
    by (auto simp: rank_candidates_def and_then_Inr)
  let ?s = "\<lparr>rs_snapshot = snapshot, rs_eligibility = eligibility, rs_weights = weights, rs_identities = identities,
              rs_relevance = relevance, rs_now = now, rs_query = text_or_empty lib (read_field intent ''query''),
              rs_intent_reason = intent_reason\<rparr>"
  from assms now obtain first rows relaxed where f: "rows_for lib ?s candidates criteria = Inr first"
    "relaxed_rows lib ?s candidates criteria network first = Inr (rows, relaxed)"
    "r = (let ranked = sorted_rows (rk_tie_breakers weights) rows
          in \<lparr>rg_ranked = ranked, rg_candidates = rows, rg_auction_id = auction_id_of lib candidates intent config,
              rg_shortlist = shortlist_slots (map row_of ranked) max_slots, rg_relaxed = relaxed\<rparr>)"
    by (auto simp: rank_candidates_def and_then_Inr Let_def)
  then show ?thesis by (intro that [OF now refl f(1)]) (simp_all add: Let_def)
qed

lemma rank_candidates_returns:
  assumes "now_from lib clock config = Inr now" and "read_criteria lib intent = (criteria, reason)"
    and "s = \<lparr>rs_snapshot = snapshot, rs_eligibility = eligibility, rs_weights = weights, rs_identities = identities,
              rs_relevance = relevance, rs_now = now, rs_query = text_or_empty lib (read_field intent ''query''),
              rs_intent_reason = reason\<rparr>"
    and "rows_for lib s candidates criteria = Inr first"
    and "relaxed_rows lib s candidates criteria network first = Inr (rows, relaxed)"
  shows "\<exists>r. rank_candidates lib clock candidates intent snapshot config weights eligibility network identities relevance = Inr r \<and>
     rg_relaxed r = relaxed \<and> rg_ranked r = sorted_rows (rk_tie_breakers weights) rows"
  using assms(4,5) by (simp add: rank_candidates_def assms(1-3) Let_def)

lemma set_sorted_rows: "set (sorted_rows tb rows) = {r \<in> set rows. jr_eligible r}"
  by (simp add: sorted_rows_def)

end
