(* ===== verification/DoubleLaws.thy ===== *)
theory DoubleLaws
  imports PyDouble
begin

text \<open>
  Rounding to the nearest double keeps order, keeps integers and powers of two, and stays within a
  bound of the exact value on a bounded range.
\<close>

section \<open>Rounding keeps order\<close>

lemma round_half_even_of_int [simp]: "round_half_even (of_int n) = n"
  by (simp add: round_half_even_def Let_def)

lemma round_half_even_mono:
  assumes "a \<le> b"
  shows "round_half_even a \<le> round_half_even b"
proof (cases "floor a = floor b")
  case True
  then show ?thesis using assms by (auto simp: round_half_even_def Let_def)
next
  case False
  then have "floor a + 1 \<le> floor b" using floor_mono [OF assms] by simp
  then show ?thesis by (auto simp: round_half_even_def Let_def)
qed

text \<open>A positive number is below the next power of two.\<close>

lemma less_next_power:
  assumes "r > 0"
  shows "r < power_int_rat 2 (floor_log2 r + 1)"
proof -
  obtain p q where pq: "quotient_of r = (p, q)" by fastforce
  have q: "q > 0" using quotient_of_denom_pos [OF pq] .
  have r: "r = of_int p / of_int q" using quotient_of_div [OF pq] .
  have p: "p > 0" using assms r q by (simp add: zero_less_divide_iff)
  let ?k = "bits p - bits q"
  show ?thesis
  proof (cases "power_int_rat 2 ?k \<le> r")
    case False
    then show ?thesis using pq by (simp add: floor_log2_def Let_def)
  next
    case True
    obtain a b where a: "bits p = int a + 1" "p < 2 ^ Suc a" and b: "bits q = int b + 1" "2 ^ b \<le> q"
      using bits_bounds [OF p] bits_bounds [OF q] by blast
    have "of_int p < (2::rat) ^ Suc a" "(2::rat) ^ b \<le> of_int q"
      using a(2) b(2) by (metis of_int_less_iff of_int_numeral of_int_power, metis of_int_le_iff of_int_numeral of_int_power)
    moreover have "power_int_rat 2 (?k + 1) * 2 ^ b = 2 ^ Suc a"
    proof -
      have "?k + 1 + int b = int (Suc a)" using a(1) b(1) by simp
      then have "2 ^ b * power_int_rat 2 (?k + 1) = power_int_rat 2 (int (Suc a))"
        using power_int_rat_2_nat [of "?k + 1" b] by metis
      also have "power_int_rat 2 (int (Suc a)) = 2 ^ Suc a"
        by (simp add: power_int_rat_def del: of_nat_Suc)
      finally show ?thesis by (simp only: mult.commute)
    qed
    ultimately have "of_int p < power_int_rat 2 (?k + 1) * of_int q"
      using power_int_rat_2_pos [of "?k + 1"]
      by (metis mult_left_mono order_less_imp_le order_less_le_trans)
    then have "r < power_int_rat 2 (?k + 1)" using q by (simp add: r pos_divide_less_eq)
    then show ?thesis using pq True by (simp add: floor_log2_def Let_def)
  qed
qed

definition quantum_exponent :: "rat \<Rightarrow> int" where
  "quantum_exponent r = max (floor_log2 r - 52) (- 1074)"

lemma rounded_def': "rounded r = of_int (round_half_even (r / power_int_rat 2 (quantum_exponent r))) *
    power_int_rat 2 (quantum_exponent r)"
  by (simp add: rounded_def quantum_exponent_def Let_def)

text \<open>A multiple of the quantum bounds the rounded value as it bounds the value.\<close>

lemma multiple_of_power:
  assumes "k \<ge> e"
  shows "power_int_rat 2 k = of_int (2 ^ nat (k - e)) * power_int_rat 2 e"
  using power_int_rat_2_nat [of e "nat (k - e)"] assms by simp

lemma rounded_le_power:
  assumes "r \<le> power_int_rat 2 k" and "k \<ge> quantum_exponent r"
  shows "rounded r \<le> power_int_rat 2 k"
proof -
  let ?q = "power_int_rat 2 (quantum_exponent r)"
  have q: "?q > 0" by (rule power_int_rat_2_pos)
  let ?n = "2 ^ nat (k - quantum_exponent r) :: int"
  have pk: "power_int_rat 2 k = of_int ?n * ?q" by (rule multiple_of_power [OF assms(2)])
  have "r / ?q \<le> of_int ?n" using assms(1) q pk by (metis pos_divide_le_eq)
  from round_half_even_mono [OF this] have "round_half_even (r / ?q) \<le> ?n"
    by (simp only: round_half_even_of_int)
  then have "of_int (round_half_even (r / ?q)) \<le> (of_int ?n :: rat)" by (simp only: of_int_le_iff)
  then show ?thesis unfolding rounded_def' pk using q by (rule mult_right_mono [OF _ less_imp_le])
qed

lemma rounded_ge_power:
  assumes "power_int_rat 2 k \<le> r" and "k \<ge> quantum_exponent r"
  shows "power_int_rat 2 k \<le> rounded r"
proof -
  let ?q = "power_int_rat 2 (quantum_exponent r)"
  have q: "?q > 0" by (rule power_int_rat_2_pos)
  let ?n = "2 ^ nat (k - quantum_exponent r) :: int"
  have pk: "power_int_rat 2 k = of_int ?n * ?q" by (rule multiple_of_power [OF assms(2)])
  have "of_int ?n \<le> r / ?q" using assms(1) q pk by (metis pos_le_divide_eq)
  from round_half_even_mono [OF this] have "?n \<le> round_half_even (r / ?q)"
    by (simp only: round_half_even_of_int)
  then have "(of_int ?n :: rat) \<le> of_int (round_half_even (r / ?q))" by (simp only: of_int_le_iff)
  then show ?thesis unfolding rounded_def' pk using q by (rule mult_right_mono [OF _ less_imp_le])
qed

lemma power_int_rat_2_mono: "a \<le> b \<Longrightarrow> power_int_rat 2 a \<le> power_int_rat 2 b"
  using power_int_rat_2_nat [of a "nat (b - a)"] power_int_rat_2_pos [of a]
  by (simp add: mult_le_cancel_right1)

lemma floor_log2_mono:
  assumes "0 < r" and "r \<le> s"
  shows "floor_log2 r \<le> floor_log2 s"
proof (rule ccontr)
  assume "\<not> floor_log2 r \<le> floor_log2 s"
  then have "floor_log2 s + 1 \<le> floor_log2 r" by simp
  from power_int_rat_2_mono [OF this] floor_log2_le [OF assms(1)] less_next_power [of s] assms
  show False by linarith
qed

lemma rounded_mono:
  assumes "0 < r" and "r \<le> s"
  shows "rounded r \<le> rounded s"
proof (cases "quantum_exponent r = quantum_exponent s")
  case True
  have "r / power_int_rat 2 (quantum_exponent s) \<le> s / power_int_rat 2 (quantum_exponent s)"
    using assms(2) power_int_rat_2_pos less_imp_le by (rule_tac divide_right_mono) blast+
  from round_half_even_mono [OF this] show ?thesis
    unfolding rounded_def' True using power_int_rat_2_pos [of "quantum_exponent s"]
    by (intro mult_right_mono) simp_all
next
  case False
  have le: "floor_log2 r \<le> floor_log2 s" by (rule floor_log2_mono [OF assms])
  with False have s: "quantum_exponent s = floor_log2 s - 52" "floor_log2 r + 1 \<le> floor_log2 s"
      "quantum_exponent r \<le> floor_log2 s"
    by (auto simp: quantum_exponent_def max_def split: if_splits)
  have "r \<le> power_int_rat 2 (floor_log2 s)"
    using less_next_power [OF assms(1)] power_int_rat_2_mono [OF s(2)] by linarith
  then have "rounded r \<le> power_int_rat 2 (floor_log2 s)" by (rule rounded_le_power [OF _ s(3)])
  also have "\<dots> \<le> rounded s"
    using floor_log2_le [of s] assms by (intro rounded_ge_power) (simp_all add: s(1))
  finally show ?thesis .
qed

text \<open>On results that do not overflow, rounding keeps order.\<close>

lemma to_double_mono:
  assumes "r \<le> s" and "to_double r = Some a" and "to_double s = Some b"
  shows "a \<le> b"
proof -
  consider "0 < r" | "r \<le> 0" "0 \<le> s" | "s < 0" by linarith
  then show ?thesis
  proof cases
    case 1
    then show ?thesis
      using assms rounded_mono [of r s] by (auto simp: to_double_def nearest_double_rounded split: if_splits)
  next
    case 2
    then have "a \<le> 0"
      using assms(2) rounded_nonneg [of "- r"] by (auto simp: to_double_def nearest_double_rounded split: if_splits)
    moreover have "0 \<le> b"
      using 2 assms(3) rounded_nonneg [of s] by (auto simp: to_double_def nearest_double_rounded split: if_splits)
    ultimately show ?thesis by simp
  next
    case 3
    then show ?thesis
      using assms rounded_mono [of "- s" "- r"] by (auto simp: to_double_def nearest_double_rounded split: if_splits)
  qed
qed

text \<open>What overflows below overflows above.\<close>

lemma to_double_overflow_mono:
  assumes "0 < r" and "r \<le> s" and "to_double r = None"
  shows "to_double s = None"
  using assms rounded_mono [of r s] by (auto simp: to_double_def nearest_double_rounded split: if_splits)

lemma to_double_neg: "to_double (- r) = map_option uminus (to_double r)"
  by (auto simp: to_double_def map_option.compositionality comp_def option.map_ident)

lemma to_double_0 [simp]: "to_double 0 = Some 0"
  by (simp add: to_double_def)

lemma to_double_1 [simp]: "to_double 1 = Some 1"
  by code_simp

section \<open>Rounding stays near\<close>

lemma to_double_near:
  assumes "\<bar>r\<bar> \<le> b" and "b \<le> 2 ^ 1000" and "b / 2 ^ 53 + 1 / 2 ^ 1000 \<le> delta"
  shows "\<exists>d. to_double r = Some d \<and> \<bar>d - r\<bar> \<le> delta"
proof (cases "0 \<le> r")
  case True
  then show ?thesis using to_double_within [OF True _ assms(2,3)] assms(1) by auto
next
  case False
  then obtain d where "to_double (- r) = Some d" "\<bar>d - (- r)\<bar> \<le> delta"
    using to_double_within [of "- r" b delta] assms by auto
  then show ?thesis using to_double_neg [of "- r"] by (intro exI [of _ "- d"]) auto
qed

section \<open>Overflow\<close>

lemma nearest_double_overflow: "nearest_double (power_int_rat 2 1024) = None"
proof -
  let ?r = "power_int_rat 2 1024"
  have "floor_log2 ?r \<le> 1024"
  proof (rule ccontr)
    assume "\<not> floor_log2 ?r \<le> 1024"
    then have "1024 + int 1 \<le> floor_log2 ?r" by simp
    from power_int_rat_2_mono [OF this] have "2 * ?r \<le> power_int_rat 2 (floor_log2 ?r)"
      by (simp only: power_int_rat_2_nat power_one_right)
    also have "\<dots> \<le> ?r" by (rule floor_log2_le [OF power_int_rat_2_pos])
    finally show False using power_int_rat_2_pos [of 1024] by linarith
  qed
  then have "quantum_exponent ?r \<le> 1024" by (simp add: quantum_exponent_def)
  from rounded_ge_power [OF order_refl this] show ?thesis by (simp add: nearest_double_rounded)
qed

text \<open>The integer \<open>2 ^ 1024\<close> is beyond the doubles.\<close>

lemma float_of_int_overflow: "float_of_int (2 ^ 1024) = None"
proof -
  have "(of_int (2 ^ 1024) :: rat) = power_int_rat 2 1024" by (simp add: power_int_rat_def)
  then show ?thesis using nearest_double_overflow by (simp only: float_of_int_def) simp
qed

end
