(* ===== verification/RankScoreLaws.thy ===== *)
theory RankScoreLaws
  imports RankScore DoubleLaws
begin

text \<open>
  How far Python's sum of doubles is from the exact sum, and the score from the published formula.
\<close>

section \<open>The sum\<close>

text \<open>Every result within \<open>4 * b\<close> is rounded by at most \<open>e\<close>.\<close>

definition near :: "rat \<Rightarrow> rat \<Rightarrow> bool" where
  "near b e \<longleftrightarrow> 0 \<le> e \<and> (\<forall>r. \<bar>r\<bar> \<le> 4 * b \<longrightarrow> (\<exists>d. to_double r = Some d \<and> \<bar>d - r\<bar> \<le> e))"

lemma nearD: "near b e \<Longrightarrow> \<bar>r\<bar> \<le> 4 * b \<Longrightarrow> \<exists>d. to_double r = Some d \<and> \<bar>d - r\<bar> \<le> e"
  by (simp add: near_def)

lemma near_16: "near 4 (1 / 2 ^ 48)"
  using to_double_near [of _ 16 "1 / 2 ^ 48"] by (simp add: near_def)

lemma near_2048: "near 512 (1 / 2 ^ 41)"
  using to_double_near [of _ 2048 "1 / 2 ^ 41"] by (simp add: near_def)

text \<open>The error of one addition, recovered up to two roundings.\<close>

lemma carried_near:
  assumes "near b e" and "\<bar>hi\<bar> \<le> b" and "\<bar>x\<bar> \<le> b" and "\<bar>t - (hi + x)\<bar> \<le> e" and "e \<le> b"
  shows "\<exists>d. carried hi x t = Some d \<and> \<bar>d - (hi + x - t)\<bar> \<le> 2 * e"
proof -
  have two: "\<exists>d. Option.bind (double_sub p t) (\<lambda>d. double_add d q) = Some d \<and> \<bar>d - (p + q - t)\<bar> \<le> 2 * e"
    if "\<bar>p\<bar> \<le> b" "\<bar>q\<bar> \<le> b" "p + q = hi + x" for p q
  proof -
    have "\<bar>p - t\<bar> \<le> 4 * b" using that assms by linarith
    then obtain d where d: "double_sub p t = Some d" "\<bar>d - (p - t)\<bar> \<le> e"
      using nearD [OF assms(1)] by (auto simp: double_sub_def)
    have "\<bar>d + q\<bar> \<le> 4 * b" using d(2) that assms by linarith
    then obtain d' where d': "double_add d q = Some d'" "\<bar>d' - (d + q)\<bar> \<le> e"
      using nearD [OF assms(1)] by (auto simp: double_add_def)
    have "\<bar>d' - (p + q - t)\<bar> \<le> 2 * e" using d(2) d'(2) by linarith
    with d(1) d'(1) show ?thesis by simp
  qed
  show ?thesis
  proof (cases "\<bar>hi\<bar> \<ge> \<bar>x\<bar>")
    case True
    with two [of hi x] assms(2,3) show ?thesis by (simp add: carried_def)
  next
    case False
    with two [of x hi] assms(2,3) show ?thesis by (simp add: carried_def add.commute)
  qed
qed

lemma sum_loop_near:
  assumes "near b e" and "\<bar>hi\<bar> + \<bar>c\<bar> + sum_list (map abs xs) + (5 * of_nat (length xs) + 1) * e \<le> b"
  shows "\<exists>r. sum_loop hi (Some c) xs = Finite r \<and> \<bar>r - (hi + c + sum_list xs)\<bar> \<le> (3 * of_nat (length xs) + 1) * e"
  using assms(2)
proof (induction xs arbitrary: hi c)
  case Nil
  have e: "0 \<le> e" using assms(1) by (simp add: near_def)
  then have "\<bar>hi + c\<bar> \<le> 4 * b" using Nil by (simp add: abs_le_iff) linarith
  then obtain d where "double_add hi c = Some d" "\<bar>d - (hi + c)\<bar> \<le> e"
    using nearD [OF assms(1)] by (auto simp: double_add_def)
  then show ?case using e by simp
next
  case (Cons x xs)
  define n where "n = (of_nat (length xs) :: rat)"
  define S where "S = sum_list (map abs xs)"
  have n: "0 \<le> n" by (simp add: n_def)
  have S: "0 \<le> S" unfolding S_def by (induction xs) auto
  have e: "0 \<le> e" using assms(1) by (simp add: near_def)
  have ne: "0 \<le> n * e" using n e by simp
  have H: "\<bar>hi\<bar> + \<bar>c\<bar> + \<bar>x\<bar> + S + 5 * (n * e) + 6 * e \<le> b"
    using Cons.prems by (simp add: n_def S_def algebra_simps)
  have "\<bar>hi + x\<bar> \<le> 4 * b" using H S ne e by linarith
  then obtain t where t: "double_add hi x = Some t" "\<bar>t - (hi + x)\<bar> \<le> e"
    using nearD [OF assms(1)] by (auto simp: double_add_def)
  obtain d where d: "carried hi x t = Some d" "\<bar>d - (hi + x - t)\<bar> \<le> 2 * e"
    using carried_near [OF assms(1) _ _ t(2)] H S ne e by (force simp: abs_le_iff)
  have "\<bar>c + d\<bar> \<le> 4 * b" using d(2) t(2) H S ne e by linarith
  then obtain c' where c': "double_add c d = Some c'" "\<bar>c' - (c + d)\<bar> \<le> e"
    using nearD [OF assms(1)] by (auto simp: double_add_def)
  have step: "sum_loop hi (Some c) (x # xs) = sum_loop t (Some c') xs"
    by (simp add: t(1) d(1) c'(1))
  have "\<bar>t\<bar> + \<bar>c'\<bar> + S + 5 * (n * e) + e \<le> b" using t(2) c'(2) d(2) H by linarith
  then have "\<bar>t\<bar> + \<bar>c'\<bar> + sum_list (map abs xs) + (5 * of_nat (length xs) + 1) * e \<le> b"
    by (simp add: n_def S_def algebra_simps)
  from Cons.IH [OF this] obtain r where r: "sum_loop t (Some c') xs = Finite r"
    "\<bar>r - (t + c' + sum_list xs)\<bar> \<le> (3 * n + 1) * e" by (auto simp: n_def)
  have "\<bar>t + c' - (hi + c + x)\<bar> \<le> 3 * e" using t(2) c'(2) d(2) by linarith
  then have "\<bar>r - (hi + c + (x + sum_list xs))\<bar> \<le> 3 * e + (3 * n + 1) * e" using r(2) by linarith
  moreover have "3 * e + (3 * n + 1) * e = (3 * of_nat (length (x # xs)) + 1) * e"
    by (simp add: n_def algebra_simps)
  ultimately show ?case using r(1) by (simp only: step sum_list.Cons list.map) simp
qed

lemma float_sum_near:
  assumes "near b e" and "sum_list (map abs xs) + (5 * of_nat (length xs) + 1) * e \<le> b"
  shows "\<exists>r. float_sum xs = Finite r \<and> \<bar>r - sum_list xs\<bar> \<le> (3 * of_nat (length xs) + 1) * e"
proof (cases xs)
  case Nil
  then show ?thesis using assms(1) by (simp add: float_sum_def near_def)
next
  case (Cons x rest)
  have e: "0 \<le> e" using assms(1) by (simp add: near_def)
  have "\<bar>x\<bar> + \<bar>0\<bar> + sum_list (map abs rest) + (5 * of_nat (length rest) + 1) * e \<le> b"
    using assms(2) e by (simp add: Cons algebra_simps)
  from sum_loop_near [OF assms(1) this] obtain r where
    "sum_loop x (Some 0) rest = Finite r" "\<bar>r - (x + sum_list rest)\<bar> \<le> (3 * of_nat (length rest) + 1) * e" by auto
  moreover have "(3 * of_nat (length rest) + 1) * e \<le> (3 * of_nat (length xs) + 1) * e"
    using e by (simp add: Cons mult_right_mono)
  ultimately show ?thesis by (simp add: float_sum_def Cons)
qed

section \<open>The published formula\<close>

definition published_kind_penalty :: "string \<Rightarrow> rat" where
  "published_kind_penalty kind =
     (if kind = ''severe_policy_violation'' then 30 / 100 else if kind = ''contradicted_claim'' then 15 / 100 else 0)"

definition published_penalty :: "string list \<Rightarrow> rat" where
  "published_penalty kinds = min 1 (sum_list (map published_kind_penalty kinds))"

definition published_score :: "(string, rat) dict \<Rightarrow> string list \<Rightarrow> rat" where
  "published_score features kinds =
     (let f = (\<lambda>name. the (dget features name)) in
      35 / 100 * f ''intent_match'' + 20 / 100 * f ''verified_claim_ratio'' + 20 / 100 * f ''trust'' +
      15 / 100 * f ''price_value'' + 10 / 100 * f ''delivery_fit'' - published_penalty kinds)"

lemma penalty_for_default:
  "\<bar>penalty_for default_weights kind - published_kind_penalty kind\<bar> \<le> 1 / 10 ^ 15"
  "\<bar>penalty_for default_weights kind\<bar> \<le> 31 / 100"
  by (simp_all add: penalty_for_def default_weights_def default_penalties_per_kind_def contradicted_claim_def
      published_kind_penalty_def)

lemma sum_list_near:
  fixes f g :: "'a \<Rightarrow> rat"
  assumes "\<And>x. \<bar>f x - g x\<bar> \<le> d"
  shows "\<bar>sum_list (map f xs) - sum_list (map g xs)\<bar> \<le> of_nat (length xs) * d"
proof (induction xs)
  case (Cons x xs)
  have "of_nat (length (x # xs)) * d = d + of_nat (length xs) * d" by (simp add: algebra_simps)
  with Cons assms [of x] show ?case unfolding list.map sum_list.Cons by linarith
qed simp

lemma min_near: "\<bar>min a c - min c b\<bar> \<le> \<bar>a - (b :: rat)\<bar>"
  by (auto simp: min_def)

lemma total_penalty_near:
  assumes "length kinds \<le> 1000"
  shows "\<bar>total_penalty default_weights kinds - published_penalty kinds\<bar> \<le> 2 / 10 ^ 9"
proof -
  let ?xs = "map (penalty_for default_weights) kinds"
  define n where "n = (of_nat (length kinds) :: rat)"
  have n: "0 \<le> n" "n \<le> 1000" using assms by (simp_all add: n_def)
  have "sum_list (map abs ?xs) \<le> n * (31 / 100)"
    unfolding n_def
  proof (induction kinds)
    case (Cons k ks)
    then show ?case using penalty_for_default(2) [of k] by (simp add: algebra_simps)
  qed simp
  moreover have "(5 * n + 1) * (1 / 2 ^ 41) \<le> 1" using n by simp
  ultimately have "sum_list (map abs ?xs) + (5 * n + 1) * (1 / 2 ^ 41) \<le> 512"
    using n by linarith
  then have "sum_list (map abs ?xs) + (5 * of_nat (length ?xs) + 1) * (1 / 2 ^ 41) \<le> 512"
    by (simp only: n_def length_map)
  from float_sum_near [OF near_2048 this] obtain r where r: "float_sum ?xs = Finite r"
    "\<bar>r - sum_list ?xs\<bar> \<le> (3 * n + 1) * (1 / 2 ^ 41)" by (auto simp: n_def)
  have "(3 * n + 1) * (1 / 2 ^ 41) \<le> 15 / 10 ^ 10" "n * (1 / 10 ^ 15) \<le> 1 / 10 ^ 12" using n by simp_all
  note bounds = this
  have "\<bar>r - sum_list ?xs\<bar> \<le> 15 / 10 ^ 10" by (rule order_trans [OF r(2) bounds(1)])
  moreover have "\<bar>sum_list ?xs - sum_list (map published_kind_penalty kinds)\<bar> \<le> n * (1 / 10 ^ 15)"
    unfolding n_def by (rule sum_list_near) (rule penalty_for_default(1))
  then have "\<bar>sum_list ?xs - sum_list (map published_kind_penalty kinds)\<bar> \<le> 1 / 10 ^ 12"
    using bounds(2) by (rule order_trans)
  moreover have "15 / 10 ^ 10 + 1 / 10 ^ 12 \<le> (2 / 10 ^ 9 :: rat)" by simp
  ultimately have "\<bar>r - sum_list (map published_kind_penalty kinds)\<bar> \<le> 2 / 10 ^ 9" by linarith
  moreover have "total_penalty default_weights kinds = min r 1"
    by (simp add: total_penalty_def r(1)) (simp add: default_weights_def)
  ultimately show ?thesis
    using min_near [of r 1 "sum_list (map published_kind_penalty kinds)"] by (simp add: published_penalty_def)
qed

lemma published_penalty_range: "0 \<le> published_penalty kinds \<and> published_penalty kinds \<le> 1"
proof -
  have "0 \<le> sum_list (map published_kind_penalty kinds)"
    by (induction kinds) (auto simp: published_kind_penalty_def)
  then show ?thesis by (simp add: published_penalty_def)
qed

text \<open>
  The product of a feature and a weight that is within \<open>10 ^ -15\<close> of the published decimal is within
  \<open>10 ^ -13\<close> of the published contribution.
\<close>

lemma weighted_near:
  assumes "\<bar>w - c\<bar> \<le> 1 / 10 ^ 15" and "0 \<le> w" and "w \<le> 1" and "0 \<le> v \<and> v \<le> (1 :: rat)"
  shows "\<exists>x. double_mul w v = Some x \<and> \<bar>x - c * v\<bar> \<le> 1 / 10 ^ 13 \<and> \<bar>x\<bar> \<le> c + 1 / 100"
proof -
  have wv: "0 \<le> w * v" "w * v \<le> w" using assms by (simp_all add: mult_left_le)
  then have "\<bar>w * v\<bar> \<le> 4 * 4" using assms by linarith
  from nearD [OF near_16 this] obtain x where x: "double_mul w v = Some x" "\<bar>x - w * v\<bar> \<le> 1 / 2 ^ 48"
    by (auto simp: double_mul_def)
  have "\<bar>w * v - c * v\<bar> = \<bar>w - c\<bar> * v" using assms(4) by (simp add: left_diff_distrib [symmetric] abs_mult)
  also have "\<dots> \<le> 1 / 10 ^ 15 * 1" using assms by (intro mult_mono) simp_all
  finally have "\<bar>w * v - c * v\<bar> \<le> 1 / 10 ^ 15" by simp
  moreover have "1 / 2 ^ 48 + 1 / 10 ^ 15 \<le> (1 / 10 ^ 13 :: rat)" by simp
  ultimately have "\<bar>x - c * v\<bar> \<le> 1 / 10 ^ 13" using x(2) by linarith
  moreover have "1 / 2 ^ 48 + 1 / 10 ^ 15 \<le> (1 / 100 :: rat)" by simp
  then have "\<bar>x\<bar> \<le> c + 1 / 100" using x(2) wv assms(1) by linarith
  ultimately show ?thesis using x(1) by blast
qed

lemma weighted_default_near:
  assumes "0 \<le> m \<and> m \<le> 1" and "0 \<le> e \<and> e \<le> 1" and "0 \<le> t \<and> t \<le> 1" and "0 \<le> v \<and> v \<le> 1" and "0 \<le> d \<and> d \<le> 1"
  shows "\<exists>xs. map snd (weighted default_weights [(''intent_match'', m), (''verified_claim_ratio'', e), (''trust'', t),
           (''price_value'', v), (''delivery_fit'', d)]) = map Some xs \<and> length xs = 5 \<and>
           sum_list (map abs xs) \<le> 11 / 10 \<and>
           \<bar>sum_list xs - (35 / 100 * m + 20 / 100 * e + 20 / 100 * t + 15 / 100 * v + 10 / 100 * d)\<bar> \<le> 5 / 10 ^ 13"
proof -
  obtain xm where xm: "double_mul (3152519739159347 / 9007199254740992) m = Some xm"
    "\<bar>xm - 35 / 100 * m\<bar> \<le> 1 / 10 ^ 13" "\<bar>xm\<bar> \<le> 35 / 100 + 1 / 100"
    using weighted_near [OF _ _ _ assms(1), of "3152519739159347 / 9007199254740992" "35 / 100"] by auto
  obtain xe where xe: "double_mul (3602879701896397 / 18014398509481984) e = Some xe"
    "\<bar>xe - 20 / 100 * e\<bar> \<le> 1 / 10 ^ 13" "\<bar>xe\<bar> \<le> 20 / 100 + 1 / 100"
    using weighted_near [OF _ _ _ assms(2), of "3602879701896397 / 18014398509481984" "20 / 100"] by auto
  obtain xt where xt: "double_mul (3602879701896397 / 18014398509481984) t = Some xt"
    "\<bar>xt - 20 / 100 * t\<bar> \<le> 1 / 10 ^ 13" "\<bar>xt\<bar> \<le> 20 / 100 + 1 / 100"
    using weighted_near [OF _ _ _ assms(3), of "3602879701896397 / 18014398509481984" "20 / 100"] by auto
  obtain xv where xv: "double_mul (5404319552844595 / 36028797018963968) v = Some xv"
    "\<bar>xv - 15 / 100 * v\<bar> \<le> 1 / 10 ^ 13" "\<bar>xv\<bar> \<le> 15 / 100 + 1 / 100"
    using weighted_near [OF _ _ _ assms(4), of "5404319552844595 / 36028797018963968" "15 / 100"] by auto
  obtain xd where xd: "double_mul (3602879701896397 / 36028797018963968) d = Some xd"
    "\<bar>xd - 10 / 100 * d\<bar> \<le> 1 / 10 ^ 13" "\<bar>xd\<bar> \<le> 10 / 100 + 1 / 100"
    using weighted_near [OF _ _ _ assms(5), of "3602879701896397 / 36028797018963968" "10 / 100"] by auto
  have "map snd (weighted default_weights [(''intent_match'', m), (''verified_claim_ratio'', e), (''trust'', t),
      (''price_value'', v), (''delivery_fit'', d)]) = map Some [xm, xe, xt, xv, xd]"
    by (simp add: weighted_def xm(1) xe(1) xt(1) xv(1) xd(1) default_weights_def default_feature_weights_def)
  moreover have "sum_list (map abs [xm, xe, xt, xv, xd]) \<le> 11 / 10" using xm(3) xe(3) xt(3) xv(3) xd(3) by simp
  moreover have "\<bar>sum_list [xm, xe, xt, xv, xd] -
      (35 / 100 * m + 20 / 100 * e + 20 / 100 * t + 15 / 100 * v + 10 / 100 * d)\<bar> \<le> 5 / 10 ^ 13"
    using xm(2) xe(2) xt(2) xv(2) xd(2) unfolding sum_list.Cons sum_list.Nil by linarith
  ultimately show ?thesis by (intro exI [of _ "[xm, xe, xt, xv, xd]"]) simp
qed

lemma default_feature_bounds:
  assumes "feature_vector lib candidate trust default_weights = Inr vector"
  obtains m e t v d where
    "vector = [(''intent_match'', m), (''verified_claim_ratio'', e), (''trust'', t), (''price_value'', v),
       (''delivery_fit'', d)]"
    and "0 \<le> m \<and> m \<le> 1" and "0 \<le> e \<and> e \<le> 1" and "0 \<le> t \<and> t \<le> 1" and "0 \<le> v \<and> v \<le> 1"
    and "0 \<le> d \<and> d \<le> 1"
proof -
  from feature_vector_shape(1) [OF assms] obtain m e t v d where vector:
    "vector = [(''intent_match'', m), (''verified_claim_ratio'', e), (''trust'', t), (''price_value'', v),
       (''delivery_fit'', d)]"
    by (auto simp: rank_features_def map_eq_Cons_conv)
  have "0 \<le> x \<and> x \<le> 1" if "(name, x) \<in> set vector" for name x
    using features_in_range [OF assms _ that] by (simp add: default_weights_def)
  then show ?thesis by (intro that [OF vector]) (auto simp: vector)
qed

text \<open>A penalty read from the events alone.\<close>

lemma penalty_of_events:
  assumes "penalty_of lib candidate default_weights = Inr p"
    and "read_field candidate ''policy_penalties'' = JNull"
    and "items_of (read_field candidate ''policy_events'') = Inr kinds" and "length kinds \<le> 1000"
  shows "\<bar>p - published_penalty (map (text_of lib) kinds)\<bar> \<le> 2 / 10 ^ 9"
proof (cases "kinds = []")
  case True
  with assms show ?thesis by (simp add: penalty_of_def published_penalty_def default_weights_def)
next
  case False
  let ?t = "total_penalty default_weights (map (text_of lib) kinds)"
  have "?t \<le> 1" by (simp add: total_penalty_def default_weights_def split: pyfloat.split)
  with False assms have "p = ?t"
    by (simp add: penalty_of_def Let_def) (simp add: default_weights_def)
  then show ?thesis using total_penalty_near [of "map (text_of lib) kinds"] assms(4) by simp
qed

text \<open>A sum of at most six small terms.\<close>

lemma short_sum_near:
  assumes "sum_list (map abs xs) \<le> 22 / 10" and "length xs \<le> 6"
  shows "\<exists>r. float_sum xs = Finite r \<and> \<bar>r - sum_list xs\<bar> \<le> 1 / 10 ^ 12"
proof -
  define n where "n = (of_nat (length xs) :: rat)"
  have n: "n \<le> 6" using assms(2) by (simp add: n_def)
  have "(5 * n + 1) * (1 / 2 ^ 48) \<le> 1" "(3 * n + 1) * (1 / 2 ^ 48) \<le> 1 / 10 ^ 12" using n by simp_all
  note bounds = this
  have "sum_list (map abs xs) + (5 * n + 1) * (1 / 2 ^ 48) \<le> 4" using assms(1) bounds(1) by linarith
  from float_sum_near [OF near_16 this [unfolded n_def]] obtain r where "float_sum xs = Finite r"
    "\<bar>r - sum_list xs\<bar> \<le> (3 * n + 1) * (1 / 2 ^ 48)" by (auto simp: n_def)
  then show ?thesis using order_trans bounds(2) by blast
qed

lemma those_map_Some: "those (map Some xs) = Some xs"
  by (induction xs) simp_all

lemma published_formula_near:
  assumes "score_of lib candidate trust default_weights = Inr sc"
    and "read_field candidate ''policy_penalties'' = JNull"
    and "items_of (read_field candidate ''policy_events'') = Inr kinds" and "length kinds \<le> 1000"
  shows "\<exists>total. sc_total sc = Finite total \<and>
           \<bar>total - published_score (sc_features sc) (map (text_of lib) kinds)\<bar> \<le> 1 / 10 ^ 8"
proof -
  from assms(1) obtain vector p where vp: "feature_vector lib candidate trust default_weights = Inr vector"
    "penalty_of lib candidate default_weights = Inr p" by (auto simp: score_of_def and_then_Inr)
  obtain m e t v d where vector: "vector = [(''intent_match'', m), (''verified_claim_ratio'', e), (''trust'', t),
      (''price_value'', v), (''delivery_fit'', d)]"
    and r: "0 \<le> m \<and> m \<le> 1" "0 \<le> e \<and> e \<le> 1" "0 \<le> t \<and> t \<le> 1" "0 \<le> v \<and> v \<le> 1" "0 \<le> d \<and> d \<le> 1"
    by (rule default_feature_bounds [OF vp(1)])
  from weighted_default_near [OF r] obtain xs where xs: "map snd (weighted default_weights vector) = map Some xs"
    "length xs = 5" "sum_list (map abs xs) \<le> 11 / 10"
    "\<bar>sum_list xs - (35 / 100 * m + 20 / 100 * e + 20 / 100 * t + 15 / 100 * v + 10 / 100 * d)\<bar> \<le> 5 / 10 ^ 13"
    unfolding vector by blast
  let ?xs = "xs @ (if p = 0 then [] else [- p])"
  have "map snd (weighted default_weights vector @ (if p = 0 then [] else [(penalty_component, Some (- p))])) =
      map Some ?xs" by (simp add: xs(1))
  then have terms: "those (map snd (weighted default_weights vector @
      (if p = 0 then [] else [(penalty_component, Some (- p))]))) = Some ?xs"
    by (simp only: those_map_Some)
  have sc: "sc_total sc = float_sum ?xs" "sc_features sc = vector"
    using assms(1) unfolding score_of_def vp and_then_simps Let_def terms option.case by auto
  note pen = penalty_of_events [OF vp(2) assms(2-4)] published_penalty_range [of "map (text_of lib) kinds"]
  have "2 / 10 ^ 9 \<le> (1 / 100 :: rat)" by simp
  then have "\<bar>p\<bar> \<le> 101 / 100" using pen by linarith
  then have "sum_list (map abs ?xs) \<le> 22 / 10" using xs(3) by simp
  moreover have "length ?xs \<le> 6" using xs(2) by simp
  ultimately obtain total where total: "float_sum ?xs = Finite total"
    "\<bar>total - sum_list ?xs\<bar> \<le> 1 / 10 ^ 12" using short_sum_near by blast
  have sum: "sum_list ?xs = sum_list xs - p" by simp
  have "published_score vector (map (text_of lib) kinds) = 35 / 100 * m + 20 / 100 * e + 20 / 100 * t +
      15 / 100 * v + 10 / 100 * d - published_penalty (map (text_of lib) kinds)"
    by (simp add: published_score_def vector Let_def)
  moreover have "1 / 10 ^ 12 + 5 / 10 ^ 13 + 2 / 10 ^ 9 \<le> (1 / 10 ^ 8 :: rat)" by simp
  ultimately have "\<bar>total - published_score vector (map (text_of lib) kinds)\<bar> \<le> 1 / 10 ^ 8"
    using total(2) pen(1) xs(4) unfolding sum by linarith
  with total(1) sc show ?thesis by simp
qed

end
