(* ===== verification/RankFeatureLaws.thy ===== *)
theory RankFeatureLaws
  imports RankFeatures DoubleLaws
begin

text \<open>
  The price and delivery features are within their range and keep the order of what they measure.
\<close>

section \<open>Clamped quotients\<close>

lemma clamp01_range [simp]: "0 \<le> clamp01 v" "clamp01 v \<le> 1"
  by (simp_all add: clamp01_def)

lemma clamp01_mono: "a \<le> b \<Longrightarrow> clamp01 a \<le> clamp01 b"
  by (simp add: clamp01_def)

lemma ratio01_range [simp]: "0 \<le> ratio01 a b" "ratio01 a b \<le> 1"
  by (simp_all add: ratio01_def split: option.split)

lemma to_double_overflow_sign:
  assumes "a \<le> c" and "to_double c = None" and "c \<le> 0"
  shows "to_double a = None"
proof -
  have "to_double (- c) = None" using assms(2) by (simp add: to_double_neg)
  moreover have "0 < - c"
  proof (rule ccontr)
    assume "\<not> 0 < - c"
    then have "c = 0" using assms(3) by simp
    with assms(2) show False by simp
  qed
  ultimately have "to_double (- a) = None" using to_double_overflow_mono [of "- c" "- a"] assms(1) by simp
  then show ?thesis by (simp add: to_double_neg)
qed

lemma ratio01_mono:
  assumes "a \<le> c" and "0 < b"
  shows "ratio01 a b \<le> ratio01 c b"
proof -
  have le: "a / b \<le> c / b" using assms by (simp add: divide_right_mono)
  show ?thesis
  proof (cases "to_double (a / b)")
    case None
    have "ratio01 c b = 1" if "0 < a"
    proof -
      have "to_double (c / b) = None" using to_double_overflow_mono [OF _ le None] that assms(2) by simp
      then show ?thesis using that assms(1) by (simp add: ratio01_def double_div_def)
    qed
    moreover have "ratio01 a b = 0" if "\<not> 0 < a" using that None by (simp add: ratio01_def double_div_def)
    ultimately show ?thesis by (cases "0 < a") simp_all
  next
    case (Some x)
    show ?thesis
    proof (cases "to_double (c / b)")
      case None
      have "0 < c"
      proof (rule ccontr)
        assume "\<not> 0 < c"
        then have "c / b \<le> 0" using assms(2) by (simp add: divide_nonpos_pos)
        from to_double_overflow_sign [OF le None this] Some show False by simp
      qed
      with None show ?thesis by (simp add: ratio01_def [of c] double_div_def)
    next
      case (Some y)
      with \<open>to_double (a / b) = Some x\<close> to_double_mono [OF le] show ?thesis
        by (simp add: ratio01_def double_div_def clamp01_mono)
    qed
  qed
qed

section \<open>Price\<close>

lemma discount_depth_range: "0 \<le> discount_depth l p \<and> discount_depth l p \<le> 1"
  by (simp add: discount_depth_def split: option.split)

lemma discount_depth_antimono:
  assumes "p \<le> q" and "0 < l"
  shows "discount_depth l q \<le> discount_depth l p"
proof (cases "to_double (l - p)")
  case None
  show ?thesis
  proof (cases "p < l")
    case True
    with None discount_depth_range [of l q] show ?thesis by (simp add: discount_depth_def [of l p] double_sub_def)
  next
    case False
    then have "to_double (l - q) = None" using to_double_overflow_sign [OF _ None, of "l - q"] assms(1) by simp
    with False None assms(1) show ?thesis by (simp add: discount_depth_def double_sub_def)
  qed
next
  case (Some x)
  show ?thesis
  proof (cases "to_double (l - q)")
    case None
    have "\<not> q < l"
    proof
      assume "q < l"
      with to_double_overflow_mono [OF _ _ None, of "l - p"] assms(1) Some show False by simp
    qed
    with None discount_depth_range [of l p] show ?thesis by (simp add: discount_depth_def [of l q] double_sub_def)
  next
    case (Some y)
    with \<open>to_double (l - p) = Some x\<close> to_double_mono [of "l - q" "l - p"] assms ratio01_mono [of y x l]
    show ?thesis by (simp add: discount_depth_def double_sub_def)
  qed
qed

lemma scaled_depth_mono: "a \<le> b \<Longrightarrow> scaled_depth a scale \<le> scaled_depth b scale"
  by (auto simp: scaled_depth_def ratio01_mono split: option.split)

lemma scaled_depth_range: "0 \<le> a \<and> a \<le> 1 \<Longrightarrow> 0 \<le> scaled_depth a scale \<and> scaled_depth a scale \<le> 1"
  by (auto simp: scaled_depth_def split: option.split)

lemma price_value_shape:
  assumes "price_value lib list_price offer depth = Inr (Some x)"
  obtains l charged where "number_of (rl_checkout lib) list_price = Inr (Some l)" and "0 < l"
    and "charged_price lib offer = Inr charged"
    and "x = (case charged of None \<Rightarrow> 0 | Some p \<Rightarrow> scaled_depth (discount_depth l p) depth)"
proof -
  from assms obtain l where l: "number_of (rl_checkout lib) list_price = Inr (Some l)"
    by (auto simp: price_value_def and_then_Inr split: option.splits)
  from assms l obtain charged where charged: "0 < l" "charged_price lib offer = Inr charged"
    "x = (case charged of None \<Rightarrow> 0 | Some p \<Rightarrow> scaled_depth (discount_depth l p) depth)"
    by (auto simp: price_value_def and_then_Inr split: if_splits)
  show ?thesis by (rule that [OF l charged])
qed

section \<open>Delivery\<close>

lemma foldl_min_le: "foldl min x xs \<le> x \<and> (\<forall>y \<in> set xs. foldl min x xs \<le> (y :: rat))"
proof (induction xs arbitrary: x)
  case (Cons a xs)
  from Cons.IH [of "min x a"] show ?case by auto
qed simp

lemma foldl_max_ge: "x \<le> foldl max x xs \<and> (\<forall>y \<in> set xs. (y :: rat) \<le> foldl max x xs)"
proof (induction xs arbitrary: x)
  case (Cons a xs)
  from Cons.IH [of "max x a"] show ?case by auto
qed simp

lemma fit_between_range: "fit_between f s d = Finite x \<Longrightarrow> 0 \<le> x \<and> x \<le> 1"
  by (auto simp: fit_between_def split: option.splits)

lemma fit_between_antimono:
  assumes "a \<le> b" and "fit_between f s a = Finite x" and "fit_between f s b = Finite y"
    and "double_sub s f = Some w" and "0 < w"
  shows "y \<le> x"
proof -
  from assms(2-4) obtain da db where d: "to_double (s - a) = Some da" "to_double (s - b) = Some db"
    "x = ratio01 da w" "y = ratio01 db w"
    by (auto simp: fit_between_def double_sub_def split: option.splits)
  have "db \<le> da" using to_double_mono [of "s - b" "s - a"] assms(1) d(1,2) by simp
  then show ?thesis using ratio01_mono assms(5) d(3,4) by simp
qed

lemma fit_between_ends:
  assumes "double_sub s f = Some w" and "0 < w"
  shows "fit_between f s f = Finite 1" and "fit_between f s s = Finite 0"
  using assms
  by (simp_all add: fit_between_def ratio01_def double_sub_def double_div_def) (simp_all add: clamp01_def)

text \<open>Two estimates are compared only when there are several, all finite, and not all alike.\<close>

lemma delivery_fits_shape:
  assumes "i < length estimates" and "delivery_fits estimates ! i = Some (Finite x)"
  obtains fastest slowest w days where "double_sub slowest fastest = Some w" and "0 < w"
    and "estimates ! i = Some (Finite days)"
    and "delivery_fits estimates =
           map (\<lambda>e. case e of Some (Finite days) \<Rightarrow> Some (fit_between fastest slowest days) | _ \<Rightarrow> None) estimates"
    and "\<forall>j d. j < length estimates \<longrightarrow> estimates ! j = Some (Finite d) \<longrightarrow> fastest \<le> d \<and> d \<le> slowest"
proof -
  let ?admissible = "List.map_filter (\<lambda>e. e) estimates"
  let ?finite = "List.map_filter finite_float ?admissible"
  let ?fastest = "foldl min (hd ?finite) (tl ?finite)"
  let ?slowest = "foldl max (hd ?finite) (tl ?finite)"
  have 1: "\<not> length ?admissible < 2" and 2: "\<not> length ?finite < length ?admissible"
    using assms by (auto simp: delivery_fits_def Let_def split: if_splits)
  have spread: "\<exists>w. double_sub ?slowest ?fastest = Some w \<and> 0 < w"
    using assms 1 2 by (auto simp: delivery_fits_def Let_def fit_between_def split: if_splits option.splits pyfloat.splits)
  then obtain w where w: "double_sub ?slowest ?fastest = Some w" "0 < w" by blast
  have eq: "delivery_fits estimates =
      map (\<lambda>e. case e of Some (Finite days) \<Rightarrow> Some (fit_between ?fastest ?slowest days) | _ \<Rightarrow> None) estimates"
    using 1 2 w by (simp add: delivery_fits_def Let_def)
  obtain days where days: "estimates ! i = Some (Finite days)"
    using assms eq by (auto split: option.splits pyfloat.splits)
  have "?fastest \<le> d \<and> d \<le> ?slowest" if "j < length estimates" "estimates ! j = Some (Finite d)" for j d
  proof -
    have "Some (Finite d) \<in> set estimates" using that by (metis nth_mem)
    then have "d \<in> set ?finite" by (force simp: List.map_filter_def finite_float_def split: pyfloat.splits)
    then show ?thesis
      using foldl_min_le [of "hd ?finite" "tl ?finite"] foldl_max_ge [of "hd ?finite" "tl ?finite"]
      by (cases ?finite) auto
  qed
  with w days eq show ?thesis by (intro that) blast+
qed

end
