(* ===== verification/RankProps.thy ===== *)
theory RankProps
  imports RankLaws RankScoreLaws RankFeatureLaws
begin

text \<open>
  What a shopper may rely on: which bids are ranked, when a constraint is set aside, what the score is,
  and what the price and delivery features reward; and what one unreadable number does to an auction.
\<close>

section \<open>Who is ranked\<close>

text \<open>
  C4. A bid that is ranked belongs to a candidate that passed every gate: its store has a readable row
  that says it is not blacklisted, and is eligible at the source when one is asked; its offer's expiry is
  a finite instant not before the auction's; its checkout is on the store's registered domain; some price
  is stated and every stated price keeps each bound on the price; and each other constraint of the
  shopper that was not set aside is met by a claim under the exchange's own MAC as verified.
\<close>

theorem ranked_bid_passed_every_gate:
  assumes "rank_candidates lib clock candidates intent snapshot config weights eligibility network identities relevance = Inr r"
    and "row \<in> set (rg_ranked r)"
  shows "\<exists>candidate \<in> set candidates. \<exists>now.
     now_from lib clock config = Inr now \<and> snd (read_criteria lib intent) = None \<and>
     jr_store_id row = text_of lib (read_field candidate ''store_id'') \<and>
     store_cleared lib snapshot eligibility (jr_store_id row) \<and>
     offer_stands lib now (read_field candidate ''offer'') \<and>
     checkout_on_domain lib candidate (read_field candidate ''offer'') \<and>
     (\<forall>c \<in> set (fst (read_criteria lib intent)). c \<notin> set (rg_relaxed r) \<longrightarrow> constraint_kept lib c candidate)"
proof -
  obtain criteria reason where rc: "read_criteria lib intent = (criteria, reason)" by (cases "read_criteria lib intent")
  obtain now s first where 1: "now_from lib clock config = Inr now"
    and s: "s = \<lparr>rs_snapshot = snapshot, rs_eligibility = eligibility, rs_weights = weights, rs_identities = identities,
              rs_relevance = relevance, rs_now = now, rs_query = text_or_empty lib (read_field intent ''query''),
              rs_intent_reason = reason\<rparr>"
    and first: "rows_for lib s candidates criteria = Inr first"
    and rel: "relaxed_rows lib s candidates criteria network first = Inr (rg_candidates r, rg_relaxed r)"
    and ranked: "rg_ranked r = sorted_rows (rk_tie_breakers weights) (rg_candidates r)"
    by (rule rank_candidates_shape [OF assms(1) rc])
  have row: "row \<in> set (rg_candidates r)" "jr_eligible row"
    using assms(2) by (simp_all add: ranked set_sorted_rows)
  obtain applied where applied: "rows_for lib s candidates applied = Inr (rg_candidates r)"
    "\<forall>c \<in> set criteria. c \<notin> set (rg_relaxed r) \<longrightarrow> c \<in> set applied"
    using relaxed_rows_shape [OF rel] first by auto
  from rows_for_row [OF applied(1) row(1)] obtain candidate
    where c: "candidate \<in> set candidates" "judged_candidate lib s applied candidate = Inr row" by blast
  note gates = eligible_row_cleared [OF c(2) row(2)]
  show ?thesis
    using c(1) 1 gates applied(2) by (intro bexI [of _ candidate] exI [of _ now]) (simp_all add: s rc)
qed

section \<open>When a constraint is set aside\<close>

text \<open>
  C7. A constraint is set aside only when nobody was eligible under all of them and somebody is without
  it, and only where nobody can answer it: it is no bound on the price, no catalogue of the auction
  declares its attribute, and no claim about it in the auction was decided either way. Both judgements
  are those of the setting this call ranks in (its instant, snapshot, eligibility source, weights, query
  and a readable intent): under all the constraints no row of it is eligible, and the rows answered are
  those under the constraints that were not set aside, one of which is eligible.
\<close>

theorem relaxation_is_a_last_resort:
  assumes "rank_candidates lib clock candidates intent snapshot config weights eligibility network identities relevance = Inr r"
    and "c \<in> set (rg_relaxed r)"
  shows "c \<in> set (fst (read_criteria lib intent)) \<and> \<not> is_budget_bound lib c \<and>
     \<not> is_evidenced_by lib c network \<and>
     (\<exists>keys. seen_keys lib candidates = Inr keys \<and> \<not> is_evidenced_by lib c keys) \<and>
     rg_ranked r \<noteq> [] \<and> snd (read_criteria lib intent) = None \<and>
     (\<exists>now s first. now_from lib clock config = Inr now \<and>
        s = \<lparr>rs_snapshot = snapshot, rs_eligibility = eligibility, rs_weights = weights, rs_identities = identities,
             rs_relevance = relevance, rs_now = now, rs_query = text_or_empty lib (read_field intent ''query''),
             rs_intent_reason = None\<rparr> \<and>
        rows_for lib s candidates (fst (read_criteria lib intent)) = Inr first \<and>
        (\<forall>row \<in> set first. \<not> jr_eligible row) \<and>
        rows_for lib s candidates (filter (\<lambda>c. c \<notin> set (rg_relaxed r)) (fst (read_criteria lib intent))) =
          Inr (rg_candidates r) \<and>
        (\<exists>row \<in> set (rg_candidates r). jr_eligible row))"
proof -
  obtain criteria reason where rc: "read_criteria lib intent = (criteria, reason)" by (cases "read_criteria lib intent")
  obtain now s first where now: "now_from lib clock config = Inr now"
    and s: "s = \<lparr>rs_snapshot = snapshot, rs_eligibility = eligibility, rs_weights = weights, rs_identities = identities,
              rs_relevance = relevance, rs_now = now, rs_query = text_or_empty lib (read_field intent ''query''),
              rs_intent_reason = reason\<rparr>"
    and first: "rows_for lib s candidates criteria = Inr first"
    and rel: "relaxed_rows lib s candidates criteria network first = Inr (rg_candidates r, rg_relaxed r)"
    and ranked: "rg_ranked r = sorted_rows (rk_tie_breakers weights) (rg_candidates r)"
    by (rule rank_candidates_shape [OF assms(1) rc])
  from relaxed_rows_shape [OF rel] assms(2) obtain seen where none: "\<not> list_ex jr_eligible first"
    and some: "list_ex jr_eligible (rg_candidates r)" and readable: "rs_intent_reason s = None"
    and seen: "evidence_seen lib candidates network seen"
    and relaxed: "rg_relaxed r = filter (unanswerable lib seen) criteria"
    and retried: "rows_for lib s candidates (filter (\<lambda>c. c \<notin> set (rg_relaxed r)) criteria) = Inr (rg_candidates r)"
    by auto
  obtain keys where keys: "seen_keys lib candidates = Inr keys" "seen = network @ keys"
    using seen by (auto simp: evidence_seen_def)
  have "rg_ranked r \<noteq> []"
    using some set_sorted_rows [of "rk_tie_breakers weights" "rg_candidates r"] by (auto simp: ranked list_ex_iff)
  moreover have "c \<in> set criteria" "unanswerable lib (network @ keys) c"
    using assms(2) by (simp_all add: relaxed keys(2))
  moreover have "reason = None" using readable by (simp add: s)
  moreover have "(\<forall>row \<in> set first. \<not> jr_eligible row) \<and> (\<exists>row \<in> set (rg_candidates r). jr_eligible row)"
    using none some by (simp add: list_ex_iff)
  ultimately show ?thesis
    using keys(1) now first retried s
    unfolding rc fst_conv snd_conv unanswerable_def is_evidenced_by_def list_ex_append by blast
qed

section \<open>The score\<close>

text \<open>
  C12. Under the published weights the score a candidate gets is the published formula over its features,
  each between 0 and 1, to within \<open>10 ^ -8\<close>, whatever doubles and rounding do on the way: 0.35 intent
  match, 0.2 verified claims, 0.2 trust, 0.15 price, 0.1 delivery, less 0.3 per severe violation and
  0.15 per contradicted claim up to 1; so it lies between -1 and 1 to that precision.
\<close>

theorem score_is_the_published_formula:
  assumes "score_of lib candidate trust default_weights = Inr sc"
    and "read_field candidate ''policy_penalties'' = JNull"
    and "items_of (read_field candidate ''policy_events'') = Inr kinds" and "length kinds \<le> 1000"
  shows "\<exists>x. sc_total sc = Finite x \<and>
     \<bar>x - published_score (sc_features sc) (map (text_of lib) kinds)\<bar> \<le> 1 / 10 ^ 8 \<and>
     map fst (sc_features sc) = rank_features \<and> (\<forall>(name, v) \<in> set (sc_features sc). 0 \<le> v \<and> v \<le> 1) \<and>
     - 1 - 1 / 10 ^ 8 \<le> x \<and> x \<le> 1 + 1 / 10 ^ 8"
proof -
  from published_formula_near [OF assms] obtain x where x: "sc_total sc = Finite x"
    "\<bar>x - published_score (sc_features sc) (map (text_of lib) kinds)\<bar> \<le> 1 / 10 ^ 8" by blast
  have fv: "feature_vector lib candidate trust default_weights = Inr (sc_features sc)"
    using assms(1) by (auto simp: score_of_def and_then_Inr Let_def)
  obtain m e t v d where vector: "sc_features sc = [(''intent_match'', m), (''verified_claim_ratio'', e), (''trust'', t),
      (''price_value'', v), (''delivery_fit'', d)]"
    and r: "0 \<le> m \<and> m \<le> 1" "0 \<le> e \<and> e \<le> 1" "0 \<le> t \<and> t \<le> 1" "0 \<le> v \<and> v \<le> 1" "0 \<le> d \<and> d \<le> 1"
    by (rule default_feature_bounds [OF fv])
  have "published_score (sc_features sc) (map (text_of lib) kinds) =
      35 / 100 * m + 20 / 100 * e + 20 / 100 * t + 15 / 100 * v + 10 / 100 * d -
      published_penalty (map (text_of lib) kinds)"
    by (simp add: published_score_def vector Let_def)
  then have "- 1 \<le> published_score (sc_features sc) (map (text_of lib) kinds)"
    "published_score (sc_features sc) (map (text_of lib) kinds) \<le> 1"
    using published_penalty_range [of "map (text_of lib) kinds"] r by linarith+
  then have "- 1 - 1 / 10 ^ 8 \<le> x" "x \<le> 1 + 1 / 10 ^ 8" using x(2) by linarith+
  moreover have "\<forall>(name, v) \<in> set (sc_features sc). 0 \<le> v \<and> v \<le> 1" using r by (simp add: vector)
  ultimately show ?thesis using x feature_vector_shape(1) [OF fv] by blast
qed

section \<open>Price and delivery\<close>

text \<open>
  The price feature is between 0 and 1 and never rewards the dearer of two offers on one list price;
  an offer without a readable price gets 0.
\<close>

theorem cheaper_is_never_worth_less:
  assumes "price_value lib list_price offer depth = Inr (Some x)"
    and "price_value lib list_price dearer depth = Inr (Some y)"
    and "charged_price lib offer = Inr (Some p)"
    and "\<forall>q. charged_price lib dearer = Inr (Some q) \<longrightarrow> p \<le> q"
  shows "0 \<le> y \<and> y \<le> x \<and> x \<le> 1 \<and> (charged_price lib dearer = Inr None \<longrightarrow> y = 0)"
proof -
  obtain l where l: "number_of (rl_checkout lib) list_price = Inr (Some l)" "0 < l"
    and x: "x = scaled_depth (discount_depth l p) depth"
    using assms(3) by (rule_tac price_value_shape [OF assms(1)]) auto
  obtain charged where y: "charged_price lib dearer = Inr charged"
    "y = (case charged of None \<Rightarrow> 0 | Some q \<Rightarrow> scaled_depth (discount_depth l q) depth)"
    using l(1) by (rule_tac price_value_shape [OF assms(2)]) auto
  have range: "0 \<le> scaled_depth (discount_depth l q) depth \<and> scaled_depth (discount_depth l q) depth \<le> 1" for q
    by (rule scaled_depth_range [OF discount_depth_range])
  show ?thesis
  proof (cases charged)
    case None
    with x y range show ?thesis by simp
  next
    case (Some q)
    then have "discount_depth l q \<le> discount_depth l p"
      using assms(4) y(1) l(2) by (simp add: discount_depth_antimono)
    from scaled_depth_mono [OF this, of depth] x y Some range show ?thesis by simp
  qed
qed

text \<open>
  The delivery feature compares the estimates of the auction: it is between 0 and 1 and never higher
  for the slower of two.
\<close>

theorem faster_never_fits_worse:
  assumes "i < length estimates" and "j < length estimates"
    and "estimates ! i = Some (Finite a)" and "estimates ! j = Some (Finite b)" and "a \<le> b"
    and "delivery_fits estimates ! i = Some (Finite x)" and "delivery_fits estimates ! j = Some (Finite y)"
  shows "0 \<le> y \<and> y \<le> x \<and> x \<le> 1"
proof -
  obtain f s w where w: "double_sub s f = Some w" "0 < w"
    and eq: "delivery_fits estimates =
      map (\<lambda>e. case e of Some (Finite days) \<Rightarrow> Some (fit_between f s days) | _ \<Rightarrow> None) estimates"
    by (rule delivery_fits_shape [OF assms(1,6)])
  have "fit_between f s a = Finite x" "fit_between f s b = Finite y"
    using assms by (simp_all add: eq)
  with fit_between_range fit_between_antimono [OF assms(5) _ _ w] show ?thesis by blast
qed

section \<open>The exchange's own verdict\<close>

lemma attest_claim_fields:
  assumes "out = attest_claim lib (JObj d) status un subject v snapshot refs confidence reason"
  shows "read_field out ''key'' = read_field (JObj d) ''key''"
    and "read_field out ''value'' = read_field (JObj d) ''value''"
    and "read_field out ''unit'' = un"
    and "read_field out attestation_field = JObj (attested_payload lib (read_field (JObj d) ''key'')
           (read_field (JObj d) ''value'') un subject status v snapshot @
         [(''evidence_refs'', JArr (map JStr refs)), (''confidence'', json_opt JReal confidence),
          (''reason'', json_opt JStr reason),
          (''mac'', json_opt JStr (claim_mac lib (attested_payload lib (read_field (JObj d) ''key'')
             (read_field (JObj d) ''value'') un subject status v snapshot)))])"
proof -
  let ?kept = "filter (\<lambda>p. fst p \<notin> set dropped_from_the_authors_claim) d"
  let ?base = "if un = JNull then ?kept else dset ''unit'' un ?kept"
  have kept: "dget ?kept name = (if name \<notin> set dropped_from_the_authors_claim then dget d name else None)" for name
    by (rule dget_filter_key)
  have base: "read_field (JObj ?base) ''key'' = read_field (JObj d) ''key''"
    "read_field (JObj ?base) ''value'' = read_field (JObj d) ''value''" "read_field (JObj ?base) ''unit'' = un"
    by (simp_all add: read_field_def dget_dset kept del: filter_filter)
      (simp_all add: dropped_from_the_authors_claim_def attestation_field_def)
  have put: "read_field (JObj (dset attestation_field x ?base)) name =
      (if name = attestation_field then x else read_field (JObj ?base) name)" for x name
    by (simp add: read_field_def dget_dset)
  have out: "out = JObj (dset attestation_field (JObj (attested_payload lib (read_field (JObj ?base) ''key'')
           (read_field (JObj ?base) ''value'') (read_field (JObj ?base) ''unit'') subject status v snapshot @
         [(''evidence_refs'', JArr (map JStr refs)), (''confidence'', json_opt JReal confidence),
          (''reason'', json_opt JStr reason),
          (''mac'', json_opt JStr (claim_mac lib (attested_payload lib (read_field (JObj ?base) ''key'')
             (read_field (JObj ?base) ''value'') (read_field (JObj ?base) ''unit'') subject status v snapshot)))])) ?base)"
    by (simp only: assms attest_claim_def Let_def json.case)
  show "read_field out ''key'' = read_field (JObj d) ''key''" "read_field out ''value'' = read_field (JObj d) ''value''"
    "read_field out ''unit'' = un"
    "read_field out attestation_field = JObj (attested_payload lib (read_field (JObj d) ''key'')
           (read_field (JObj d) ''value'') un subject status v snapshot @
         [(''evidence_refs'', JArr (map JStr refs)), (''confidence'', json_opt JReal confidence),
          (''reason'', json_opt JStr reason),
          (''mac'', json_opt JStr (claim_mac lib (attested_payload lib (read_field (JObj d) ''key'')
             (read_field (JObj d) ''value'') un subject status v snapshot)))])"
    unfolding out base put by (simp_all add: attestation_field_def)
qed

text \<open>
  C18. A status the exchange gives a claim is the status it reads back from it for that store, whatever
  the author had written in the claim, and for no other store does it read one.
\<close>

theorem exchange_reads_back_its_own_verdict:
  assumes "out = attest_claim lib (JObj d) (JStr status) un (JStr store) v snapshot refs confidence reason"
    and "claim_mac lib (attested_payload lib (read_field (JObj d) ''key'') (read_field (JObj d) ''value'') un
           (JStr store) (JStr status) v snapshot) = Some mac"
    and "mac \<noteq> []" and "\<forall>c \<in> set mac. point c < 128"
  shows "claim_status lib out (JStr store) = Inr (Some status) \<and>
     (\<forall>other. other \<noteq> store \<longrightarrow> claim_status lib out (JStr other) = Inr None)"
proof -
  note out = attest_claim_fields [OF assms(1)]
  have mac: "digests_equal mac mac = Inr True"
    using assms(4) by (auto simp: digests_equal_def list_ex_iff)
  let ?payload = "attested_payload lib (read_field (JObj d) ''key'') (read_field (JObj d) ''value'') un
    (JStr store) (JStr status) v snapshot"
  let ?rest = "[(''evidence_refs'', JArr (map JStr refs)), (''confidence'', json_opt JReal confidence),
    (''reason'', json_opt JStr reason), (''mac'', JStr mac)]"
  have att: "read_field out attestation_field = JObj (?payload @ ?rest)"
    by (simp add: out(4) assms(2))
  have m: "read_field (JObj (?payload @ ?rest)) ''mac'' = JStr mac"
    by (simp add: attested_payload_def read_field_def)
  have again: "attested_payload lib (read_field (JObj d) ''key'') (read_field (JObj d) ''value'') un
      (text_or_null lib (JStr store)) (text_or_null lib (JStr status)) (text_or_null lib v) (text_or_null lib snapshot) = ?payload"
    by (rule attested_payload_idem)
  have t: "text_or_null lib (JStr x) = JStr x" for x by (simp add: text_or_null_def)
  have p: "attested_payload lib (read_field (JObj d) ''key'') (read_field (JObj d) ''value'') un
      (JStr store) (JStr status) (text_or_null lib v) (text_or_null lib snapshot) = ?payload"
    using again by (simp only: t)
  note reads = claim_status_def attested_status_def att m attested_payload_reads t p out(1-3) assms(2) mac Let_def
  have "claim_status lib out (JStr store) = Inr (Some status)" using assms(3) by (simp add: reads)
  moreover have "claim_status lib out (JStr other) = Inr None" if "other \<noteq> store" for other
    using assms(3) that by (auto simp: reads)
  ultimately show ?thesis by blast
qed

section \<open>What one unreadable number does\<close>

text \<open>
  An offer whose expiry is an integer beyond the doubles is not excluded as unreadable: the ranking of
  the whole auction is an exception.
\<close>

theorem one_unreadable_expiry_stops_the_ranking:
  assumes "candidate \<in> set candidates" and "read_field (read_field candidate ''offer'') ''expires_at'' = JInt n"
    and "float_of_int n = None"
  shows "\<exists>e. rank_candidates lib clock candidates intent snapshot config weights eligibility network identities relevance = Inl e"
proof -
  have offer: "read_field candidate ''offer'' \<noteq> JNull" using assms(2) by (auto simp: read_field_def)
  have "expiry_reason lib (read_field candidate ''offer'') now = Inl ''OverflowError''" for now
    using assms(2,3) by (simp add: expiry_reason_def expiry_epoch_def)
  then have "\<exists>e. judged_candidate lib s applied candidate = Inl e" for s applied
    using offer by (simp add: judged_candidate_def exclusion_reasons_def offer_reasons_def Let_def)
  then have "\<exists>e. rows_for lib s candidates applied = Inl e" for s applied
    using assms(1) unfolding rows_for_def by (rule_tac map_all_error) blast+
  then have "rows_for lib s candidates applied \<noteq> Inr rows" for s applied rows
    by (metis sum.distinct(1))
  then have "rank_candidates lib clock candidates intent snapshot config weights eligibility network identities relevance \<noteq> Inr r" for r
    by (metis prod.exhaust rank_candidates_shape)
  then show ?thesis by (metis sum.exhaust)
qed

section \<open>An auction\<close>

text \<open>A store bids with a claim under the exchange's MAC.\<close>

definition auction_lib :: rank_lib where
  "auction_lib =
     \<lparr>rl_checkout =
        \<lparr>lib_fromisoformat = (\<lambda>_. None), lib_float = (\<lambda>_. None), lib_int = (\<lambda>_. None), lib_str = (\<lambda>_. ''?''),
         lib_unquote = (\<lambda>s. s), lib_bracketed_ok = (\<lambda>_. False), lib_sha256 = (\<lambda>s. s)\<rparr>,
      rl_nfkc = (\<lambda>s. s), rl_unmarked = (\<lambda>s. s),
      rl_mac = (\<lambda>bytes. map (\<lambda>b. char_of (97 + b mod 26)) (take 8 (rev bytes)))\<rparr>"

definition wool_claim :: "(string, json) dict" where
  "wool_claim = [(''key'', JStr ''wool''), (''value'', JBool True), (''status'', JStr ''hearsay'')]"

definition attested_wool :: json where
  "attested_wool = attest_claim auction_lib (JObj wool_claim) (JStr ''verified'') JNull (JStr ''s1'')
     (JStr ''v2'') (JStr ''n1'') [] (Some 1) None"

definition wool_offer :: json where
  "wool_offer = JObj [(''total_price'', JInt 40), (''expires_at'', JInt 200), (''checkout_url'', JStr ''https://s1.shop/'')]"

definition wool_bid :: json where
  "wool_bid =
     JObj [(''bid_id'', JStr ''b1''), (''store_id'', JStr ''s1''), (''store_domain'', JStr ''s1.shop''),
       (''offer'', wool_offer), (''claims'', JArr [attested_wool])]"

definition wool_criterion :: hard_criterion where
  "wool_criterion = \<lparr>hc_field = ''Wool'', hc_op = ''eq'', hc_value = JBool True, hc_unit = None\<rparr>"

definition silk_criterion :: hard_criterion where
  "silk_criterion = \<lparr>hc_field = ''silk'', hc_op = ''eq'', hc_value = JBool True, hc_unit = None\<rparr>"

definition price_criterion :: hard_criterion where
  "price_criterion = \<lparr>hc_field = ''price_usd'', hc_op = ''lte'', hc_value = JInt 50, hc_unit = None\<rparr>"

definition intent_for :: "string \<Rightarrow> json" where
  "intent_for field = JObj [(''hard_constraints'', JArr
     [JObj [(''field'', JStr field), (''op'', JStr ''eq''), (''value'', JBool True)],
      JObj [(''field'', JStr ''price_usd''), (''op'', JStr ''lte''), (''value'', JInt 50)]])]"

definition clear_snapshot :: trust_snapshot where
  "clear_snapshot = RowsByStore [(''s1'', JObj [(''blacklisted'', JBool False), (''score'', JInt 1)])]"

definition open_source :: "string eligibility_source" where
  "open_source = static_eligibility [(''s1'', eligible_status)] unavailable_status eligibility_interface_version"

definition auction_setting :: rank_setting where
  "auction_setting =
     \<lparr>rs_snapshot = clear_snapshot, rs_eligibility = Some open_source, rs_weights = default_weights,
      rs_identities = None, rs_relevance = default_relevance, rs_now = FiniteText 100, rs_query = [],
      rs_intent_reason = None\<rparr>"

definition auction_ranking :: "json \<Rightarrow> string + ranking" where
  "auction_ranking intent =
     rank_candidates auction_lib 0 [wool_bid] intent clear_snapshot (JObj [(''now'', JInt 100)]) default_weights
       (Some open_source) [''wool''] None default_relevance"

lemma auction_bounds:
  "is_budget_bound auction_lib price_criterion" "\<not> is_budget_bound auction_lib wool_criterion"
  "\<not> is_budget_bound auction_lib silk_criterion"
  by code_simp+

lemma auction_status: "claim_status auction_lib attested_wool (JStr ''s1'') = Inr (Some ''verified'')"
  by code_simp

definition wool_reading :: reading where
  "wool_reading = \<lparr>rd_key = ''wool'', rd_string = None, rd_number = None, rd_bool = Some True, rd_unit = JNull\<rparr>"

lemma wool_reading: "reading_of_claim auction_lib attested_wool = Inr wool_reading"
  "read_field attested_wool ''key'' = JStr ''wool''"
  by code_simp+

lemma auction_decisions:
  "decide_criterion auction_lib wool_criterion [wool_reading] = Inr Satisfied"
  "decide_criterion auction_lib silk_criterion [wool_reading] = Inr NoSuchAttribute"
  by code_simp+

lemma auction_offer:
  "offer_prices auction_lib wool_offer = Inr [(''total_price'', 40)]"
  "expiry_reason auction_lib wool_offer (FiniteText 100) = Inr None"
  "domain_reason auction_lib wool_bid wool_offer = None"
  "bound_of (hc_value price_criterion) = Inr 50"
  by code_simp+

lemma auction_store:
  "store_reasons auction_lib clear_snapshot (Some open_source) (JStr ''s1'') = []"
  by code_simp

lemma wool_bid_fields:
  "read_field wool_bid ''bid_id'' = JStr ''b1''" "read_field wool_bid ''store_id'' = JStr ''s1''"
  "read_field wool_bid ''offer'' = wool_offer" "wool_offer \<noteq> JNull"
  "read_field wool_bid ''claims'' = JArr [attested_wool]" "read_field wool_bid ''policy_events'' = JNull"
  "read_field wool_bid ''policy_penalties'' = JNull"
  by (simp_all add: wool_bid_def wool_offer_def read_field_def)

lemma wool_verified: "verified_attributes auction_lib (JArr [attested_wool]) (JStr ''s1'') = Inr [wool_reading]"
  by (simp add: verified_attributes_def items_of_def wool_reading auction_status verified_status_def)

lemma wool_hard:
  "hard_constraint_reasons auction_lib (JArr [attested_wool]) [wool_criterion, price_criterion] (JStr ''s1'') = Inr ([], 1)"
  "hard_constraint_reasons auction_lib (JArr [attested_wool]) [silk_criterion, price_criterion] (JStr ''s1'') =
     Inr ([ExHardConstraint silk_criterion NoSuchAttribute], 0)"
  "hard_constraint_reasons auction_lib (JArr [attested_wool]) [price_criterion] (JStr ''s1'') = Inr ([], 0)"
  by (simp_all add: hard_constraint_reasons_def wool_verified auction_bounds auction_decisions)

lemma wool_budget: "budget_loop [(''total_price'', 40)] [price_criterion] = Inr []"
  by (simp add: auction_offer(4)) (simp add: price_criterion_def outside_bound_def)

lemma wool_exclusions:
  "exclusion_reasons auction_lib wool_bid [wool_criterion, price_criterion] None clear_snapshot (FiniteText 100)
     (Some open_source) = Inr ([], 1)"
  "exclusion_reasons auction_lib wool_bid [silk_criterion, price_criterion] None clear_snapshot (FiniteText 100)
     (Some open_source) = Inr ([ExHardConstraint silk_criterion NoSuchAttribute], 0)"
  "exclusion_reasons auction_lib wool_bid [price_criterion] None clear_snapshot (FiniteText 100)
     (Some open_source) = Inr ([], 0)"
  by (simp_all add: exclusion_reasons_def Let_def wool_bid_fields auction_store offer_reasons_def auction_offer(1-3)
      budget_reasons_def auction_bounds wool_budget wool_hard del: budget_loop.simps)

lemma returns_iff: "(\<exists>x. r = Inr x) \<longleftrightarrow> (case r of Inr x \<Rightarrow> True | Inl e \<Rightarrow> False)"
  by (cases r) simp_all

lemma wool_row_parts:
  "text_or_empty auction_lib (JStr ''s1'') = ''s1''"
  "number_of (rl_checkout auction_lib) (read_field (trust_row auction_lib ''s1'' clear_snapshot) ''score'') = Inr (Some 1)"
  "provenance_labels auction_lib (JArr [attested_wool]) = Inr [''unverified'']"
  "penalty_of auction_lib wool_bid default_weights = Inr 0"
  by code_simp+

lemma wool_row_summary: "\<exists>x. trust_summary_of auction_lib ''s1'' (trust_row auction_lib ''s1'' clear_snapshot) = Inr x"
  unfolding returns_iff by code_simp

lemma wool_vector: "\<exists>x. feature_vector auction_lib wool_bid (Some 1) default_weights = Inr x"
  unfolding returns_iff by code_simp

lemma wool_score: "\<exists>x. score_of auction_lib wool_bid (Some 1) default_weights = Inr x"
  using wool_vector by (auto simp: score_of_def wool_row_parts(4) Let_def)

lemma wool_row:
  assumes "exclusion_reasons auction_lib wool_bid applied None clear_snapshot (FiniteText 100) (Some open_source) =
    Inr (reasons, n)"
  shows "\<exists>row. judged_candidate auction_lib auction_setting applied wool_bid = Inr row \<and> jr_reasons row = reasons"
  using assms wool_row_summary wool_score
  by (auto simp: judged_candidate_def auction_setting_def wool_bid_fields wool_row_parts off_topic_reasons_def
      offer_price_def auction_offer(1) Let_def)

lemma auction_criteria:
  "read_criteria auction_lib (intent_for ''Wool'') = ([wool_criterion, price_criterion], None)"
  "read_criteria auction_lib (intent_for ''silk'') = ([silk_criterion, price_criterion], None)"
  by code_simp+

lemma auction_returns:
  assumes "field = ''Wool'' \<or> field = ''silk''"
    and "read_criteria auction_lib (intent_for field) = (criteria, None)"
    and "rows_for auction_lib auction_setting [wool_bid] criteria = Inr first"
    and "relaxed_rows auction_lib auction_setting [wool_bid] criteria [''wool''] first = Inr (rows, relaxed)"
  shows "\<exists>r. auction_ranking (intent_for field) = Inr r \<and> rg_relaxed r = relaxed \<and>
     rg_ranked r = sorted_rows (rk_tie_breakers default_weights) rows"
  unfolding auction_ranking_def
proof (rule rank_candidates_returns [OF _ assms(2) _ assms(3,4)])
  show "now_from auction_lib 0 (JObj [(''now'', JInt 100)]) = Inr (FiniteText 100)" by code_simp
  have "text_or_empty auction_lib (read_field (intent_for field) ''query'') = []"
    by (simp add: intent_for_def read_field_def text_or_empty_def)
  then show "auction_setting =
    \<lparr>rs_snapshot = clear_snapshot, rs_eligibility = Some open_source, rs_weights = default_weights, rs_identities = None,
     rs_relevance = default_relevance, rs_now = FiniteText 100,
     rs_query = text_or_empty auction_lib (read_field (intent_for field) ''query''), rs_intent_reason = None\<rparr>"
    by (simp add: auction_setting_def)
qed

lemma wool_rows:
  assumes "exclusion_reasons auction_lib wool_bid applied None clear_snapshot (FiniteText 100) (Some open_source) =
    Inr (reasons, n)"
  shows "\<exists>row. rows_for auction_lib auction_setting [wool_bid] applied = Inr [row] \<and> jr_reasons row = reasons"
  using wool_row [OF assms] by (auto simp: rows_for_def)

lemma wool_ranked:
  "\<exists>r row. auction_ranking (intent_for ''Wool'') = Inr r \<and> row \<in> set (rg_ranked r)"
proof -
  obtain row where row: "rows_for auction_lib auction_setting [wool_bid] [wool_criterion, price_criterion] = Inr [row]"
    "jr_reasons row = []" using wool_rows [OF wool_exclusions(1)] by blast
  then have "relaxed_rows auction_lib auction_setting [wool_bid] [wool_criterion, price_criterion] [''wool''] [row] =
      Inr ([row], [])" by (simp add: relaxed_rows_def jr_eligible_def)
  from auction_returns [OF _ auction_criteria(1) row(1) this] obtain r where
    "auction_ranking (intent_for ''Wool'') = Inr r" "rg_ranked r = sorted_rows (rk_tie_breakers default_weights) [row]"
    by auto
  with row(2) show ?thesis by (auto simp: set_sorted_rows jr_eligible_def)
qed

lemma silk_unanswerable:
  "unanswerable_criteria auction_lib [wool_bid] [silk_criterion, price_criterion] [''wool''] = Inr [silk_criterion]"
proof -
  have "seen_keys auction_lib [wool_bid] = Inr [''wool'']"
    by (simp add: wool_bid_fields decided_attributes_def items_of_def auction_status wool_reading decided_statuses_def)
  moreover have "\<not> is_evidenced_by auction_lib silk_criterion [''wool'', ''wool'']" by code_simp
  ultimately show ?thesis
    by (simp add: unanswerable_criteria_def unanswerable_def auction_bounds del: seen_keys.simps)
qed

lemma silk_relaxed:
  "\<exists>r. auction_ranking (intent_for ''silk'') = Inr r \<and> silk_criterion \<in> set (rg_relaxed r)"
proof -
  obtain row where row: "rows_for auction_lib auction_setting [wool_bid] [silk_criterion, price_criterion] = Inr [row]"
    "jr_reasons row \<noteq> []" using wool_rows [OF wool_exclusions(2)] by auto
  obtain again where again: "rows_for auction_lib auction_setting [wool_bid] [price_criterion] = Inr [again]"
    "jr_reasons again = []" using wool_rows [OF wool_exclusions(3)] by blast
  have ne: "price_criterion \<noteq> silk_criterion" by (simp add: price_criterion_def silk_criterion_def)
  have "relaxed_rows auction_lib auction_setting [wool_bid] [silk_criterion, price_criterion] [''wool''] [row] =
      Inr ([again], [silk_criterion])"
    using row(2) again by (simp add: relaxed_rows_def jr_eligible_def silk_unanswerable ne)
      (simp add: auction_setting_def)
  from auction_returns [OF _ auction_criteria(2) row(1) this] show ?thesis by auto
qed


theorem ranked_bid_passed_every_gate_witness:
  "\<exists>r row. auction_ranking (intent_for ''Wool'') = Inr r \<and> row \<in> set (rg_ranked r) \<and> jr_store_id row = ''s1'' \<and>
     store_cleared auction_lib clear_snapshot (Some open_source) ''s1'' \<and>
     (wool_criterion \<notin> set (rg_relaxed r) \<longrightarrow> constraint_kept auction_lib wool_criterion wool_bid)"
proof -
  obtain r row where r: "auction_ranking (intent_for ''Wool'') = Inr r" "row \<in> set (rg_ranked r)"
    using wool_ranked by blast
  from ranked_bid_passed_every_gate [OF r(1) [unfolded auction_ranking_def] r(2)] r show ?thesis
    by (intro exI [of _ r] exI [of _ row]) (auto simp: wool_bid_fields auction_criteria)
qed

theorem relaxation_is_a_last_resort_witness:
  "\<exists>r. auction_ranking (intent_for ''silk'') = Inr r \<and> silk_criterion \<in> set (rg_relaxed r) \<and>
     \<not> is_budget_bound auction_lib silk_criterion \<and> \<not> is_evidenced_by auction_lib silk_criterion [''wool'']"
proof -
  obtain r where r: "auction_ranking (intent_for ''silk'') = Inr r" "silk_criterion \<in> set (rg_relaxed r)"
    using silk_relaxed by blast
  from relaxation_is_a_last_resort [OF r(1) [unfolded auction_ranking_def] r(2)] r show ?thesis by blast
qed

theorem score_is_the_published_formula_witness:
  "\<exists>sc x. score_of auction_lib wool_bid (Some 1) default_weights = Inr sc \<and> sc_total sc = Finite x \<and>
     \<bar>x - published_score (sc_features sc) []\<bar> \<le> 1 / 10 ^ 8"
proof -
  obtain sc where sc: "score_of auction_lib wool_bid (Some 1) default_weights = Inr sc" using wool_score by blast
  have "items_of (read_field wool_bid ''policy_events'') = Inr []" by (simp add: wool_bid_fields items_of_def)
  from score_is_the_published_formula [OF sc wool_bid_fields(7) this] sc show ?thesis by auto
qed

definition dear_offer :: json where
  "dear_offer = JObj [(''total_price'', JInt 50)]"

lemma sample_prices:
  "price_value auction_lib (JInt 80) wool_offer None = Inr (Some (1 / 2))"
  "price_value auction_lib (JInt 80) dear_offer None = Inr (Some (3 / 8))"
  "charged_price auction_lib wool_offer = Inr (Some 40)" "charged_price auction_lib dear_offer = Inr (Some 50)"
  by code_simp+

theorem cheaper_is_never_worth_less_witness: "(0 :: rat) \<le> 3 / 8 \<and> (3 / 8 :: rat) \<le> 1 / 2"
  using cheaper_is_never_worth_less [OF sample_prices(1-3)] by (simp add: sample_prices(4))

definition sample_estimates :: "pyfloat option list" where
  "sample_estimates = [Some (Finite 2), None, Some (Finite 4), Some (Finite 3)]"

lemma sample_fits:
  "delivery_fits sample_estimates = [Some (Finite 1), None, Some (Finite 0), Some (Finite (1 / 2))]"
  by code_simp

theorem faster_never_fits_worse_witness:
  "sample_estimates ! 0 = Some (Finite 2) \<and> delivery_fits sample_estimates ! 0 = Some (Finite 1) \<and> (1 / 2 :: rat) \<le> 1"
  using faster_never_fits_worse [of 0 sample_estimates 3 2 3 1 "1 / 2"]
  unfolding sample_fits by (simp add: sample_estimates_def)

theorem exchange_reads_back_its_own_verdict_witness:
  "claim_status auction_lib attested_wool (JStr ''s1'') = Inr (Some ''verified'') \<and>
   claim_status auction_lib attested_wool (JStr ''s2'') = Inr None"
proof -
  let ?payload = "attested_payload auction_lib (read_field (JObj wool_claim) ''key'')
    (read_field (JObj wool_claim) ''value'') JNull (JStr ''s1'') (JStr ''verified'') (JStr ''v2'') (JStr ''n1'')"
  have "case claim_mac auction_lib ?payload of Some mac \<Rightarrow> mac \<noteq> [] \<and> (\<forall>c \<in> set mac. point c < 128) | None \<Rightarrow> False"
    by code_simp
  then obtain mac where "claim_mac auction_lib ?payload = Some mac" "mac \<noteq> []" "\<forall>c \<in> set mac. point c < 128"
    by (auto split: option.splits)
  from exchange_reads_back_its_own_verdict [OF attested_wool_def this] show ?thesis by simp
qed

definition beyond_doubles :: int where "beyond_doubles = 2 ^ 1024"

definition late_bid :: json where
  "late_bid = JObj [(''bid_id'', JStr ''b2''), (''store_id'', JStr ''s2''),
     (''offer'', JObj [(''expires_at'', JInt beyond_doubles)])]"

theorem one_unreadable_expiry_stops_the_ranking_witness:
  "\<exists>e. rank_candidates auction_lib 0 [wool_bid, late_bid] (intent_for ''Wool'') clear_snapshot
     (JObj [(''now'', JInt 100)]) default_weights (Some open_source) [''wool''] None default_relevance = Inl e"
proof (rule one_unreadable_expiry_stops_the_ranking)
  show "late_bid \<in> set [wool_bid, late_bid]" by simp
  show "read_field (read_field late_bid ''offer'') ''expires_at'' = JInt beyond_doubles"
    by (simp add: late_bid_def read_field_def)
  show "float_of_int beyond_doubles = None" unfolding beyond_doubles_def by (rule float_of_int_overflow)
qed

end
