(* ===== verification/AuctionCollect.thy ===== *)
theory AuctionCollect
  imports BidBoundary AuctionStore
begin

text \<open>
  From the roster, the responses and the deadline to one entry per rostered store
  (\<open>apps/exchange/src/auction/collect.py\<close>).

  A roster row, a response and a bid are mappings of plain data. \<open>float\<close> of a text and the wall clock are
  fields of \<open>collect_lib\<close>; a double that is not finite is one value, so an arrival stamp that is not finite
  counts as late. \<open>Inl\<close> is the type of an exception the code does not catch.
\<close>

record collect_lib =
  cl_boundary :: boundary_lib
  cl_float_text :: "pystr \<Rightarrow> pyfloat option"
  cl_wall_clock :: int

section \<open>Why an entry is a fallback\<close>

definition max_refusal_detail_length :: nat where "max_refusal_detail_length = 64"

definition refusal_detail_point :: "int \<Rightarrow> bool" where
  "refusal_detail_point c \<longleftrightarrow>
     97 \<le> c \<and> c \<le> 122 \<or> 65 \<le> c \<and> c \<le> 90 \<or> 48 \<le> c \<and> c \<le> 57 \<or> c = 95 \<or> c = 45 \<or> c = 46"

definition refusal_reason :: "boundary_lib \<Rightarrow> pyval \<Rightarrow> pyval \<Rightarrow> pystr" where
  "refusal_reason lib family detail =
     (let token = strip_text (py_text lib family) in
      if detail = VNone then token
      else
        let rendered = strip_text (py_text lib detail) in
        if rendered = [] then token
        else if length rendered > max_refusal_detail_length \<or> \<not> list_all refusal_detail_point rendered
        then token @ 58 # u ''undisclosed''
        else token @ 58 # rendered)"

definition fallback_reason_family :: "boundary_lib \<Rightarrow> pyval \<Rightarrow> pystr option" where
  "fallback_reason_family lib reason =
     (if reason = VNone then None
      else let family = takeWhile (\<lambda>c. c \<noteq> 58) (py_text lib reason) in if family = [] then None else Some family)"

definition unreconcilable_price_reason :: pystr where
  "unreconcilable_price_reason = u ''bid_price_unreconcilable''"

definition unprovenanced_claim_reason :: pystr where
  "unprovenanced_claim_reason = u ''bid_claim_unprovenanced''"

definition response_timed_out_reason :: pystr where
  "response_timed_out_reason = u ''response_timed_out''"

definition fan_out_capacity_reason :: pystr where
  "fan_out_capacity_reason = u ''fan_out_capacity_exhausted''"

definition no_agent_reason :: pystr where
  "no_agent_reason = u ''tier_0_no_agent:no_bid_endpoint''"

definition fallback_reasons :: "pystr list" where
  "fallback_reasons =
     [u ''tier_0_no_agent'', u ''no_response'', response_timed_out_reason, fan_out_capacity_reason,
      u ''response_after_deadline'', u ''response_carried_no_bid'', u ''response_not_stamped'',
      u ''arrival_stamp_unparseable'', unreconcilable_price_reason, unprovenanced_claim_reason,
      u ''store_declined'', u ''store_refused'']"

definition provenance_reason_prefixes :: "pystr list" where
  "provenance_reason_prefixes =
     map u [''claim_without_provenance'', ''claim_provenance_empty_source'', ''claim_provenance_unknown_source'',
       ''hosted_non_hook_provenance'', ''unverifiable_claim_site'', ''claim_value_unwalkable'',
       ''unverified_discount_authorisation'']"

text \<open>The keys the exchange sets on a response of its own.\<close>

definition refusal_field :: string where "refusal_field = ''exchange_refusal''"
definition timed_out_field :: string where "timed_out_field = ''exchange_timed_out''"
definition not_asked_field :: string where "not_asked_field = ''exchange_not_asked''"
definition no_agent_field :: string where "no_agent_field = ''exchange_holds_no_agent''"

section \<open>The instant a fallback expires\<close>

text \<open>\<open>fallback_offer_ttl_seconds\<close> is \<open>float(AUCTION_TTL_SECONDS)\<close>.\<close>

definition fallback_offer_ttl_seconds :: rat where "fallback_offer_ttl_seconds = auction_ttl_seconds"

definition moment_of_instant :: "int \<Rightarrow> moment" where
  "moment_of_instant t =
     (let (y, m, d) = ord2ymd (t div 86400000000 + 719163); s = t div 1000000 mod 86400
      in \<lparr>mo_year = y, mo_month = m, mo_day = d, mo_hour = s div 3600, mo_minute = s div 60 mod 60,
          mo_second = s mod 60, mo_micro = t mod 1000000\<rparr>)"

text \<open>\<open>isoformat()\<close> of a UTC time, \<open>+00:00\<close> written \<open>Z\<close>\<close>

definition iso_z :: "moment \<Rightarrow> pystr" where
  "iso_z t =
     pad_digits 4 (mo_year t) @ 45 # pad_digits 2 (mo_month t) @ 45 # pad_digits 2 (mo_day t) @
     84 # pad_digits 2 (mo_hour t) @ 58 # pad_digits 2 (mo_minute t) @ 58 # pad_digits 2 (mo_second t) @
     (if mo_micro t = 0 then [] else 46 # pad_digits 6 (mo_micro t)) @ [90]"

definition fallback_expires_at :: "rat \<Rightarrow> pystr option" where
  "fallback_expires_at deadline =
     Option.bind (double_add deadline fallback_offer_ttl_seconds) (\<lambda>seconds.
       map_option (\<lambda>t. iso_z (moment_of_instant t)) (instant_of_seconds seconds))"

section \<open>The list-price bid\<close>

definition optional_text :: "pystr option \<Rightarrow> pyval" where
  "optional_text t = (case t of Some s \<Rightarrow> VStr s | None \<Rightarrow> VNone)"

text \<open>\<open>v.get(name, default)\<close> and \<open>name in v\<close>\<close>

definition field_or :: "pyval \<Rightarrow> string \<Rightarrow> pyval \<Rightarrow> pyval" where
  "field_or v name otherwise =
     (case v of VObj d \<Rightarrow> (case dget d (u name) of Some x \<Rightarrow> x | None \<Rightarrow> otherwise) | _ \<Rightarrow> otherwise)"

definition has_key :: "pyval \<Rightarrow> string \<Rightarrow> bool" where
  "has_key v name = (case v of VObj d \<Rightarrow> dget d (u name) \<noteq> None | _ \<Rightarrow> False)"

text \<open>\<open>str(row["store_id"])\<close>\<close>

definition rostered_store :: "boundary_lib \<Rightarrow> pyval \<Rightarrow> string + pystr" where
  "rostered_store lib row =
     (if has_key row ''store_id'' then Inr (py_text lib (vget row ''store_id'')) else Inl ''KeyError'')"

definition positive_price :: "rat option \<Rightarrow> rat option" where
  "positive_price listed = (case listed of Some r \<Rightarrow> if r > 0 then Some r else None | None \<Rightarrow> None)"

definition named_variant :: "pyval \<Rightarrow> (pystr \<times> pyval) list" where
  "named_variant row =
     (case vget row ''variant_ref'' of
        VStr v \<Rightarrow> if strip_text v = [] then [] else [(u ''variant_ref'', VStr (strip_text v))]
      | _ \<Rightarrow> [])"

definition list_price_offer :: "pyval \<Rightarrow> rat option \<Rightarrow> rat \<Rightarrow> (pystr \<times> pyval) list" where
  "list_price_offer row listed deadline =
     [(u ''product_ref'', vget row ''product_ref''), (u ''currency'', field_or row ''currency'' (VStr (u ''USD'')))] @
     (case positive_price listed of
        None \<Rightarrow> (u ''expires_at'', VNone) # named_variant row
      | Some r \<Rightarrow>
          (u ''expires_at'', optional_text (fallback_expires_at deadline)) # named_variant row @
          [(u ''unit_price'', VFloat (Finite r)), (u ''total_price'', VFloat (Finite r))])"

definition list_price_bid :: "boundary_lib \<Rightarrow> pyval \<Rightarrow> pystr option \<Rightarrow> rat \<Rightarrow> string + pyval" where
  "list_price_bid lib row auction_id deadline =
     and_then (finite_number (vget row ''list_price'')) (\<lambda>listed.
     and_then (rostered_store lib row) (\<lambda>store.
       Inr (VObj
         [(u ''auction_id'', optional_text auction_id), (u ''store_id'', VStr store),
          (u ''offer'', VObj (list_price_offer row listed deadline)),
          (u ''claims'', VArr []), (u ''fallback'', VBool True)])))"

section \<open>When the prices of a bid are judged\<close>

definition is_mapping :: "pyval \<Rightarrow> bool" where
  "is_mapping v = (case v of VObj _ \<Rightarrow> True | _ \<Rightarrow> False)"

definition priced_sites :: "string list" where "priced_sites = [''unit_price'', ''total_price'']"

text \<open>A double that is not finite is not zero; \<open>float\<close> of an integer may overflow.\<close>

definition declares_a_discount :: "pyval \<Rightarrow> string + bool" where
  "declares_a_discount offer =
     (let discount = vget offer ''discount''; value = vget discount ''value'' in
      if discount = VNone then Inr False
      else
        case value of
          VInt _ \<Rightarrow> map_sum id (\<lambda>r. r \<noteq> Some 0) (finite_number value)
        | VFloat (Finite r) \<Rightarrow> Inr (r \<noteq> 0)
        | _ \<Rightarrow> Inr True)"

definition states_an_authorized_depth :: "pyval \<Rightarrow> bool" where
  "states_an_authorized_depth row \<longleftrightarrow> vget row ''max_discount_pct'' \<noteq> VNone"

definition site_is_free :: "pyval \<Rightarrow> string \<Rightarrow> string + bool" where
  "site_is_free offer site =
     map_sum id (\<lambda>priced. case priced of None \<Rightarrow> True | Some r \<Rightarrow> r \<le> 0) (finite_number (vget offer site))"

definition priced_at_nothing :: "pyval \<Rightarrow> pyval \<Rightarrow> string + bool" where
  "priced_at_nothing offer row =
     and_then (finite_number (vget row ''list_price'')) (\<lambda>listed.
       if listed = None \<and> vget row ''list_price'' \<noteq> VNone then Inr True
       else if positive_price listed = None then Inr False
       else if \<not> is_mapping offer then Inr True
       else any_of (site_is_free offer) priced_sites)"

definition below_the_price_floor :: "pyval \<Rightarrow> pyval \<Rightarrow> string + bool" where
  "below_the_price_floor offer row =
     and_then (finite_number (vget row ''list_price'')) (\<lambda>listed.
       case positive_price listed of
         None \<Rightarrow> Inr False
       | Some r \<Rightarrow>
           if \<not> is_mapping offer then Inr False
           else
             any_of (\<lambda>site. map_sum id (\<lambda>priced. case priced of None \<Rightarrow> False | Some p \<Rightarrow> 0 < p \<and> p < price_floor r)
                 (finite_number (vget offer site))) priced_sites)"

definition price_is_unreadable :: "pyval \<Rightarrow> string + bool" where
  "price_is_unreadable offer =
     (let stated = filter (has_key offer) priced_sites in
      if stated = [] then Inr True
      else any_of (\<lambda>site. map_sum id (\<lambda>priced. priced = None) (finite_number (vget offer site))) stated)"

definition row_tier :: "collect_lib \<Rightarrow> pyval \<Rightarrow> string + int" where
  "row_tier lib row =
     (case field_or row ''tier'' (VInt 1) of
        VStr s \<Rightarrow>
          (case cl_float_text lib s of
             Some (Finite r) \<Rightarrow> Inr (truncated r)
           | _ \<Rightarrow> Inr 0)
      | stated \<Rightarrow> map_sum id (\<lambda>number. case number of None \<Rightarrow> 0 | Some r \<Rightarrow> truncated r) (finite_number stated))"

definition answers_about_another_product :: "boundary_lib \<Rightarrow> pyval \<Rightarrow> pyval \<Rightarrow> bool" where
  "answers_about_another_product lib offer row \<longleftrightarrow>
     vget row ''product_ref'' \<noteq> VNone \<and> vget offer ''product_ref'' \<noteq> VNone \<and>
     strip_text (py_text lib (vget offer ''product_ref'')) \<noteq> strip_text (py_text lib (vget row ''product_ref''))"

definition is_judged :: "boundary_lib \<Rightarrow> pyval \<Rightarrow> pyval \<Rightarrow> string + bool" where
  "is_judged lib offer row =
     any_of id
       [declares_a_discount offer, Inr (states_an_authorized_depth row), priced_at_nothing offer row,
        price_is_unreadable offer, below_the_price_floor offer row,
        Inr (answers_about_another_product lib offer row)]"

section \<open>What the exchange has against an answer\<close>

text \<open>Keys of a \<open>dict\<close> are equal as Python compares them: numbers and truth values by their value.\<close>

definition number_value :: "pyval \<Rightarrow> rat option" where
  "number_value v =
     (case v of
        VBool b \<Rightarrow> Some (if b then 1 else 0)
      | VInt n \<Rightarrow> Some (of_int n)
      | VFloat (Finite r) \<Rightarrow> Some r
      | _ \<Rightarrow> None)"

definition same_key :: "pyval \<Rightarrow> pyval \<Rightarrow> bool" where
  "same_key a b \<longleftrightarrow>
     (case (number_value a, number_value b) of (Some x, Some y) \<Rightarrow> x = y | (None, None) \<Rightarrow> a = b | _ \<Rightarrow> False)"

text \<open>\<open>{row.get("product_ref"): row}\<close>; a list or a mapping is no key.\<close>

definition roster_of_row :: "pyval \<Rightarrow> string + price_roster" where
  "roster_of_row row =
     (case vget row ''product_ref'' of
        VArr _ \<Rightarrow> Inl ''TypeError''
      | VObj _ \<Rightarrow> Inl ''TypeError''
      | ref \<Rightarrow> Inr (\<lambda>key. if same_key key ref then Some row else None))"

definition price_refusal :: "boundary_lib \<Rightarrow> pyval \<Rightarrow> pyval \<Rightarrow> string + pystr list" where
  "price_refusal lib bid row =
     (let offer = vget bid ''offer'' in
      and_then (is_judged lib offer row) (\<lambda>judged.
        if \<not> judged then Inr []
        else
          and_then (roster_of_row row) (\<lambda>roster.
          and_then (price_reasons lib bid offer roster VNone) (\<lambda>refused.
            Inr (if refused \<noteq> [] \<or> is_mapping offer then refused
                 else [unreconcilable ''offer'' (u ''illegible'')])))))"

definition reason_family :: "pystr \<Rightarrow> pystr" where
  "reason_family reason = takeWhile (\<lambda>c. c \<noteq> 58) reason"

text \<open>No trust row is stated; the deadline where it is an instant, else the wall clock.\<close>

definition provenance_refusal :: "collect_lib \<Rightarrow> pyval \<Rightarrow> rat \<Rightarrow> string + pystr list" where
  "provenance_refusal lib bid deadline =
     (let now = (case instant_of_seconds deadline of Some t \<Rightarrow> t | None \<Rightarrow> cl_wall_clock lib) in
      and_then (validate_bid (cl_boundary lib) hosted_path (mapping_view (VObj [])) now False (\<lambda>_. None) VNone bid)
        (\<lambda>verdict. Inr (filter (\<lambda>reason. reason_family reason \<in> set provenance_reason_prefixes) (bv_reasons verdict))))"

text \<open>\<open>float(received_at)\<close>; \<open>None\<close> is a \<open>TypeError\<close> or a \<open>ValueError\<close>.\<close>

definition arrival_stamp :: "collect_lib \<Rightarrow> pyval \<Rightarrow> string + pyfloat option" where
  "arrival_stamp lib v =
     (case v of
        VBool b \<Rightarrow> Inr (Some (Finite (if b then 1 else 0)))
      | VInt n \<Rightarrow> (case float_of_int n of Some r \<Rightarrow> Inr (Some (Finite r)) | None \<Rightarrow> Inl ''OverflowError'')
      | VFloat f \<Rightarrow> Inr (Some f)
      | VStr s \<Rightarrow> Inr (cl_float_text lib s)
      | _ \<Rightarrow> Inr None)"

definition stated_refusal :: "boundary_lib \<Rightarrow> pystr \<Rightarrow> pystr" where
  "stated_refusal lib stated =
     (let family = reason_family stated; detail = drop (Suc (length family)) stated in
      if family \<in> set fallback_reasons
      then refusal_reason lib (VStr family) (if detail = [] then VNone else VStr detail)
      else refusal_reason lib (VStr (u ''store_refused'')) (VStr stated))"

text \<open>\<open>_unusable_because\<close>: \<open>None\<close> for an answer that can be used.\<close>

definition unusable_because :: "collect_lib \<Rightarrow> pyval \<Rightarrow> rat \<Rightarrow> string + pystr option" where
  "unusable_because lib response deadline =
     (let refusal = vget response refusal_field; stated = strip_text (py_text (cl_boundary lib) refusal);
          received_at = vget response ''received_at'' in
      if refusal \<noteq> VNone \<and> stated \<noteq> [] then Inr (Some (stated_refusal (cl_boundary lib) stated))
      else if py_truthy (vget response timed_out_field) then Inr (Some response_timed_out_reason)
      else if py_truthy (vget response not_asked_field) then Inr (Some fan_out_capacity_reason)
      else if py_truthy (vget response no_agent_field) then Inr (Some no_agent_reason)
      else if \<not> is_mapping (vget response ''bid'') then Inr (Some (u ''response_carried_no_bid''))
      else if received_at = VNone then Inr (Some (u ''response_not_stamped''))
      else
        and_then (arrival_stamp lib received_at) (\<lambda>stamp.
          case stamp of
            None \<Rightarrow> Inr (Some (u ''arrival_stamp_unparseable''))
          | Some (Finite arrived) \<Rightarrow>
              Inr (if arrived \<le> deadline then None else Some (u ''response_after_deadline''))
          | Some NotFinite \<Rightarrow> Inr (Some (u ''response_after_deadline''))))"

section \<open>One entry per store\<close>

record bid_entry =
  be_store_id :: pystr
  be_tier :: int
  be_fallback :: bool
  be_bid :: pyval
  be_received_at :: "pyfloat option"
  be_fallback_reason :: "pystr option"
  be_claims :: "pyval list"
  be_price_reasons :: "pystr list"
  be_boundary_reasons :: "pystr list"
  be_list_price :: "rat option"

definition entry_offer :: "bid_entry \<Rightarrow> pyval" where
  "entry_offer e = (case vget (be_bid e) ''offer'' of VObj d \<Rightarrow> VObj d | _ \<Rightarrow> VObj [])"

text \<open>\<open>None\<close> is infinity.\<close>

definition entry_unit_price :: "bid_entry \<Rightarrow> string + rat option" where
  "entry_unit_price e = finite_number (vget (entry_offer e) ''unit_price'')"

text \<open>The first answer of a store that can be used, and the first reason why one could not.\<close>

fun sorted_responses ::
  "collect_lib \<Rightarrow> rat \<Rightarrow> pyval list \<Rightarrow> (pystr, pyval) dict \<times> (pystr, pystr) dict \<Rightarrow>
   string + (pystr, pyval) dict \<times> (pystr, pystr) dict"
where
  "sorted_responses lib deadline [] found = Inr found"
| "sorted_responses lib deadline (response # responses) (on_time, rejected) =
     (if vget response ''store_id'' = VNone then sorted_responses lib deadline responses (on_time, rejected)
      else
        let store = py_text (cl_boundary lib) (vget response ''store_id'') in
        and_then (unusable_because lib response deadline) (\<lambda>unusable.
          sorted_responses lib deadline responses
            (case unusable of
               Some reason \<Rightarrow> (on_time, dsetdefault store reason rejected)
             | None \<Rightarrow> (dsetdefault store response on_time, rejected))))"

definition common_auction :: "boundary_lib \<Rightarrow> (pystr, pyval) dict \<Rightarrow> pystr option" where
  "common_auction lib on_time =
     (case remdups (map (py_text lib) (filter (\<lambda>v. v \<noteq> VNone)
             (map (\<lambda>r. vget (vget (snd r) ''bid'') ''auction_id'') on_time))) of
        [a] \<Rightarrow> Some a
      | _ \<Rightarrow> None)"

text \<open>\<open>list(claims or [])\<close>\<close>

definition listed_claims :: "pyval \<Rightarrow> string + pyval list" where
  "listed_claims claims =
     (if \<not> py_truthy claims then Inr []
      else case claims of
        VArr xs \<Rightarrow> Inr xs
      | VStr s \<Rightarrow> Inr (map (\<lambda>c. VStr [c]) s)
      | VObj d \<Rightarrow> Inr (map (\<lambda>p. VStr (fst p)) d)
      | _ \<Rightarrow> Inl ''TypeError'')"

definition own_entry ::
  "collect_lib \<Rightarrow> pystr \<Rightarrow> int \<Rightarrow> pyval \<Rightarrow> rat option \<Rightarrow> string + bid_entry"
where
  "own_entry lib store tier answer listed =
     and_then (arrival_stamp lib (vget answer ''received_at'')) (\<lambda>stamp.
     and_then (listed_claims (vget (vget answer ''bid'') ''claims'')) (\<lambda>claims.
       Inr \<lparr>be_store_id = store, be_tier = tier, be_fallback = False, be_bid = vget answer ''bid'',
            be_received_at = stamp, be_fallback_reason = None, be_claims = claims, be_price_reasons = [],
            be_boundary_reasons = [], be_list_price = listed\<rparr>))"

definition fallback_entry ::
  "collect_lib \<Rightarrow> pystr \<Rightarrow> int \<Rightarrow> pyval \<Rightarrow> pystr option \<Rightarrow> rat \<Rightarrow> pystr \<Rightarrow> pystr list \<Rightarrow> pystr list \<Rightarrow>
   rat option \<Rightarrow> string + bid_entry"
where
  "fallback_entry lib store tier row auction_id deadline reason refused unprovenanced listed =
     and_then (list_price_bid (cl_boundary lib) row auction_id deadline) (\<lambda>bid.
       Inr \<lparr>be_store_id = store, be_tier = tier, be_fallback = True, be_bid = bid, be_received_at = None,
            be_fallback_reason = Some reason, be_claims = [], be_price_reasons = refused,
            be_boundary_reasons = unprovenanced, be_list_price = listed\<rparr>)"

text \<open>
  Why a row has no answer to judge, or the answer. The prices of an answer are judged first, and only an
  answer they admit is judged for the provenance of its claims.
\<close>

definition answer_for ::
  "(pystr, pyval) dict \<Rightarrow> (pystr, pystr) dict \<Rightarrow> pystr \<Rightarrow> int \<Rightarrow> pystr + pyval" where
  "answer_for on_time rejected store tier =
     (if tier \<le> 0 then Inl (u ''tier_0_no_agent'')
      else case dget on_time store of
        Some answer \<Rightarrow> Inr answer
      | None \<Rightarrow> Inl (case dget rejected store of Some reason \<Rightarrow> reason | None \<Rightarrow> u ''no_response''))"

definition entry_for ::
  "collect_lib \<Rightarrow> rat \<Rightarrow> (pystr, pyval) dict \<Rightarrow> (pystr, pystr) dict \<Rightarrow> pystr option \<Rightarrow> pyval \<Rightarrow> string + bid_entry"
where
  "entry_for lib deadline on_time rejected auction_id row =
     and_then (rostered_store (cl_boundary lib) row) (\<lambda>store.
     and_then (row_tier lib row) (\<lambda>tier.
       let falls_back = fallback_entry lib store tier row auction_id deadline in
       case answer_for on_time rejected store tier of
         Inl reason \<Rightarrow>
           and_then (finite_number (vget row ''list_price'')) (\<lambda>listed.
             falls_back reason [] [] (positive_price listed))
       | Inr answer \<Rightarrow>
           and_then (price_refusal (cl_boundary lib) (vget answer ''bid'') row) (\<lambda>refused.
           and_then (if refused \<noteq> [] then Inr [] else provenance_refusal lib (vget answer ''bid'') deadline)
             (\<lambda>unprovenanced.
           and_then (finite_number (vget row ''list_price'')) (\<lambda>listed.
             if refused \<noteq> [] then falls_back unreconcilable_price_reason refused [] (positive_price listed)
             else if unprovenanced \<noteq> []
             then falls_back unprovenanced_claim_reason [] unprovenanced (positive_price listed)
             else own_entry lib store tier answer (positive_price listed))))))"

definition collect_bids :: "collect_lib \<Rightarrow> pyval list \<Rightarrow> pyval list \<Rightarrow> rat \<Rightarrow> string + bid_entry list" where
  "collect_bids lib roster responses deadline =
     and_then (sorted_responses lib deadline responses ([], [])) (\<lambda>(on_time, rejected).
       map_all (entry_for lib deadline on_time rejected (common_auction (cl_boundary lib) on_time)) roster)"

end
