(* ===== verification/Solicit.thy ===== *)
theory Solicit
  imports AuctionCollect Eligibility
begin

text \<open>
  Asking the stores: the arrival clock and the fan-outs (\<open>apps/exchange/src/auction/fanout.py\<close>) and the
  gated solicitation above them (\<open>apps/exchange/src/orchestration/solicitation.py\<close>).

  A run of the fan-out is given by how many tasks the pool accepts before it refuses one and by what
  became of each store that was asked when the wait ended. \<open>int\<close> of a text is a field of \<open>solicit_lib\<close>.
\<close>

section \<open>The arrival clock\<close>

text \<open>
  \<open>ArrivalClock(deadline, window, started_at)()\<close> when the monotonic clock reads \<open>reading\<close>; \<open>None\<close> is a
  result beyond the largest double.
\<close>

record arrival_clock =
  ac_start :: "rat option"
  ac_origin :: rat

definition new_arrival_clock :: "rat \<Rightarrow> rat \<Rightarrow> rat \<Rightarrow> arrival_clock" where
  "new_arrival_clock deadline window origin = \<lparr>ac_start = double_sub deadline (max 0 window), ac_origin = origin\<rparr>"

definition clock_reads :: "arrival_clock \<Rightarrow> rat \<Rightarrow> rat option" where
  "clock_reads clock reading =
     Option.bind (ac_start clock) (\<lambda>start.
     Option.bind (double_sub reading (ac_origin clock)) (\<lambda>elapsed. double_add start elapsed))"

definition stamp_of :: "rat option \<Rightarrow> pyval" where
  "stamp_of finished_at = VFloat (case finished_at of Some r \<Rightarrow> Finite r | None \<Rightarrow> NotFinite)"

section \<open>What the exchange writes on an answer\<close>

text \<open>\<open>a == b\<close> of plain data; a double that is not finite equals nothing.\<close>

definition plain_equal :: "pyval \<Rightarrow> pyval \<Rightarrow> bool" where
  "plain_equal a b \<longleftrightarrow> a \<noteq> VFloat NotFinite \<and> same_key a b"

definition without_field :: "pyval \<Rightarrow> string \<Rightarrow> pyval" where
  "without_field v name = (case v of VObj d \<Rightarrow> VObj (dpop (u name) d) | _ \<Rightarrow> v)"

definition set_field :: "string \<Rightarrow> pyval \<Rightarrow> pyval \<Rightarrow> pyval" where
  "set_field name x v = (case v of VObj d \<Rightarrow> VObj (dset (u name) x d) | _ \<Rightarrow> v)"

definition stamped_arrival :: "rat option \<Rightarrow> pyval \<Rightarrow> pyval" where
  "stamped_arrival finished_at response =
     (let claimed = vget response ''received_at''; stamp = stamp_of finished_at in
      set_field ''received_at'' stamp
        (if claimed \<noteq> VNone \<and> \<not> plain_equal claimed stamp
         then set_field ''store_reported_received_at'' claimed response else response))"

definition attributed :: "pyval \<Rightarrow> pyval \<Rightarrow> pyval" where
  "attributed store_id response =
     (let named = set_field ''store_id'' store_id
            (if plain_equal (vget response ''store_id'') store_id then response
             else set_field ''store_reported_store_id'' (vget response ''store_id'') response);
          bid = vget named ''bid''
      in if is_mapping bid then set_field ''bid'' (set_field ''store_id'' store_id bid) named else named)"

text \<open>\<open>_stamped\<close> of an answer that is a mapping.\<close>

definition stamped :: "pyval \<Rightarrow> pyval \<Rightarrow> rat option \<Rightarrow> pyval" where
  "stamped response store finished_at =
     (let own = without_field (without_field (without_field response timed_out_field) not_asked_field) no_agent_field;
          arrived = stamped_arrival finished_at own; store_id = vget store ''store_id''
      in if store_id = VNone then arrived else attributed store_id arrived)"

definition minted :: "pyval \<Rightarrow> string \<Rightarrow> pyval list" where
  "minted store field =
     (if vget store ''store_id'' = VNone then []
      else [VObj [(u ''store_id'', vget store ''store_id''), (u field, VBool True)]])"

definition minted_for :: "pyval list \<Rightarrow> string \<Rightarrow> pyval list" where
  "minted_for stores field = concat (map (\<lambda>store. minted store field) stores)"

section \<open>The fan-outs\<close>

text \<open>
  What became of a store that was asked: its answer (one that is no mapping is none) and the reading of the
  monotonic clock, the exception of the solicitor, no answer when the wait ended, or a task cancelled
  before it ran.
\<close>

datatype ask_outcome = Finished pyval rat | SolicitorRaised | StillAnswering | Cancelled

definition max_fan_out_workers :: int where "max_fan_out_workers = 32"

definition answers_of :: "arrival_clock \<Rightarrow> pyval \<times> ask_outcome \<Rightarrow> pyval list" where
  "answers_of clock asked =
     (case snd asked of
        Cancelled \<Rightarrow> minted (fst asked) not_asked_field
      | StillAnswering \<Rightarrow> minted (fst asked) timed_out_field
      | SolicitorRaised \<Rightarrow> []
      | Finished response reading \<Rightarrow>
          if is_mapping response then [stamped response (fst asked) (clock_reads clock reading)] else [])"

definition parallel_fan_out ::
  "int \<Rightarrow> nat \<Rightarrow> (nat \<Rightarrow> ask_outcome) \<Rightarrow> arrival_clock \<Rightarrow> pyval list \<Rightarrow> pyval list"
where
  "parallel_fan_out workers accepted outcomes clock stores =
     (let n = min (nat (max 1 workers)) accepted;
          asked = zip (take n stores) (map outcomes [0..<length stores])
      in concat (map (answers_of clock) asked) @ minted_for (drop n stores) not_asked_field)"

text \<open>
  One borrowed worker asks the stores in order, each only while the clock is not past the deadline; an
  exception of the solicitor ends it inside that store, as the end of the wait does. \<open>asked_at\<close> is the
  reading before the store is asked.
\<close>

fun sequential_run :: "arrival_clock \<Rightarrow> rat \<Rightarrow> (pyval \<times> rat \<times> ask_outcome) list \<Rightarrow> pyval list \<times> pyval option" where
  "sequential_run clock deadline [] = ([], None)"
| "sequential_run clock deadline ((store, asked_at, outcome) # rest) =
     (if (case clock_reads clock asked_at of Some t \<Rightarrow> t > deadline | None \<Rightarrow> True) then ([], None)
      else case outcome of
        Finished response reading \<Rightarrow>
          (let (answers, pending) = sequential_run clock deadline rest
           in (answers_of clock (store, Finished response reading) @ answers, pending))
      | _ \<Rightarrow> ([], Some store))"

definition sequential_fan_out ::
  "bool \<Rightarrow> (nat \<Rightarrow> rat \<times> ask_outcome) \<Rightarrow> arrival_clock \<Rightarrow> rat \<Rightarrow> pyval list \<Rightarrow> pyval list"
where
  "sequential_fan_out worker_free runs clock deadline stores =
     (if \<not> worker_free then minted_for stores not_asked_field
      else
        let (answers, pending) = sequential_run clock deadline (zip stores (map runs [0..<length stores]))
        in answers @ (case pending of Some store \<Rightarrow> minted store timed_out_field | None \<Rightarrow> []))"

section \<open>The gated solicitation\<close>

record solicit_lib =
  so_collect :: collect_lib
  so_int_text :: "pystr \<Rightarrow> int option"

text \<open>\<open>can_solicit\<close>, where the solicitor has one: its truth value, or \<open>None\<close> where it raises.\<close>

type_synonym reach = "(pystr \<Rightarrow> bool option) option"

definition row_name :: "boundary_lib \<Rightarrow> pyval \<Rightarrow> pystr" where
  "row_name lib row = (let id = vget row ''store_id'' in if py_truthy id then py_text lib id else [])"

definition reaching :: "boundary_lib \<Rightarrow> bool \<Rightarrow> reach \<Rightarrow> pyval list \<Rightarrow> pystr list" where
  "reaching lib answer knows stores =
     (case knows of
        None \<Rightarrow> []
      | Some can_solicit \<Rightarrow>
          filter (\<lambda>name. name \<noteq> [] \<and> can_solicit name = Some answer) (map (row_name lib) stores))"

definition stores_with_an_agent :: "boundary_lib \<Rightarrow> reach \<Rightarrow> pyval list \<Rightarrow> pystr list" where
  "stores_with_an_agent lib knows stores = reaching lib True knows stores"

definition stores_with_no_agent :: "boundary_lib \<Rightarrow> reach \<Rightarrow> pyval list \<Rightarrow> pystr list" where
  "stores_with_no_agent lib knows stores = reaching lib False knows stores"

text \<open>\<open>int(row.get("tier", 1))\<close>\<close>

definition whole_tier :: "solicit_lib \<Rightarrow> pyval \<Rightarrow> string + int" where
  "whole_tier lib row =
     (case field_or row ''tier'' (VInt 1) of
        VBool b \<Rightarrow> Inr (if b then 1 else 0)
      | VInt n \<Rightarrow> Inr n
      | VFloat (Finite r) \<Rightarrow> Inr (truncated r)
      | VFloat NotFinite \<Rightarrow> Inl ''OverflowError''
      | VStr s \<Rightarrow> (case so_int_text lib s of Some n \<Rightarrow> Inr n | None \<Rightarrow> Inl ''ValueError'')
      | _ \<Rightarrow> Inl ''TypeError'')"

record denial =
  dn_store_id :: pystr
  dn_status :: string

record solicitation =
  sr_solicited :: "pystr list"
  sr_entries :: "bid_entry list"
  sr_denied :: "denial list"

definition denied_unread :: "boundary_lib \<Rightarrow> pyval \<Rightarrow> string + denial" where
  "denied_unread lib row =
     and_then (rostered_store lib row) (\<lambda>store. Inr \<lparr>dn_store_id = store, dn_status = unavailable_status\<rparr>)"

definition gate_row :: "boundary_lib \<Rightarrow> pystr eligibility_source \<Rightarrow> pyval \<Rightarrow> string + pyval + denial" where
  "gate_row lib eligibility row =
     and_then (rostered_store lib row) (\<lambda>store.
       let decision = read_eligibility eligibility store in
       Inr (if ed_status decision = eligible_status then Inl row
            else Inr \<lparr>dn_store_id = ed_store_id decision, dn_status = ed_status decision\<rparr>))"

definition lefts :: "('a + 'b) list \<Rightarrow> 'a list" where
  "lefts xs = concat (map (\<lambda>x. case x of Inl a \<Rightarrow> [a] | Inr _ \<Rightarrow> []) xs)"

definition rights :: "('a + 'b) list \<Rightarrow> 'b list" where
  "rights xs = concat (map (\<lambda>x. case x of Inr b \<Rightarrow> [b] | Inl _ \<Rightarrow> []) xs)"

text \<open>A row of tier 0 whose store the exchange holds an endpoint for is read as tier 1.\<close>

definition raised_tier :: "solicit_lib \<Rightarrow> pystr list \<Rightarrow> pyval \<Rightarrow> string + pyval" where
  "raised_tier lib with_agent row =
     and_then (whole_tier lib row) (\<lambda>tier.
       Inr (if tier \<le> 0 \<and> row_name (cl_boundary (so_collect lib)) row \<in> set with_agent
            then set_field ''tier'' (VInt 1) row else row))"

definition tiered_row :: "solicit_lib \<Rightarrow> pyval \<Rightarrow> string + pyval list" where
  "tiered_row lib row = and_then (whole_tier lib row) (\<lambda>tier. Inr (if tier > 0 then [row] else []))"

definition unreachable_marker :: "pyval \<Rightarrow> pyval" where
  "unreachable_marker row = VObj [(u ''store_id'', vget row ''store_id''), (u no_agent_field, VBool True)]"

definition solicit_bids ::
  "solicit_lib \<Rightarrow> reach \<Rightarrow> pystr eligibility_source \<Rightarrow> (pyval list \<Rightarrow> pyval list) \<Rightarrow> pyval list \<Rightarrow> rat \<Rightarrow>
   string + solicitation"
where
  "solicit_bids lib knows eligibility fan_out roster now =
     (let bl = cl_boundary (so_collect lib) in
      if \<not> speaks_supported_interface eligibility then
        and_then (map_all (denied_unread bl) roster) (\<lambda>denied.
          Inr \<lparr>sr_solicited = [], sr_entries = [], sr_denied = denied\<rparr>)
      else
        and_then (map_all (gate_row bl eligibility) roster) (\<lambda>gated.
        and_then (map_all (raised_tier lib (stores_with_an_agent bl knows (lefts gated))) (lefts gated)) (\<lambda>eligible.
        and_then (map_all (tiered_row lib) eligible) (\<lambda>tiers.
          let tiered = concat tiers; no_agent = stores_with_no_agent bl knows tiered;
              store = (\<lambda>row. py_text bl (vget row ''store_id''));
              askable = filter (\<lambda>row. store row \<notin> set no_agent) tiered;
              responses = fan_out askable @
                map unreachable_marker (filter (\<lambda>row. store row \<in> set no_agent) tiered)
          in and_then (collect_bids (so_collect lib) eligible responses now) (\<lambda>entries.
               Inr \<lparr>sr_solicited = map store askable, sr_entries = entries, sr_denied = rights gated\<rparr>)))))"

end
