(* ===== verification/CollectLaws.thy ===== *)
theory CollectLaws
  imports AuctionCollect BoundaryLaws
begin

text \<open>
  What an entry of \<open>collect_bids\<close> says: where a bid of the store's own came from, what a fallback carries,
  how far a price may fall, where the claims come from, and what later answers cannot change.
\<close>

section \<open>The answers that can be used\<close>

text \<open>What the sorting holds: every answer kept can be used and is filed under the store it names.\<close>

definition usable_from :: "collect_lib \<Rightarrow> rat \<Rightarrow> pyval list \<Rightarrow> (pystr, pyval) dict \<Rightarrow> bool" where
  "usable_from lib deadline responses on_time \<longleftrightarrow>
     (\<forall>store answer. dget on_time store = Some answer \<longrightarrow>
        answer \<in> set responses \<and> vget answer ''store_id'' \<noteq> VNone \<and>
        store = py_text (cl_boundary lib) (vget answer ''store_id'') \<and>
        unusable_because lib answer deadline = Inr None)"

lemma dget_dsetdefault:
  "dget (dsetdefault k v d) x = (if x = k \<and> dget d k = None then Some v else dget d x)"
  by (auto simp: dsetdefault_def dict_simps split: option.split)

lemma sorted_responses_usable:
  assumes "sorted_responses lib deadline responses (on_time, rejected) = Inr (on_time', rejected')"
    and "usable_from lib deadline seen on_time" and "set responses \<subseteq> set seen"
  shows "usable_from lib deadline seen on_time'"
  using assms
proof (induction responses arbitrary: on_time rejected)
  case (Cons response responses)
  show ?case
  proof (cases "vget response ''store_id'' = VNone")
    case True
    with Cons show ?thesis by auto
  next
    case False
    let ?store = "py_text (cl_boundary lib) (vget response ''store_id'')"
    from Cons.prems(1) False obtain unusable where unusable: "unusable_because lib response deadline = Inr unusable"
      and rest: "sorted_responses lib deadline responses
        (case unusable of Some reason \<Rightarrow> (on_time, dsetdefault ?store reason rejected)
         | None \<Rightarrow> (dsetdefault ?store response on_time, rejected)) = Inr (on_time', rejected')"
      by (auto simp: Let_def and_then_Inr)
    have "usable_from lib deadline seen (dsetdefault ?store response on_time)" if "unusable = None"
      using Cons.prems(2,3) False unusable that unfolding usable_from_def by (auto simp: dget_dsetdefault)
    with rest Cons.IH [OF _ _] Cons.prems(2,3) show ?thesis by (cases unusable) auto
  qed
qed simp

text \<open>A store that answered usably has an answer in the end.\<close>

lemma sorted_responses_grows:
  assumes "sorted_responses lib deadline responses (on_time, rejected) = Inr (on_time', rejected')"
    and "dget on_time store \<noteq> None"
  shows "dget on_time' store \<noteq> None"
  using assms
proof (induction responses arbitrary: on_time rejected)
  case (Cons response responses)
  then obtain on_time1 rejected1 where "sorted_responses lib deadline responses (on_time1, rejected1) = Inr (on_time', rejected')"
    and "dget on_time1 store \<noteq> None"
    by (auto simp: Let_def and_then_Inr dget_dsetdefault split: if_splits option.splits)
  then show ?case by (rule Cons.IH)
qed simp

lemma sorted_responses_keeps:
  assumes "sorted_responses lib deadline responses (on_time, rejected) = Inr (on_time', rejected')"
    and "x \<in> set responses" "vget x ''store_id'' \<noteq> VNone" "unusable_because lib x deadline = Inr None"
  shows "dget on_time' (py_text (cl_boundary lib) (vget x ''store_id'')) \<noteq> None"
  using assms(1,2)
proof (induction responses arbitrary: on_time rejected)
  case (Cons response responses)
  let ?store = "py_text (cl_boundary lib) (vget x ''store_id'')"
  show ?case
  proof (cases "x = response")
    case True
    with Cons.prems(1) assms(3,4) have "sorted_responses lib deadline responses (dsetdefault ?store x on_time, rejected) =
        Inr (on_time', rejected')" by (simp add: Let_def)
    moreover have "dget (dsetdefault ?store x on_time) ?store \<noteq> None" by (simp add: dget_dsetdefault)
    ultimately show ?thesis by (rule sorted_responses_grows)
  next
    case False
    with Cons.prems obtain on_time1 rejected1 where
      "sorted_responses lib deadline responses (on_time1, rejected1) = Inr (on_time', rejected')"
      by (auto simp: Let_def and_then_Inr split: if_splits option.splits)
    then show ?thesis by (rule Cons.IH) (use Cons.prems(2) False in simp)
  qed
qed simp

lemma collect_bidsE:
  assumes "collect_bids lib roster responses deadline = Inr entries"
  obtains on_time rejected auction_id
  where "sorted_responses lib deadline responses ([], []) = Inr (on_time, rejected)"
    and "list_all2 (\<lambda>row e. entry_for lib deadline on_time rejected auction_id row = Inr e) roster entries"
    and "usable_from lib deadline responses on_time"
  using assms sorted_responses_usable [of lib deadline responses "[]" "[]" _ _ responses]
  by (fastforce simp: collect_bids_def and_then_Inr map_all_Inr usable_from_def)

section \<open>The two kinds of entry\<close>

lemma entry_for_cases:
  assumes "entry_for lib deadline on_time rejected auction_id row = Inr e"
  obtains (own) store tier answer listed where "be_fallback e = False"
      and "rostered_store (cl_boundary lib) row = Inr store" "row_tier lib row = Inr tier" "0 < tier"
      and "dget on_time store = Some answer"
      and "price_refusal (cl_boundary lib) (vget answer ''bid'') row = Inr []"
      and "provenance_refusal lib (vget answer ''bid'') deadline = Inr []"
      and "finite_number (vget row ''list_price'') = Inr listed"
      and "own_entry lib store tier answer (positive_price listed) = Inr e"
  | (fallback) store tier reason refused unprovenanced listed where "be_fallback e = True"
      and "rostered_store (cl_boundary lib) row = Inr store" "row_tier lib row = Inr tier"
      and "finite_number (vget row ''list_price'') = Inr listed"
      and "fallback_entry lib store tier row auction_id deadline reason refused unprovenanced (positive_price listed) = Inr e"
proof -
  from assms obtain store tier where st: "rostered_store (cl_boundary lib) row = Inr store" "row_tier lib row = Inr tier"
    by (auto simp: entry_for_def and_then_Inr)
  have kinds: "own_entry lib s t a l = Inr e \<Longrightarrow> be_fallback e = False"
    "fallback_entry lib s t row auction_id deadline r p q l = Inr e \<Longrightarrow> be_fallback e = True" for s t a l r p q
    by (auto simp: own_entry_def fallback_entry_def and_then_Inr)
  show thesis
  proof (cases "answer_for on_time rejected store tier")
    case (Inl reason)
    with assms st obtain listed where "finite_number (vget row ''list_price'') = Inr listed"
      and "fallback_entry lib store tier row auction_id deadline reason [] [] (positive_price listed) = Inr e"
      by (auto simp: entry_for_def and_then_Inr Let_def)
    with fallback st kinds(2) show thesis by blast
  next
    case (Inr answer)
    then have answer: "0 < tier" "dget on_time store = Some answer"
      by (auto simp: answer_for_def split: if_splits option.splits)
    from assms st Inr obtain refused unprovenanced listed where
      refused: "price_refusal (cl_boundary lib) (vget answer ''bid'') row = Inr refused"
      and unprov: "(if refused \<noteq> [] then Inr [] else provenance_refusal lib (vget answer ''bid'') deadline) = Inr unprovenanced"
      and listed: "finite_number (vget row ''list_price'') = Inr listed"
      and last: "(if refused \<noteq> [] then fallback_entry lib store tier row auction_id deadline unreconcilable_price_reason refused [] (positive_price listed)
        else if unprovenanced \<noteq> []
        then fallback_entry lib store tier row auction_id deadline unprovenanced_claim_reason [] unprovenanced (positive_price listed)
        else own_entry lib store tier answer (positive_price listed)) = Inr e"
      by (auto simp: entry_for_def and_then_Inr Let_def)
    show thesis
    proof (cases "refused = [] \<and> unprovenanced = []")
      case True
      then have "own_entry lib store tier answer (positive_price listed) = Inr e" using last by simp
      with own st answer refused unprov listed True kinds(1) show thesis by force
    next
      case False
      with last obtain reason p q where
        "fallback_entry lib store tier row auction_id deadline reason p q (positive_price listed) = Inr e"
        by (auto split: if_splits)
      with fallback st listed kinds(2) show thesis by blast
    qed
  qed
qed

lemma entry_for_store:
  assumes "entry_for lib deadline on_time rejected auction_id row = Inr e"
  shows "rostered_store (cl_boundary lib) row = Inr (be_store_id e)"
    and "\<exists>listed. finite_number (vget row ''list_price'') = Inr listed \<and> be_list_price e = positive_price listed"
proof -
  show "rostered_store (cl_boundary lib) row = Inr (be_store_id e)"
    by (rule entry_for_cases [OF assms]) (auto simp: own_entry_def fallback_entry_def and_then_Inr)
  show "\<exists>listed. finite_number (vget row ''list_price'') = Inr listed \<and> be_list_price e = positive_price listed"
    by (rule entry_for_cases [OF assms]) (auto simp: own_entry_def fallback_entry_def and_then_Inr)
qed

text \<open>An entry that is no fallback is a usable answer under the name of a rostered store.\<close>

lemma own_entry_answer:
  assumes "collect_bids lib roster responses deadline = Inr entries" and "e \<in> set entries" and "\<not> be_fallback e"
  obtains row answer where "row \<in> set roster" "rostered_store (cl_boundary lib) row = Inr (be_store_id e)"
    and "answer \<in> set responses" "unusable_because lib answer deadline = Inr None"
    and "be_store_id e = py_text (cl_boundary lib) (vget answer ''store_id'')" "be_bid e = vget answer ''bid''"
    and "price_refusal (cl_boundary lib) (be_bid e) row = Inr []"
    and "provenance_refusal lib (be_bid e) deadline = Inr []"
    and "\<exists>listed. finite_number (vget row ''list_price'') = Inr listed \<and> be_list_price e = positive_price listed"
    and "0 < be_tier e" "row_tier lib row = Inr (be_tier e)"
    and "listed_claims (vget (be_bid e) ''claims'') = Inr (be_claims e)"
proof (rule collect_bidsE [OF assms(1)])
  fix on_time rejected auction_id
  assume rows: "list_all2 (\<lambda>row e. entry_for lib deadline on_time rejected auction_id row = Inr e) roster entries"
    and usable: "usable_from lib deadline responses on_time"
  from assms(2) obtain i where i: "i < length entries" "e = entries ! i" by (auto simp: in_set_conv_nth)
  define row where "row = roster ! i"
  have row: "row \<in> set roster" using i list_all2_lengthD [OF rows] by (simp add: row_def)
  have entry: "entry_for lib deadline on_time rejected auction_id row = Inr e"
    using list_all2_nthD2 [OF rows i(1)] i(2) by (simp add: row_def)
  from entry show thesis
  proof (cases rule: entry_for_cases)
    case (own store tier answer listed)
    from own(9) have fields: "be_store_id e = store" "be_tier e = tier" "be_bid e = vget answer ''bid''"
      "be_list_price e = positive_price listed" "listed_claims (vget (be_bid e) ''claims'') = Inr (be_claims e)"
      by (auto simp: own_entry_def and_then_Inr)
    with usable own(5) have "answer \<in> set responses" "unusable_because lib answer deadline = Inr None"
        "store = py_text (cl_boundary lib) (vget answer ''store_id'')"
      by (auto simp: usable_from_def)
    with that row own fields show thesis by simp
  qed (use assms(3) in simp)
qed

text \<open>A fallback carries the exchange's own list price and no word of the store.\<close>

lemma fallback_entry_fields:
  assumes "fallback_entry lib store tier row auction_id deadline reason refused unprovenanced listed = Inr e"
  shows "list_price_bid (cl_boundary lib) row auction_id deadline = Inr (be_bid e)"
    and "be_claims e = []" "be_received_at e = None" "be_fallback_reason e = Some reason"
  using assms by (auto simp: fallback_entry_def and_then_Inr)

text \<open>An offer at list price names the row's product and the row's price, or no price at all.\<close>

lemma u_eq_iff [simp]: "u s = u t \<longleftrightarrow> s = t"
  by (rule u_inj)

lemma vget_VObj: "vget (VObj d) name = (case dget d (u name) of Some x \<Rightarrow> x | None \<Rightarrow> VNone)"
  by (simp add: vget_def)

lemma named_variant_key: "p \<in> set (named_variant row) \<Longrightarrow> fst p = u ''variant_ref''"
  by (auto simp: named_variant_def split: pyval.splits if_splits)

lemma dget_named_variant:
  "name \<noteq> ''variant_ref'' \<Longrightarrow> dget (named_variant row @ rest) (u name) = dget rest (u name)"
  by (auto simp: named_variant_def split: pyval.splits)

lemma list_price_offer_prices:
  "vget (VObj (list_price_offer row listed deadline)) ''unit_price'' =
      (case positive_price listed of Some r \<Rightarrow> VFloat (Finite r) | None \<Rightarrow> VNone)"
  "vget (VObj (list_price_offer row listed deadline)) ''total_price'' =
      (case positive_price listed of Some r \<Rightarrow> VFloat (Finite r) | None \<Rightarrow> VNone)"
  "vget (VObj (list_price_offer row listed deadline)) ''product_ref'' = vget row ''product_ref''"
  "vget (VObj (list_price_offer row listed deadline)) ''discount'' = VNone"
  "vget (VObj (list_price_offer row listed deadline)) ''checkout_url'' = VNone"
  "vget (VObj (list_price_offer row listed deadline)) ''currency'' = field_or row ''currency'' (VStr (u ''USD''))"
  "vget (VObj (list_price_offer row listed deadline)) ''expires_at'' =
      (case positive_price listed of Some r \<Rightarrow> optional_text (fallback_expires_at deadline) | None \<Rightarrow> VNone)"
  using dget_named_variant [of "''unit_price''" row "[]"] dget_named_variant [of "''total_price''" row "[]"]
    dget_named_variant [of "''discount''" row "[]"] dget_named_variant [of "''checkout_url''" row "[]"]
  by (simp_all add: list_price_offer_def vget_VObj dget_named_variant del: map_of_append split: option.split)

text \<open>The bid at list price: what the exchange writes for a row, and nothing else.\<close>

definition bid_at_list_price :: "pystr option \<Rightarrow> pystr \<Rightarrow> (pystr \<times> pyval) list \<Rightarrow> pyval" where
  "bid_at_list_price auction_id store offer =
     VObj [(u ''auction_id'', optional_text auction_id), (u ''store_id'', VStr store), (u ''offer'', VObj offer),
       (u ''claims'', VArr []), (u ''fallback'', VBool True)]"

lemma list_price_bid_is:
  assumes "list_price_bid lib row auction_id deadline = Inr bid"
  obtains listed store where "finite_number (vget row ''list_price'') = Inr listed"
    and "rostered_store lib row = Inr store"
    and "bid = bid_at_list_price auction_id store (list_price_offer row listed deadline)"
  using assms by (auto simp: list_price_bid_def and_then_Inr bid_at_list_price_def)

lemma entry_offer_at_list_price:
  "be_bid e = bid_at_list_price auction_id store offer \<Longrightarrow> entry_offer e = VObj offer"
  by (simp add: entry_offer_def bid_at_list_price_def vget_VObj)

text \<open>A fallback says what its row says.\<close>

lemma fallback_says:
  assumes "entry_for lib deadline on_time rejected auction_id row = Inr e" and "be_fallback e"
  shows "be_claims e = [] \<and> be_received_at e = None \<and> be_fallback_reason e \<noteq> None \<and>
    (\<exists>listed. finite_number (vget row ''list_price'') = Inr listed \<and> be_list_price e = positive_price listed \<and>
       be_bid e = bid_at_list_price auction_id (be_store_id e) (list_price_offer row listed deadline))"
  using assms(1)
proof (cases rule: entry_for_cases)
  case (fallback store tier reason refused unprovenanced listed)
  note fields = fallback_entry_fields [OF fallback(5)]
  note entry = entry_for_store [OF assms(1)]
  have "be_list_price e = positive_price listed" using entry(2) fallback(4) by auto
  moreover obtain listed' store' where "finite_number (vget row ''list_price'') = Inr listed'"
      "rostered_store (cl_boundary lib) row = Inr store'"
      "be_bid e = bid_at_list_price auction_id store' (list_price_offer row listed' deadline)"
    by (rule list_price_bid_is [OF fields(1)])
  ultimately show ?thesis
    using fields entry fallback(4) by simp
qed (use assms(2) in simp)

lemma collect_bids_entries:
  assumes "collect_bids lib roster responses deadline = Inr entries"
  obtains on_time rejected where "sorted_responses lib deadline responses ([], []) = Inr (on_time, rejected)"
    and "list_all2 (\<lambda>row e. entry_for lib deadline on_time rejected (common_auction (cl_boundary lib) on_time) row = Inr e)
      roster entries"
  using assms by (auto simp: collect_bids_def and_then_Inr map_all_Inr)

section \<open>How far the price of an answer may fall\<close>

lemma rostered_is_mapping: "rostered_store lib row = Inr store \<Longrightarrow> finite_number row = Inr None"
  by (cases row) (auto simp: rostered_store_def has_key_def finite_number_def split: pyval.splits)

text \<open>An offer nobody judges against its row: it declares no discount and both its prices are at the floor.\<close>

lemma not_judged:
  assumes "is_judged lib offer row = Inr False"
    and "finite_number (vget row ''list_price'') = Inr (Some listed)" and "0 < listed"
  obtains unit whole where "finite_number (vget offer ''unit_price'') = Inr (Some unit)" "0 < unit"
    and "finite_number (vget offer ''total_price'') = Inr (Some whole)" "0 < whole"
    and "price_floor listed \<le> unit" "price_floor listed \<le> whole"
    and "\<not> states_an_authorized_depth row" "declares_a_discount offer = Inr False"
    and "\<not> answers_about_another_product lib offer row"
proof -
  have all: "declares_a_discount offer = Inr False" "\<not> states_an_authorized_depth row"
      "priced_at_nothing offer row = Inr False" "below_the_price_floor offer row = Inr False"
      "\<not> answers_about_another_product lib offer row"
    using assms(1) unfolding is_judged_def any_of_False by simp_all
  have p: "positive_price (Some listed) = Some listed" using assms(3) by (simp add: positive_price_def)
  from all(3) have offer: "is_mapping offer" and sites: "any_of (site_is_free offer) priced_sites = Inr False"
    by (auto simp: priced_at_nothing_def assms(2) p split: if_splits)
  have each: "\<exists>r. finite_number (vget offer site) = Inr (Some r) \<and> 0 < r" if "site \<in> set priced_sites" for site
  proof -
    have "site_is_free offer site = Inr False" using sites that unfolding any_of_False by blast
    then show ?thesis
      by (cases "finite_number (vget offer site)") (auto simp: site_is_free_def not_le split: option.splits)
  qed
  obtain unit whole where r: "finite_number (vget offer ''unit_price'') = Inr (Some unit)" "0 < unit"
      "finite_number (vget offer ''total_price'') = Inr (Some whole)" "0 < whole"
    using each [of "''unit_price''"] each [of "''total_price''"] by (auto simp: priced_sites_def)
  have "price_floor listed \<le> unit" "price_floor listed \<le> whole"
    using all(4) r by (simp_all add: below_the_price_floor_def assms(2) p offer any_of_False priced_sites_def del: any_of.simps)
  with that r all show thesis by blast
qed

text \<open>
  What the row's prices say of an answer they do not refuse. \<open>row_limit\<close> is the discount the row allows.
\<close>

lemma price_refusal_none:
  assumes "price_refusal lib bid row = Inr []" and "rostered_store lib row = Inr store"
    and "finite_number (vget row ''list_price'') = Inr (Some listed)" and "0 < listed"
  obtains unit whole where "finite_number (vget (vget bid ''offer'') ''unit_price'') = Inr (Some unit)"
    and "finite_number (vget (vget bid ''offer'') ''total_price'') = Inr (Some whole)"
    and "price_floor listed \<le> unit" "price_floor listed \<le> whole"
    and "states_an_authorized_depth row \<or> declares_a_discount (vget bid ''offer'') \<noteq> Inr False \<Longrightarrow>
      listed \<le> 1000000000 \<Longrightarrow> listed * (100 - row_limit row) / 100 - 11 / 1000 \<le> unit"
proof -
  let ?offer = "vget bid ''offer''"
  from assms(1) obtain judged where j: "is_judged lib ?offer row = Inr judged"
    by (auto simp: price_refusal_def and_then_Inr Let_def)
  show thesis
  proof (cases judged)
    case False
    with j have "is_judged lib ?offer row = Inr False" by simp
    then show thesis by (rule not_judged [OF _ assms(3,4)]) (use that in blast)
  next
    case True
    with assms(1) j obtain roster where roster: "roster_of_row row = Inr roster"
      and none: "price_reasons lib bid ?offer roster VNone = Inr []"
      by (auto simp: price_refusal_def and_then_Inr Let_def split: if_splits)
    show thesis
    proof (rule price_reasons_bound [OF none])
      fix depth unit whole listed' cap cap_reasons
      assume read: "finite_number (vget ?offer ''unit_price'') = Inr (Some unit)"
          "finite_number (vget ?offer ''total_price'') = Inr (Some whole)"
        and cap: "authorized_depth ?offer roster VNone = Inr (cap, cap_reasons)"
        and l: "roster_list_price ?offer roster = Inr (Some listed', [])"
        and bounds: "0 < listed' \<longrightarrow> price_floor listed' \<le> unit \<and> price_floor listed' \<le> whole"
          "listed' \<le> 1000000000 \<longrightarrow> listed' * (100 - authorised_limit cap) / 100 - 11 / 1000 \<le> unit"
      obtain row' where row': "roster_row ?offer roster = Some row'"
        and price: "finite_number row' = Inr (Some listed') \<or>
          finite_number row' = Inr None \<and> finite_number (vget row' ''list_price'') = Inr (Some listed')"
        by (rule roster_list_price_row [OF l])
      have "row' = row"
        using row' roster by (auto simp: roster_row_def roster_of_row_def split: pyval.splits option.splits if_splits)
      moreover from this price have "listed' = listed"
        using rostered_is_mapping [OF assms(2)] assms(3) by auto
      moreover have "authorised_limit cap = row_limit row"
        using authorised_row [OF cap row'] \<open>row' = row\<close> by simp
      ultimately show thesis using that read bounds assms(4) by simp
    qed
  qed
qed

section \<open>Where the claims of an answer come from\<close>

lemma reason_family_tagged: "list_all (\<lambda>c. c \<noteq> 58) (u code) \<Longrightarrow> reason_family (tagged code rest) = u code"
  by (simp add: reason_family_def tagged_def list_all_iff)

definition is_provenance_reason :: "pystr \<Rightarrow> bool" where
  "is_provenance_reason reason \<longleftrightarrow> reason_family reason \<in> set provenance_reason_prefixes"

lemma tagged_provenance:
  "is_provenance_reason (tagged ''claim_without_provenance'' x)" "is_provenance_reason (tagged ''claim_provenance_empty_source'' x)"
  "is_provenance_reason (tagged ''claim_provenance_unknown_source'' x)" "is_provenance_reason (tagged ''hosted_non_hook_provenance'' x)"
  "is_provenance_reason (tagged ''unverifiable_claim_site'' x)" "is_provenance_reason (tagged ''claim_value_unwalkable'' x)"
  "is_provenance_reason (tagged ''unverified_discount_authorisation'' x)"
proof -
  have colons: "list_all (\<lambda>c. c \<noteq> 58) (u code)"
    if "code \<in> {''claim_without_provenance'', ''claim_provenance_empty_source'', ''claim_provenance_unknown_source'',
      ''hosted_non_hook_provenance'', ''unverifiable_claim_site'', ''claim_value_unwalkable'', ''unverified_discount_authorisation''}" for code
    using that by (elim insertE emptyE) (simp_all add: u_def)
  show "is_provenance_reason (tagged ''claim_without_provenance'' x)" "is_provenance_reason (tagged ''claim_provenance_empty_source'' x)"
    "is_provenance_reason (tagged ''claim_provenance_unknown_source'' x)" "is_provenance_reason (tagged ''hosted_non_hook_provenance'' x)"
    "is_provenance_reason (tagged ''unverifiable_claim_site'' x)" "is_provenance_reason (tagged ''claim_value_unwalkable'' x)"
    "is_provenance_reason (tagged ''unverified_discount_authorisation'' x)"
    by (simp_all add: is_provenance_reason_def provenance_reason_prefixes_def reason_family_tagged colons)
qed

lemma verdict_for_source_provenance:
  "r \<in> set (fst (verdict_for_source s path label addressable)) \<Longrightarrow> is_provenance_reason r"
  by (auto simp: verdict_for_source_def tagged_provenance split: if_splits)

lemma source_verdict_provenance:
  "r \<in> set (fst (source_verdict lib holder path label addressable w)) \<Longrightarrow> is_provenance_reason r"
  by (auto simp: source_verdict_def Let_def tagged_provenance verdict_for_source_provenance split: if_splits)

lemma claim_verdict_provenance:
  "r \<in> set (fst (claim_verdict lib path site entry)) \<Longrightarrow> is_provenance_reason r"
  using source_verdict_provenance
  by (auto simp: claim_verdict_def authorisation_verdict_def Let_def tagged_provenance split: prod.splits if_splits)
    (metis fst_conv)+

text \<open>An answer nobody has a provenance reason against: every claim of its list rests on the hooks.\<close>

lemma provenance_refusal_none:
  assumes "provenance_refusal lib bid deadline = Inr []" and "vget bid ''claims'' = VArr claims"
  shows "\<forall>c \<in> set claims. hook_sourced (cl_boundary lib) c"
proof -
  let ?lib = "cl_boundary lib"
  have "fst (claim_provenance_reasons ?lib (VArr claims) hosted_path None) = []"
  proof (rule ccontr)
    assume "fst (claim_provenance_reasons ?lib (VArr claims) hosted_path None) \<noteq> []"
    then obtain r where r: "r \<in> set (fst (claim_provenance_reasons ?lib (VArr claims) hosted_path None))"
      by (meson hd_in_set)
    then have "is_provenance_reason r"
      using claim_verdict_provenance by (auto simp: claim_provenance_reasons_def)
    with r assms show False
      by (auto simp: provenance_refusal_def validate_bid_def and_then_Inr Let_def is_provenance_reason_def filter_empty_conv
          split: prod.splits if_splits)
  qed
  then have "fst (claim_verdict ?lib hosted_path None (i, claims ! i)) = []" if "i < length claims" for i
    using claims_ok(2) that by (fastforce simp: claims_of_def)
  then show ?thesis
    using claim_verdict_ok(2) by (metis in_set_conv_nth)
qed

section \<open>What later answers cannot change\<close>

lemma sorted_responses_append:
  "sorted_responses lib deadline (xs @ ys) found = and_then (sorted_responses lib deadline xs found) (sorted_responses lib deadline ys)"
  by (induction lib deadline xs found rule: sorted_responses.induct) (auto simp: Let_def and_then_def split: sum.split)

text \<open>Answers under names already answered move only the reasons of those names.\<close>

lemma sorted_responses_answered:
  assumes "\<forall>y \<in> set later. vget y ''store_id'' \<noteq> VNone \<and>
      dget on_time (py_text (cl_boundary lib) (vget y ''store_id'')) \<noteq> None \<and>
      (\<exists>w. unusable_because lib y deadline = Inr w)"
  shows "\<exists>rejected'. sorted_responses lib deadline later (on_time, rejected) = Inr (on_time, rejected') \<and>
    (\<forall>store. dget on_time store = None \<longrightarrow> dget rejected' store = dget rejected store)"
  using assms
proof (induction later arbitrary: rejected)
  case (Cons y later)
  let ?store = "py_text (cl_boundary lib) (vget y ''store_id'')"
  from Cons.prems obtain w where w: "unusable_because lib y deadline = Inr w" "vget y ''store_id'' \<noteq> VNone"
    and held: "dget on_time ?store \<noteq> None" by auto
  define rejected1 where "rejected1 = (case w of Some reason \<Rightarrow> dsetdefault ?store reason rejected | None \<Rightarrow> rejected)"
  have "(case w of Some reason \<Rightarrow> (on_time, dsetdefault ?store reason rejected)
      | None \<Rightarrow> (dsetdefault ?store y on_time, rejected)) = (on_time, rejected1)"
    using held by (auto simp: rejected1_def dsetdefault_def split: option.split)
  then have step: "sorted_responses lib deadline (y # later) (on_time, rejected) = sorted_responses lib deadline later (on_time, rejected1)"
    using w by (simp add: Let_def)
  have "dget rejected1 store = dget rejected store" if "dget on_time store = None" for store
    using that held by (auto simp: rejected1_def dget_dsetdefault split: option.split)
  then show ?case using Cons.IH [of rejected1] Cons.prems unfolding step by fastforce
qed simp

lemma entry_for_rejected:
  assumes "\<forall>store. dget on_time store = None \<longrightarrow> dget rejected' store = dget rejected store"
  shows "entry_for lib deadline on_time rejected' auction_id row = entry_for lib deadline on_time rejected auction_id row"
proof -
  have "answer_for on_time rejected' store tier = answer_for on_time rejected store tier" for store tier
    using assms by (simp add: answer_for_def split: option.split)
  then show ?thesis by (simp add: entry_for_def)
qed

end
