(* ===== verification/SolicitLaws.thy ===== *)
theory SolicitLaws
  imports Solicit CollectLaws
begin

text \<open>
  What the gate, the fan-out and the collection make of a roster together: who can have an answer, whose
  answer it is and when it arrived.
\<close>

section \<open>Fields the exchange writes\<close>

lemma vget_set_field:
  "is_mapping v \<Longrightarrow> vget (set_field name x v) other = (if other = name then x else vget v other)"
  by (auto simp: is_mapping_def set_field_def vget_VObj dict_simps split: pyval.splits)

lemma is_mapping_set_field [simp]: "is_mapping (set_field name x v) = is_mapping v"
  by (simp add: set_field_def is_mapping_def split: pyval.split)

lemma is_mapping_without [simp]: "is_mapping (without_field v name) = is_mapping v"
  by (simp add: without_field_def is_mapping_def split: pyval.split)

lemma vget_without_field:
  "vget (without_field v name) other = (if other = name then VNone else vget v other)"
  by (auto simp: without_field_def vget_def dict_simps split: pyval.splits)

lemma stamped_arrival_fields:
  assumes "is_mapping response"
  shows "is_mapping (stamped_arrival finished_at response)"
    and "vget (stamped_arrival finished_at response) ''received_at'' = stamp_of finished_at"
    and "vget (stamped_arrival finished_at response) ''bid'' = vget response ''bid''"
  using assms by (auto simp: stamped_arrival_def Let_def vget_set_field)

lemma attributed_fields:
  assumes "is_mapping response"
  shows "vget (attributed store_id response) ''store_id'' = store_id"
    and "vget (attributed store_id response) ''received_at'' = vget response ''received_at''"
    and "is_mapping (vget response ''bid'') \<Longrightarrow>
      vget (attributed store_id response) ''bid'' = set_field ''store_id'' store_id (vget response ''bid'')"
    and "\<not> is_mapping (vget response ''bid'') \<Longrightarrow> vget (attributed store_id response) ''bid'' = vget response ''bid''"
  using assms by (auto simp: attributed_def Let_def vget_set_field)

text \<open>A stamped answer: the store, the instant and the bid.\<close>

lemma stamped_fields:
  assumes "is_mapping response" and "vget store ''store_id'' = VStr name"
  shows "vget (stamped response store finished_at) ''store_id'' = VStr name"
    and "vget (stamped response store finished_at) ''received_at'' = stamp_of finished_at"
    and "is_mapping (vget (stamped response store finished_at) ''bid'') \<Longrightarrow>
      vget (stamped response store finished_at) ''bid'' = set_field ''store_id'' (VStr name) (vget response ''bid'') \<and>
      is_mapping (vget response ''bid'')"
proof -
  let ?own = "without_field (without_field (without_field response timed_out_field) not_asked_field) no_agent_field"
  have own: "is_mapping ?own" "vget ?own ''bid'' = vget response ''bid''"
    using assms(1) by (simp_all add: vget_without_field timed_out_field_def not_asked_field_def no_agent_field_def)
  have s: "stamped response store finished_at = attributed (VStr name) (stamped_arrival finished_at ?own)"
    using assms(2) by (simp add: stamped_def Let_def)
  note arrived = stamped_arrival_fields [OF own(1), of finished_at]
  show "vget (stamped response store finished_at) ''store_id'' = VStr name"
    "vget (stamped response store finished_at) ''received_at'' = stamp_of finished_at"
    using attributed_fields(1,2) [OF arrived(1)] arrived(2) by (simp_all add: s)
  show "vget (stamped response store finished_at) ''bid'' = set_field ''store_id'' (VStr name) (vget response ''bid'') \<and>
      is_mapping (vget response ''bid'')" if "is_mapping (vget (stamped response store finished_at) ''bid'')"
    using that attributed_fields(3,4) [OF arrived(1)] arrived(3) own(2)
    by (cases "is_mapping (vget response ''bid'')") (simp_all add: s)
qed

section \<open>What the fan-out answers\<close>

lemma minted_unusable:
  assumes "answer \<in> set (minted store field)" and "field \<in> {timed_out_field, not_asked_field}"
  shows "unusable_because lib answer deadline \<noteq> Inr None"
  using assms
  by (auto simp: minted_def unusable_because_def vget_VObj refusal_field_def timed_out_field_def not_asked_field_def
      no_agent_field_def py_truthy_def Let_def split: if_splits)

lemma unreachable_unusable: "unusable_because lib (unreachable_marker row) deadline \<noteq> Inr None"
  by (auto simp: unreachable_marker_def unusable_because_def vget_VObj refusal_field_def timed_out_field_def
      not_asked_field_def no_agent_field_def py_truthy_def Let_def)

lemma parallel_answer:
  assumes "answer \<in> set (parallel_fan_out workers accepted outcomes clock stores)"
    and "unusable_because lib answer deadline = Inr None"
  obtains i response reading where "i < length stores" "outcomes i = Finished response reading"
    and "is_mapping response" "answer = stamped response (stores ! i) (clock_reads clock reading)"
proof -
  let ?n = "min (nat (max 1 workers)) accepted"
  let ?asked = "zip (take ?n stores) (map outcomes [0..<length stores])"
  have "answer \<notin> set (minted_for (drop ?n stores) not_asked_field)"
    using minted_unusable [of answer _ not_asked_field lib deadline] assms(2) by (auto simp: minted_for_def)
  with assms(1) obtain asked where asked: "asked \<in> set ?asked" "answer \<in> set (answers_of clock asked)"
    by (auto simp: parallel_fan_out_def Let_def)
  then obtain i where "i < length stores" "asked = (stores ! i, outcomes i)"
    by (auto simp: set_zip)
  moreover from asked(2) obtain response reading where "snd asked = Finished response reading" "is_mapping response"
      "answer = stamped response (fst asked) (clock_reads clock reading)"
    using minted_unusable [of answer "fst asked" _ lib deadline] assms(2)
    by (auto simp: answers_of_def split: ask_outcome.splits if_splits)
  ultimately show thesis using that by simp
qed

text \<open>An answer that can be used arrived by the deadline.\<close>

lemma usable_arrival:
  assumes "unusable_because lib answer deadline = Inr None"
  obtains arrived where "arrival_stamp lib (vget answer ''received_at'') = Inr (Some (Finite arrived))"
    and "arrived \<le> deadline" and "is_mapping (vget answer ''bid'')"
proof -
  have checks: "is_mapping (vget answer ''bid'')"
    and stamp: "and_then (arrival_stamp lib (vget answer ''received_at'')) (\<lambda>stamp.
          case stamp of
            None \<Rightarrow> Inr (Some (u ''arrival_stamp_unparseable''))
          | Some (Finite arrived) \<Rightarrow>
              Inr (if arrived \<le> deadline then None else Some (u ''response_after_deadline''))
          | Some NotFinite \<Rightarrow> Inr (Some (u ''response_after_deadline''))) = Inr None"
    using assms by (simp_all add: unusable_because_def Let_def split: if_splits)
  from stamp obtain f where f: "arrival_stamp lib (vget answer ''received_at'') = Inr (Some f)"
    by (auto simp: and_then_Inr split: option.splits)
  with stamp that checks show thesis by (cases f) (auto split: if_splits)
qed

section \<open>The gate\<close>

lemma list_all2_right_of: "list_all2 P xs ys \<Longrightarrow> y \<in> set ys \<Longrightarrow> \<exists>x \<in> set xs. P x y"
  by (induction xs ys rule: list_all2_induct) auto

lemma list_all2_left_of: "list_all2 P xs ys \<Longrightarrow> x \<in> set xs \<Longrightarrow> \<exists>y \<in> set ys. P x y"
  by (induction xs ys rule: list_all2_induct) auto

lemma lefts_in: "x \<in> set (lefts xs) \<longleftrightarrow> Inl x \<in> set xs"
  by (force simp: lefts_def split: sum.splits)

lemma rights_in: "x \<in> set (rights xs) \<longleftrightarrow> Inr x \<in> set xs"
  by (force simp: rights_def split: sum.splits)

lemma lefts_rights: "length (lefts xs) + length (rights xs) = length xs"
  by (induction xs) (auto simp: lefts_def rights_def split: sum.split)

lemma gate_row_left:
  assumes "gate_row lib eligibility row = Inr (Inl kept)"
  shows "kept = row" and "\<exists>store. rostered_store lib row = Inr store \<and> es_check eligibility store = Answered (Some eligible_status)"
  using assms by (auto simp: gate_row_def and_then_Inr Let_def read_eligibility_eligible split: if_splits)

lemma gate_row_right:
  assumes "gate_row lib eligibility row = Inr (Inr d)"
  shows "rostered_store lib row = Inr (dn_store_id d)" and "es_check eligibility (dn_store_id d) \<noteq> Answered (Some eligible_status)"
proof -
  have named: "ed_store_id (read_eligibility eligibility store) = store" for store
    by (simp add: read_eligibility_def split: eligibility_answer.split option.split)
  show "rostered_store lib row = Inr (dn_store_id d)" and "es_check eligibility (dn_store_id d) \<noteq> Answered (Some eligible_status)"
    using assms by (auto simp: gate_row_def and_then_Inr Let_def named read_eligibility_eligible split: if_splits)
qed

lemma sides_simps:
  "lefts [] = []" "lefts (Inl a # xs) = a # lefts xs" "lefts (Inr b # xs) = lefts xs"
  "rights [] = []" "rights (Inl a # xs) = rights xs" "rights (Inr b # xs) = b # rights xs"
  by (simp_all add: lefts_def rights_def)

text \<open>A store the exchange may ask: a source it can read calls it eligible.\<close>

definition cleared :: "pystr eligibility_source \<Rightarrow> pystr \<Rightarrow> bool" where
  "cleared eligibility name \<longleftrightarrow>
     speaks_supported_interface eligibility \<and> es_check eligibility name = Answered (Some eligible_status)"

text \<open>The gate splits the roster by that, in order.\<close>

lemma gated_names:
  assumes "map_all (gate_row bl eligibility) roster = Inr gated" and "speaks_supported_interface eligibility"
  obtains names where "list_all2 (\<lambda>row name. rostered_store bl row = Inr name) roster names"
    and "list_all2 (\<lambda>row name. rostered_store bl row = Inr name) (lefts gated) (filter (cleared eligibility) names)"
    and "map dn_store_id (rights gated) = filter (\<lambda>name. \<not> cleared eligibility name) names"
proof -
  have "\<exists>names. list_all2 (\<lambda>row name. rostered_store bl row = Inr name) roster names \<and>
      list_all2 (\<lambda>row name. rostered_store bl row = Inr name) (lefts gated) (filter (cleared eligibility) names) \<and>
      map dn_store_id (rights gated) = filter (\<lambda>name. \<not> cleared eligibility name) names"
    using assms(1)
  proof (induction roster arbitrary: gated)
    case Nil
    then show ?case by (intro exI [of _ "[]"]) (simp add: sides_simps)
  next
    case (Cons row roster)
    then obtain g gated' where g: "gate_row bl eligibility row = Inr g"
        "map_all (gate_row bl eligibility) roster = Inr gated'" "gated = g # gated'"
      by (auto simp: and_then_Inr)
    from Cons.IH [OF g(2)] obtain names where names:
        "list_all2 (\<lambda>row name. rostered_store bl row = Inr name) roster names"
        "list_all2 (\<lambda>row name. rostered_store bl row = Inr name) (lefts gated') (filter (cleared eligibility) names)"
        "map dn_store_id (rights gated') = filter (\<lambda>name. \<not> cleared eligibility name) names" by blast
    show ?case
    proof (cases g)
      case (Inl kept)
      from gate_row_left [OF g(1) [unfolded Inl]] obtain store where "kept = row"
          "rostered_store bl row = Inr store" "es_check eligibility store = Answered (Some eligible_status)" by blast
      then have "kept = row" "rostered_store bl row = Inr store" "cleared eligibility store"
        using assms(2) by (simp_all add: cleared_def)
      then show ?thesis
        using names by (intro exI [of _ "store # names"]) (simp add: g(3) Inl sides_simps)
    next
      case (Inr d)
      have "rostered_store bl row = Inr (dn_store_id d)" "\<not> cleared eligibility (dn_store_id d)"
        using gate_row_right [OF g(1) [unfolded Inr]] by (simp_all add: cleared_def)
      then show ?thesis
        using names by (intro exI [of _ "dn_store_id d # names"]) (simp add: g(3) Inr sides_simps)
    qed
  qed
  then show thesis using that by blast
qed

lemma named_twice:
  assumes "list_all2 (\<lambda>row name. f row = Inr name) rows names" and "list_all2 (\<lambda>row e. f row = Inr (g e)) rows es"
  shows "map g es = names"
  using assms
proof (induction rows arbitrary: names es)
  case (Cons row rows)
  then show ?case by (auto simp: list_all2_Cons1)
qed simp

lemma raised_tier_store:
  "raised_tier lib with_agent row = Inr row' \<Longrightarrow> vget row' ''store_id'' = vget row ''store_id''"
  "raised_tier lib with_agent row = Inr row' \<Longrightarrow> rostered_store bl row' = rostered_store bl row"
proof -
  have "vget (set_field ''tier'' x row) ''store_id'' = vget row ''store_id''"
    "has_key (set_field ''tier'' x row) ''store_id'' = has_key row ''store_id''" for x
    by (cases row; simp add: set_field_def has_key_def vget_def dict_simps)+
  then show "raised_tier lib with_agent row = Inr row' \<Longrightarrow> vget row' ''store_id'' = vget row ''store_id''"
    and "raised_tier lib with_agent row = Inr row' \<Longrightarrow> rostered_store bl row' = rostered_store bl row"
    by (auto simp: raised_tier_def and_then_Inr rostered_store_def split: if_splits)
qed

lemma raised_names:
  assumes "map_all (raised_tier lib with_agent) rows = Inr rows'"
    and "list_all2 (\<lambda>row name. rostered_store bl row = Inr name) rows names"
  shows "list_all2 (\<lambda>row name. rostered_store bl row = Inr name) rows' names"
  using assms
proof (induction rows arbitrary: rows' names)
  case (Cons row rows)
  then show ?case by (auto simp: and_then_Inr list_all2_Cons1 raised_tier_store(2))
qed auto

lemma rostered_text: "rostered_store bl row = Inr store \<Longrightarrow> vget row ''store_id'' = VStr name \<Longrightarrow> store = name"
  by (auto simp: rostered_store_def py_text_def split: if_splits)

text \<open>What a solicitation through a source it can read consists of.\<close>

lemma solicit_bidsE:
  assumes "solicit_bids lib knows eligibility fan_out roster now = Inr r" and "speaks_supported_interface eligibility"
  obtains gated eligible tiers responses askable no_agent where
    "map_all (gate_row (cl_boundary (so_collect lib)) eligibility) roster = Inr gated"
    and "map_all (raised_tier lib (stores_with_an_agent (cl_boundary (so_collect lib)) knows (lefts gated))) (lefts gated) = Inr eligible"
    and "map_all (tiered_row lib) eligible = Inr tiers"
    and "no_agent = stores_with_no_agent (cl_boundary (so_collect lib)) knows (concat tiers)"
    and "askable = filter (\<lambda>row. py_text (cl_boundary (so_collect lib)) (vget row ''store_id'') \<notin> set no_agent) (concat tiers)"
    and "responses = fan_out askable @ map unreachable_marker
      (filter (\<lambda>row. py_text (cl_boundary (so_collect lib)) (vget row ''store_id'') \<in> set no_agent) (concat tiers))"
    and "collect_bids (so_collect lib) eligible responses now = Inr (sr_entries r)"
    and "sr_solicited r = map (\<lambda>row. py_text (cl_boundary (so_collect lib)) (vget row ''store_id'')) askable"
    and "sr_denied r = rights gated"
  using assms by (auto simp: solicit_bids_def Let_def and_then_Inr)

lemma eligible_row:
  assumes "map_all (gate_row bl eligibility) roster = Inr gated"
    and "map_all (raised_tier lib with_agent) (lefts gated) = Inr eligible" and "row \<in> set eligible"
  obtains row0 store where "row0 \<in> set roster" "vget row ''store_id'' = vget row0 ''store_id''"
    and "rostered_store bl row = Inr store" "rostered_store bl row0 = Inr store"
    and "es_check eligibility store = Answered (Some eligible_status)"
proof -
  from map_all_in [OF assms(2,3)] obtain row1 where row1: "row1 \<in> set (lefts gated)" "raised_tier lib with_agent row1 = Inr row"
    by blast
  then have "Inl row1 \<in> set gated" by (simp add: lefts_in)
  from map_all_in [OF assms(1) this] obtain row0 where row0: "row0 \<in> set roster" "gate_row bl eligibility row0 = Inr (Inl row1)"
    by blast
  note gate = gate_row_left [OF row0(2)]
  from gate(2) obtain store where "rostered_store bl row0 = Inr store" "es_check eligibility store = Answered (Some eligible_status)"
    by blast
  with that row0(1) gate(1) raised_tier_store [OF row1(2)] show thesis by metis
qed

lemma tiered_eligible: "map_all (tiered_row lib) eligible = Inr tiers \<Longrightarrow> set (concat tiers) \<subseteq> set eligible"
  by (induction eligible arbitrary: tiers) (fastforce simp: and_then_Inr tiered_row_def split: if_splits)+

section \<open>The arrival clock\<close>

text \<open>What the clock says is within a hundred thousandth of a second of the time that passed.\<close>

lemma clock_in_window:
  assumes "clock_reads (new_arrival_clock deadline window origin) reading = Some t" and "t \<le> deadline"
    and "0 \<le> window" "window \<le> deadline" "deadline \<le> 10000000000" "0 \<le> reading - origin" "reading - origin \<le> 10000000000"
  shows "reading - origin \<le> window + 1 / 100000"
proof -
  have small: "(20000000001::rat) \<le> 2 ^ 40" "(20000000001::rat) / 2 ^ 53 + 1 / 2 ^ 1000 \<le> 1 / 400000" by simp_all
  have near: "\<exists>d. to_double r = Some d \<and> 0 \<le> d \<and> \<bar>d - r\<bar> \<le> 1 / 400000" if "0 \<le> r" "r \<le> 20000000001" for r
    by (rule below_a_million_million [OF that small])
  obtain start where start: "to_double (deadline - window) = Some start" "0 \<le> start" "\<bar>start - (deadline - window)\<bar> \<le> 1 / 400000"
    using near [of "deadline - window"] assms(3,4,5) by auto
  obtain elapsed where elapsed: "to_double (reading - origin) = Some elapsed" "0 \<le> elapsed" "\<bar>elapsed - (reading - origin)\<bar> \<le> 1 / 400000"
    using near [of "reading - origin"] assms(6,7) by auto
  have sum: "start + elapsed \<le> 20000000001" 
    using abs_le_D1 [OF start(3)] abs_le_D1 [OF elapsed(3)] assms(3,5,7) by linarith
  obtain total where whole: "to_double (start + elapsed) = Some total" "\<bar>total - (start + elapsed)\<bar> \<le> 1 / 400000"
    using near [OF add_nonneg_nonneg [OF start(2) elapsed(2)] sum] by auto
  have "t = total"
    using assms(1,3) by (simp add: clock_reads_def new_arrival_clock_def double_sub_def double_add_def start elapsed whole max_def)
  then show ?thesis
    using assms(2) abs_le_D2 [OF start(3)] abs_le_D2 [OF elapsed(3)] abs_le_D2 [OF whole(2)] by linarith
qed

end
