(* ===== verification/CollectProps.thy ===== *)
theory CollectProps
  imports SolicitLaws
begin

text \<open>The properties of the solicitation and of the collection of bids, each with an auction it applies to.\<close>

section \<open>An auction of one store\<close>

definition fan_boundary :: boundary_lib where
  "fan_boundary = \<lparr>vb_schema = \<lambda>_ _. SchemaOk, vb_fromisoformat = \<lambda>_. None, vb_str = \<lambda>_. [], vb_lower = \<lambda>s. s\<rparr>"

definition fan_lib :: solicit_lib where
  "fan_lib =
     \<lparr>so_collect = \<lparr>cl_boundary = fan_boundary, cl_float_text = \<lambda>_. None, cl_wall_clock = 0\<rparr>, so_int_text = \<lambda>_. None\<rparr>"

definition fan_row :: pyval where
  "fan_row = VObj [(u ''store_id'', VStr (u ''s'')), (u ''tier'', VInt 1), (u ''product_ref'', VStr (u ''p'')),
     (u ''list_price'', VInt 100), (u ''max_discount_pct'', VInt 20)]"

definition fan_offer :: pyval where
  "fan_offer = VObj [(u ''product_ref'', VStr (u ''p'')), (u ''unit_price'', VInt 80), (u ''total_price'', VInt 80)]"

definition fan_claim :: pyval where
  "fan_claim = VObj [(u ''key'', VStr (u ''wool'')), (u ''value'', VBool True),
     (u ''provenance'', VObj [(u ''source'', VStr (u ''scraped''))])]"

text \<open>A reply that names another store and dates itself.\<close>

definition fan_reply :: pyval where
  "fan_reply = VObj [(u ''store_id'', VStr (u ''rival'')), (u ''received_at'', VInt 1),
     (u ''bid'', VObj [(u ''store_id'', VStr (u ''rival'')), (u ''offer'', fan_offer), (u ''claims'', VArr [fan_claim])])]"

definition fan_bid :: pyval where
  "fan_bid = VObj [(u ''store_id'', VStr (u ''s'')), (u ''offer'', fan_offer), (u ''claims'', VArr [fan_claim])]"

definition fan_source :: "pystr eligibility_source" where
  "fan_source = static_eligibility [(u ''s'', eligible_status)] unavailable_status eligibility_interface_version"

definition fan_clock :: arrival_clock where "fan_clock = new_arrival_clock 1000 5 0"

definition fan_out_of :: "pyval list \<Rightarrow> pyval list" where
  "fan_out_of = parallel_fan_out 32 8 (\<lambda>_. Finished fan_reply 3) fan_clock"

abbreviation "fan_collect \<equiv> so_collect fan_lib"

lemma fan_simps: "cl_boundary fan_collect = fan_boundary"
  by (simp add: fan_lib_def)

definition fan_answer :: pyval where
  "fan_answer = stamped fan_reply fan_row (Some 998)"

lemma fan_answers: "fan_out_of [fan_row] = [fan_answer]"
  by code_simp

lemma fan_fields:
  "vget fan_answer ''store_id'' = VStr (u ''s'')" "vget fan_answer ''bid'' = fan_bid"
  "vget fan_answer ''received_at'' = VFloat (Finite 998)"
  "unusable_because fan_collect fan_answer 1000 = Inr None"
  by code_simp+

lemma fan_numbers: "\<not> 80 < price_floor 100" "under_depth 80 100 20 = False" "under_depth 80 80 20 = False"
  by code_simp+

definition fan_roster :: price_roster where
  "fan_roster key = (if same_key key (VStr (u ''p'')) then Some fan_row else None)"

lemma fan_reads:
  "roster_of_row fan_row = Inr fan_roster"
  "is_judged fan_boundary fan_offer fan_row = Inr True"
  "has_fields fan_offer" "is_mapping fan_offer" "declared_depth fan_boundary fan_offer = Inr (Some 0, [])"
  "finite_number (vget fan_offer ''unit_price'') = Inr (Some 80)"
  "finite_number (vget fan_offer ''total_price'') = Inr (Some 80)"
  "authorized_depth fan_offer fan_roster VNone = Inr (Some 20, [])"
  "roster_list_price fan_offer fan_roster = Inr (Some 100, [])"
  "carried_list_price fan_bid fan_offer = Inr (None, [])"
  "vget fan_bid ''offer'' = fan_offer"
  by (simp add: roster_of_row_def fan_row_def fan_roster_def vget_VObj fun_eq_iff) code_simp+

lemma fan_priced: "price_refusal fan_boundary fan_bid fan_row = Inr []"
proof -
  have "price_reasons fan_boundary fan_bid fan_offer fan_roster VNone = Inr []"
    by (simp add: price_reasons_def fan_reads fan_numbers relation_reasons_def amount_reasons_def depth_in_force_def
        floor_reasons_def Let_def)
  then show ?thesis by (simp add: price_refusal_def fan_reads Let_def)
qed

lemma fan_sourced: "provenance_refusal fan_collect fan_bid 1000 = Inr []"
  by code_simp

lemma fan_tiers: "row_tier fan_collect fan_row = Inr 1" "whole_tier fan_lib fan_row = Inr 1"
  "rostered_store fan_boundary fan_row = Inr (u ''s'')" "finite_number (vget fan_row ''list_price'') = Inr (Some 100)"
  "positive_price (Some 100) = Some 100" "vget fan_row ''store_id'' = VStr (u ''s'')"
  by code_simp+

definition fan_entry :: bid_entry where
  "fan_entry = \<lparr>be_store_id = u ''s'', be_tier = 1, be_fallback = False, be_bid = fan_bid,
     be_received_at = Some (Finite 998), be_fallback_reason = None, be_claims = [fan_claim], be_price_reasons = [],
     be_boundary_reasons = [], be_list_price = Some 100\<rparr>"

lemma fan_own: "own_entry fan_collect (u ''s'') 1 fan_answer (Some 100) = Inr fan_entry"
  by code_simp

lemma fan_collected: "collect_bids fan_collect [fan_row] [fan_answer] 1000 = Inr [fan_entry]"
proof -
  have "sorted_responses fan_collect 1000 [fan_answer] ([], []) = Inr ([(u ''s'', fan_answer)], [])"
    by (simp add: fan_fields py_text_def dsetdefault_def)
  moreover have "entry_for fan_collect 1000 [(u ''s'', fan_answer)] [] a fan_row = Inr fan_entry" for a
    by (simp add: entry_for_def fan_simps fan_tiers answer_for_def fan_fields fan_priced fan_sourced fan_own Let_def)
  ultimately show ?thesis by (simp add: collect_bids_def)
qed

definition fan_result :: solicitation where
  "fan_result = \<lparr>sr_solicited = [u ''s''], sr_entries = [fan_entry], sr_denied = []\<rparr>"

lemma fan_solicited: "solicit_bids fan_lib None fan_source fan_out_of [fan_row] 1000 = Inr fan_result"
proof -
  have "speaks_supported_interface fan_source" "gate_row fan_boundary fan_source fan_row = Inr (Inl fan_row)"
    by code_simp+
  then show ?thesis
    by (simp add: solicit_bids_def fan_simps lefts_def rights_def raised_tier_def tiered_row_def fan_tiers
        stores_with_no_agent_def reaching_def fan_answers fan_collected fan_result_def py_text_def Let_def)
qed

section \<open>Who a bid comes from, and when\<close>

text \<open>
  C3. Whatever the stores answer and whenever, a bid of a store's own stands for a store the exchange asked:
  the eligibility source calls it eligible, the bid is the one that store answered with, filed and
  attributed under the asked store's name, and by the exchange's clock it arrived by the deadline, which
  is within the window (give or take a hundred thousandth of a second) of the monotonic clock.
\<close>

theorem own_bid_is_the_asked_stores_in_time:
  assumes "solicit_bids lib knows eligibility
      (parallel_fan_out workers accepted outcomes (new_arrival_clock now window origin)) roster now = Inr r"
    and "speaks_supported_interface eligibility" and "\<forall>row \<in> set roster. \<exists>name. vget row ''store_id'' = VStr name"
    and "e \<in> set (sr_entries r)" and "\<not> be_fallback e"
  shows "es_check eligibility (be_store_id e) = Answered (Some eligible_status) \<and>
    (\<exists>i response reading t. i < length (sr_solicited r) \<and> sr_solicited r ! i = be_store_id e \<and>
       outcomes i = Finished response reading \<and>
       clock_reads (new_arrival_clock now window origin) reading = Some t \<and> t \<le> now \<and>
       (0 \<le> window \<longrightarrow> window \<le> now \<longrightarrow> now \<le> 10000000000 \<longrightarrow> 0 \<le> reading - origin \<longrightarrow>
          reading - origin \<le> 10000000000 \<longrightarrow> reading - origin \<le> window + 1 / 100000) \<and>
       vget (be_bid e) ''store_id'' = VStr (be_store_id e) \<and>
       (\<forall>name. name \<noteq> ''store_id'' \<longrightarrow> vget (be_bid e) name = vget (vget response ''bid'') name))"
proof (rule solicit_bidsE [OF assms(1,2)])
  let ?lib = "so_collect lib" let ?bl = "cl_boundary ?lib" let ?clock = "new_arrival_clock now window origin"
  fix gated eligible tiers responses askable no_agent
  assume gated: "map_all (gate_row ?bl eligibility) roster = Inr gated"
    and raised: "map_all (raised_tier lib (stores_with_an_agent ?bl knows (lefts gated))) (lefts gated) = Inr eligible"
    and tiers: "map_all (tiered_row lib) eligible = Inr tiers"
    and askable: "askable = filter (\<lambda>row. py_text ?bl (vget row ''store_id'') \<notin> set no_agent) (concat tiers)"
    and responses: "responses = parallel_fan_out workers accepted outcomes ?clock askable @ map unreachable_marker
      (filter (\<lambda>row. py_text ?bl (vget row ''store_id'') \<in> set no_agent) (concat tiers))"
    and collected: "collect_bids ?lib eligible responses now = Inr (sr_entries r)"
    and solicited: "sr_solicited r = map (\<lambda>row. py_text ?bl (vget row ''store_id'')) askable"
  obtain row answer where row: "row \<in> set eligible" "rostered_store ?bl row = Inr (be_store_id e)"
    and answer: "answer \<in> set responses" "unusable_because ?lib answer now = Inr None"
      "be_store_id e = py_text ?bl (vget answer ''store_id'')" "be_bid e = vget answer ''bid''"
    by (rule own_entry_answer [OF collected assms(4,5)])
  have "answer \<in> set (parallel_fan_out workers accepted outcomes ?clock askable)"
    using answer(1,2) unreachable_unusable by (auto simp: responses)
  then obtain i response reading where i: "i < length askable" "outcomes i = Finished response reading" "is_mapping response"
      "answer = stamped response (askable ! i) (clock_reads ?clock reading)"
    by (rule parallel_answer [OF _ answer(2)])
  have asked: "askable ! i \<in> set eligible"
    using tiered_eligible [OF tiers] nth_mem [OF i(1)] by (auto simp: askable)
  obtain name where name: "vget (askable ! i) ''store_id'' = VStr name"
    by (rule eligible_row [OF gated raised asked]) (metis assms(3) that)
  note fields = stamped_fields [OF i(3) name, of "clock_reads ?clock reading", folded i(4)]
  have store: "be_store_id e = name" using answer(3) fields(1) by (simp add: py_text_def)
  obtain t where t: "clock_reads ?clock reading = Some t" "t \<le> now" and bid: "is_mapping (vget answer ''bid'')"
    using usable_arrival [OF answer(2)] fields(2) by (auto simp: arrival_stamp_def stamp_of_def split: option.splits)
  have "es_check eligibility (be_store_id e) = Answered (Some eligible_status)"
    using row(2) by (rule_tac eligible_row [OF gated raised row(1)]) simp
  moreover have "sr_solicited r ! i = be_store_id e" "i < length (sr_solicited r)"
    using i(1) name by (simp_all add: solicited store py_text_def)
  moreover have "be_bid e = set_field ''store_id'' (VStr name) (vget response ''bid'')" "is_mapping (vget response ''bid'')"
    using fields(3) [OF bid] answer(4) by simp_all
  ultimately show ?thesis
    using i(2) t store clock_in_window [OF t] by (auto simp: vget_set_field intro!: exI [of _ i])
qed

theorem own_bid_is_the_asked_stores_in_time_witness:
  "es_check fan_source (u ''s'') = Answered (Some eligible_status) \<and>
   (\<exists>t. clock_reads fan_clock 3 = Some t \<and> t \<le> 1000) \<and> vget fan_bid ''store_id'' = VStr (u ''s'')"
proof -
  have r: "solicit_bids fan_lib None fan_source
      (parallel_fan_out 32 8 (\<lambda>_. Finished fan_reply 3) (new_arrival_clock 1000 5 0)) [fan_row] 1000 = Inr fan_result"
    using fan_solicited by (simp add: fan_out_of_def [abs_def] fan_clock_def)
  have "speaks_supported_interface fan_source" by code_simp
  then show ?thesis
    using own_bid_is_the_asked_stores_in_time [OF r _ _, of fan_entry]
    by (auto simp: fan_tiers fan_result_def fan_entry_def fan_clock_def)
qed

section \<open>What each entry says\<close>

text \<open>
  C20. The collection has one entry for every row of the roster, in the roster's order, under the row's store. The
  bid of a fallback is written by the exchange from the row and the deadline: the row's product, variant and
  currency, the row's list price as both prices with an expiry set by the deadline (or, where the row states no
  positive price, neither), no discount, no checkout link and no claims. Two things in a fallback's entry come
  from the answers: the auction id of its bid is the one the usable answers agree on, and the reason it fell back
  may quote the refusal its store stated.
\<close>

theorem every_rostered_store_has_its_entry:
  assumes "collect_bids lib roster responses deadline = Inr entries"
  shows "\<exists>on_time rejected. sorted_responses lib deadline responses ([], []) = Inr (on_time, rejected) \<and>
    list_all2 (\<lambda>row e. rostered_store (cl_boundary lib) row = Inr (be_store_id e) \<and>
      (be_fallback e \<longrightarrow> be_claims e = [] \<and> be_received_at e = None \<and> be_fallback_reason e \<noteq> None \<and>
         (\<exists>listed. finite_number (vget row ''list_price'') = Inr listed \<and> be_list_price e = positive_price listed \<and>
            be_bid e = bid_at_list_price (common_auction (cl_boundary lib) on_time) (be_store_id e)
              (list_price_offer row listed deadline)) \<and>
         (\<forall>site \<in> {''unit_price'', ''total_price''}. vget (entry_offer e) site =
            (case be_list_price e of Some r \<Rightarrow> VFloat (Finite r) | None \<Rightarrow> VNone)) \<and>
         vget (entry_offer e) ''expires_at'' = (if be_list_price e = None then VNone
            else optional_text (fallback_expires_at deadline)) \<and>
         vget (entry_offer e) ''product_ref'' = vget row ''product_ref'' \<and>
         vget (entry_offer e) ''currency'' = field_or row ''currency'' (VStr (u ''USD'')) \<and>
         vget (entry_offer e) ''discount'' = VNone \<and> vget (entry_offer e) ''checkout_url'' = VNone))
    roster entries"
proof (rule collect_bids_entries [OF assms])
  fix on_time rejected
  assume sorted: "sorted_responses lib deadline responses ([], []) = Inr (on_time, rejected)"
    and rows: "list_all2 (\<lambda>row e. entry_for lib deadline on_time rejected (common_auction (cl_boundary lib) on_time) row = Inr e)
      roster entries"
  have fallback: "be_claims e = [] \<and> be_received_at e = None \<and> be_fallback_reason e \<noteq> None \<and>
      (\<exists>listed. finite_number (vget row ''list_price'') = Inr listed \<and> be_list_price e = positive_price listed \<and>
         be_bid e = bid_at_list_price (common_auction (cl_boundary lib) on_time) (be_store_id e)
           (list_price_offer row listed deadline)) \<and>
      (\<forall>site \<in> {''unit_price'', ''total_price''}. vget (entry_offer e) site =
         (case be_list_price e of Some r \<Rightarrow> VFloat (Finite r) | None \<Rightarrow> VNone)) \<and>
      vget (entry_offer e) ''expires_at'' = (if be_list_price e = None then VNone
         else optional_text (fallback_expires_at deadline)) \<and>
      vget (entry_offer e) ''product_ref'' = vget row ''product_ref'' \<and>
      vget (entry_offer e) ''currency'' = field_or row ''currency'' (VStr (u ''USD'')) \<and>
      vget (entry_offer e) ''discount'' = VNone \<and> vget (entry_offer e) ''checkout_url'' = VNone"
    if "entry_for lib deadline on_time rejected (common_auction (cl_boundary lib) on_time) row = Inr e" "be_fallback e"
    for row e
  proof -
    from fallback_says [OF that] obtain listed where says: "be_claims e = []" "be_received_at e = None"
        "be_fallback_reason e \<noteq> None" "finite_number (vget row ''list_price'') = Inr listed"
        "be_list_price e = positive_price listed"
        "be_bid e = bid_at_list_price (common_auction (cl_boundary lib) on_time) (be_store_id e)
           (list_price_offer row listed deadline)" by blast
    note offer = entry_offer_at_list_price [OF says(6)]
    show ?thesis
      using says by (simp add: offer list_price_offer_prices split: option.split)
  qed
  show ?thesis
    by (rule exI, rule exI, rule conjI, rule sorted)
      (rule list_all2_mono [OF rows], rule conjI, erule entry_for_store, rule impI, erule (1) fallback)
qed

theorem every_rostered_store_has_its_entry_witness:
  "\<exists>on_time. list_all2 (\<lambda>row e. rostered_store fan_boundary row = Inr (be_store_id e)) [fan_row] [fan_entry] \<and>
     (\<exists>rejected. sorted_responses fan_collect 1000 [fan_answer] ([], []) = Inr (on_time, rejected))"
  using every_rostered_store_has_its_entry [OF fan_collected] by (auto simp: fan_simps)

text \<open>
  C10. A bid of a store's own, for a row with a positive list price, states two prices at the price floor of the
  row or above it. Where the row states an authorised depth or the bid declares a discount, and the list price is
  at most a billion, its unit price is at most 1.1 cents under the list price less the discount the row allows
  (the check runs in doubles and tolerates a cent); a bid that declares none for a row that states none is held
  to the floor only. Where the claims of the bid are a list, each of them, nested sources included, rests on the
  exchange's hooks.
\<close>

theorem own_bid_respects_its_row:
  assumes "collect_bids lib roster responses deadline = Inr entries" and "e \<in> set entries" and "\<not> be_fallback e"
  shows "\<exists>row \<in> set roster. rostered_store (cl_boundary lib) row = Inr (be_store_id e) \<and>
      (\<forall>listed. be_list_price e = Some listed \<longrightarrow>
         (\<exists>unit whole. finite_number (vget (vget (be_bid e) ''offer'') ''unit_price'') = Inr (Some unit) \<and>
            finite_number (vget (vget (be_bid e) ''offer'') ''total_price'') = Inr (Some whole) \<and>
            price_floor listed \<le> unit \<and> price_floor listed \<le> whole \<and>
            (states_an_authorized_depth row \<or> declares_a_discount (vget (be_bid e) ''offer'') \<noteq> Inr False \<longrightarrow>
             listed \<le> 1000000000 \<longrightarrow> listed * (100 - row_limit row) / 100 - 11 / 1000 \<le> unit))) \<and>
      (\<forall>claims. vget (be_bid e) ''claims'' = VArr claims \<longrightarrow>
         be_claims e = claims \<and> (\<forall>c \<in> set claims. hook_sourced (cl_boundary lib) c))"
proof -
  obtain row where row: "row \<in> set roster" "rostered_store (cl_boundary lib) row = Inr (be_store_id e)"
    and prices: "price_refusal (cl_boundary lib) (be_bid e) row = Inr []"
    and claims: "provenance_refusal lib (be_bid e) deadline = Inr []"
    and read: "\<exists>listed. finite_number (vget row ''list_price'') = Inr listed \<and> be_list_price e = positive_price listed"
    and kept: "listed_claims (vget (be_bid e) ''claims'') = Inr (be_claims e)"
    by (rule own_entry_answer [OF assms])
  have "\<exists>unit whole. finite_number (vget (vget (be_bid e) ''offer'') ''unit_price'') = Inr (Some unit) \<and>
      finite_number (vget (vget (be_bid e) ''offer'') ''total_price'') = Inr (Some whole) \<and>
      price_floor listed \<le> unit \<and> price_floor listed \<le> whole \<and>
      (states_an_authorized_depth row \<or> declares_a_discount (vget (be_bid e) ''offer'') \<noteq> Inr False \<longrightarrow>
       listed \<le> 1000000000 \<longrightarrow> listed * (100 - row_limit row) / 100 - 11 / 1000 \<le> unit)"
    if "be_list_price e = Some listed" for listed
  proof -
    from read that have l: "finite_number (vget row ''list_price'') = Inr (Some listed)" "0 < listed"
      by (auto simp: positive_price_def split: option.splits if_splits)
    show ?thesis by (rule price_refusal_none [OF prices row(2) l]) blast
  qed
  moreover have "be_claims e = cs \<and> (\<forall>c \<in> set cs. hook_sourced (cl_boundary lib) c)"
    if "vget (be_bid e) ''claims'' = VArr cs" for cs
    using provenance_refusal_none [OF claims that] kept that by (auto simp: listed_claims_def py_truthy_def split: if_splits)
  ultimately show ?thesis using row by blast
qed

theorem own_bid_respects_its_row_witness:
  "(\<exists>unit. finite_number (vget fan_offer ''unit_price'') = Inr (Some unit) \<and> price_floor 100 \<le> unit) \<and>
   hook_sourced fan_boundary fan_claim"
proof -
  have "vget fan_bid ''claims'' = VArr [fan_claim]" by (simp add: fan_bid_def vget_VObj)
  then show ?thesis
    using own_bid_respects_its_row [OF fan_collected, of fan_entry] by (auto simp: fan_simps fan_entry_def fan_reads)
qed

section \<open>What later answers and refused stores cannot do\<close>

text \<open>
  C31. The first usable answer of a store stands: answers that come in after one, under the names of stores that
  have answered, change no entry of the auction, whatever price they name.
\<close>

theorem later_answers_change_nothing:
  assumes "\<forall>y \<in> set later. \<exists>x \<in> set responses. vget y ''store_id'' \<noteq> VNone \<and> vget x ''store_id'' \<noteq> VNone \<and>
      py_text (cl_boundary lib) (vget y ''store_id'') = py_text (cl_boundary lib) (vget x ''store_id'') \<and>
      unusable_because lib x deadline = Inr None"
    and "\<forall>y \<in> set later. \<exists>w. unusable_because lib y deadline = Inr w"
  shows "collect_bids lib roster (responses @ later) deadline = collect_bids lib roster responses deadline"
proof (cases "sorted_responses lib deadline responses ([], [])")
  case (Inl err)
  then show ?thesis by (simp add: collect_bids_def sorted_responses_append)
next
  case (Inr found)
  obtain on_time rejected where found: "sorted_responses lib deadline responses ([], []) = Inr (on_time, rejected)"
    using Inr by (cases found) simp
  have "dget on_time (py_text (cl_boundary lib) (vget x ''store_id'')) \<noteq> None"
    if "x \<in> set responses" "vget x ''store_id'' \<noteq> VNone" "unusable_because lib x deadline = Inr None" for x
    by (rule sorted_responses_keeps [OF found that])
  with assms obtain rejected' where
    "sorted_responses lib deadline later (on_time, rejected) = Inr (on_time, rejected')"
    and same: "\<forall>store. dget on_time store = None \<longrightarrow> dget rejected' store = dget rejected store"
    using sorted_responses_answered [of later on_time lib deadline rejected] by metis
  moreover have "entry_for lib deadline on_time rejected' a = entry_for lib deadline on_time rejected a" for a
    by (rule ext) (rule entry_for_rejected [OF same])
  ultimately show ?thesis by (simp add: collect_bids_def sorted_responses_append found)
qed

text \<open>A second answer, after the deadline and cheaper.\<close>

definition fan_late :: pyval where
  "fan_late = VObj [(u ''store_id'', VStr (u ''s'')), (u ''received_at'', VInt 1001),
     (u ''bid'', VObj [(u ''offer'', VObj [(u ''unit_price'', VInt 1), (u ''total_price'', VInt 1)])])]"

lemma fan_late_unusable:
  "unusable_because fan_collect fan_late 1000 = Inr (Some (u ''response_after_deadline''))"
  "vget fan_late ''store_id'' = VStr (u ''s'')"
  by code_simp+

theorem later_answers_change_nothing_witness:
  "collect_bids fan_collect [fan_row] ([fan_answer] @ [fan_late]) 1000 = Inr [fan_entry]"
  using later_answers_change_nothing [of "[fan_late]" "[fan_answer]" fan_collect 1000 "[fan_row]"]
  by (simp add: fan_fields fan_late_unusable fan_collected)

text \<open>
  C19. The gate partitions the roster: the denied are exactly the rostered stores the eligibility source does not
  call eligible and the entries are exactly those of the others, each in the roster's order and as often as the
  roster names them, whatever answers come back. Only stores with an entry are asked. Where the exchange cannot
  read the source, everybody is denied and nobody is asked.
\<close>

theorem gate_comes_before_the_asking:
  assumes "solicit_bids lib knows eligibility fan_out roster now = Inr r"
  shows "\<exists>names. list_all2 (\<lambda>row name. rostered_store (cl_boundary (so_collect lib)) row = Inr name) roster names \<and>
    map be_store_id (sr_entries r) = filter (cleared eligibility) names \<and>
    map dn_store_id (sr_denied r) = filter (\<lambda>name. \<not> cleared eligibility name) names \<and>
    set (sr_solicited r) \<subseteq> set (map be_store_id (sr_entries r))"
proof (cases "speaks_supported_interface eligibility")
  case False
  with assms obtain denied where "map_all (denied_unread (cl_boundary (so_collect lib))) roster = Inr denied"
    and r: "r = \<lparr>sr_solicited = [], sr_entries = [], sr_denied = denied\<rparr>"
    by (auto simp: solicit_bids_def Let_def and_then_Inr)
  then have "list_all2 (\<lambda>row name. rostered_store (cl_boundary (so_collect lib)) row = Inr name) roster (map dn_store_id denied)"
    by (auto simp: map_all_Inr list_all2_map2 denied_unread_def and_then_Inr elim!: list_all2_mono)
  with False r show ?thesis
    by (intro exI [of _ "map dn_store_id denied"]) (simp add: cleared_def)
next
  case True
  show ?thesis
  proof (rule solicit_bidsE [OF assms True])
    let ?bl = "cl_boundary (so_collect lib)"
    fix gated eligible tiers responses askable no_agent
    assume gated: "map_all (gate_row ?bl eligibility) roster = Inr gated"
      and raised: "map_all (raised_tier lib (stores_with_an_agent ?bl knows (lefts gated))) (lefts gated) = Inr eligible"
      and tiers: "map_all (tiered_row lib) eligible = Inr tiers"
      and askable: "askable = filter (\<lambda>row. py_text ?bl (vget row ''store_id'') \<notin> set no_agent) (concat tiers)"
      and collected: "collect_bids (so_collect lib) eligible responses now = Inr (sr_entries r)"
      and solicited: "sr_solicited r = map (\<lambda>row. py_text ?bl (vget row ''store_id'')) askable"
      and denied: "sr_denied r = rights gated"
    obtain names where names: "list_all2 (\<lambda>row name. rostered_store ?bl row = Inr name) roster names"
        "list_all2 (\<lambda>row name. rostered_store ?bl row = Inr name) (lefts gated) (filter (cleared eligibility) names)"
        "map dn_store_id (rights gated) = filter (\<lambda>name. \<not> cleared eligibility name) names"
      by (rule gated_names [OF gated True])
    have rows: "list_all2 (\<lambda>row e. rostered_store ?bl row = Inr (be_store_id e)) eligible (sr_entries r)"
      using collected by (rule collect_bidsE) (erule list_all2_mono, erule entry_for_store)
    have entries: "map be_store_id (sr_entries r) = filter (cleared eligibility) names"
      using raised_names [OF raised names(2)] rows by (rule named_twice)
    have "store \<in> set (map be_store_id (sr_entries r))" if "store \<in> set (sr_solicited r)" for store
    proof -
      from that obtain row where row: "row \<in> set eligible" "store = py_text ?bl (vget row ''store_id'')"
        using tiered_eligible [OF tiers] by (auto simp: solicited askable)
      obtain e where "e \<in> set (sr_entries r)" "rostered_store ?bl row = Inr (be_store_id e)"
        using list_all2_left_of [OF rows row(1)] by blast
      then show ?thesis using row(2) by (auto simp: rostered_store_def split: if_splits)
    qed
    then show ?thesis using names(1,3) entries denied by (intro exI [of _ names]) auto
  qed
qed

theorem gate_comes_before_the_asking_witness:
  "es_check fan_source (u ''s'') = Answered (Some eligible_status) \<and> sr_entries fan_result = [fan_entry]"
proof -
  have entries: "map be_store_id (sr_entries fan_result) = [u ''s'']" by (simp add: fan_result_def fan_entry_def)
  then obtain names where "[u ''s''] = filter (cleared fan_source) names"
    using gate_comes_before_the_asking [OF fan_solicited] by auto
  then have "u ''s'' \<in> set (filter (cleared fan_source) names)" by (metis list.set_intros(1))
  then show ?thesis by (simp add: cleared_def fan_result_def)
qed

text \<open>
  C40. One store's reply can stop the collection for all of them: a usable answer with admissible prices whose
  \<open>claims\<close> is a number other than zero is no reason to fall back, and listing the claims raises.
\<close>

theorem numeric_claims_stop_the_collection:
  assumes "sorted_responses lib deadline responses ([], []) = Inr (on_time, rejected)"
    and "row \<in> set roster" and "rostered_store (cl_boundary lib) row = Inr store"
    and "row_tier lib row = Inr tier" "0 < tier" and "dget on_time store = Some answer"
    and "price_refusal (cl_boundary lib) (vget answer ''bid'') row = Inr []"
    and "provenance_refusal lib (vget answer ''bid'') deadline = Inr []"
    and "vget (vget answer ''bid'') ''claims'' = VInt n" "n \<noteq> 0"
  shows "\<exists>err. collect_bids lib roster responses deadline = Inl err"
proof -
  have "listed_claims (VInt n) = Inl ''TypeError''" using assms(10) by (simp add: listed_claims_def py_truthy_def)
  then have "\<exists>err. own_entry lib store tier answer listed = Inl err" for listed
    using assms(9) by (cases "arrival_stamp lib (vget answer ''received_at'')") (auto simp: own_entry_def)
  then have "\<exists>err. entry_for lib deadline on_time rejected auction_id row = Inl err" for auction_id
    using assms(3-8) by (cases "finite_number (vget row ''list_price'')") (auto simp: entry_for_def answer_for_def Let_def)
  then have "\<exists>err. map_all (entry_for lib deadline on_time rejected auction_id) roster = Inl err" for auction_id
    by (rule map_all_error [OF assms(2)])
  then show ?thesis using assms(1) by (simp add: collect_bids_def)
qed

text \<open>An answer whose claims are the number one, from a store whose neighbour answered well.\<close>

definition fan_neighbour :: pyval where
  "fan_neighbour = VObj [(u ''store_id'', VStr (u ''t'')), (u ''product_ref'', VStr (u ''p''))]"

definition fan_broken :: pyval where
  "fan_broken = VObj [(u ''store_id'', VStr (u ''t'')), (u ''received_at'', VInt 998),
     (u ''bid'', VObj [(u ''offer'', fan_offer), (u ''claims'', VInt 1)])]"

lemma fan_broken_admitted:
  "unusable_because fan_collect fan_broken 1000 = Inr None" "vget fan_broken ''store_id'' = VStr (u ''t'')"
  "rostered_store fan_boundary fan_neighbour = Inr (u ''t'')" "row_tier fan_collect fan_neighbour = Inr 1"
  "price_refusal fan_boundary (vget fan_broken ''bid'') fan_neighbour = Inr []"
  "provenance_refusal fan_collect (vget fan_broken ''bid'') 1000 = Inr []"
  "vget (vget fan_broken ''bid'') ''claims'' = VInt 1"
  by code_simp+

theorem numeric_claims_stop_the_collection_witness:
  "\<exists>err. collect_bids fan_collect [fan_row, fan_neighbour] [fan_answer, fan_broken] 1000 = Inl err"
proof -
  have "sorted_responses fan_collect 1000 [fan_answer, fan_broken] ([], []) =
      Inr ([(u ''s'', fan_answer), (u ''t'', fan_broken)], [])"
    by (simp add: fan_fields fan_broken_admitted py_text_def dsetdefault_def)
  from numeric_claims_stop_the_collection [OF this, of fan_neighbour "[fan_row, fan_neighbour]" "u ''t''" 1 fan_broken 1]
  show ?thesis by (simp add: fan_simps fan_broken_admitted)
qed

text \<open>
  A solicitor that raises ends a sequential run inside its store: the store is reported as one that was still
  answering when the window shut, and no store after it is asked.
\<close>

theorem raising_solicitor_counts_as_timed_out:
  assumes "clock_reads clock asked_at = Some t" and "t \<le> deadline" and "runs 0 = (asked_at, SolicitorRaised)"
  shows "sequential_fan_out True runs clock deadline (store # stores) = minted store timed_out_field"
  using assms by (simp add: sequential_fan_out_def upt_rec [of 0])

theorem raising_solicitor_counts_as_timed_out_witness:
  "sequential_fan_out True (\<lambda>_. (1, SolicitorRaised)) fan_clock 1000 [fan_row, fan_neighbour] = minted fan_row timed_out_field"
proof -
  have "clock_reads fan_clock 1 = Some 996" by code_simp
  then show ?thesis by (rule raising_solicitor_counts_as_timed_out) simp_all
qed

end
