(* ===== verification/Spec2Isabelle.thy ===== *)
theory Spec2Isabelle
  imports AcceptProps DoorProps AuctionFaults SessionProps MagicLinkProps LedgerProps EnvelopeProps CodesProps BlacklistProps
    RankingProps RankProps CollectProps
begin

text \<open>
  A verification development of the core of ProxyShop, a marketplace in which a buyer's intent opens an
  auction among merchants, the exchange ranks their bids, the buyer accepts one and pays with a
  single-use code, and a hash-chained ledger records what happened. A seller that runs its own agent
  submits signed bids through a door of its own.

  \<^bold>\<open>The parts of the program and how they interact.\<close> The exchange keeps each auction in a bounded store
  and moves it along a table of states; every move reserves the exit of the state it leaves and records
  a ledger event. The rostered stores that are eligible are asked, what they answer inside the window is judged
  against their roster rows, and who has no bid of its own is represented at list price. The ranking orders the bids of an auction and cuts the shortlist. A buyer accepts a slot:
  the seller's eligibility is read again, the auction's one acceptance claim is taken, a provider mints
  a code, and the buyer is sent to a permalink on the seller's own domain. A merchant's limits
  are an envelope whose versions are approved, killed and revived; only a live envelope lets its store
  agent bid. A buyer logs in by a magic link, which opens a session under a pseudonym the vault issued;
  the merchant sees pseudonyms only. Discount codes are redeemed once, and a refusal is a ledger event.
  The trust service seals every event into a chain, and reads blacklistings back out of it.

  The external door checks the signature, the freshness, the claims and the prices of a submission
  against the exchange's own roster, spends its nonce and queues it for verification.

  \<^bold>\<open>Theories, in the order of their imports.\<close>

  \<^item> \<open>Prelude\<close>: dictionaries in insertion order (\<open>dget\<close>, \<open>dset\<close>, \<open>dpop\<close> and the collection \<open>dict_simps\<close>),
    trimming lists, JSON values, text; the locales \<open>invariant_machine\<close> and \<open>monotone_machine\<close>, what every
    run of a step function keeps, interpreted on the step functions below.
  \<^item> \<open>LedgerContract\<close>: \<open>packages/contracts/src/ledger.py\<close> and \<open>apps/exchange/src/auction/ledger.py\<close>, the
    kinds of events, their published bodies, the validator, the ring sink and the recorder.
  \<^item> \<open>AuctionStore\<close>, \<open>AuctionStoreLaws\<close>, \<open>AuctionMachine\<close>, \<open>AuctionMachineLaws\<close>, \<open>AuctionProps\<close>,
    \<open>AuctionFaults\<close>: \<open>apps/exchange/src/auction/state.py\<close>. \<open>mem_store\<close> is \<open>InMemoryAuctionStore\<close> (records,
    reservations, tombstones, counters, a clock), one function per method; the machine is written over the
    store protocol, its laws are a locale interpreted on the in-memory store, and \<open>AuctionFaults\<close> lets
    single writes fail.
  \<^item> \<open>Vault\<close>, \<open>VaultLaws\<close>, \<open>VaultProps\<close>: \<open>apps/buyer/svc/src/vault\<close>, the pseudonym store and the drawing
    loop over its protocol (fuel is the configured number of attempts, as in the code).
  \<^item> \<open>Sessions\<close>, \<open>SessionProps\<close>: \<open>apps/buyer/svc/src/auth/sessions.py\<close>.
  \<^item> \<open>MagicLink\<close>, \<open>MagicLinkLaws\<close>, \<open>MagicLinkProps\<close>: \<open>apps/buyer/svc/src/auth/magic_link.py\<close>; the locked
    sections of a redemption and its calls of the session store are the steps of \<open>login_step\<close>, so that
    concurrent logins interleave; a log names the link behind every session the store opened.
  \<^item> \<open>PyTime\<close>, \<open>PyFloat\<close>, \<open>PyJson\<close>: what the ledger and the envelopes use of Python: code points and
    calendar dates, doubles with their shortest decimals, \<open>json.dumps\<close>.
  \<^item> \<open>Canonical\<close>, \<open>CanonicalLaws\<close>, \<open>Chain\<close>, \<open>EventStore\<close>, \<open>EventStoreLaws\<close>, \<open>EventPaging\<close>,
    \<open>LedgerProps\<close>: \<open>apps/trust/src/ledger\<close> and \<open>apps/trust/src/events\<close>, RFC-8785 text, the event hash,
    sealing and verification, the in-memory store, and the loops that read it page by page.
  \<^item> \<open>EnvelopeModel\<close>, \<open>EnvelopeStore\<close>, \<open>EnvelopeLaws\<close>, \<open>EnvelopeProps\<close>:
    \<open>apps/merchant/svc/src/envelope\<close> and \<open>bidding/gate.py\<close>; an operation is what it computes before the
    lock (\<open>prepare\<close>) and \<open>record_envelope\<close>, and \<open>net_step\<close> interleaves the two halves of many writers.
  \<^item> \<open>Codes\<close>, \<open>CodesProps\<close>: \<open>apps/merchant/svc/src/codes\<close>, the redemption register and its events.
  \<^item> \<open>Blacklist\<close>, \<open>BlacklistProps\<close>: \<open>apps/trust/src/scoring/blacklist.py\<close>.
  \<^item> \<open>PyUrl\<close>, \<open>PyUrlLaws\<close>: what the checkout uses of \<open>urllib.parse\<close>, \<open>str.strip\<close> and case folding, and
    \<open>redact_addresses\<close> of \<open>apps/exchange/src/__init__.py\<close>.
  \<^item> \<open>Eligibility\<close>: \<open>apps/exchange/src/eligibility\<close>. \<open>CheckoutRules\<close>, \<open>Checkout\<close>, \<open>CheckoutLaws\<close>:
    \<open>apps/exchange/src/checkout\<close>, the rules on domains, windows, codes and permalinks, the port and its
    two providers; a \<open>shop\<close> is what a checkout changes (draws, stamps, anomalies, the merchant).
  \<^item> \<open>AcceptClaims\<close>, \<open>Accept\<close>, \<open>AcceptNet\<close>, \<open>AcceptRoute\<close>, \<open>AcceptLaws\<close>, \<open>AcceptProps\<close>:
    \<open>apps/exchange/src/accept\<close>. What an accept relies on is the locale \<open>acceptance_claims\<close>, interpreted on
    both claim tables; \<open>accept_net_step\<close> interleaves many accepts over one table, and \<open>accept_bid\<close> is the
    handler with the auction machine and the ledger.
  \<^item> \<open>PyDouble\<close>: arithmetic on doubles, with how far rounding goes. \<open>Signing\<close>, \<open>BidTimes\<close>, \<open>BidClaims\<close>,
    \<open>BidBoundary\<close>, \<open>BoundaryLaws\<close>: \<open>packages/contracts/src/signing.py\<close>, \<open>boundary.py\<close> and the signatures of the
    store agent: the signing bytes, instants, the walk over a claim's value, the price rules, the verdict on a bid.
  \<^item> \<open>Door\<close>, \<open>DoorLaws\<close>, \<open>BidRoute\<close>, \<open>BidRouteLaws\<close>, \<open>DoorProps\<close>: \<open>packages/store-agent/src/external\<close> and
    \<open>apps/exchange/src/external_bids\<close>: the replay memory (the locale \<open>replay_memory\<close>, interpreted on the store),
    the gates in the order of the code, the handler in front of them, and the queue with its consumer.
  \<^item> \<open>AuctionCollect\<close>, \<open>CollectLaws\<close>, \<open>Solicit\<close>, \<open>SolicitLaws\<close>, \<open>CollectProps\<close>:
    \<open>apps/exchange/src/auction/collect.py\<close>, \<open>fanout.py\<close> and \<open>orchestration/solicitation.py\<close>: the gate in front of
    the stores, the fan-outs over what became of each store that was asked (\<open>ask_outcome\<close>), the stamp and the name
    the exchange writes on an answer, and one entry per roster row, the store's own bid or its list price.
  \<^item> \<open>Ranking\<close>, \<open>RankingProps\<close>: \<open>apps/exchange/src/ranking\<close>, the order of scored rows and the slots.
  \<^item> \<open>RankCriteria\<close>, \<open>RankAttest\<close>, \<open>RankRelevance\<close>, \<open>RankFilters\<close>, \<open>RankScore\<close>, \<open>RankFeatures\<close>, \<open>Rank\<close>: how the rows
    of the ranking come about: the hard constraints of \<open>retrieval/criteria.py\<close>, the exchange's MAC over a
    claim (\<open>attestation.py\<close>), topical relevance (\<open>retrieval/relevance.py\<close>), the filters, the published score
    in double arithmetic, the features, and \<open>rank\<close> itself with the second judging that sets unanswerable
    constraints aside. \<open>RankLaws\<close>, \<open>DoubleLaws\<close>, \<open>RankScoreLaws\<close>, \<open>RankFeatureLaws\<close>, \<open>RankProps\<close>: a filtered
    candidate read back gate by gate, rounding keeps order, the compensated sum of Python 3.12 is within a
    stated error of the exact sum, and the properties of the ranking.

  \<^bold>\<open>What the lemmas show.\<close> For each store an invariant that every operation keeps (bounds, distinct keys,
  agreement of indexes) and, over it, what runs of any length do: reservations are won once, auctions
  move along the table and record one valid event per move, pseudonyms are never reissued, the redemptions of
  a link open at most one session whatever the session store does, the chain verifies against its anchor, a redelivered event changes nothing, a
  live envelope is approved, a code is redeemed within its limit, an auction sells at most one code
  while its claim cannot lapse and no code is lost, a solicited bid comes from the asked store inside the window, an external bid is signed, priced by the roster and admitted once, and a
  ranked bid passed every gate, with its constraints met by claims the exchange itself verified. Refinements relate a handler to the
  interleaving it is a run of, the fold of delisting events to the listing that stands, and the chunked
  scan to one query. Some theorems state where the code falls short of its comments: a store full of
  claimed auctions evicts the auction just created, an event without canonical form escapes \<open>append\<close>
  as an exception of the canonicaliser, a kill is lost to an activation in flight, a code the exchange
  cannot read frees the auction for a second one, the event of an orphaned code is not filed, a full queue
  costs an external seller its nonce, a listing on top of a lapsed one is dropped with its own date, an expiry beyond the doubles stops the ranking of an auction, and a
  reply whose claims are a number stops the collection.

  \<^bold>\<open>Parameters.\<close> SHA-256, the pydantic validation of an envelope, \<open>fromisoformat\<close>, Unicode normalisation,
  HMAC, the generated models of a bid, \<open>json.loads\<close> and \<open>json.dumps\<close> of the queue, random draws, clocks, percent-decoding, \<open>float\<close> and \<open>int\<close> of a text and the merchant's client are
  arguments. Hypotheses on them are named definitions: \<open>counts_sessions\<close> (a session store that refuses opened
  nothing, one that fails may have; shown of the store of the code), \<open>hex_digest\<close> (64 ASCII characters), \<open>lawful_contract\<close> (accepted fields are the submitted ones), \<open>decodes_plainly\<close> (a
  text without percent signs decodes to itself). That a digest has no
  collisions is never assumed: \<open>collision\<close> names two hashed inputs that collide.

  \<^bold>\<open>Bounds and fuel.\<close> The drawing loop runs on the code's own attempt limit; stripping zeros of a decimal
  takes at most 18 rounds, as a coefficient has at most 18 digits. The client that pages through the
  ledger and the chunked scan are \<open>partial_function (option)\<close>, and that they return is proved. The walk over a claim's
  value ends because what is left on its stack shrinks. Every other loop is structural or has a measure.

  \<^bold>\<open>Not modelled.\<close> The PostgreSQL and Redis stores behind the same protocols, HTTP routes apart from
  \<open>GET /events\<close>, \<open>POST /auctions/{id}/accept\<close> and \<open>POST /v1/auctions/{id}/bids\<close>, the grading of queued claims, the texts of error messages and reports, and the services whose logic is a language
  model, a web crawl or float statistics: intent extraction, retrieval, the catalogue verification of claims, exploration,
  trust scoring, reconciliation, ingest, the shop-platform stub, composition and demo code.
  Text in the buyer, auction and code parts is a \<open>string\<close> of 8-bit characters with ASCII case folding
  and white space (Latin-1 in the checkout and the ranking); in the ledger, the envelopes and the external door it is a list of code points. Negative and positive
  zero are one float, and so are the infinities and NaN in the external door and the collection. The thread pool of
  the fan-out is what it made of each task; the answers of the stores are arbitrary.
\<close>

end
